(* ===== verification/Iperf_Prelude.thy ===== *)
theory Iperf_Prelude
  imports Complex_Main "HOL-Library.Word" "HOL-Library.Monad_Syntax"
begin

text \<open>
  What every theory of the development shares: the machine integer types of the C code, the
  conversions between C integers and mathematical integers, the big-endian byte encodings behind
  htonl, ntohl, htobe64 and be64toh, the real-number view of the C type double, and the
  collections of facts the component proofs are run with.
\<close>

unbundle bit_operations_syntax

section \<open>Collections of facts\<close>

named_theorems op_defs \<open>definitions of operations, to be unfolded in a proof about one of them\<close>
named_theorems keeps \<open>one fact per operation: what it leaves unchanged or preserves\<close>

section \<open>Postconditions of partial computations\<close>

text \<open>A C function that calls the system is modelled as a value of an option type. Its
  postcondition is proved by running through its body: post_simps takes the body apart, and the
  collection vcg holds one rule per function called.\<close>

named_theorems vcg \<open>introduction rules for the postcondition of a call\<close>

definition post :: "'a option \<Rightarrow> ('a \<Rightarrow> bool) \<Rightarrow> bool" where
  "post m Q \<longleftrightarrow> (\<forall>x. m = Some x \<longrightarrow> Q x)"

lemma post_bind [simp]: "post (m \<bind> f) Q \<longleftrightarrow> post m (\<lambda>x. post (f x) Q)"
  by (cases m) (auto simp: post_def)

lemma post_Some [simp]: "post (Some x) Q \<longleftrightarrow> Q x"
  by (simp add: post_def)

lemma post_None [simp]: "post None Q"
  by (simp add: post_def)

lemma post_if [simp]: "post (if b then m else n) Q \<longleftrightarrow> (b \<longrightarrow> post m Q) \<and> (\<not> b \<longrightarrow> post n Q)"
  by simp

lemma post_prod [simp]: "post (case p of (a, b) \<Rightarrow> f a b) Q \<longleftrightarrow> (\<forall>a b. p = (a, b) \<longrightarrow> post (f a b) Q)"
  by (cases p) simp

lemma post_option [simp]: "post (case z of None \<Rightarrow> m | Some a \<Rightarrow> f a) Q
    \<longleftrightarrow> (z = None \<longrightarrow> post m Q) \<and> (\<forall>a. z = Some a \<longrightarrow> post (f a) Q)"
  by (cases z) auto

lemma post_Let [simp]: "post (Let a f) Q \<longleftrightarrow> post (f a) Q"
  by simp

lemma postI: "(\<And>x. m = Some x \<Longrightarrow> Q x) \<Longrightarrow> post m Q"
  by (simp add: post_def)

lemma post_any: "(\<And>x. Q x) \<Longrightarrow> post m Q"
  by (simp add: post_def)

lemma postD: "post m Q \<Longrightarrow> m = Some x \<Longrightarrow> Q x"
  by (simp add: post_def)

lemma post_mono: "post m P \<Longrightarrow> (\<And>x. P x \<Longrightarrow> Q x) \<Longrightarrow> post m Q"
  by (auto simp: post_def)

lemma post_2I: "(\<And>r w. m = Some (r, w) \<Longrightarrow> Q (r, w)) \<Longrightarrow> post m Q"
  by (auto simp: post_def)

lemma post_3I: "(\<And>r s w. m = Some (r, s, w) \<Longrightarrow> Q (r, s, w)) \<Longrightarrow> post m Q"
  by (auto simp: post_def)

section \<open>Machine integers\<close>

type_synonym u8 = "8 word"
type_synonym u32 = "32 word"
type_synonym u64 = "64 word"

text \<open>
  The value a C int64_t has after an int64_t conversion of an integer in range is the word read
  by \<^verbatim>\<open>sint\<close>; the value of a uint64_t is the word read by \<^verbatim>\<open>unat\<close>.
\<close>

definition s64_max :: int where "s64_max = 2 ^ 63 - 1"
definition s64_min :: int where "s64_min = - (2 ^ 63)"

text \<open>
  C division and remainder of signed integers truncate towards zero.
\<close>

definition c_div :: "int \<Rightarrow> int \<Rightarrow> int" where
  "c_div a b = sgn a * sgn b * (\<bar>a\<bar> div \<bar>b\<bar>)"

definition c_rem :: "int \<Rightarrow> int \<Rightarrow> int" where
  "c_rem a b = a - b * c_div a b"

lemma c_div_nonneg: "0 \<le> a \<Longrightarrow> 0 < b \<Longrightarrow> c_div a b = a div b"
  by (cases "a = 0") (auto simp: c_div_def)

lemma c_rem_nonneg: "0 \<le> a \<Longrightarrow> 0 < b \<Longrightarrow> c_rem a b = a mod b"
  by (simp add: c_rem_def c_div_nonneg minus_mult_div_eq_mod)

text \<open>
  The C type double is read as a real number: rounding is not modelled. A conversion from double
  to an unsigned 64-bit integer truncates, and is undefined (None here) outside the range.
\<close>

definition double_to_u64 :: "real \<Rightarrow> u64 option" where
  "double_to_u64 x = (if 0 \<le> x \<and> x < 2 ^ 64 then Some (word_of_int \<lfloor>x\<rfloor>) else None)"

definition double_to_s64 :: "real \<Rightarrow> int option" where
  "double_to_s64 x =
     (let n = (if 0 \<le> x then \<lfloor>x\<rfloor> else \<lceil>x\<rceil>)
      in if s64_min \<le> n \<and> n \<le> s64_max then Some n else None)"

lemma double_to_u64_Some:
  assumes "double_to_u64 x = Some w"
  shows "0 \<le> x" and "uint w = \<lfloor>x\<rfloor>"
proof -
  from assms have x: "0 \<le> x" "x < 2 ^ 64" and w: "w = word_of_int \<lfloor>x\<rfloor>"
    by (auto simp: double_to_u64_def split: if_splits)
  from x have "0 \<le> \<lfloor>x\<rfloor>" and "\<lfloor>x\<rfloor> < 2 ^ 64"
    by (auto simp: floor_less_iff)
  with w show "uint w = \<lfloor>x\<rfloor>" by (simp add: uint_word_of_int)
  from x show "0 \<le> x" by simp
qed

text \<open>Conversions to a 32-bit int.\<close>

definition to_int :: "int \<Rightarrow> int" where
  "to_int n = sint (word_of_int n :: 32 word)"

definition to_uint :: "int \<Rightarrow> int" where
  "to_uint n = uint (word_of_int n :: 32 word)"

lemma to_int_id: "- 2147483648 \<le> n \<Longrightarrow> n < 2147483648 \<Longrightarrow> to_int n = n"
  by (simp add: to_int_def sint_sbintrunc' signed_take_bit_int_eq_self)

lemma unat_add_nowrap: "unat a + unat b < 2 ^ LENGTH('a) \<Longrightarrow> unat (a + b) = unat a + unat b"
  for a b :: "'a::len word"
  by (simp add: unat_word_ariths)

lemma unat_mult_nowrap: "unat a * unat b < 2 ^ LENGTH('a) \<Longrightarrow> unat (a * b) = unat a * unat b"
  for a b :: "'a::len word"
  by (simp add: unat_word_ariths)

lemma unat_sub_nowrap: "unat b \<le> unat a \<Longrightarrow> unat (a - b) = unat a - unat b"
  for a b :: "'a::len word"
  by (simp add: unat_sub_if')

lemma unat_u32_less: "unat (w::u32) < 4294967296"
  using unsigned_less [of w, where ?'a = nat] by simp

lemma unat_ucast_u32_u64 [simp]: "unat (ucast (w::u32) :: u64) = unat w"
  using unat_u32_less [of w] by (simp add: unsigned_ucast_eq take_bit_eq_mod)

lemma unat_ucast_u64_u32: "unat (ucast (w::u64) :: u32) = unat w mod 4294967296"
  by (simp add: unsigned_ucast_eq take_bit_eq_mod)

section \<open>Big-endian bytes\<close>

text \<open>
  Storing htonl of a word (or htobe64) in memory writes its bytes most significant first, whatever
  the host order is; reading it back with ntohl (or be64toh) is the converse.
\<close>

definition be32 :: "u32 \<Rightarrow> u8 list" where
  "be32 w = [ucast (drop_bit 24 w), ucast (drop_bit 16 w), ucast (drop_bit 8 w), ucast w]"

definition be64 :: "u64 \<Rightarrow> u8 list" where
  "be64 w = be32 (ucast (drop_bit 32 w)) @ be32 (ucast w)"

fun of_be :: "u8 list \<Rightarrow> nat" where
  "of_be [] = 0"
| "of_be (b # bs) = unat b * 256 ^ length bs + of_be bs"

definition rd32 :: "u8 list \<Rightarrow> u32" where
  "rd32 bs = word_of_nat (of_be bs)"

definition rd64 :: "u8 list \<Rightarrow> u64" where
  "rd64 bs = word_of_nat (of_be bs)"

lemma length_be32 [simp]: "length (be32 w) = 4"
  by (simp add: be32_def)

lemma length_be64 [simp]: "length (be64 w) = 8"
  by (simp add: be64_def)

lemma of_be_append: "of_be (xs @ ys) = of_be xs * 256 ^ length ys + of_be ys"
  by (induction xs) (auto simp: algebra_simps power_add)

lemma base256_4: "(n div 16777216) mod 256 * 16777216 + (n div 65536) mod 256 * 65536
    + (n div 256) mod 256 * 256 + n mod 256 = n mod (4294967296::nat)"
proof -
  have "n mod 4294967296 = 256 * (n div 256 mod 16777216) + n mod 256"
    using mod_mult2_eq [of n 256 16777216] by simp
  moreover have "n div 256 mod 16777216 = 256 * (n div 256 div 256 mod 65536) + n div 256 mod 256"
    using mod_mult2_eq [of "n div 256" 256 65536] by simp
  moreover have "n div 256 div 256 mod 65536
      = 256 * (n div 256 div 256 div 256 mod 256) + n div 256 div 256 mod 256"
    using mod_mult2_eq [of "n div 256 div 256" 256 256] by simp
  ultimately show ?thesis by (simp add: div_mult2_eq [symmetric])
qed

lemma of_be_be32: "of_be (be32 w) = unat w"
proof -
  have "of_be (be32 w) = (unat w div 16777216) mod 256 * 16777216 + (unat w div 65536) mod 256 * 65536
    + (unat w div 256) mod 256 * 256 + unat w mod 256"
    by (simp add: be32_def unsigned_ucast_eq unsigned_drop_bit_eq drop_bit_eq_div take_bit_eq_mod
        unat_div_distrib)
  also have "\<dots> = unat w mod 4294967296" by (rule base256_4)
  also have "\<dots> = unat w" using unsigned_less [of w, where ?'a = nat] by simp
  finally show ?thesis .
qed

lemma of_be_be64: "of_be (be64 w) = unat w"
proof -
  have lt: "unat w < 2 ^ 64" using unsigned_less [of w, where ?'a = nat] by simp
  have "unat (ucast (drop_bit 32 w) :: u32) = unat w div 4294967296 mod 4294967296"
    by (simp add: unsigned_ucast_eq unsigned_drop_bit_eq drop_bit_eq_div take_bit_eq_mod
        unat_div_distrib)
  moreover have "unat w div 4294967296 mod 4294967296 = unat w div 4294967296"
    using lt by (intro mod_less) (simp add: less_mult_imp_div_less)
  moreover have "unat (ucast w :: u32) = unat w mod 4294967296"
    by (simp add: unsigned_ucast_eq take_bit_eq_mod)
  ultimately show ?thesis
    by (simp add: be64_def of_be_append of_be_be32)
qed

lemma rd32_be32 [simp]: "rd32 (be32 w) = w"
  by (simp add: rd32_def of_be_be32)

lemma rd64_be64 [simp]: "rd64 (be64 w) = w"
  by (simp add: rd64_def of_be_be64)

section \<open>Positional numbers and lists\<close>

lemma digits_less:
  assumes "b < N" "d < (N::nat)"
  shows "a * N + b < c * N + d \<longleftrightarrow> a < c \<or> (a = c \<and> b < d)"
proof (cases a c rule: linorder_cases)
  case less
  then have "Suc a * N \<le> c * N" by (intro mult_right_mono) auto
  with assms less show ?thesis by simp
next
  case greater
  then have "Suc c * N \<le> a * N" by (intro mult_right_mono) auto
  with assms greater show ?thesis by simp
qed simp

lemma digits_eq:
  assumes "b < N" "d < (N::nat)"
  shows "a * N + b = c * N + d \<longleftrightarrow> a = c \<and> b = d"
  using digits_less [OF assms, of a c] digits_less [OF assms(2,1), of c a] by (metis nat_neq_iff)

lemma take_append_exact [simp]: "length xs = n \<Longrightarrow> take n (xs @ ys) = xs"
  by simp

lemma drop_append_exact [simp]: "length xs = n \<Longrightarrow> drop n (xs @ ys) = ys"
  by simp

end
