(* ===== verification/Iperf_Time.thy ===== *)
theory Iperf_Time
  imports Iperf_Prelude
begin

text \<open>
  The clock arithmetic of src/iperf_time.c: struct iperf_time with its two 32-bit fields,
  iperf_time_add_usecs, iperf_time_in_usecs, iperf_time_in_secs, iperf_time_compare and
  iperf_time_diff. Normalised times (fewer than a million microseconds) are shown to be kept by
  every operation and to behave like the number of microseconds they denote.
\<close>

section \<open>struct iperf_time\<close>

record iperf_time =
  secs :: u32
  usecs :: u32

text \<open>iperf_time_now and iperf_time_now_wallclock: the conversion of the timespec that
  clock_gettime returned. A failing call leaves the time as it was and returns -1.\<close>

definition clock_gettime_helper :: "iperf_time \<Rightarrow> (int \<times> int) option \<Rightarrow> iperf_time \<times> int" where
  "clock_gettime_helper now ts =
     (case ts of
        None \<Rightarrow> (now, -1)
      | Some (tv_sec, tv_nsec) \<Rightarrow>
          (now\<lparr>secs := word_of_int tv_sec, usecs := word_of_int tv_nsec div 1000\<rparr>, 0))"

definition iperf_time_add_usecs :: "iperf_time \<Rightarrow> u64 \<Rightarrow> iperf_time" where
  "iperf_time_add_usecs time1 us =
     (let total_usecs = ucast (usecs time1) + us
      in time1\<lparr>secs := secs time1 + ucast (total_usecs div 1000000),
               usecs := ucast (total_usecs mod 1000000)\<rparr>)"

definition iperf_time_in_usecs :: "iperf_time \<Rightarrow> u64" where
  "iperf_time_in_usecs time = ucast (secs time) * 1000000 + ucast (usecs time)"

definition iperf_time_in_secs :: "iperf_time \<Rightarrow> real" where
  "iperf_time_in_secs time = real (unat (secs time)) + real (unat (usecs time)) / 1000000"

definition iperf_time_compare :: "iperf_time \<Rightarrow> iperf_time \<Rightarrow> int" where
  "iperf_time_compare time1 time2 =
     (if secs time1 < secs time2 then -1
      else if secs time1 > secs time2 then 1
      else if usecs time1 < usecs time2 then -1
      else if usecs time1 > usecs time2 then 1
      else 0)"

text \<open>The result and the out parameter diff.\<close>

definition iperf_time_diff :: "iperf_time \<Rightarrow> iperf_time \<Rightarrow> int \<times> iperf_time" where
  "iperf_time_diff time1 time2 =
     (let cmp = iperf_time_compare time1 time2 in
      if cmp = 0 then (1, \<lparr>secs = 0, usecs = 0\<rparr>)
      else if cmp = 1 then
        (let ds = secs time1 - secs time2;
             du = usecs time1
         in if du < usecs time2
            then (0, \<lparr>secs = ds - 1, usecs = du + 1000000 - usecs time2\<rparr>)
            else (0, \<lparr>secs = ds, usecs = du - usecs time2\<rparr>))
      else
        (let ds = secs time2 - secs time1;
             du = usecs time2
         in if du < usecs time1
            then (1, \<lparr>secs = ds - 1, usecs = du + 1000000 - usecs time1\<rparr>)
            else (1, \<lparr>secs = ds, usecs = du - usecs time1\<rparr>)))"

section \<open>Normalised times and the microseconds they denote\<close>

definition wf_time :: "iperf_time \<Rightarrow> bool" where
  "wf_time t \<longleftrightarrow> usecs t < 1000000"

definition time_us :: "iperf_time \<Rightarrow> nat" where
  "time_us t = unat (secs t) * 1000000 + unat (usecs t)"

lemma wf_time_unat: "wf_time t \<longleftrightarrow> unat (usecs t) < 1000000"
  by (simp add: wf_time_def word_less_nat_alt)

lemma time_us_inj: "wf_time s \<Longrightarrow> wf_time t \<Longrightarrow> time_us s = time_us t \<Longrightarrow> s = t"
  by (auto simp: wf_time_unat time_us_def digits_eq word_unat_eq_iff)

text \<open>The order the code compares by, as an instance of the library's order classes.\<close>

instantiation iperf_time_ext :: (linorder) linorder
begin

definition less_eq_iperf_time_ext :: "'a iperf_time_scheme \<Rightarrow> 'a iperf_time_scheme \<Rightarrow> bool" where
  "less_eq_iperf_time_ext s t \<longleftrightarrow> secs s < secs t \<or> (secs s = secs t \<and>
     (usecs s < usecs t \<or> (usecs s = usecs t \<and>
        iperf_time.more s \<le> iperf_time.more t)))"

definition less_iperf_time_ext :: "'a iperf_time_scheme \<Rightarrow> 'a iperf_time_scheme \<Rightarrow> bool" where
  "less_iperf_time_ext s t \<longleftrightarrow> s \<le> t \<and> \<not> t \<le> (s :: 'a iperf_time_scheme)"

instance
  by standard (auto simp: less_eq_iperf_time_ext_def less_iperf_time_ext_def
      intro: iperf_time.equality)

end

lemma time_le_iff: "s \<le> t \<longleftrightarrow> secs s < secs t \<or> (secs s = secs t \<and> usecs s \<le> usecs t)"
  for s t :: iperf_time
  by (auto simp: less_eq_iperf_time_ext_def)

lemma time_less_iff: "s < t \<longleftrightarrow> secs s < secs t \<or> (secs s = secs t \<and> usecs s < usecs t)"
  for s t :: iperf_time
  by (auto simp: less_iperf_time_ext_def time_le_iff)

lemma compare_less [simp]: "iperf_time_compare s t < 0 \<longleftrightarrow> s < t"
  by (auto simp: iperf_time_compare_def time_less_iff)

lemma compare_greater [simp]: "0 < iperf_time_compare s t \<longleftrightarrow> t < s"
  by (auto simp: iperf_time_compare_def time_less_iff)

lemma compare_values: "iperf_time_compare s t = (if s < t then -1 else if t < s then 1 else 0)"
  by (auto simp: iperf_time_compare_def time_less_iff)

lemma time_less_us:
  assumes "wf_time s" "wf_time t"
  shows "s < t \<longleftrightarrow> time_us s < time_us t"
  using assms
  by (simp add: wf_time_unat time_less_iff time_us_def digits_less word_less_nat_alt word_unat_eq_iff)

lemma time_le_us: "wf_time s \<Longrightarrow> wf_time t \<Longrightarrow> s \<le> t \<longleftrightarrow> time_us s \<le> time_us t"
  using time_less_us [of t s] by (auto simp: not_less [symmetric])

section \<open>iperf_time_in_usecs and iperf_time_add_usecs\<close>

lemma time_us_bound: "time_us t < 4294967296 * 1000000 + 4294967296"
  using unat_u32_less [of "secs t"] unat_u32_less [of "usecs t"] by (simp add: time_us_def)

lemma unat_in_usecs [simp]: "unat (iperf_time_in_usecs t) = time_us t"
proof -
  have m: "unat (ucast (secs t) * 1000000 :: u64) = unat (secs t) * 1000000"
    using unat_u32_less [of "secs t"] by (subst unat_mult_nowrap) auto
  show ?thesis
    unfolding iperf_time_in_usecs_def time_us_def
    using unat_u32_less [of "secs t"] unat_u32_less [of "usecs t"]
    by (subst unat_add_nowrap) (auto simp: m)
qed

lemma wf_add_usecs [simp]: "wf_time (iperf_time_add_usecs t us)"
  by (simp add: wf_time_unat iperf_time_add_usecs_def Let_def unat_ucast_u64_u32 unat_mod_distrib
      le_less_trans [OF mod_less_eq_dividend])

lemma time_us_add_usecs:
  assumes "unat (usecs t) + unat us < 2 ^ 64"
    and "time_us t + unat us < 4294967296 * 1000000"
  shows "time_us (iperf_time_add_usecs t us) = time_us t + unat us"
proof -
  let ?n = "unat (usecs t) + unat us"
  have tot: "unat (ucast (usecs t) + us) = ?n"
    using assms(1) by (subst unat_add_nowrap) auto
  have q: "unat (secs t) + ?n div 1000000 < 4294967296"
    using assms(2) by (simp add: time_us_def)
  have "unat (ucast ((ucast (usecs t) + us) div 1000000) :: u32) = ?n div 1000000"
    using q by (simp add: unat_ucast_u64_u32 unat_div_distrib tot)
  then have "unat (secs (iperf_time_add_usecs t us)) = unat (secs t) + ?n div 1000000"
    using q by (simp add: iperf_time_add_usecs_def Let_def unat_add_nowrap)
  moreover have "unat (usecs (iperf_time_add_usecs t us)) = ?n mod 1000000"
    by (simp add: iperf_time_add_usecs_def Let_def unat_ucast_u64_u32 unat_mod_distrib tot
        less_imp_le_nat mod_less)
  ultimately show ?thesis
    using div_mult_mod_eq [of ?n 1000000] by (simp add: time_us_def add_mult_distrib)
qed

section \<open>iperf_time_diff\<close>

text \<open>The subtraction with borrow both branches of the code perform.\<close>

definition borrow :: "iperf_time \<Rightarrow> iperf_time \<Rightarrow> iperf_time" where
  "borrow t s = (if usecs t < usecs s
     then \<lparr>secs = secs t - secs s - 1, usecs = usecs t + 1000000 - usecs s\<rparr>
     else \<lparr>secs = secs t - secs s, usecs = usecs t - usecs s\<rparr>)"

lemma diff_borrow: "iperf_time_diff s t =
    (if t < s then (0, borrow s t) else if s < t then (1, borrow t s)
     else (1, \<lparr>secs = 0, usecs = 0\<rparr>))"
  by (auto simp: iperf_time_diff_def compare_values borrow_def Let_def)

lemma borrow_us:
  assumes wf: "wf_time s" "wf_time t" and less: "s < t"
  shows "wf_time (borrow t s)" and "time_us (borrow t s) = time_us t - time_us s"
proof -
  let ?S = "unat (secs s)" let ?T = "unat (secs t)"
  let ?u = "unat (usecs s)" let ?v = "unat (usecs t)"
  have u: "?u < 1000000" "?v < 1000000" using wf by (auto simp: wf_time_unat)
  have ST: "?S < ?T \<or> ?S = ?T \<and> ?u < ?v"
    using less by (auto simp: time_less_iff word_less_nat_alt)
  have "wf_time (borrow t s) \<and> time_us (borrow t s) = time_us t - time_us s"
  proof (cases "?v < ?u")
    case True
    with ST have lt: "?S < ?T" by auto
    have d: "unat (secs t - secs s) = ?T - ?S" using lt by (simp add: unat_sub_nowrap)
    have "unat (secs t - secs s - 1) = ?T - ?S - 1"
      using lt d by (subst unat_sub_nowrap) auto
    moreover have a: "unat (usecs t + 1000000) = ?v + 1000000"
      using u by (subst unat_add_nowrap) auto
    have "unat (usecs t + 1000000 - usecs s) = ?v + 1000000 - ?u"
      using u a by (subst unat_sub_nowrap) auto
    moreover have "(?T - ?S - 1) * 1000000 + (?v + 1000000 - ?u) = ?T * 1000000 + ?v - (?S * 1000000 + ?u)"
      using lt u True by (simp add: diff_mult_distrib)
    ultimately show ?thesis
      using True u by (simp add: borrow_def word_less_nat_alt wf_time_unat time_us_def)
  next
    case False
    with ST have "?S \<le> ?T" by auto
    then have "unat (secs t - secs s) = ?T - ?S" and "unat (usecs t - usecs s) = ?v - ?u"
      using False by (simp_all add: unat_sub_nowrap)
    moreover have "(?T - ?S) * 1000000 + (?v - ?u) = ?T * 1000000 + ?v - (?S * 1000000 + ?u)"
      using False \<open>?S \<le> ?T\<close> by (simp add: diff_mult_distrib)
    ultimately show ?thesis
      using False u by (simp add: borrow_def word_less_nat_alt wf_time_unat time_us_def)
  qed
  then show "wf_time (borrow t s)" and "time_us (borrow t s) = time_us t - time_us s" by auto
qed

lemma wf_diff:
  assumes "wf_time s" "wf_time t"
  shows "wf_time (snd (iperf_time_diff s t))"
  using assms borrow_us(1) [of s t] borrow_us(1) [of t s]
  by (auto simp: diff_borrow wf_time_def)

lemma diff_past: "fst (iperf_time_diff s t) = (if s \<le> t then 1 else 0)"
  by (auto simp: diff_borrow)

lemma diff_us:
  assumes "wf_time s" "wf_time t"
  shows "int (time_us (snd (iperf_time_diff s t))) = \<bar>int (time_us s) - int (time_us t)\<bar>"
proof -
  consider "s < t" | "t < s" | "s = t" by (rule linorder_cases)
  then show ?thesis
  proof cases
    case 1
    with assms show ?thesis
      by (simp add: diff_borrow borrow_us(2) time_less_us)
  next
    case 2
    with assms show ?thesis
      by (simp add: diff_borrow borrow_us(2) time_less_us)
  next
    case 3
    then show ?thesis by (simp add: diff_borrow time_us_def)
  qed
qed

end
