(* ===== verification/Iperf_Timer.thy ===== *)
theory Iperf_Timer
  imports Iperf_Time
begin

text \<open>
  The timer package of src/timer.c at the level of its pointers: malloc'ed Timer structs linked
  by prev and next, the global heads timers and free_timers, and every operation on them as the
  code writes it. An address is a natural number, NULL is None, and the store maps an address to
  the struct there, if it is allocated. Every operation is partial: None stands for an access
  through a pointer to memory that is not allocated, or for a loop that does not end.
  Iperf_Timer_List shows that neither happens.
\<close>

section \<open>The Timer struct and the package's globals\<close>

type_synonym addr = nat

text \<open>The function pointer is a value of a type parameter, so that a client of the package names
  its own callbacks. The client data is the opaque union of the source.\<close>

record 'p Timer =
  timer_proc :: 'p
  client_data :: nat
  period_usecs :: u64
  periodic :: bool
  time :: iperf_time
  prev :: "addr option"
  nxt :: "addr option"

record 'p tstore =
  cells :: "addr \<Rightarrow> 'p Timer option"
  timers :: "addr option"
  free_timers :: "addr option"

definition put :: "addr \<Rightarrow> 'p Timer \<Rightarrow> 'p tstore \<Rightarrow> 'p tstore" where
  "put a x s = s\<lparr>cells := (cells s)(a \<mapsto> x)\<rparr>"

definition set_next :: "addr \<Rightarrow> addr option \<Rightarrow> 'p tstore \<Rightarrow> 'p tstore option" where
  "set_next a v s = do { x \<leftarrow> cells s a; Some (put a (x\<lparr>nxt := v\<rparr>) s) }"

definition set_prev :: "addr \<Rightarrow> addr option \<Rightarrow> 'p tstore \<Rightarrow> 'p tstore option" where
  "set_prev a v s = do { x \<leftarrow> cells s a; Some (put a (x\<lparr>prev := v\<rparr>) s) }"

definition set_time :: "addr \<Rightarrow> iperf_time \<Rightarrow> 'p tstore \<Rightarrow> 'p tstore option" where
  "set_time a v s = do { x \<leftarrow> cells s a; Some (put a (x\<lparr>time := v\<rparr>) s) }"

section \<open>The list operations\<close>

definition getnow :: "iperf_time option \<Rightarrow> iperf_time \<Rightarrow> iperf_time" where
  "getnow nowP clock = (case nowP of Some now \<Rightarrow> now | None \<Rightarrow> clock)"

text \<open>The walk of list_add: t2prev is the last timer passed, t2 the one looked at.\<close>

partial_function (option) list_add_walk ::
    "addr \<Rightarrow> addr \<Rightarrow> addr option \<Rightarrow> 'p tstore \<Rightarrow> 'p tstore option" where
  "list_add_walk t t2prev t2 s =
     (case t2 of
        None \<Rightarrow> do {
          s \<leftarrow> set_next t2prev (Some t) s;
          s \<leftarrow> set_prev t (Some t2prev) s;
          set_next t None s }
      | Some a \<Rightarrow> do {
          x \<leftarrow> cells s t;
          y \<leftarrow> cells s a;
          if iperf_time_compare (time x) (time y) < 0
          then do {
            s \<leftarrow> set_next t2prev (Some t) s;
            s \<leftarrow> set_prev t (Some t2prev) s;
            s \<leftarrow> set_next t (Some a) s;
            set_prev a (Some t) s }
          else list_add_walk t a (nxt y) s })"

definition list_add :: "addr \<Rightarrow> 'p tstore \<Rightarrow> 'p tstore option" where
  "list_add t s =
     (case timers s of
        None \<Rightarrow> do {
          s \<leftarrow> set_next t None (s\<lparr>timers := Some t\<rparr>);
          set_prev t None s }
      | Some h \<Rightarrow> do {
          x \<leftarrow> cells s t;
          y \<leftarrow> cells s h;
          if iperf_time_compare (time x) (time y) < 0
          then do {
            s \<leftarrow> set_prev t None s;
            s \<leftarrow> set_next t (Some h) s;
            s \<leftarrow> set_prev h (Some t) s;
            Some (s\<lparr>timers := Some t\<rparr>) }
          else list_add_walk t h (nxt y) s })"

definition list_remove :: "addr \<Rightarrow> 'p tstore \<Rightarrow> 'p tstore option" where
  "list_remove t s = do {
     x \<leftarrow> cells s t;
     s \<leftarrow> (case prev x of
             None \<Rightarrow> Some (s\<lparr>timers := nxt x\<rparr>)
           | Some b \<Rightarrow> set_next b (nxt x) s);
     case nxt x of None \<Rightarrow> Some s | Some c \<Rightarrow> set_prev c (prev x) s }"

definition list_resort :: "addr \<Rightarrow> 'p tstore \<Rightarrow> 'p tstore option" where
  "list_resort t s = do { s \<leftarrow> list_remove t s; list_add t s }"

section \<open>The interface of timer.h\<close>

text \<open>The argument mal is what malloc returns when it is called: nothing, or a fresh address and
  the (uninitialised) contents of the block there.\<close>

definition tmr_create ::
    "iperf_time option \<Rightarrow> iperf_time \<Rightarrow> 'p \<Rightarrow> nat \<Rightarrow> u64 \<Rightarrow> bool \<Rightarrow> (addr \<times> 'p Timer) option
      \<Rightarrow> 'p tstore \<Rightarrow> (addr option \<times> 'p tstore) option" where
  "tmr_create nowP clock proc cdata us per mal s =
     (let now = getnow nowP clock in do {
        (t, s) \<leftarrow> (case free_timers s of
              Some a \<Rightarrow> do { x \<leftarrow> cells s a; Some (Some a, s\<lparr>free_timers := nxt x\<rparr>) }
            | None \<Rightarrow> (case mal of
                  None \<Rightarrow> Some (None, s)
                | Some (a, junk) \<Rightarrow> Some (Some a, put a junk s)));
        case t of
          None \<Rightarrow> Some (None, s)
        | Some a \<Rightarrow> do {
            x \<leftarrow> cells s a;
            let s = put a (x\<lparr>timer_proc := proc, client_data := cdata, period_usecs := us,
                            periodic := per, time := iperf_time_add_usecs now us\<rparr>) s;
            s \<leftarrow> list_add a s;
            Some (Some a, s) } })"

text \<open>struct timeval as a pair of seconds and microseconds.\<close>

definition tmr_timeout ::
    "iperf_time option \<Rightarrow> iperf_time \<Rightarrow> 'p tstore \<Rightarrow> (int \<times> int) option option" where
  "tmr_timeout nowP clock s =
     (let now = getnow nowP clock in
      case timers s of
        None \<Rightarrow> Some None
      | Some h \<Rightarrow> do {
          x \<leftarrow> cells s h;
          let (past, diff) = iperf_time_diff (time x) now;
          let us = (if past \<noteq> 0 then 0 else sint (iperf_time_in_usecs diff));
          Some (Some (c_div us 1000000, c_rem us 1000000)) })"

definition tmr_cancel :: "addr \<Rightarrow> 'p tstore \<Rightarrow> 'p tstore option" where
  "tmr_cancel t s = do {
     s \<leftarrow> list_remove t s;
     s \<leftarrow> set_next t (free_timers s) s;
     set_prev t None (s\<lparr>free_timers := Some t\<rparr>) }"

definition tmr_reset ::
    "iperf_time option \<Rightarrow> iperf_time \<Rightarrow> addr \<Rightarrow> 'p tstore \<Rightarrow> 'p tstore option" where
  "tmr_reset nowP clock t s =
     (let now = getnow nowP clock in do {
        x \<leftarrow> cells s t;
        s \<leftarrow> set_time t (iperf_time_add_usecs now (period_usecs x)) s;
        list_resort t s })"

text \<open>The loop of tmr_run. The callback gets the client data and the time, and may change both the
  client's state and the timers; the successor is read before it is called, as in the code.\<close>

type_synonym ('p, 's) callback =
  "'p \<Rightarrow> nat \<Rightarrow> iperf_time \<Rightarrow> 's \<times> 'p tstore \<Rightarrow> ('s \<times> 'p tstore) option"

definition tmr_fire ::
    "('p, 's) callback \<Rightarrow> iperf_time \<Rightarrow> addr \<Rightarrow> 'p Timer \<Rightarrow> 's \<times> 'p tstore
      \<Rightarrow> ('s \<times> 'p tstore) option" where
  "tmr_fire cb now t x w = do {
     (c, s) \<leftarrow> cb (timer_proc x) (client_data x) now w;
     x \<leftarrow> cells s t;
     s \<leftarrow> (if periodic x
           then do {
             s \<leftarrow> set_time t (iperf_time_add_usecs (time x) (period_usecs x)) s;
             list_resort t s }
           else tmr_cancel t s);
     Some (c, s) }"

partial_function (option) tmr_run_from ::
    "('p, 's) callback \<Rightarrow> iperf_time \<Rightarrow> addr option \<Rightarrow> 's \<times> 'p tstore \<Rightarrow> ('s \<times> 'p tstore) option" where
  "tmr_run_from cb now cur w =
     (case cur of
        None \<Rightarrow> Some w
      | Some t \<Rightarrow> do {
          x \<leftarrow> cells (snd w) t;
          if iperf_time_compare (time x) now > 0 then Some w
          else do {
            w \<leftarrow> tmr_fire cb now t x w;
            tmr_run_from cb now (nxt x) w } })"

definition tmr_run ::
    "('p, 's) callback \<Rightarrow> iperf_time option \<Rightarrow> iperf_time \<Rightarrow> 's \<times> 'p tstore \<Rightarrow> ('s \<times> 'p tstore) option" where
  "tmr_run cb nowP clock w = tmr_run_from cb (getnow nowP clock) (timers (snd w)) w"

partial_function (option) tmr_cleanup :: "'p tstore \<Rightarrow> 'p tstore option" where
  "tmr_cleanup s =
     (case free_timers s of
        None \<Rightarrow> Some s
      | Some t \<Rightarrow> do {
          x \<leftarrow> cells s t;
          tmr_cleanup (s\<lparr>free_timers := nxt x, cells := (cells s)(t := None)\<rparr>) })"

partial_function (option) tmr_cancel_all :: "'p tstore \<Rightarrow> 'p tstore option" where
  "tmr_cancel_all s =
     (case timers s of
        None \<Rightarrow> Some s
      | Some t \<Rightarrow> do { s \<leftarrow> tmr_cancel t s; tmr_cancel_all s })"

definition tmr_destroy :: "'p tstore \<Rightarrow> 'p tstore option" where
  "tmr_destroy s = do { s \<leftarrow> tmr_cancel_all s; tmr_cleanup s }"

definition no_timers :: "'p tstore" where
  "no_timers = \<lparr>cells = Map.empty, timers = None, free_timers = None\<rparr>"

end
