(* ===== verification/Iperf_World.thy ===== *)
theory Iperf_World
  imports Iperf_Time
begin

text \<open>
  The operating system as the program sees it. Every system call takes the next reply of a tape of
  replies, so that a model of a C function is a function of the tape and all behaviours of the
  environment are covered by quantifying over it. A reply is read through the documented contract
  of the call (a read returns at most the bytes asked for, a write accepts at most the bytes
  offered). Every call leaves an event in a trace, in order, which is what the properties about
  descriptors and transferred bytes speak of. A call with no reply left does not return: None.
\<close>

section \<open>Replies, events, and the state outside the program\<close>

type_synonym fd = int

text \<open>errno values of Linux.\<close>

abbreviation (input) EINTR :: int where "EINTR \<equiv> 4"
abbreviation (input) EAGAIN :: int where "EAGAIN \<equiv> 11"
abbreviation (input) EWOULDBLOCK :: int where "EWOULDBLOCK \<equiv> 11"
abbreviation (input) ENOMEM :: int where "ENOMEM \<equiv> 12"
abbreviation (input) EINVAL :: int where "EINVAL \<equiv> 22"
abbreviation (input) EAFNOSUPPORT :: int where "EAFNOSUPPORT \<equiv> 97"
abbreviation (input) ENOBUFS :: int where "ENOBUFS \<equiv> 105"
abbreviation (input) ETIMEDOUT :: int where "ETIMEDOUT \<equiv> 110"
abbreviation (input) EINPROGRESS :: int where "EINPROGRESS \<equiv> 115"

datatype reply = Fail (err: int) | Ret (rv: int) (data: "u8 list")

datatype event =
    EvRead fd "u8 list"
  | EvWrite fd "u8 list"
  | EvSendfile fd fd nat nat
  | EvSelect
  | EvOpen fd
  | EvClose fd
  | EvBind fd
  | EvListen fd
  | EvConnect fd
  | EvSetopt fd string int bool
  | EvFcntl fd int
  | EvGetAddr nat
  | EvFreeAddr nat
  | EvClock
  | EvSleep int int
  | EvSpawn nat
  | EvCancel nat
  | EvJoin nat

text \<open>The memory the QUIC code shares with the callbacks of msquic (Iperf_Quic): the context of the
  test, those of the streams by their addresses, and what msquic will deliver, one batch of events
  before each time the code takes a lock. The handles of msquic are numbers; a call into msquic leaves
  its name in a log.\<close>

record recv_chunk =
  chunk_data :: "u8 list"
  chunk_off :: nat

record quic_stream_ctx =
  hquic :: "nat option"
  recv_queue :: "recv_chunk list"
  queued_bytes :: nat
  pending_sends :: int
  fin_seen :: int

record quic_context =
  api_open :: bool
  registration :: "nat option"
  configuration :: "nat option"
  quic_listener :: "nat option"
  quic_conn :: "nat option"
  handshake_ready :: int
  quic_is_server :: int
  shutdown_done :: int
  wake_read :: fd
  wake_write :: fd
  next_stream_id :: int
  id_map :: "(int \<times> nat) list"
  accept_queue :: "nat list"

datatype quic_event =
    Connected
  | Peer_stream_started nat
  | Conn_shutdown_complete
  | New_connection nat
  | Send_complete nat
  | Received nat "u8 list list"
  | Peer_send_shutdown nat
  | Peer_send_aborted nat
  | Stream_shutdown_complete nat bool

datatype quic_call =
    Configuration_open "int option" int int "int option"
  | Load_credential "string list"
  | Listener_start bool int
  | Listener_stop nat
  | Listener_close nat
  | Connection_start int string int
  | Connection_setup nat
  | Connection_shutdown nat
  | Connection_close nat
  | Configuration_close nat
  | Registration_close nat
  | Msquic_close
  | Stream_start nat
  | Stream_send nat "u8 list"
  | Stream_shutdown nat bool
  | Stream_close nat
  | Timed_wait int int
  | Set_cancel bool

record quic_state =
  quic_ctx :: "quic_context option"
  stream_ctxs :: "nat \<Rightarrow> quic_stream_ctx option"
  next_ctx :: nat
  callback_ctx :: "nat \<Rightarrow> nat option"
  coming_events :: "quic_event list list"
  quic_calls :: "quic_call list"

definition no_quic :: quic_state where
  "no_quic = \<lparr>quic_ctx = None, stream_ctxs = (\<lambda>_. None), next_ctx = 0, callback_ctx = (\<lambda>_. None),
     coming_events = [], quic_calls = []\<rparr>"

record world =
  replies :: "reply list"
  trace :: "event list"
  errno :: int
  i_errno :: int
  gerror :: int
  quic_mem :: quic_state

definition next_reply :: "world \<Rightarrow> (reply \<times> world) option" where
  "next_reply w = (case replies w of [] \<Rightarrow> None | r # rs \<Rightarrow> Some (r, w\<lparr>replies := rs\<rparr>))"

definition emit :: "event \<Rightarrow> world \<Rightarrow> world" where
  "emit e w = w\<lparr>trace := trace w @ [e]\<rparr>"

text \<open>What happened on the way from one world to a later one.\<close>

definition events :: "world \<Rightarrow> world \<Rightarrow> event list" where
  "events w w' = drop (length (trace w)) (trace w')"

definition later :: "world \<Rightarrow> world \<Rightarrow> bool" where
  "later w w' \<longleftrightarrow> (\<exists>es. trace w' = trace w @ es) \<and> length (replies w') \<le> length (replies w)"

definition shorter :: "world \<Rightarrow> world \<Rightarrow> bool" where
  "shorter w' w \<longleftrightarrow> length (replies w') < length (replies w)"

section \<open>Descriptors and address lists held\<close>

text \<open>Descriptors opened and not closed by a run of events.\<close>

fun open_fds :: "fd set \<Rightarrow> event list \<Rightarrow> fd set" where
  "open_fds S [] = S"
| "open_fds S (EvOpen f # es) = open_fds (insert f S) es"
| "open_fds S (EvClose f # es) = open_fds (S - {f}) es"
| "open_fds S (_ # es) = open_fds S es"

fun held_addrs :: "nat set \<Rightarrow> event list \<Rightarrow> nat set" where
  "held_addrs S [] = S"
| "held_addrs S (EvGetAddr a # es) = held_addrs (insert a S) es"
| "held_addrs S (EvFreeAddr a # es) = held_addrs (S - {a}) es"
| "held_addrs S (_ # es) = held_addrs S es"

lemma open_fds_append [simp]: "open_fds S (xs @ ys) = open_fds (open_fds S xs) ys"
  by (induction S xs rule: open_fds.induct) auto

lemma held_addrs_append [simp]: "held_addrs S (xs @ ys) = held_addrs (held_addrs S xs) ys"
  by (induction S xs rule: held_addrs.induct) auto

definition fds :: "world \<Rightarrow> fd set" where
  "fds w = open_fds {} (trace w)"

definition addrs :: "world \<Rightarrow> nat set" where
  "addrs w = held_addrs {} (trace w)"

text \<open>The kernel hands out a descriptor that is not open, getaddrinfo a list that is not
  allocated: the one the reply names if it is one, else one above all that were ever named.\<close>

definition new_fd :: "world \<Rightarrow> int \<Rightarrow> fd" where
  "new_fd w v = (if 0 \<le> v \<and> v \<notin> fds w then v
     else 1 + foldr (\<lambda>e m. case e of EvOpen f \<Rightarrow> max f m | _ \<Rightarrow> m) (trace w) 0)"

definition new_addr :: "world \<Rightarrow> nat" where
  "new_addr w = Suc (foldr (\<lambda>e m. case e of EvGetAddr a \<Rightarrow> max a m | _ \<Rightarrow> m) (trace w) 0)"

lemma open_fds_opened: "f \<in> open_fds S es \<Longrightarrow> f \<in> S \<or> EvOpen f \<in> set es"
  by (induction S es rule: open_fds.induct) auto

lemma held_addrs_got: "a \<in> held_addrs S es \<Longrightarrow> a \<in> S \<or> EvGetAddr a \<in> set es"
  by (induction S es rule: held_addrs.induct) auto

lemma max_opened: "EvOpen f \<in> set es \<Longrightarrow> f \<le> foldr (\<lambda>e m. case e of EvOpen f \<Rightarrow> max f m | _ \<Rightarrow> m) es 0"
  by (induction es) (auto split: event.splits)

lemma max_opened_nonneg: "0 \<le> foldr (\<lambda>e m. case e of EvOpen f \<Rightarrow> max f m | _ \<Rightarrow> m) es 0"
  by (induction es) (auto split: event.splits)

lemma max_got: "EvGetAddr a \<in> set es \<Longrightarrow> a \<le> foldr (\<lambda>e m. case e of EvGetAddr a \<Rightarrow> max a m | _ \<Rightarrow> m) es 0"
  by (induction es) (auto split: event.splits)

lemma new_fd_fresh: "new_fd w v \<notin> fds w \<and> 0 \<le> new_fd w v"
proof -
  let ?m = "foldr (\<lambda>e m. case e of EvOpen f \<Rightarrow> max f m | _ \<Rightarrow> m) (trace w) 0"
  have "f \<le> ?m" if "f \<in> fds w" for f
    using that open_fds_opened [of f "{}" "trace w"] max_opened by (auto simp: fds_def)
  then have "1 + ?m \<notin> fds w" by force
  then show ?thesis using max_opened_nonneg [of "trace w"] by (simp add: new_fd_def)
qed

lemma new_addr_fresh: "new_addr w \<notin> addrs w"
proof -
  let ?m = "foldr (\<lambda>e m. case e of EvGetAddr a \<Rightarrow> max a m | _ \<Rightarrow> m) (trace w) 0"
  have "a \<le> ?m" if "a \<in> addrs w" for a
    using that held_addrs_got [of a "{}" "trace w"] max_got by (auto simp: addrs_def)
  then show ?thesis unfolding new_addr_def by (meson Suc_n_not_le_n)
qed

section \<open>System calls\<close>

text \<open>read and recv: at most n bytes; recv with MSG_TRUNC returns the real length of a datagram
  although only the first n bytes of it are stored.\<close>

abbreviation (input) MSG_TRUNC :: int where "MSG_TRUNC \<equiv> 32"

definition sys_read :: "fd \<Rightarrow> nat \<Rightarrow> world \<Rightarrow> (int \<times> u8 list \<times> world) option" where
  "sys_read f n w = do {
     (r, w) \<leftarrow> next_reply w;
     case r of
       Fail e \<Rightarrow> Some (-1, [], w\<lparr>errno := e\<rparr>)
     | Ret _ bs \<Rightarrow> Some (int (length (take n bs)), take n bs, emit (EvRead f (take n bs)) w) }"

definition sys_recv :: "fd \<Rightarrow> nat \<Rightarrow> int \<Rightarrow> world \<Rightarrow> (int \<times> u8 list \<times> world) option" where
  "sys_recv f n flags w = do {
     (r, w) \<leftarrow> next_reply w;
     case r of
       Fail e \<Rightarrow> Some (-1, [], w\<lparr>errno := e\<rparr>)
     | Ret _ bs \<Rightarrow>
         Some (int (length (if flags AND MSG_TRUNC \<noteq> 0 then bs else take n bs)), take n bs,
           emit (EvRead f (take n bs)) w) }"

definition sys_write :: "fd \<Rightarrow> u8 list \<Rightarrow> world \<Rightarrow> (int \<times> world) option" where
  "sys_write f buf w = do {
     (r, w) \<leftarrow> next_reply w;
     case r of
       Fail e \<Rightarrow> Some (-1, w\<lparr>errno := e\<rparr>)
     | Ret v _ \<Rightarrow>
         let n = min (nat v) (length buf) in Some (int n, emit (EvWrite f (take n buf)) w) }"

definition sys_sendfile :: "fd \<Rightarrow> fd \<Rightarrow> nat \<Rightarrow> nat \<Rightarrow> world \<Rightarrow> (int \<times> world) option" where
  "sys_sendfile tofd fromfd offset n w = do {
     (r, w) \<leftarrow> next_reply w;
     case r of
       Fail e \<Rightarrow> Some (-1, w\<lparr>errno := e\<rparr>)
     | Ret v _ \<Rightarrow> let k = min (nat v) n in Some (int k, emit (EvSendfile tofd fromfd offset k) w) }"

text \<open>select on one descriptor and poll: a failure, or how many descriptors are ready.\<close>

definition sys_select :: "fd \<Rightarrow> world \<Rightarrow> (int \<times> world) option" where
  "sys_select f w = do {
     (r, w) \<leftarrow> next_reply w;
     case r of
       Fail e \<Rightarrow> Some (-1, emit EvSelect (w\<lparr>errno := e\<rparr>))
     | Ret v _ \<Rightarrow> Some (if v \<le> 0 then 0 else 1, emit EvSelect w) }"

text \<open>A call that returns 0 or fails.\<close>

definition sys_ok :: "event \<Rightarrow> world \<Rightarrow> (int \<times> world) option" where
  "sys_ok ev w = do {
     (r, w) \<leftarrow> next_reply w;
     case r of Fail e \<Rightarrow> Some (-1, w\<lparr>errno := e\<rparr>) | Ret _ _ \<Rightarrow> Some (0, emit ev w) }"

text \<open>A call that returns a value that is not negative, or fails.\<close>

definition sys_val :: "event list \<Rightarrow> world \<Rightarrow> (int \<times> world) option" where
  "sys_val evs w = do {
     (r, w) \<leftarrow> next_reply w;
     case r of
       Fail e \<Rightarrow> Some (-1, w\<lparr>errno := e\<rparr>)
     | Ret v _ \<Rightarrow> Some (max 0 v, w\<lparr>trace := trace w @ evs\<rparr>) }"

text \<open>socket and accept: a new descriptor.\<close>

definition sys_open :: "world \<Rightarrow> (fd \<times> world) option" where
  "sys_open w = do {
     (r, w) \<leftarrow> next_reply w;
     case r of
       Fail e \<Rightarrow> Some (-1, w\<lparr>errno := e\<rparr>)
     | Ret v _ \<Rightarrow> Some (new_fd w v, emit (EvOpen (new_fd w v)) w) }"

text \<open>close does not wait for a reply: what it returns is ignored by every caller. It may change
  errno, which is why the callers save it; here it always does.\<close>

definition sys_close :: "fd \<Rightarrow> world \<Rightarrow> world" where
  "sys_close f w = emit (EvClose f) (w\<lparr>errno := 0\<rparr>)"

text \<open>clock_gettime: the reply holds nanoseconds.\<close>

definition iperf_time_now :: "iperf_time \<Rightarrow> world \<Rightarrow> (int \<times> iperf_time \<times> world) option" where
  "iperf_time_now t w = do {
     (r, w) \<leftarrow> next_reply w;
     case r of
       Fail e \<Rightarrow> (case clock_gettime_helper t None of
                    (t, res) \<Rightarrow> Some (res, t, emit EvClock (w\<lparr>errno := e\<rparr>)))
     | Ret v _ \<Rightarrow> (case clock_gettime_helper t (Some (v div 1000000000, v mod 1000000000)) of
                    (t, res) \<Rightarrow> Some (res, t, emit EvClock w)) }"

section \<open>Facts on traces\<close>

lemma later_refl [simp]: "later w w"
  by (simp add: later_def)

lemma later_trans: "later w w1 \<Longrightarrow> later w1 w2 \<Longrightarrow> later w w2"
  by (auto simp: later_def)

lemma events_same [simp]: "events w w = []"
  by (simp add: events_def)

lemma events_append: "later w w1 \<Longrightarrow> later w1 w2 \<Longrightarrow> events w w2 = events w w1 @ events w1 w2"
  by (auto simp: later_def events_def)

lemma trace_later: "later w w' \<Longrightarrow> trace w' = trace w @ events w w'"
  by (auto simp: later_def events_def)

lemma next_reply_Some: "next_reply w = Some (r, w') \<longleftrightarrow>
    (\<exists>rs. replies w = r # rs \<and> w' = w\<lparr>replies := rs\<rparr>)"
  by (auto simp: next_reply_def split: list.splits)

text \<open>The collection of inversion facts for the calls: one reply gone, one event more.\<close>

lemmas sys_defs = sys_read_def sys_recv_def sys_write_def sys_sendfile_def sys_select_def sys_ok_def
  sys_val_def sys_open_def sys_close_def iperf_time_now_def emit_def

lemma sys_read_Some:
  "sys_read f n w = Some (r, bs, w') \<Longrightarrow> later w w' \<and> shorter w' w
     \<and> (r < 0 \<and> bs = [] \<and> events w w' = []
        \<or> r = int (length bs) \<and> length bs \<le> n \<and> events w w' = [EvRead f bs])"
  by (cases "replies w"; cases "hd (replies w)")
    (auto simp: sys_defs next_reply_def later_def shorter_def events_def Let_def split: if_splits)

lemma sys_recv_Some:
  "sys_recv f n fl w = Some (r, bs, w') \<Longrightarrow> later w w' \<and> shorter w' w
     \<and> (r < 0 \<and> bs = [] \<and> events w w' = []
        \<or> r \<ge> int (length bs) \<and> length bs \<le> n \<and> events w w' = [EvRead f bs]
          \<and> (fl AND MSG_TRUNC = 0 \<longrightarrow> r = int (length bs))
          \<and> (r > int (length bs) \<longrightarrow> length bs = n))"
  by (cases "replies w"; cases "hd (replies w)")
    (auto simp: sys_defs next_reply_def later_def shorter_def events_def Let_def split: if_splits)

lemma sys_write_Some:
  "sys_write f buf w = Some (r, w') \<Longrightarrow> later w w' \<and> shorter w' w
     \<and> (r < 0 \<and> events w w' = []
        \<or> 0 \<le> r \<and> nat r \<le> length buf \<and> events w w' = [EvWrite f (take (nat r) buf)])"
  by (cases "replies w"; cases "hd (replies w)")
    (auto simp: sys_defs next_reply_def later_def shorter_def events_def Let_def split: if_splits)

lemma sys_sendfile_Some:
  "sys_sendfile t f off n w = Some (r, w') \<Longrightarrow> later w w' \<and> shorter w' w
     \<and> (r < 0 \<and> events w w' = []
        \<or> 0 \<le> r \<and> nat r \<le> n \<and> events w w' = [EvSendfile t f off (nat r)])"
  by (cases "replies w"; cases "hd (replies w)")
    (auto simp: sys_defs next_reply_def later_def shorter_def events_def Let_def split: if_splits)

lemma sys_select_Some:
  "sys_select f w = Some (r, w') \<Longrightarrow> later w w' \<and> shorter w' w \<and> r \<in> {-1, 0, 1} \<and> events w w' = [EvSelect]"
  by (cases "replies w"; cases "hd (replies w)")
    (auto simp: sys_defs next_reply_def later_def shorter_def events_def Let_def split: if_splits)

lemma sys_ok_Some:
  "sys_ok e w = Some (r, w') \<Longrightarrow> later w w' \<and> shorter w' w
     \<and> (r = -1 \<and> events w w' = [] \<or> r = 0 \<and> events w w' = [e])"
  by (cases "replies w"; cases "hd (replies w)")
    (auto simp: sys_defs next_reply_def later_def shorter_def events_def Let_def split: if_splits)

lemma sys_val_Some:
  "sys_val es w = Some (r, w') \<Longrightarrow> later w w' \<and> shorter w' w
     \<and> (r = -1 \<and> events w w' = [] \<or> 0 \<le> r \<and> events w w' = es)"
  by (cases "replies w"; cases "hd (replies w)")
    (auto simp: sys_defs next_reply_def later_def shorter_def events_def Let_def split: if_splits)

lemma sys_open_Some:
  "sys_open w = Some (r, w') \<Longrightarrow> later w w' \<and> shorter w' w
     \<and> (r = -1 \<and> events w w' = [] \<or> 0 \<le> r \<and> r \<notin> fds w \<and> events w w' = [EvOpen r])"
proof (cases "replies w")
  case (Cons a rs)
  assume "sys_open w = Some (r, w')"
  with Cons new_fd_fresh [of "w\<lparr>replies := rs\<rparr>"] show ?thesis
    by (cases a) (auto simp: sys_defs next_reply_def later_def shorter_def events_def fds_def)
qed (simp add: sys_defs next_reply_def)

lemma time_now_Some:
  "iperf_time_now t w = Some (r, t', w') \<Longrightarrow> later w w' \<and> shorter w' w \<and> events w w' = [EvClock]"
  by (cases "replies w"; cases "hd (replies w)")
    (auto simp: sys_defs next_reply_def later_def shorter_def events_def Let_def split: prod.splits if_splits)

lemma sys_close_later [simp]: "later w (sys_close f w)" "events w (sys_close f w) = [EvClose f]"
  by (simp_all add: sys_defs later_def events_def)

lemmas sys_Some = sys_read_Some sys_recv_Some sys_write_Some sys_sendfile_Some sys_select_Some
  sys_ok_Some sys_val_Some sys_open_Some time_now_Some

section \<open>The bytes that went over a descriptor\<close>

fun bytes_read :: "fd \<Rightarrow> event list \<Rightarrow> u8 list" where
  "bytes_read f [] = []"
| "bytes_read f (EvRead g bs # es) = (if g = f then bs else []) @ bytes_read f es"
| "bytes_read f (_ # es) = bytes_read f es"

fun bytes_written :: "fd \<Rightarrow> event list \<Rightarrow> u8 list" where
  "bytes_written f [] = []"
| "bytes_written f (EvWrite g bs # es) = (if g = f then bs else []) @ bytes_written f es"
| "bytes_written f (_ # es) = bytes_written f es"

lemma bytes_read_append [simp]: "bytes_read f (xs @ ys) = bytes_read f xs @ bytes_read f ys"
  by (induction f xs rule: bytes_read.induct) auto

lemma bytes_written_append [simp]: "bytes_written f (xs @ ys) = bytes_written f xs @ bytes_written f ys"
  by (induction f xs rule: bytes_written.induct) auto

end
