(* ===== verification/Iperf_Net.thy ===== *)
theory Iperf_Net
  imports Iperf_World
begin

text \<open>
  The byte transfer routines of src/net.c: Nrecv, Nread and their variants without select, Nwrite,
  Nsendfile and setnonblocking. Each is a function of the tape of replies; a loop makes at least
  one call in every round, so the length of the tape bounds it. The buffer a routine fills is
  returned as the list of bytes stored in it so far.
\<close>

abbreviation (input) NET_SOFTERROR :: int where "NET_SOFTERROR \<equiv> -1"
abbreviation (input) NET_HARDERROR :: int where "NET_HARDERROR \<equiv> -2"

definition nread_read_timeout :: int where "nread_read_timeout = 10"
definition nread_overall_timeout :: u64 where "nread_overall_timeout = 30"

section \<open>Nrecv and Nread\<close>

definition recv_or_read :: "fd \<Rightarrow> nat \<Rightarrow> int \<Rightarrow> world \<Rightarrow> (int \<times> u8 list \<times> world) option" where
  "recv_or_read f nleft sock_opt w =
     (if sock_opt \<noteq> 0 then sys_recv f nleft sock_opt w else sys_read f nleft w)"

text \<open>The number of bytes a successful call is counted for.\<close>

definition bytes_copied :: "int \<Rightarrow> nat \<Rightarrow> int \<Rightarrow> nat" where
  "bytes_copied r nleft sock_opt =
     (if sock_opt AND MSG_TRUNC \<noteq> 0 then (if r > int nleft then nleft else nat r) else nat r)"

text \<open>The check between two reads: the time spent so far, then select. The first result says
  whether the loop goes on (None), ends (Some 0) or fails (Some NET_HARDERROR).\<close>

definition nrecv_wait :: "fd \<Rightarrow> iperf_time \<Rightarrow> world \<Rightarrow> (int option \<times> iperf_time \<times> world) option" where
  "nrecv_wait f ftimeout w = do {
     (res, now, w) \<leftarrow> iperf_time_now \<lparr>secs = 0, usecs = 0\<rparr> w;
     let ftimeout = (if secs ftimeout = 0
                     then iperf_time_add_usecs now (nread_overall_timeout * 1000000) else ftimeout);
     if iperf_time_compare ftimeout now < 0 then Some (Some 0, ftimeout, w)
     else do {
       (r, w) \<leftarrow> sys_select f w;
       Some (if r < 0 then Some NET_HARDERROR else if r = 0 then Some 0 else None, ftimeout, w) } }"

lemma recv_or_read_Some:
  "recv_or_read f n so w = Some (r, bs, w') \<Longrightarrow> later w w' \<and> shorter w' w
     \<and> (r < 0 \<and> bs = [] \<and> events w w' = []
        \<or> 0 \<le> r \<and> bytes_copied r n so = length bs \<and> length bs \<le> n \<and> events w w' = [EvRead f bs])"
proof (cases "so = 0")
  case True
  assume "recv_or_read f n so w = Some (r, bs, w')"
  with True sys_read_Some [of f n w r bs w'] show ?thesis
    by (auto simp: recv_or_read_def bytes_copied_def)
next
  case False
  assume "recv_or_read f n so w = Some (r, bs, w')"
  with False sys_recv_Some [of f n so w r bs w'] show ?thesis
    by (auto simp: recv_or_read_def bytes_copied_def)
qed

lemma nrecv_wait_Some:
  "nrecv_wait f ft w = Some (stop, ft', w') \<Longrightarrow>
     later w w' \<and> shorter w' w \<and> bytes_read f (events w w') = [] \<and> stop \<in> {None, Some 0, Some NET_HARDERROR}"
proof -
  assume run: "nrecv_wait f ft w = Some (stop, ft', w')"
  then obtain res now w1 where cl: "iperf_time_now \<lparr>secs = 0, usecs = 0\<rparr> w = Some (res, now, w1)"
    by (auto simp: nrecv_wait_def Option.bind_eq_Some_conv)
  note s1 = time_now_Some [OF cl]
  let ?ft = "if secs ft = 0 then iperf_time_add_usecs now (nread_overall_timeout * 1000000) else ft"
  show ?thesis
  proof (cases "iperf_time_compare ?ft now < 0")
    case True
    with run cl s1 show ?thesis by (auto simp: nrecv_wait_def Let_def)
  next
    case False
    with run cl obtain r where sel: "sys_select f w1 = Some (r, w')"
      and stop: "stop = (if r < 0 then Some NET_HARDERROR else if r = 0 then Some 0 else None)"
      by (auto simp: nrecv_wait_def Let_def Option.bind_eq_Some_conv)
    note s2 = sys_select_Some [OF sel]
    have "events w w' = [EvClock, EvSelect]" using s1 s2 events_append [of w w1 w'] by simp
    with s1 s2 stop show ?thesis by (auto simp: shorter_def intro: later_trans)
  qed
qed

function nrecv_loop :: "fd \<Rightarrow> nat \<Rightarrow> int \<Rightarrow> nat \<Rightarrow> u8 list \<Rightarrow> iperf_time \<Rightarrow> world
    \<Rightarrow> (int \<times> u8 list \<times> world) option" where
  "nrecv_loop f count sock_opt nleft buf ftimeout w =
     (if nleft = 0 then Some (int count, buf, w)
      else case recv_or_read f nleft sock_opt w of
        None \<Rightarrow> None
      | Some (r, bs, w) \<Rightarrow>
          if r < 0 then
            (if errno w = EINTR \<or> errno w = EAGAIN \<or> errno w = EWOULDBLOCK
             then Some (int count - int nleft, buf, w) else Some (NET_HARDERROR, buf, w))
          else if r = 0 then Some (int count - int nleft, buf, w)
          else
            let nleft = nleft - bytes_copied r nleft sock_opt; buf = buf @ bs in
            if nleft = 0 then Some (int count, buf, w)
            else case nrecv_wait f ftimeout w of
              None \<Rightarrow> None
            | Some (Some res, ftimeout, w) \<Rightarrow>
                Some (if res < 0 then res else int count - int nleft, buf, w)
            | Some (None, ftimeout, w) \<Rightarrow> nrecv_loop f count sock_opt nleft buf ftimeout w)"
  by pat_completeness auto
termination
  by (relation "measure (\<lambda>(f, c, so, nl, b, ft, w). length (replies w))")
    (auto dest!: recv_or_read_Some nrecv_wait_Some simp: shorter_def)

declare nrecv_loop.simps [simp del]

definition Nrecv :: "fd \<Rightarrow> nat \<Rightarrow> int \<Rightarrow> int \<Rightarrow> world \<Rightarrow> (int \<times> u8 list \<times> world) option" where
  "Nrecv f count prot sock_opt w = do {
     (r, w) \<leftarrow> sys_select f w;
     if r < 0 then Some (NET_HARDERROR, [], w)
     else if r = 0 then Some (0, [], w)
     else nrecv_loop f count sock_opt count [] \<lparr>secs = 0, usecs = 0\<rparr> w }"

definition Nread :: "fd \<Rightarrow> nat \<Rightarrow> int \<Rightarrow> world \<Rightarrow> (int \<times> u8 list \<times> world) option" where
  "Nread f count prot w = Nrecv f count prot 0 w"

lemma nrecv_loop_inv:
  "nrecv_loop f count so nleft buf ft w = Some (r, got, w') \<Longrightarrow> nleft \<le> count \<Longrightarrow> length buf = count - nleft
    \<Longrightarrow> later w w' \<and> got = buf @ bytes_read f (events w w') \<and> length got \<le> count
        \<and> (r = int (length got) \<or> r = NET_HARDERROR)"
proof (induction f count so nleft buf ft w arbitrary: r got w' rule: nrecv_loop.induct)
  case (1 f count so nleft buf ft w)
  show ?case
  proof (cases "nleft = 0")
    case True
    with 1 show ?thesis by (simp add: nrecv_loop.simps [of f count so 0])
  next
    case False
    then obtain r1 bs w1 where rd: "recv_or_read f nleft so w = Some (r1, bs, w1)"
      using 1(2) by (subst (asm) nrecv_loop.simps) (auto split: option.splits prod.splits)
    note s1 = recv_or_read_Some [OF rd]
    show ?thesis
    proof (cases "r1 \<le> 0")
      case True
      then have bs: "bytes_read f (events w w1) = []" "bytes_copied r1 nleft so = 0"
        using s1 by (auto simp: bytes_copied_def split: if_splits)
      with True False rd s1 1(2-4) show ?thesis
        by (subst (asm) nrecv_loop.simps) (auto split: if_splits)
    next
      case pos: False
      then have cp: "bytes_copied r1 nleft so = length bs" "length bs \<le> nleft"
        "bytes_read f (events w w1) = bs" "later w w1" using s1 by auto
      show ?thesis
      proof (cases "length bs = nleft")
        case True
        with False pos rd cp 1(2-4) show ?thesis
          by (subst (asm) nrecv_loop.simps) (auto split: if_splits)
      next
        case more: False
        then obtain stop ft1 w2 where wt: "nrecv_wait f ft w1 = Some (stop, ft1, w2)"
          using 1(2) rd False pos cp
          by (subst (asm) nrecv_loop.simps) (auto split: option.splits prod.splits simp: Let_def)
        note s2 = nrecv_wait_Some [OF wt]
        have ev: "bytes_read f (events w w2) = bs"
          using events_append [OF cp(4), of w2] s2 cp by simp
        show ?thesis
        proof (cases stop)
          case (Some res)
          with False pos more rd wt cp 1(2-4) s2 ev show ?thesis
            by (subst (asm) nrecv_loop.simps) (auto simp: Let_def intro: later_trans split: if_splits)
        next
          case None
          have run: "nrecv_loop f count so (nleft - bytes_copied r1 nleft so) (buf @ bs) ft1 w2 = Some (r, got, w')"
            using None False pos more rd wt cp 1(2)
            by (subst (asm) nrecv_loop.simps) (auto simp: Let_def)
          have "later w2 w' \<and> got = (buf @ bs) @ bytes_read f (events w2 w') \<and> length got \<le> count
              \<and> (r = int (length got) \<or> r = NET_HARDERROR)"
            by (rule 1(1) [OF False rd refl refl _ _ refl refl _ wt refl _ refl run])
              (use None False pos more cp 1(3,4) in auto)
          then show ?thesis
            using ev s2 cp(4) events_append [of w w2 w'] later_trans [of w w1 w2]
              later_trans [of w w2 w'] by auto
        qed
      qed
    qed
  qed
qed

section \<open>Nrecv_no_select, Nwrite, Nsendfile\<close>

function nrecv_no_select_loop :: "fd \<Rightarrow> nat \<Rightarrow> int \<Rightarrow> nat \<Rightarrow> u8 list \<Rightarrow> world
    \<Rightarrow> (int \<times> u8 list \<times> world) option" where
  "nrecv_no_select_loop f count sock_opt nleft buf w =
     (if nleft = 0 then Some (int count, buf, w)
      else case recv_or_read f nleft sock_opt w of
        None \<Rightarrow> None
      | Some (r, bs, w) \<Rightarrow>
          if r < 0 then
            (if errno w = EINTR \<or> errno w = EAGAIN \<or> errno w = EWOULDBLOCK
             then Some (int count - int nleft, buf, w) else Some (NET_HARDERROR, buf, w))
          else if r = 0 then Some (int count - int nleft, buf, w)
          else nrecv_no_select_loop f count sock_opt (nleft - bytes_copied r nleft sock_opt) (buf @ bs) w)"
  by pat_completeness auto
termination
  by (relation "measure (\<lambda>(f, c, so, nl, b, w). length (replies w))")
    (auto dest!: recv_or_read_Some simp: shorter_def)

declare nrecv_no_select_loop.simps [simp del]

definition Nrecv_no_select :: "fd \<Rightarrow> nat \<Rightarrow> int \<Rightarrow> int \<Rightarrow> world \<Rightarrow> (int \<times> u8 list \<times> world) option" where
  "Nrecv_no_select f count prot sock_opt w = nrecv_no_select_loop f count sock_opt count [] w"

definition Nread_no_select :: "fd \<Rightarrow> nat \<Rightarrow> int \<Rightarrow> world \<Rightarrow> (int \<times> u8 list \<times> world) option" where
  "Nread_no_select f count prot w = Nrecv_no_select f count prot 0 w"

text \<open>The result for a failed write or sendfile, by errno.\<close>

definition write_error :: "int \<Rightarrow> int list \<Rightarrow> nat \<Rightarrow> nat \<Rightarrow> int" where
  "write_error e soft count nleft =
     (if e = EINTR \<or> e = EAGAIN \<or> e = EWOULDBLOCK
      then (if count = nleft then NET_SOFTERROR else int count - int nleft)
      else if e \<in> set soft then NET_SOFTERROR
      else NET_HARDERROR)"

function nwrite_loop :: "fd \<Rightarrow> u8 list \<Rightarrow> nat \<Rightarrow> nat \<Rightarrow> world \<Rightarrow> (int \<times> world) option" where
  "nwrite_loop f buf count nleft w =
     (if nleft = 0 then Some (int count, w)
      else case sys_write f (take nleft buf) w of
        None \<Rightarrow> None
      | Some (r, w) \<Rightarrow>
          if r < 0 then Some (write_error (errno w) [ENOBUFS] count nleft, w)
          else if r = 0 then Some (NET_SOFTERROR, w)
          else nwrite_loop f (drop (nat r) buf) count (nleft - nat r) w)"
  by pat_completeness auto
termination
  by (relation "measure (\<lambda>(f, b, c, nl, w). length (replies w))")
    (auto dest!: sys_write_Some simp: shorter_def)

declare nwrite_loop.simps [simp del]

definition Nwrite :: "fd \<Rightarrow> u8 list \<Rightarrow> nat \<Rightarrow> int \<Rightarrow> world \<Rightarrow> (int \<times> world) option" where
  "Nwrite f buf count prot w = nwrite_loop f buf count count w"

function nsendfile_loop :: "fd \<Rightarrow> fd \<Rightarrow> nat \<Rightarrow> nat \<Rightarrow> world \<Rightarrow> (int \<times> world) option" where
  "nsendfile_loop fromfd tofd count nleft w =
     (if nleft = 0 then Some (int count, w)
      else case sys_sendfile tofd fromfd (count - nleft) nleft w of
        None \<Rightarrow> None
      | Some (r, w) \<Rightarrow>
          let nleft = (if r > 0 then nleft - nat r else nleft) in
          if r < 0 then Some (write_error (errno w) [ENOBUFS, ENOMEM] count nleft, w)
          else if r = 0 then Some (NET_SOFTERROR, w)
          else nsendfile_loop fromfd tofd count nleft w)"
  by pat_completeness auto
termination
  by (relation "measure (\<lambda>(f, b, c, nl, w). length (replies w))")
    (auto dest!: sys_sendfile_Some simp: shorter_def)

declare nsendfile_loop.simps [simp del]

definition Nsendfile :: "fd \<Rightarrow> fd \<Rightarrow> u8 list \<Rightarrow> nat \<Rightarrow> world \<Rightarrow> (int \<times> world) option" where
  "Nsendfile fromfd tofd buf count w = nsendfile_loop fromfd tofd count count w"

section \<open>setnonblocking\<close>

abbreviation (input) O_NONBLOCK :: int where "O_NONBLOCK \<equiv> 2048"

text \<open>fcntl F_GETFL replies with the flags; F_SETFL leaves the new flags in the trace.\<close>

definition setnonblocking :: "fd \<Rightarrow> int \<Rightarrow> world \<Rightarrow> (int \<times> world) option" where
  "setnonblocking f nonblocking w = do {
     (flags, w) \<leftarrow> sys_val [] w;
     if flags < 0 then Some (-1, w)
     else
       let newflags = (if nonblocking \<noteq> 0 then flags OR O_NONBLOCK else flags AND NOT O_NONBLOCK) in
       if newflags \<noteq> flags
       then do {
         (r, w) \<leftarrow> sys_ok (EvFcntl f newflags) w;
         Some (if r < 0 then -1 else 0, w) }
       else Some (0, w) }"

section \<open>What the transfer loops return\<close>

lemma nrecv_no_select_inv:
  "nrecv_no_select_loop f count so nleft buf w = Some (r, got, w') \<Longrightarrow> nleft \<le> count \<Longrightarrow> length buf = count - nleft
    \<Longrightarrow> later w w' \<and> got = buf @ bytes_read f (events w w') \<and> length got \<le> count
        \<and> (r = int (length got) \<or> r = NET_HARDERROR)"
proof (induction f count so nleft buf w arbitrary: r got w' rule: nrecv_no_select_loop.induct)
  case (1 f count so nleft buf w)
  show ?case
  proof (cases "nleft = 0")
    case True
    with 1 show ?thesis by (simp add: nrecv_no_select_loop.simps [of f count so 0])
  next
    case False
    then obtain r1 bs w1 where rd: "recv_or_read f nleft so w = Some (r1, bs, w1)"
      using 1(2) by (subst (asm) nrecv_no_select_loop.simps) (auto split: option.splits prod.splits)
    note s1 = recv_or_read_Some [OF rd]
    show ?thesis
    proof (cases "r1 \<le> 0")
      case True
      then have "bytes_read f (events w w1) = []"
        using s1 by (auto simp: bytes_copied_def split: if_splits)
      with True False rd s1 1(2-4) show ?thesis
        by (subst (asm) nrecv_no_select_loop.simps) (auto split: if_splits)
    next
      case pos: False
      then have cp: "bytes_copied r1 nleft so = length bs" "length bs \<le> nleft"
        "bytes_read f (events w w1) = bs" "later w w1" using s1 by auto
      have run: "nrecv_no_select_loop f count so (nleft - bytes_copied r1 nleft so) (buf @ bs) w1
          = Some (r, got, w')"
        using False pos rd 1(2) by (subst (asm) nrecv_no_select_loop.simps) simp
      have "later w1 w' \<and> got = (buf @ bs) @ bytes_read f (events w1 w') \<and> length got \<le> count
          \<and> (r = int (length got) \<or> r = NET_HARDERROR)"
        by (rule 1(1) [OF False rd refl refl _ _ run]) (use pos cp 1(3,4) in auto)
      then show ?thesis
        using cp events_append [of w w1 w'] later_trans [of w w1 w'] by auto
    qed
  qed
qed

lemma write_error_cases:
  "write_error e soft count nleft = r \<Longrightarrow> nleft \<le> count
     \<Longrightarrow> r = int count - int nleft \<and> nleft < count \<or> r = NET_SOFTERROR \<and> (nleft = count \<or> e \<in> set soft) \<or> r = NET_HARDERROR"
  by (auto simp: write_error_def split: if_splits)

text \<open>A result that is not an error is the number of bytes handed to the kernel. After an error the
  routine may have handed over more bytes than it reports, none after NET_SOFTERROR unless the
  errno is ENOBUFS or a write returned zero.\<close>

lemma nwrite_loop_inv:
  "nwrite_loop f buf count nleft w = Some (r, w') \<Longrightarrow> nleft \<le> count \<Longrightarrow> nleft \<le> length buf
    \<Longrightarrow> \<exists>k \<le> nleft. later w w' \<and> bytes_written f (events w w') = take k buf
        \<and> (r = int (count - nleft + k)
           \<or> r = NET_SOFTERROR
           \<or> r = NET_HARDERROR)"
proof (induction f buf count nleft w arbitrary: r w' rule: nwrite_loop.induct)
  case (1 f buf count nleft w)
  show ?case
  proof (cases "nleft = 0")
    case True
    with 1 show ?thesis by (simp add: nwrite_loop.simps [of f buf count 0])
  next
    case False
    then obtain r1 w1 where wr: "sys_write f (take nleft buf) w = Some (r1, w1)"
      using 1(2) by (subst (asm) nwrite_loop.simps) (auto split: option.splits prod.splits)
    note s1 = sys_write_Some [OF wr]
    show ?thesis
    proof (cases "r1 \<le> 0")
      case True
      then have "bytes_written f (events w w1) = []" using s1 by auto
      moreover have "w' = w1" "r = NET_SOFTERROR \<or> r = write_error (errno w1) [ENOBUFS] count nleft"
        using True False wr 1(2) by (subst (asm) nwrite_loop.simps, auto split: if_splits)+
      ultimately show ?thesis
        using s1 1(3) write_error_cases [of "errno w1" "[ENOBUFS]" count nleft] by (intro exI [of _ 0]) auto
    next
      case pos: False
      then have cp: "nat r1 \<le> nleft" "bytes_written f (events w w1) = take (nat r1) buf" "later w w1"
        using s1 1(4) by (auto simp: min_def split: if_splits)
      have run: "nwrite_loop f (drop (nat r1) buf) count (nleft - nat r1) w1 = Some (r, w')"
        using False pos wr 1(2) by (subst (asm) nwrite_loop.simps) simp
      have "\<exists>k \<le> nleft - nat r1. later w1 w' \<and> bytes_written f (events w1 w') = take k (drop (nat r1) buf)
          \<and> (r = int (count - (nleft - nat r1) + k) \<or> r = NET_SOFTERROR \<or> r = NET_HARDERROR)"
        by (rule 1(1) [OF False wr refl _ _ run]) (use pos cp 1(3,4) in auto)
      then obtain k where k: "k \<le> nleft - nat r1" "later w1 w'"
        "bytes_written f (events w1 w') = take k (drop (nat r1) buf)"
        "r = int (count - (nleft - nat r1) + k) \<or> r = NET_SOFTERROR \<or> r = NET_HARDERROR" by blast
      have "bytes_written f (events w w') = take (nat r1 + k) buf"
        using cp k events_append [of w w1 w'] by (simp add: take_add)
      moreover have "count - (nleft - nat r1) + k = count - nleft + (nat r1 + k)"
        using cp(1) 1(3) by simp
      ultimately show ?thesis
        using k cp later_trans [of w w1 w'] by (intro exI [of _ "nat r1 + k"]) auto
    qed
  qed
qed

text \<open>The bytes handed over by Nsendfile, as the offsets and lengths of the calls.\<close>

fun sent_pieces :: "fd \<Rightarrow> fd \<Rightarrow> event list \<Rightarrow> (nat \<times> nat) list" where
  "sent_pieces t f [] = []"
| "sent_pieces t f (EvSendfile t' f' off n # es) = (if t' = t \<and> f' = f then [(off, n)] else []) @ sent_pieces t f es"
| "sent_pieces t f (_ # es) = sent_pieces t f es"

lemma sent_pieces_append [simp]: "sent_pieces t f (xs @ ys) = sent_pieces t f xs @ sent_pieces t f ys"
  by (induction t f xs rule: sent_pieces.induct) auto

text \<open>Pieces that cover an interval from a to b without gap or overlap.\<close>

fun contiguous :: "nat \<Rightarrow> (nat \<times> nat) list \<Rightarrow> nat \<Rightarrow> bool" where
  "contiguous a [] b \<longleftrightarrow> a = b"
| "contiguous a ((off, n) # ps) b \<longleftrightarrow> off = a \<and> contiguous (a + n) ps b"

lemma nsendfile_loop_inv:
  "nsendfile_loop f t count nleft w = Some (r, w') \<Longrightarrow> nleft \<le> count
    \<Longrightarrow> \<exists>k \<le> count. later w w' \<and> contiguous (count - nleft) (sent_pieces t f (events w w')) k
        \<and> (r = int k \<or> r = NET_SOFTERROR \<or> r = NET_HARDERROR)"
proof (induction f t count nleft w arbitrary: r w' rule: nsendfile_loop.induct)
  case (1 f t count nleft w)
  show ?case
  proof (cases "nleft = 0")
    case True
    with 1 show ?thesis by (simp add: nsendfile_loop.simps [of f t count 0])
  next
    case False
    then obtain r1 w1 where wr: "sys_sendfile t f (count - nleft) nleft w = Some (r1, w1)"
      using 1(2) by (subst (asm) nsendfile_loop.simps) (auto split: option.splits prod.splits)
    note s1 = sys_sendfile_Some [OF wr]
    show ?thesis
    proof (cases "r1 \<le> 0")
      case True
      then have "contiguous (count - nleft) (sent_pieces t f (events w w1)) (count - nleft)" using s1 by auto
      moreover have "w' = w1" "r = NET_SOFTERROR \<or> r = write_error (errno w1) [ENOBUFS, ENOMEM] count nleft"
        using True False wr 1(2) by (subst (asm) nsendfile_loop.simps, auto simp: Let_def split: if_splits)+
      ultimately show ?thesis
        using s1 1(3) write_error_cases [of "errno w1" "[ENOBUFS, ENOMEM]" count nleft]
        by (intro exI [of _ "count - nleft"]) (auto simp: of_nat_diff)
    next
      case pos: False
      then have cp: "nat r1 \<le> nleft" "events w w1 = [EvSendfile t f (count - nleft) (nat r1)]" "later w w1"
        using s1 by auto
      have run: "nsendfile_loop f t count (nleft - nat r1) w1 = Some (r, w')"
        using False pos wr 1(2) by (subst (asm) nsendfile_loop.simps) simp
      have n: "nleft - nat r1 = (if 0 < r1 then nleft - nat r1 else nleft)" using pos by simp
      have "\<exists>k \<le> count. later w1 w' \<and> contiguous (count - (nleft - nat r1)) (sent_pieces t f (events w1 w')) k
          \<and> (r = int k \<or> r = NET_SOFTERROR \<or> r = NET_HARDERROR)"
        by (rule 1(1) [OF False wr refl n _ _ run]) (use pos cp 1(3) in auto)
      then obtain k where k: "k \<le> count" "later w1 w'"
        "contiguous (count - (nleft - nat r1)) (sent_pieces t f (events w1 w')) k"
        "r = int k \<or> r = NET_SOFTERROR \<or> r = NET_HARDERROR" by blast
      have "count - (nleft - nat r1) = count - nleft + nat r1" using cp 1(3) by simp
      then have "contiguous (count - nleft) (sent_pieces t f (events w w')) k"
        using k cp events_append [of w w1 w'] by simp
      then show ?thesis using k cp later_trans [of w w1 w'] by blast
    qed
  qed
qed

lemma Nrecv_result:
  assumes "Nrecv f count prot so w = Some (r, got, w')"
  shows "later w w'" and "got = bytes_read f (events w w')" and "length got \<le> count"
    and "r = int (length got) \<or> r = NET_HARDERROR"
proof -
  from assms obtain r1 w1 where sel: "sys_select f w = Some (r1, w1)"
    by (auto simp: Nrecv_def Option.bind_eq_Some_conv)
  note s1 = sys_select_Some [OF sel]
  have "later w w' \<and> got = bytes_read f (events w w') \<and> length got \<le> count
      \<and> (r = int (length got) \<or> r = NET_HARDERROR)"
  proof (cases "r1 \<le> 0")
    case True
    with assms sel s1 show ?thesis by (auto simp: Nrecv_def split: if_splits)
  next
    case False
    with assms sel have "nrecv_loop f count so count [] \<lparr>secs = 0, usecs = 0\<rparr> w1 = Some (r, got, w')"
      by (auto simp: Nrecv_def)
    from nrecv_loop_inv [OF this] s1 show ?thesis
      using events_append [of w w1 w'] later_trans [of w w1 w'] by auto
  qed
  then show "later w w'" "got = bytes_read f (events w w')" "length got \<le> count"
    "r = int (length got) \<or> r = NET_HARDERROR" by auto
qed

end
