(* ===== verification/Iperf_Types.thy ===== *)
theory Iperf_Types
  imports Iperf_Timer Iperf_Net
begin

text \<open>
  The data of the program, from src/iperf.h and src/iperf_api.h: struct iperf_settings, struct
  iperf_interval_results, struct iperf_stream_result, struct iperf_stream and struct iperf_test,
  the error codes and the protocol states. Fields keep their names except id (sid), done (stream_done)
  and the fields that hold a pointer to the enclosing structure, which are left out: a stream is
  passed to its operations together with the test it belongs to. A test's protocol is the protocol
  id, its streams are a list in the order of the SLIST, a timer handle is the address of the Timer.
\<close>

section \<open>Constants\<close>

abbreviation (input) Ptcp :: int where "Ptcp \<equiv> 1"
abbreviation (input) Pudp :: int where "Pudp \<equiv> 2"
abbreviation (input) Psctp :: int where "Psctp \<equiv> 12"
abbreviation (input) Pquic :: int where "Pquic \<equiv> 256"

abbreviation (input) PORT :: int where "PORT \<equiv> 5201"
abbreviation (input) SEC_TO_mS :: int where "SEC_TO_mS \<equiv> 1000"
abbreviation (input) mS_TO_US :: int where "mS_TO_US \<equiv> 1000"
abbreviation (input) SEC_TO_US :: int where "SEC_TO_US \<equiv> 1000000"
abbreviation (input) UDP_RATE :: u64 where "UDP_RATE \<equiv> 1048576"
abbreviation (input) OMIT :: int where "OMIT \<equiv> 0"
abbreviation (input) DURATION :: int where "DURATION \<equiv> 10"
abbreviation (input) DEFAULT_UDP_BLKSIZE :: int where "DEFAULT_UDP_BLKSIZE \<equiv> 1460"
abbreviation (input) DEFAULT_TCP_BLKSIZE :: int where "DEFAULT_TCP_BLKSIZE \<equiv> 131072"
abbreviation (input) DEFAULT_SCTP_BLKSIZE :: int where "DEFAULT_SCTP_BLKSIZE \<equiv> 65536"
abbreviation (input) DEFAULT_PACING_TIMER :: int where "DEFAULT_PACING_TIMER \<equiv> 1000"
abbreviation (input) DEFAULT_NO_MSG_RCVD_TIMEOUT :: int where "DEFAULT_NO_MSG_RCVD_TIMEOUT \<equiv> 120000"
abbreviation (input) MIN_NO_MSG_RCVD_TIMEOUT :: int where "MIN_NO_MSG_RCVD_TIMEOUT \<equiv> 100"
abbreviation (input) MAX_TCP_BUFFER :: int where "MAX_TCP_BUFFER \<equiv> 536870912"
abbreviation (input) MAX_BLOCKSIZE :: int where "MAX_BLOCKSIZE \<equiv> 1048576"
abbreviation (input) MIN_UDP_BLOCKSIZE :: int where "MIN_UDP_BLOCKSIZE \<equiv> 16"
abbreviation (input) MAX_UDP_BLOCKSIZE :: int where "MAX_UDP_BLOCKSIZE \<equiv> 65507"
abbreviation (input) MIN_INTERVAL :: real where "MIN_INTERVAL \<equiv> 1 / 10"
abbreviation (input) MAX_INTERVAL :: real where "MAX_INTERVAL \<equiv> 60"
abbreviation (input) MAX_TIME :: int where "MAX_TIME \<equiv> 86400"
abbreviation (input) MAX_OMIT_TIME :: int where "MAX_OMIT_TIME \<equiv> 600"
abbreviation (input) MAX_BURST :: int where "MAX_BURST \<equiv> 1000"
abbreviation (input) MAX_MSS :: int where "MAX_MSS \<equiv> 32767"
abbreviation (input) MAX_STREAMS :: int where "MAX_STREAMS \<equiv> 128"
abbreviation (input) COOKIE_SIZE :: nat where "COOKIE_SIZE \<equiv> 37"

text \<open>Protocol states, exchanged as one signed byte on the control connection.\<close>

abbreviation (input) TEST_START :: int where "TEST_START \<equiv> 1"
abbreviation (input) TEST_RUNNING :: int where "TEST_RUNNING \<equiv> 2"
abbreviation (input) TEST_END :: int where "TEST_END \<equiv> 4"
abbreviation (input) PARAM_EXCHANGE :: int where "PARAM_EXCHANGE \<equiv> 9"
abbreviation (input) CREATE_STREAMS :: int where "CREATE_STREAMS \<equiv> 10"
abbreviation (input) SERVER_TERMINATE :: int where "SERVER_TERMINATE \<equiv> 11"
abbreviation (input) CLIENT_TERMINATE :: int where "CLIENT_TERMINATE \<equiv> 12"
abbreviation (input) EXCHANGE_RESULTS :: int where "EXCHANGE_RESULTS \<equiv> 13"
abbreviation (input) DISPLAY_RESULTS :: int where "DISPLAY_RESULTS \<equiv> 14"
abbreviation (input) IPERF_START :: int where "IPERF_START \<equiv> 15"
abbreviation (input) IPERF_DONE :: int where "IPERF_DONE \<equiv> 16"
abbreviation (input) ACCESS_DENIED :: int where "ACCESS_DENIED \<equiv> -1"
abbreviation (input) SERVER_ERROR :: int where "SERVER_ERROR \<equiv> -2"

text \<open>The error codes kept in i_errno.\<close>

abbreviation (input) IENONE :: int where "IENONE \<equiv> 0"
abbreviation (input) IESERVCLIENT :: int where "IESERVCLIENT \<equiv> 1"
abbreviation (input) IENOROLE :: int where "IENOROLE \<equiv> 2"
abbreviation (input) IESERVERONLY :: int where "IESERVERONLY \<equiv> 3"
abbreviation (input) IECLIENTONLY :: int where "IECLIENTONLY \<equiv> 4"
abbreviation (input) IEDURATION :: int where "IEDURATION \<equiv> 5"
abbreviation (input) IENUMSTREAMS :: int where "IENUMSTREAMS \<equiv> 6"
abbreviation (input) IEBLOCKSIZE :: int where "IEBLOCKSIZE \<equiv> 7"
abbreviation (input) IEBUFSIZE :: int where "IEBUFSIZE \<equiv> 8"
abbreviation (input) IEINTERVAL :: int where "IEINTERVAL \<equiv> 9"
abbreviation (input) IEMSS :: int where "IEMSS \<equiv> 10"
abbreviation (input) IENOSENDFILE :: int where "IENOSENDFILE \<equiv> 11"
abbreviation (input) IEOMIT :: int where "IEOMIT \<equiv> 12"
abbreviation (input) IEUNIMP :: int where "IEUNIMP \<equiv> 13"
abbreviation (input) IEFILE :: int where "IEFILE \<equiv> 14"
abbreviation (input) IEBURST :: int where "IEBURST \<equiv> 15"
abbreviation (input) IEENDCONDITIONS :: int where "IEENDCONDITIONS \<equiv> 16"
abbreviation (input) IELOGFILE :: int where "IELOGFILE \<equiv> 17"
abbreviation (input) IENOSCTP :: int where "IENOSCTP \<equiv> 18"
abbreviation (input) IEBIND :: int where "IEBIND \<equiv> 19"
abbreviation (input) IEUDPBLOCKSIZE :: int where "IEUDPBLOCKSIZE \<equiv> 20"
abbreviation (input) IEBADTOS :: int where "IEBADTOS \<equiv> 21"
abbreviation (input) IESETCLIENTAUTH :: int where "IESETCLIENTAUTH \<equiv> 22"
abbreviation (input) IESETSERVERAUTH :: int where "IESETSERVERAUTH \<equiv> 23"
abbreviation (input) IEBADFORMAT :: int where "IEBADFORMAT \<equiv> 24"
abbreviation (input) IEREVERSEBIDIR :: int where "IEREVERSEBIDIR \<equiv> 25"
abbreviation (input) IEBADPORT :: int where "IEBADPORT \<equiv> 26"
abbreviation (input) IETOTALRATE :: int where "IETOTALRATE \<equiv> 27"
abbreviation (input) IETOTALINTERVAL :: int where "IETOTALINTERVAL \<equiv> 28"
abbreviation (input) IESKEWTHRESHOLD :: int where "IESKEWTHRESHOLD \<equiv> 29"
abbreviation (input) IEIDLETIMEOUT :: int where "IEIDLETIMEOUT \<equiv> 30"
abbreviation (input) IERCVTIMEOUT :: int where "IERCVTIMEOUT \<equiv> 31"
abbreviation (input) IERVRSONLYRCVTIMEOUT :: int where "IERVRSONLYRCVTIMEOUT \<equiv> 32"
abbreviation (input) IESNDTIMEOUT :: int where "IESNDTIMEOUT \<equiv> 33"
abbreviation (input) IEUDPFILETRANSFER :: int where "IEUDPFILETRANSFER \<equiv> 34"
abbreviation (input) IESERVERAUTHUSERS :: int where "IESERVERAUTHUSERS \<equiv> 35"
abbreviation (input) IECNTLKA :: int where "IECNTLKA \<equiv> 36"
abbreviation (input) IEMAXSERVERTESTDURATIONEXCEEDED :: int where "IEMAXSERVERTESTDURATIONEXCEEDED \<equiv> 37"
abbreviation (input) IEUNITVAL :: int where "IEUNITVAL \<equiv> 38"
abbreviation (input) IEQUICCERT :: int where "IEQUICCERT \<equiv> 39"
abbreviation (input) IENEWTEST :: int where "IENEWTEST \<equiv> 100"
abbreviation (input) IEINITTEST :: int where "IEINITTEST \<equiv> 101"
abbreviation (input) IELISTEN :: int where "IELISTEN \<equiv> 102"
abbreviation (input) IECONNECT :: int where "IECONNECT \<equiv> 103"
abbreviation (input) IEACCEPT :: int where "IEACCEPT \<equiv> 104"
abbreviation (input) IESENDCOOKIE :: int where "IESENDCOOKIE \<equiv> 105"
abbreviation (input) IERECVCOOKIE :: int where "IERECVCOOKIE \<equiv> 106"
abbreviation (input) IECTRLWRITE :: int where "IECTRLWRITE \<equiv> 107"
abbreviation (input) IECTRLREAD :: int where "IECTRLREAD \<equiv> 108"
abbreviation (input) IECTRLCLOSE :: int where "IECTRLCLOSE \<equiv> 109"
abbreviation (input) IEMESSAGE :: int where "IEMESSAGE \<equiv> 110"
abbreviation (input) IESENDMESSAGE :: int where "IESENDMESSAGE \<equiv> 111"
abbreviation (input) IERECVMESSAGE :: int where "IERECVMESSAGE \<equiv> 112"
abbreviation (input) IESENDPARAMS :: int where "IESENDPARAMS \<equiv> 113"
abbreviation (input) IERECVPARAMS :: int where "IERECVPARAMS \<equiv> 114"
abbreviation (input) IEPACKAGERESULTS :: int where "IEPACKAGERESULTS \<equiv> 115"
abbreviation (input) IESENDRESULTS :: int where "IESENDRESULTS \<equiv> 116"
abbreviation (input) IERECVRESULTS :: int where "IERECVRESULTS \<equiv> 117"
abbreviation (input) IESELECT :: int where "IESELECT \<equiv> 118"
abbreviation (input) IECLIENTTERM :: int where "IECLIENTTERM \<equiv> 119"
abbreviation (input) IESERVERTERM :: int where "IESERVERTERM \<equiv> 120"
abbreviation (input) IEACCESSDENIED :: int where "IEACCESSDENIED \<equiv> 121"
abbreviation (input) IESETNODELAY :: int where "IESETNODELAY \<equiv> 122"
abbreviation (input) IESETMSS :: int where "IESETMSS \<equiv> 123"
abbreviation (input) IESETBUF :: int where "IESETBUF \<equiv> 124"
abbreviation (input) IESETTOS :: int where "IESETTOS \<equiv> 125"
abbreviation (input) IESETCOS :: int where "IESETCOS \<equiv> 126"
abbreviation (input) IESETFLOW :: int where "IESETFLOW \<equiv> 127"
abbreviation (input) IEREUSEADDR :: int where "IEREUSEADDR \<equiv> 128"
abbreviation (input) IENONBLOCKING :: int where "IENONBLOCKING \<equiv> 129"
abbreviation (input) IESETWINDOWSIZE :: int where "IESETWINDOWSIZE \<equiv> 130"
abbreviation (input) IEPROTOCOL :: int where "IEPROTOCOL \<equiv> 131"
abbreviation (input) IEAFFINITY :: int where "IEAFFINITY \<equiv> 132"
abbreviation (input) IEDAEMON :: int where "IEDAEMON \<equiv> 133"
abbreviation (input) IESETCONGESTION :: int where "IESETCONGESTION \<equiv> 134"
abbreviation (input) IEPIDFILE :: int where "IEPIDFILE \<equiv> 135"
abbreviation (input) IEV6ONLY :: int where "IEV6ONLY \<equiv> 136"
abbreviation (input) IESETSCTPDISABLEFRAG :: int where "IESETSCTPDISABLEFRAG \<equiv> 137"
abbreviation (input) IESETSCTPNSTREAM :: int where "IESETSCTPNSTREAM \<equiv> 138"
abbreviation (input) IESETSCTPBINDX :: int where "IESETSCTPBINDX \<equiv> 139"
abbreviation (input) IESETPACING :: int where "IESETPACING \<equiv> 140"
abbreviation (input) IESETBUF2 :: int where "IESETBUF2 \<equiv> 141"
abbreviation (input) IEAUTHTEST :: int where "IEAUTHTEST \<equiv> 142"
abbreviation (input) IEBINDDEV :: int where "IEBINDDEV \<equiv> 143"
abbreviation (input) IENOMSG :: int where "IENOMSG \<equiv> 144"
abbreviation (input) IESETDONTFRAGMENT :: int where "IESETDONTFRAGMENT \<equiv> 145"
abbreviation (input) IEBINDDEVNOSUPPORT :: int where "IEBINDDEVNOSUPPORT \<equiv> 146"
abbreviation (input) IEHOSTDEV :: int where "IEHOSTDEV \<equiv> 147"
abbreviation (input) IESETUSERTIMEOUT :: int where "IESETUSERTIMEOUT \<equiv> 148"
abbreviation (input) IEPTHREADCREATE :: int where "IEPTHREADCREATE \<equiv> 150"
abbreviation (input) IEPTHREADCANCEL :: int where "IEPTHREADCANCEL \<equiv> 151"
abbreviation (input) IEPTHREADJOIN :: int where "IEPTHREADJOIN \<equiv> 152"
abbreviation (input) IEPTHREADATTRINIT :: int where "IEPTHREADATTRINIT \<equiv> 153"
abbreviation (input) IEPTHREADATTRDESTROY :: int where "IEPTHREADATTRDESTROY \<equiv> 154"
abbreviation (input) IESETCNTLKA :: int where "IESETCNTLKA \<equiv> 155"
abbreviation (input) IESETCNTLKAKEEPIDLE :: int where "IESETCNTLKAKEEPIDLE \<equiv> 156"
abbreviation (input) IESETCNTLKAINTERVAL :: int where "IESETCNTLKAINTERVAL \<equiv> 157"
abbreviation (input) IESETCNTLKACOUNT :: int where "IESETCNTLKACOUNT \<equiv> 158"
abbreviation (input) IEPTHREADSIGMASK :: int where "IEPTHREADSIGMASK \<equiv> 159"
abbreviation (input) IECREATESTREAM :: int where "IECREATESTREAM \<equiv> 200"
abbreviation (input) IEINITSTREAM :: int where "IEINITSTREAM \<equiv> 201"
abbreviation (input) IESTREAMLISTEN :: int where "IESTREAMLISTEN \<equiv> 202"
abbreviation (input) IESTREAMCONNECT :: int where "IESTREAMCONNECT \<equiv> 203"
abbreviation (input) IESTREAMACCEPT :: int where "IESTREAMACCEPT \<equiv> 204"
abbreviation (input) IESTREAMWRITE :: int where "IESTREAMWRITE \<equiv> 205"
abbreviation (input) IESTREAMREAD :: int where "IESTREAMREAD \<equiv> 206"
abbreviation (input) IESTREAMCLOSE :: int where "IESTREAMCLOSE \<equiv> 207"
abbreviation (input) IESTREAMID :: int where "IESTREAMID \<equiv> 208"
abbreviation (input) IENEWTIMER :: int where "IENEWTIMER \<equiv> 300"
abbreviation (input) IEUPDATETIMER :: int where "IEUPDATETIMER \<equiv> 301"

section \<open>Settings\<close>

record iperf_settings =
  domain :: int
  socket_bufsize :: int
  blksize :: int
  rate :: u64
  bitrate_limit :: u64
  bitrate_limit_interval :: real
  bitrate_limit_stats_per_interval :: int
  fqrate :: u64
  pacing_timer :: int
  burst :: int
  mss :: int
  ttl :: int
  tos :: int
  flowlabel :: int
  bytes :: u64
  blocks :: u64
  unit_format :: char
  num_ostreams :: int
  dont_fragment :: int
  authtoken :: "string option"
  client_username :: "string option"
  client_password :: "string option"
  client_rsa_pubkey :: "string option"
  skip_rx_copy :: int
  connect_timeout :: int
  idle_timeout :: int
  snd_timeout :: int
  rcv_timeout :: iperf_time
  cntl_ka :: int
  cntl_ka_keepidle :: int
  cntl_ka_interval :: int
  cntl_ka_count :: int

section \<open>Results of a stream\<close>

text \<open>The fields of the kernel's struct tcp_info that src/tcp_info.c reads.\<close>

record tcp_info =
  tcpi_total_retrans :: int
  tcpi_snd_cwnd :: int
  tcpi_snd_mss :: int
  tcpi_snd_wnd :: int
  tcpi_rtt :: int
  tcpi_rttvar :: int
  tcpi_pmtu :: int
  tcpi_reord_seen :: int

record iperf_interval_results =
  bytes_transferred :: u64
  interval_start_time :: iperf_time
  interval_end_time :: iperf_time
  interval_duration :: real
  interval_packet_count :: int
  interval_outoforder_packets :: int
  interval_cnt_error :: int
  ir_packet_count :: int
  ir_jitter :: real
  ir_outoforder_packets :: int
  ir_cnt_error :: int
  omitted :: int
  tcpInfo :: tcp_info
  interval_retrans :: int
  snd_cwnd :: int
  snd_wnd :: int
  rtt :: int
  rttvar :: int
  pmtu :: int
  reorder :: int

record iperf_stream_result =
  bytes_received :: u64
  bytes_sent :: u64
  bytes_received_this_interval :: u64
  bytes_sent_this_interval :: u64
  bytes_sent_omit :: u64
  stream_prev_total_retrans :: int
  stream_retrans :: int
  stream_reorder :: int
  stream_max_rtt :: int
  stream_min_rtt :: int
  stream_sum_rtt :: int
  stream_count_rtt :: int
  stream_max_snd_cwnd :: int
  stream_max_snd_wnd :: int
  start_time :: iperf_time
  end_time :: iperf_time
  start_time_fixed :: iperf_time
  sender_time :: real
  receiver_time :: real
  interval_results :: "iperf_interval_results list"

section \<open>Streams\<close>

text \<open>What the function pointers snd, rcv, snd2 and rcv2 of a stream can hold: the protocol's own
  routine, or the routine of the -F mode.\<close>

datatype handler = Proto_routine | Diskfile_routine

record iperf_stream =
  thr :: nat
  thread_created :: int
  stream_done :: int
  local_port :: int
  remote_port :: int
  socket :: fd
  sid :: int
  sender :: int
  result :: iperf_stream_result
  send_timer :: "addr option"
  green_light :: int
  buffer_fd :: fd
  buffer :: "u8 list"
  pending_size :: int
  diskfile_fd :: fd
  diskfile_left :: int
  packet_count :: int
  peer_packet_count :: int
  peer_omitted_packet_count :: int
  omitted_packet_count :: int
  jitter :: real
  prev_transit :: real
  outoforder_packets :: int
  omitted_outoforder_packets :: int
  cnt_error :: int
  omitted_cnt_error :: int
  target :: u64
  snd_fn :: handler
  rcv_fn :: handler
  snd2_fn :: "handler option"
  rcv2_fn :: "handler option"
  stream_ctx :: "nat option"

section \<open>Tests\<close>

datatype iperf_mode = SENDER | RECEIVER | BIDIRECTIONAL

text \<open>struct iperf_test in three parts: what the options set, what a running test keeps, and the
  limits and counters of the server.\<close>

record test_options =
  role :: char
  mode :: iperf_mode
  sender_has_retransmits :: int
  other_side_has_retransmits :: int
  protocol :: int
  protocols :: "int list"
  server_hostname :: "string option"
  tmp_template :: "string option"
  bind_address :: "string option"
  bind_dev :: "string option"
  xbind_addrs :: "string list"
  bind_port :: int
  server_port :: int
  quic_port :: int
  omit :: int
  duration :: int
  max_server_duration :: int
  diskfile_name :: "string option"
  affinity :: int
  server_affinity :: int
  title :: "string option"
  extra_data :: "string option"
  congestion :: "string option"
  congestion_used :: "string option"
  remote_congestion_used :: "string option"
  pidfile :: "string option"
  logfile :: "string option"
  server_authorized_users :: "string option"
  server_rsa_private_key :: "string option"
  server_skew_threshold :: int
  use_pkcs1_padding :: int

record test_flags = test_options +
  quic_cert_file :: "string option"
  quic_key_file :: "string option"
  quic_key_password :: "string option"
  quic_p12_file :: "string option"
  quic_p12_password :: "string option"
  quic_buf_size :: int
  daemon :: int
  one_off :: int
  no_delay :: int
  reverse :: int
  bidirectional :: int
  verbose :: int
  json_output :: int
  json_stream :: int
  json_stream_full_output :: int
  zerocopy :: int
  debug :: int
  debug_level :: int
  get_server_output :: int
  udp_counters_64bit :: int
  forceflush :: int
  multisend :: int
  repeating_payload :: int
  timestamps :: int
  timestamp_format :: "string option"
  mptcp :: int
  num_streams :: int
  stats_interval :: real
  reporter_interval :: real
  settings :: iperf_settings

record iperf_test = test_flags +
  state :: int
  ctrl_sck :: fd
  mapped_v4 :: int
  listener :: fd
  prot_listener :: fd
  ctrl_sck_mss :: int
  summary_printed :: int
  max_fd :: fd
  read_set :: "fd list"
  write_set :: "fd list"
  omitting :: int
  omit_timer :: "addr option"
  timer :: "addr option"
  test_done :: int
  stats_timer :: "addr option"
  reporter_timer :: "addr option"
  cpu_util :: "real list"
  remote_cpu_util :: "real list"
  test_bytes_sent :: u64
  blocks_sent :: u64
  test_bytes_received :: u64
  blocks_received :: u64
  bitrate_limit_stats_count :: u64
  bitrate_limit_intervals_traffic_bytes :: "u64 list"
  bitrate_limit_last_interval_index :: u64
  bitrate_limit_exceeded :: int
  server_last_run_rc :: int
  server_forced_idle_restarts_count :: int
  server_forced_no_msg_restarts_count :: int
  server_test_number :: int
  cookie :: "u8 list"
  streams :: "iperf_stream list"
  server_output_list :: "string list"

text \<open>Updates through the pointers of the source.\<close>

definition upd_settings :: "(iperf_settings \<Rightarrow> iperf_settings) \<Rightarrow> 'a test_flags_scheme \<Rightarrow> 'a test_flags_scheme" where
  "upd_settings f t = t\<lparr>settings := f (settings t)\<rparr>"

definition upd_result :: "(iperf_stream_result \<Rightarrow> iperf_stream_result) \<Rightarrow> iperf_stream \<Rightarrow> iperf_stream" where
  "upd_result f sp = sp\<lparr>result := f (result sp)\<rparr>"

text \<open>struct iperf_settings and a struct with all fields zero, as memset leaves them.\<close>

definition zero_time :: iperf_time where
  "zero_time = \<lparr>secs = 0, usecs = 0\<rparr>"

lemma upd_settings_simps [simp]:
  "settings (upd_settings f t) = f (settings t)"
  "upd_settings f (upd_settings g t) = upd_settings (\<lambda>x. f (g x)) t"
  by (simp_all add: upd_settings_def)

lemma upd_result_simps [simp]: "result (upd_result f sp) = f (result sp)"
  by (simp add: upd_result_def)

text \<open>FD_SET and FD_CLR on the descriptors to watch.\<close>

definition fd_set :: "fd \<Rightarrow> fd list \<Rightarrow> fd list" where
  "fd_set f S = (if f \<in> set S then S else f # S)"

definition fd_clr :: "fd \<Rightarrow> fd list \<Rightarrow> fd list" where
  "fd_clr f S = removeAll f S"

end
