(* ===== verification/Iperf_Transfer.thy ===== *)
theory Iperf_Transfer
  imports Iperf_Types
begin

text \<open>
  One block of a stream, sent or received: iperf_tcp_recv and iperf_tcp_send of src/iperf_tcp.c,
  iperf_sctp_recv and iperf_sctp_send of src/iperf_sctp.c, iperf_udp_recv and iperf_udp_send of
  src/iperf_udp.c with their datagram header, and diskfile_send and diskfile_recv of
  src/iperf_api.c. An operation returns its result, the stream, the test and the world. An access
  to a buffer out of its bounds is undefined in C and is None here, like a system call that does
  not return.
\<close>

type_synonym stream_op = "iperf_test \<Rightarrow> iperf_stream \<Rightarrow> world \<Rightarrow> (int \<times> iperf_stream \<times> iperf_test \<times> world) option"

section \<open>Buffers\<close>

definition load :: "nat \<Rightarrow> nat \<Rightarrow> u8 list \<Rightarrow> u8 list option" where
  "load off n buf = (if off + n \<le> length buf then Some (take n (drop off buf)) else None)"

definition store :: "nat \<Rightarrow> u8 list \<Rightarrow> u8 list \<Rightarrow> u8 list option" where
  "store off bs buf =
     (if off + length bs \<le> length buf then Some (take off buf @ bs @ drop (off + length bs) buf) else None)"

text \<open>An int used as a size: it has to be within the buffer.\<close>

definition sized :: "int \<Rightarrow> u8 list \<Rightarrow> nat option" where
  "sized n buf = (if 0 \<le> n \<and> n \<le> int (length buf) then Some (nat n) else None)"

lemma store_length: "store off bs buf = Some buf' \<Longrightarrow> length buf' = length buf"
  by (auto simp: store_def split: if_splits)

lemma load_store_same: "store off bs buf = Some buf' \<Longrightarrow> load off (length bs) buf' = Some bs"
  by (auto simp: store_def load_def split: if_splits)

lemma load_store_before:
  "store off bs buf = Some buf' \<Longrightarrow> i + n \<le> off \<Longrightarrow> load i n buf' = load i n buf"
  by (auto simp: store_def load_def take_drop split: if_splits)

section \<open>Counting\<close>

definition count_received :: "int \<Rightarrow> iperf_stream \<Rightarrow> iperf_stream" where
  "count_received r = upd_result (\<lambda>x. x\<lparr>bytes_received := bytes_received x + word_of_int r,
     bytes_received_this_interval := bytes_received_this_interval x + word_of_int r\<rparr>)"

definition count_sent :: "int \<Rightarrow> iperf_stream \<Rightarrow> iperf_stream" where
  "count_sent r = upd_result (\<lambda>x. x\<lparr>bytes_sent := bytes_sent x + word_of_int r,
     bytes_sent_this_interval := bytes_sent_this_interval x + word_of_int r\<rparr>)"

section \<open>TCP and SCTP\<close>

definition iperf_tcp_recv :: stream_op where
  "iperf_tcp_recv t sp w = do {
     let sock_opt = (if skip_rx_copy (settings t) \<noteq> 0 then MSG_TRUNC else 0);
     n \<leftarrow> sized (blksize (settings t)) (buffer sp);
     (r, got, w) \<leftarrow> Nrecv_no_select (socket sp) n Ptcp sock_opt w;
     buf \<leftarrow> store 0 got (buffer sp);
     let sp = sp\<lparr>buffer := buf\<rparr>;
     if r < 0 then Some (r, sp, t, w)
     else Some (r, if state t = TEST_RUNNING then count_received r sp else sp, t, w) }"

definition iperf_tcp_send :: stream_op where
  "iperf_tcp_send t sp w = do {
     let sp = (if pending_size sp = 0 then sp\<lparr>pending_size := blksize (settings t)\<rparr> else sp);
     n \<leftarrow> sized (pending_size sp) (buffer sp);
     (r, w) \<leftarrow> (if zerocopy t \<noteq> 0 then Nsendfile (buffer_fd sp) (socket sp) (buffer sp) n w
               else Nwrite (socket sp) (buffer sp) n Ptcp w);
     if r < 0 then Some (r, sp, t, w)
     else Some (r, count_sent r (sp\<lparr>pending_size := pending_size sp - r\<rparr>), t, w) }"

definition iperf_sctp_recv :: stream_op where
  "iperf_sctp_recv t sp w = do {
     n \<leftarrow> sized (blksize (settings t)) (buffer sp);
     (r, got, w) \<leftarrow> Nread_no_select (socket sp) n Psctp w;
     buf \<leftarrow> store 0 got (buffer sp);
     let sp = sp\<lparr>buffer := buf\<rparr>;
     if r < 0 then Some (r, sp, t, w)
     else Some (r, if state t = TEST_RUNNING then count_received r sp else sp, t, w) }"

definition iperf_sctp_send :: stream_op where
  "iperf_sctp_send t sp w = do {
     n \<leftarrow> sized (blksize (settings t)) (buffer sp);
     (r, w) \<leftarrow> Nwrite (socket sp) (buffer sp) n Psctp w;
     if r < 0 then Some (r, sp, t, w) else Some (r, count_sent r sp, t, w) }"

section \<open>The header of a UDP datagram\<close>

text \<open>The time of sending and the sequence number, in network byte order; a test with 64-bit
  counters has 16 bytes of header, else 12.\<close>

definition udp_header :: "bool \<Rightarrow> iperf_time \<Rightarrow> int \<Rightarrow> u8 list" where
  "udp_header c64 before pc =
     be32 (secs before) @ be32 (usecs before)
       @ (if c64 then be64 (word_of_int pc) else be32 (word_of_int pc))"

definition stamp_header :: "bool \<Rightarrow> iperf_time \<Rightarrow> int \<Rightarrow> u8 list \<Rightarrow> u8 list option" where
  "stamp_header c64 before pc buf = store 0 (udp_header c64 before pc) buf"

definition read_header :: "bool \<Rightarrow> u8 list \<Rightarrow> (iperf_time \<times> u64) option" where
  "read_header c64 buf = do {
     s \<leftarrow> load 0 4 buf;
     us \<leftarrow> load 4 4 buf;
     pcount \<leftarrow> (if c64 then map_option rd64 (load 8 8 buf)
                else map_option (\<lambda>b. ucast (rd32 b)) (load 8 4 buf));
     Some (\<lparr>secs = rd32 s, usecs = rd32 us\<rparr>, pcount) }"

section \<open>UDP reception\<close>

text \<open>Conversions to and from int64_t.\<close>

definition to_s64 :: "int \<Rightarrow> int" where
  "to_s64 n = sint (word_of_int n :: u64)"

text \<open>Losses and packets out of order, from the sequence number of the packet. The comparison and
  the additions mix int64_t and uint64_t, which makes them unsigned.\<close>

definition udp_count :: "u64 \<Rightarrow> iperf_stream \<Rightarrow> iperf_stream" where
  "udp_count pcount sp =
     (let expected = (word_of_int (packet_count sp + 1) :: u64) in
      if pcount \<ge> expected then
        (let sp = (if pcount > expected
                   then sp\<lparr>cnt_error := sint (word_of_int (cnt_error sp)
                            + ((pcount - 1) - word_of_int (packet_count sp)) :: u64)\<rparr>
                   else sp)
         in sp\<lparr>packet_count := sint pcount\<rparr>)
      else
        (let sp = sp\<lparr>outoforder_packets := outoforder_packets sp + 1\<rparr>
         in if cnt_error sp > 0 then sp\<lparr>cnt_error := cnt_error sp - 1\<rparr> else sp))"

text \<open>The jitter estimate of RFC 1889.\<close>

definition udp_jitter :: "bool \<Rightarrow> real \<Rightarrow> iperf_stream \<Rightarrow> iperf_stream" where
  "udp_jitter first_packet transit sp =
     (let sp = (if first_packet then sp\<lparr>prev_transit := transit\<rparr> else sp);
          d = \<bar>transit - prev_transit sp\<bar>
      in sp\<lparr>prev_transit := transit, jitter := jitter sp + (d - jitter sp) / 16\<rparr>)"

definition iperf_udp_recv :: stream_op where
  "iperf_udp_recv t sp w = do {
     let trunc = skip_rx_copy (settings t) \<noteq> 0;
     n \<leftarrow> sized (if trunc then 16 else blksize (settings t)) (buffer sp);
     (r, got, w) \<leftarrow> Nrecv_no_select (socket sp) n Pudp (if trunc then MSG_TRUNC else 0) w;
     buf \<leftarrow> store 0 got (buffer sp);
     let sp = sp\<lparr>buffer := buf\<rparr>;
     if r \<le> 0 then Some (r, sp, t, w)
     else if state t = TEST_RUNNING then do {
       let first_packet = bytes_received (result sp) = 0;
       let sp = count_received r sp;
       (sent_time, pcount) \<leftarrow> read_header (udp_counters_64bit t \<noteq> 0) (buffer sp);
       let sp = udp_count pcount sp;
       (_, arrival_time, w) \<leftarrow> iperf_time_now zero_time w;
       let transit = iperf_time_in_secs (snd (iperf_time_diff arrival_time sent_time));
       Some (r, udp_jitter first_packet transit sp, t, w) }
     else Some (r, sp, t, w) }"

definition iperf_udp_send :: stream_op where
  "iperf_udp_send t sp w = do {
     (_, before, w) \<leftarrow> iperf_time_now zero_time w;
     let sp = sp\<lparr>packet_count := packet_count sp + 1\<rparr>;
     buf \<leftarrow> stamp_header (udp_counters_64bit t \<noteq> 0) before (packet_count sp) (buffer sp);
     let sp = sp\<lparr>buffer := buf\<rparr>;
     n \<leftarrow> sized (blksize (settings t)) (buffer sp);
     (r, w) \<leftarrow> Nwrite (socket sp) (buffer sp) n Pudp w;
     let sp = (if r \<le> 0 then sp\<lparr>packet_count := packet_count sp - 1\<rparr> else sp);
     if r < 0 then Some (r, sp, t, w) else Some (r, count_sent r sp, t, w) }"

section \<open>The routines of the -F mode\<close>

text \<open>They call the routine kept in snd2 or rcv2. A block that was not sent in full is moved to the
  front of the buffer, from where the code assumes its rest to be.\<close>

definition disk_fill :: "iperf_test \<Rightarrow> iperf_stream \<Rightarrow> world \<Rightarrow> (int \<times> iperf_stream \<times> iperf_test \<times> world) option" where
  "disk_fill t sp w =
     (if diskfile_left sp < blksize (settings t) \<and> test_done t = 0 then do {
        n \<leftarrow> sized (blksize (settings t) - diskfile_left sp) (buffer sp);
        (r, got, w) \<leftarrow> sys_read (diskfile_fd sp) n w;
        buf \<leftarrow> store 0 got (buffer sp);
        let buffer_left = diskfile_left sp + r;
        let sp = sp\<lparr>buffer := buf\<rparr>;
        let sp = (if buffer_left \<noteq> blksize (settings t) then sp\<lparr>pending_size := buffer_left\<rparr> else sp);
        Some (buffer_left, sp, if buffer_left = 0 then t\<lparr>test_done := 1\<rparr> else t, w) }
      else Some (diskfile_left sp, sp, t, w))"

definition disk_slide :: "int \<Rightarrow> iperf_stream \<Rightarrow> iperf_stream option" where
  "disk_slide blk sp =
     (if diskfile_left sp \<noteq> 0 \<and> diskfile_left sp < blk then do {
        n \<leftarrow> sized (diskfile_left sp) (buffer sp);
        rest \<leftarrow> load (nat (blk - diskfile_left sp)) n (buffer sp);
        buf \<leftarrow> store 0 rest (buffer sp);
        Some (sp\<lparr>buffer := buf\<rparr>) }
      else Some sp)"

definition diskfile_send :: "stream_op \<Rightarrow> stream_op" where
  "diskfile_send snd2 t sp w = do {
     (buffer_left, sp, t, w) \<leftarrow> disk_fill t sp w;
     if test_done t \<noteq> 0 \<or> buffer_left = 0 then Some (0, sp, t\<lparr>test_done := 1\<rparr>, w)
     else do {
       (r, sp, t, w) \<leftarrow> snd2 t sp w;
       if r < 0 then Some (r, sp, t, w)
       else do {
         sp \<leftarrow> disk_slide (blksize (settings t)) (sp\<lparr>diskfile_left := buffer_left - r\<rparr>);
         Some (r, sp, t, w) } } }"

text \<open>What the write to the file returns is ignored.\<close>

definition diskfile_recv :: "stream_op \<Rightarrow> stream_op" where
  "diskfile_recv rcv2 t sp w = do {
     (r, sp, t, w) \<leftarrow> rcv2 t sp w;
     if r > 0 then do {
       n \<leftarrow> sized r (buffer sp);
       (_, w) \<leftarrow> sys_write (diskfile_fd sp) (take n (buffer sp)) w;
       Some (r, sp, t, w) }
     else Some (r, sp, t, w) }"

text \<open>The routine a stream was set up with. The routines of the QUIC transport, which live on a
  library outside the program, are an argument.\<close>

definition proto_send :: "stream_op \<Rightarrow> stream_op" where
  "proto_send quic t =
     (if protocol t = Ptcp then iperf_tcp_send t
      else if protocol t = Pudp then iperf_udp_send t
      else if protocol t = Psctp then iperf_sctp_send t
      else quic t)"

definition proto_recv :: "stream_op \<Rightarrow> stream_op" where
  "proto_recv quic t =
     (if protocol t = Ptcp then iperf_tcp_recv t
      else if protocol t = Pudp then iperf_udp_recv t
      else if protocol t = Psctp then iperf_sctp_recv t
      else quic t)"

definition stream_send :: "stream_op \<Rightarrow> stream_op" where
  "stream_send quic t sp =
     (case snd_fn sp of
        Proto_routine \<Rightarrow> proto_send quic t sp
      | Diskfile_routine \<Rightarrow> diskfile_send (proto_send quic) t sp)"

definition stream_recv :: "stream_op \<Rightarrow> stream_op" where
  "stream_recv quic t sp =
     (case rcv_fn sp of
        Proto_routine \<Rightarrow> proto_recv quic t sp
      | Diskfile_routine \<Rightarrow> diskfile_recv (proto_recv quic) t sp)"

end
