(* ===== verification/Iperf_Transfer_Ok.thy ===== *)
theory Iperf_Transfer_Ok
  imports Iperf_Transfer
begin

text \<open>
  What one block transfer does: the header of a datagram is read back as it was written, the
  sequence numbers give the number of lost packets, and every send or receive routine counts exactly
  the bytes it reports. The last point is the contract sender_op, which every send routine is shown
  to satisfy; the loops over blocks rest on it.
\<close>

section \<open>The datagram header\<close>

lemma header_length: "length (udp_header c64 b pc) = (if c64 then 16 else 12)"
  by (simp add: udp_header_def)

lemma store_prefix: "store 0 (xs @ ys) buf = Some buf' \<Longrightarrow> take (length xs) buf' = xs"
  by (auto simp: store_def split: if_splits)

lemma read_stamped:
  assumes "stamp_header c64 before pc buf = Some buf'"
  shows "read_header c64 buf' = Some (\<lparr>secs = secs before, usecs = usecs before\<rparr>,
           if c64 then word_of_int pc else ucast (word_of_int pc :: u32))"
  using assms
  by (auto simp: stamp_header_def store_def udp_header_def read_header_def load_def split: if_splits)

section \<open>Lost packets\<close>

definition seq_ok :: "u64 \<Rightarrow> bool" where
  "seq_ok p \<longleftrightarrow> 1 \<le> uint p \<and> uint p < s64_max"

lemma to_u64: "0 \<le> n \<Longrightarrow> n \<le> s64_max \<Longrightarrow> uint (word_of_int n :: u64) = n"
  by (simp add: s64_max_def uint_word_of_int)

lemma sint_seq: "seq_ok p \<Longrightarrow> sint p = uint p"
  by (simp add: seq_ok_def s64_max_def sint_uint signed_take_bit_int_eq_self)

lemma sint_of_int_id: "0 \<le> n \<Longrightarrow> n \<le> s64_max \<Longrightarrow> sint (word_of_int n :: u64) = n"
  by (simp add: s64_max_def sint_sbintrunc' signed_take_bit_int_eq_self)

text \<open>One packet, in mathematical integers.\<close>

lemma udp_count_spec:
  assumes p: "seq_ok p" and m: "0 \<le> packet_count sp" "packet_count sp < s64_max"
    and e: "0 \<le> cnt_error sp" "cnt_error sp \<le> packet_count sp"
  shows "udp_count p sp =
    (if uint p > packet_count sp
     then sp\<lparr>cnt_error := cnt_error sp + (uint p - 1 - packet_count sp), packet_count := uint p\<rparr>
     else sp\<lparr>outoforder_packets := outoforder_packets sp + 1, cnt_error := max 0 (cnt_error sp - 1)\<rparr>)"
proof -
  let ?pc = "packet_count sp" and ?n = "uint p - 1 - packet_count sp"
  have up: "uint p < s64_max" using p by (simp add: seq_ok_def)
  have ex: "uint (word_of_int (?pc + 1) :: u64) = ?pc + 1" by (rule to_u64) (use m in auto)
  have ge: "word_of_int (?pc + 1) \<le> p \<longleftrightarrow> uint p > ?pc" by (simp only: word_le_def ex) linarith
  have gt: "word_of_int (?pc + 1) < p \<longleftrightarrow> uint p > ?pc + 1" by (simp only: word_less_def ex)
  show ?thesis
  proof (cases "uint p > ?pc")
    case True
    have w: "word_of_int (cnt_error sp) + ((p - 1) - word_of_int ?pc) = (word_of_int (cnt_error sp + ?n) :: u64)"
      by simp
    have "sint (word_of_int (cnt_error sp + ?n) :: u64) = cnt_error sp + ?n"
      by (rule sint_of_int_id) (use True e up in auto)
    then have "sint (word_of_int (cnt_error sp) + ((p - 1) - word_of_int ?pc)) = cnt_error sp + ?n"
      by (simp only: w)
    note r = this
    show ?thesis
      unfolding udp_count_def Let_def ge gt r sint_seq [OF p] using True by simp
  next
    case False
    then show ?thesis unfolding udp_count_def Let_def ge gt using e by simp
  qed
qed

text \<open>The packets of a stream in order of arrival.\<close>

fun count_all :: "u64 list \<Rightarrow> iperf_stream \<Rightarrow> iperf_stream" where
  "count_all [] sp = sp"
| "count_all (p # ps) sp = count_all ps (udp_count p sp)"

lemma count_all_append: "count_all (ps @ qs) sp = count_all qs (count_all ps sp)"
  by (induction ps arbitrary: sp) auto

text \<open>The highest number received.\<close>

definition highest :: "u64 list \<Rightarrow> int" where
  "highest ps = Max (insert 0 (uint ` set ps))"

lemma highest_snoc: "highest (ps @ [p]) = max (uint p) (highest ps)"
  by (simp add: highest_def insert_commute [of 0])

lemma highest_bounds: "\<forall>p\<in>set ps. seq_ok p \<Longrightarrow> 0 \<le> highest ps \<and> highest ps < s64_max"
  by (simp add: highest_def seq_ok_def s64_max_def)

lemma inj_uint: "inj_on uint (A :: u64 set)"
  by (rule inj_onI) (simp only: word_uint_eq_iff)

lemma distinct_bound:
  assumes "distinct ps" "\<forall>p\<in>set ps. seq_ok p" "p \<notin> set ps" "1 \<le> uint p" "uint p \<le> highest ps"
  shows "int (length ps) < highest ps"
proof -
  let ?A = "uint ` insert p (set ps)"
  have sub: "?A \<subseteq> {1..highest ps}"
    using assms by (auto simp: seq_ok_def highest_def)
  have "card ?A = card (insert p (set ps))" by (rule card_image [OF inj_uint])
  then have "card ?A = Suc (length ps)" using assms(1,3) by (simp add: distinct_card)
  moreover have "card ?A \<le> card {1..highest ps}" by (rule card_mono [OF _ sub]) simp
  ultimately show ?thesis by simp
qed

lemma distinct_le_highest:
  assumes "distinct ps" "\<forall>p\<in>set ps. seq_ok p"
  shows "int (length ps) \<le> highest ps"
proof -
  have "uint ` set ps \<subseteq> {1..highest ps}" using assms by (auto simp: seq_ok_def highest_def)
  then have "card (uint ` set ps) \<le> card {1..highest ps}" by (rule card_mono [rotated]) simp
  moreover have "card (uint ` set ps) = length ps"
    using assms(1) card_image [OF inj_uint, of "set ps"] by (simp add: distinct_card)
  ultimately have "length ps \<le> nat (highest ps)" by simp
  then show ?thesis using highest_bounds [OF assms(2)] by linarith
qed

text \<open>As long as the network does not duplicate packets, the count of lost packets is the number
  of sequence numbers up to the highest one seen that did not arrive.\<close>

lemma count_all_losses:
  assumes "distinct ps" "\<forall>p\<in>set ps. seq_ok p"
    and "packet_count sp = 0" "cnt_error sp = 0"
  shows "packet_count (count_all ps sp) = highest ps
       \<and> cnt_error (count_all ps sp) = highest ps - int (length ps)"
  using assms(1,2)
proof (induction ps rule: rev_induct)
  case Nil
  then show ?case using assms(3,4) by (simp add: highest_def)
next
  case (snoc p ps)
  let ?s = "count_all ps sp"
  have ps: "distinct ps" "\<forall>p\<in>set ps. seq_ok p" and p: "seq_ok p" "p \<notin> set ps" using snoc.prems by auto
  have IH: "packet_count ?s = highest ps" "cnt_error ?s = highest ps - int (length ps)"
    using snoc.IH ps by auto
  note hb = highest_bounds [OF ps(2)]
  have le: "int (length ps) \<le> highest ps" by (rule distinct_le_highest [OF ps])
  have step: "udp_count p ?s = (if uint p > packet_count ?s
     then ?s\<lparr>cnt_error := cnt_error ?s + (uint p - 1 - packet_count ?s), packet_count := uint p\<rparr>
     else ?s\<lparr>outoforder_packets := outoforder_packets ?s + 1, cnt_error := max 0 (cnt_error ?s - 1)\<rparr>)"
    by (rule udp_count_spec) (use p IH hb le in auto)
  show ?case
  proof (cases "uint p > highest ps")
    case True
    with step IH show ?thesis by (simp add: count_all_append highest_snoc)
  next
    case False
    then have "int (length ps) < highest ps"
      using distinct_bound [OF ps p(2)] p(1) by (simp add: seq_ok_def)
    with False step IH show ?thesis by (simp add: count_all_append highest_snoc max_def)
  qed
qed

section \<open>Jitter\<close>

text \<open>The estimate stays between zero and the largest change of transit time seen.\<close>

lemma udp_jitter_bounds:
  assumes "0 \<le> jitter sp" "jitter sp \<le> D" "\<not> first \<Longrightarrow> \<bar>transit - prev_transit sp\<bar> \<le> D"
  shows "0 \<le> jitter (udp_jitter first transit sp) \<and> jitter (udp_jitter first transit sp) \<le> D"
proof -
  let ?d = "\<bar>transit - prev_transit (if first then sp\<lparr>prev_transit := transit\<rparr> else sp)\<bar>"
  have d: "0 \<le> ?d" "?d \<le> D" using assms by (cases first; simp)+
  have j: "jitter (udp_jitter first transit sp) = jitter sp + (?d - jitter sp) / 16"
    by (simp add: udp_jitter_def Let_def)
  show ?thesis unfolding j using d assms(1,2) by (simp add: field_simps)
qed

section \<open>The contract of the send routines\<close>

text \<open>What a routine leaves alone: everything of the test but the flag that the data is at its end.\<close>

definition only_done :: "iperf_test \<Rightarrow> iperf_test \<Rightarrow> bool" where
  "only_done t t' \<longleftrightarrow> (\<exists>d. t' = t\<lparr>test_done := d\<rparr>)"

lemma only_done_refl [simp]: "only_done t t"
  unfolding only_done_def by (rule exI [of _ "test_done t"]) simp

lemma only_done_upd [simp]: "only_done t (t\<lparr>test_done := d\<rparr>)"
  by (auto simp: only_done_def)

lemma only_done_trans: "only_done t t1 \<Longrightarrow> only_done t1 t2 \<Longrightarrow> only_done t t2"
  by (auto simp: only_done_def)

definition send_ok :: "iperf_test \<Rightarrow> iperf_stream \<Rightarrow> world \<Rightarrow> int \<times> iperf_stream \<times> iperf_test \<times> world \<Rightarrow> bool" where
  "send_ok t sp w = (\<lambda>(r, sp', t', w'). later w w' \<and> only_done t t'
      \<and> sid sp' = sid sp \<and> sender sp' = sender sp \<and> socket sp' = socket sp \<and> green_light sp' = green_light sp
      \<and> bytes_sent (result sp') = bytes_sent (result sp) + (if r < 0 then 0 else word_of_int r)
      \<and> bytes_received (result sp') = bytes_received (result sp)
      \<and> start_time_fixed (result sp') = start_time_fixed (result sp))"

locale sender_op =
  fixes snd :: stream_op
  assumes snd_ok: "post (snd t sp w) (send_ok t sp w)"

lemma Nwrite_Some:
  assumes "Nwrite f buf n prot w = Some (r, w')" "n \<le> length buf"
  shows "later w w'" and "0 \<le> r \<Longrightarrow> bytes_written f (events w w') = take (nat r) buf \<and> nat r \<le> n"
  using nwrite_loop_inv [of f buf n n w r w'] assms by (auto simp: Nwrite_def)

lemma Nsendfile_Some: "Nsendfile f t buf n w = Some (r, w') \<Longrightarrow> later w w'"
  using nsendfile_loop_inv [of f t n n w r w'] by (auto simp: Nsendfile_def)

lemma Nrecv_no_select_Some:
  assumes "Nrecv_no_select f n prot so w = Some (r, got, w')"
  shows "later w w'" and "got = bytes_read f (events w w')" and "length got \<le> n"
    and "0 \<le> r \<Longrightarrow> r = int (length got)"
  using nrecv_no_select_inv [of f n so n "[]" w r got w'] assms by (auto simp: Nrecv_no_select_def)

lemma post_sized: "(\<And>k. n = int k \<Longrightarrow> k \<le> length buf \<Longrightarrow> Q k) \<Longrightarrow> post (sized n buf) Q"
  by (auto simp: sized_def post_def)

lemma post_store: "(\<And>b. length b = length buf \<Longrightarrow> Q b) \<Longrightarrow> post (store off bs buf) Q"
  by (auto simp: store_def post_def)

lemma post_load: "(\<And>b. Q b) \<Longrightarrow> post (load off n buf) Q"
  by (auto simp: load_def post_def)

lemma post_stamp: "(\<And>b. length b = length buf \<Longrightarrow> Q b) \<Longrightarrow> post (stamp_header c b pc buf) Q"
  unfolding stamp_header_def by (rule post_store)

lemma post_Nwrite: "later v w \<Longrightarrow> n \<le> length buf \<Longrightarrow> (\<And>r w'. later v w' \<Longrightarrow> Q (r, w'))
    \<Longrightarrow> post (Nwrite f buf n prot w) Q"
  by (rule post_2I) (auto dest: Nwrite_Some(1) later_trans)

lemma post_Nsendfile: "later v w \<Longrightarrow> (\<And>r w'. later v w' \<Longrightarrow> Q (r, w')) \<Longrightarrow> post (Nsendfile f t buf n w) Q"
  by (rule post_2I) (auto dest: Nsendfile_Some later_trans)

lemma post_clock: "later v w \<Longrightarrow> (\<And>r t' w'. later v w' \<Longrightarrow> Q (r, t', w')) \<Longrightarrow> post (iperf_time_now t w) Q"
  by (rule post_3I) (auto dest: time_now_Some later_trans)

lemma post_read: "later v w \<Longrightarrow> (\<And>r bs w'. later v w' \<Longrightarrow> Q (r, bs, w')) \<Longrightarrow> post (sys_read f n w) Q"
  by (rule post_3I) (auto dest: sys_read_Some later_trans)

lemmas later_rules = post_sized post_store post_load post_stamp post_Nwrite post_Nsendfile post_clock post_read

lemmas sent_simps = count_sent_def upd_result_def send_ok_def

interpretation tcp: sender_op iperf_tcp_send
  by unfold_locales (simp add: iperf_tcp_send_def, auto simp: sent_simps intro!: later_rules)

interpretation sctp: sender_op iperf_sctp_send
  by unfold_locales (simp add: iperf_sctp_send_def, auto simp: sent_simps intro!: later_rules)

interpretation udp: sender_op iperf_udp_send
  by unfold_locales (simp add: iperf_udp_send_def, auto simp: sent_simps intro!: later_rules)

text \<open>The -F routine has the contract when the routine it calls has it.\<close>

lemma disk_fill_ok: "post (disk_fill t sp w) (\<lambda>(bl, sp1, t1, w1). later w w1 \<and> only_done t t1
    \<and> result sp1 = result sp \<and> sid sp1 = sid sp \<and> sender sp1 = sender sp \<and> socket sp1 = socket sp
    \<and> green_light sp1 = green_light sp)"
  unfolding disk_fill_def by (simp, auto intro!: later_rules)

lemma disk_slide_ok: "post (disk_slide blk sp) (\<lambda>sp1. result sp1 = result sp \<and> sid sp1 = sid sp
    \<and> sender sp1 = sender sp \<and> socket sp1 = socket sp \<and> green_light sp1 = green_light sp)"
  unfolding disk_slide_def by (simp, auto intro!: later_rules)

context sender_op
begin

lemma diskfile_ok: "sender_op (diskfile_send snd)"
proof
  fix t sp w
  show "post (diskfile_send snd t sp w) (send_ok t sp w)"
    unfolding diskfile_send_def
    apply simp
    apply (rule post_mono [OF disk_fill_ok])
    apply clarsimp
    apply (rule conjI)
     apply (auto simp: send_ok_def intro: only_done_trans) []
    apply clarsimp
    apply (rule post_mono [OF snd_ok])
    apply clarsimp
    apply (rule conjI)
     apply (auto simp: send_ok_def intro: only_done_trans later_trans) []
    apply clarsimp
    apply (rule post_mono [OF disk_slide_ok])
    apply (auto simp: send_ok_def intro: only_done_trans later_trans) []
    done
qed

end

interpretation disk_tcp: sender_op "diskfile_send iperf_tcp_send"
  by (rule tcp.diskfile_ok)

interpretation disk_sctp: sender_op "diskfile_send iperf_sctp_send"
  by (rule sctp.diskfile_ok)

interpretation disk_udp: sender_op "diskfile_send iperf_udp_send"
  by (rule udp.diskfile_ok)

text \<open>The routine of a stream, for the three transports of the program itself.\<close>

abbreviation own_transport :: "iperf_test \<Rightarrow> bool" where
  "own_transport t \<equiv> protocol t \<in> {Ptcp, Pudp, Psctp}"

lemma disk_fill_protocol:
  "post (disk_fill t sp w) (\<lambda>(bl, sp1, t1, w1). protocol t1 = protocol t)"
  by (rule post_mono [OF disk_fill_ok]) (auto simp: only_done_def)

lemma diskfile_cong:
  assumes "\<And>t1 sp w. protocol t1 = protocol t \<Longrightarrow> f t1 sp w = g t1 sp w"
  shows "diskfile_send f t sp w = diskfile_send g t sp w"
proof -
  have p: "protocol t1 = protocol t" if "disk_fill t sp w = Some (bl, sp1, t1, w1)" for bl sp1 t1 w1
    using postD [OF disk_fill_protocol that] by simp
  show ?thesis
  proof (cases "disk_fill t sp w")
    case (Some x)
    with p assms show ?thesis by (cases x) (simp add: diskfile_send_def)
  qed (simp add: diskfile_send_def)
qed

lemma stream_send_own:
  assumes "own_transport t"
  shows "stream_send q t sp w =
    (case snd_fn sp of Proto_routine \<Rightarrow> id | Diskfile_routine \<Rightarrow> diskfile_send)
      (if protocol t = Ptcp then iperf_tcp_send else if protocol t = Pudp then iperf_udp_send else iperf_sctp_send) t sp w"
proof -
  have "diskfile_send (proto_send q) t sp w = diskfile_send (if protocol t = Ptcp then iperf_tcp_send
      else if protocol t = Pudp then iperf_udp_send else iperf_sctp_send) t sp w"
    by (rule diskfile_cong) (use assms in \<open>auto simp: proto_send_def\<close>)
  with assms show ?thesis by (auto simp: stream_send_def proto_send_def split: handler.split)
qed

lemma stream_send_ok: "own_transport t \<Longrightarrow> post (stream_send q t sp w) (send_ok t sp w)"
  using tcp.snd_ok udp.snd_ok sctp.snd_ok disk_tcp.snd_ok disk_udp.snd_ok disk_sctp.snd_ok
  by (auto simp: stream_send_own split: handler.split)

section \<open>The calls return\<close>

text \<open>A loop over n bytes makes at most n calls: with that many replies on the tape it returns.\<close>

lemma sys_write_total: "replies w \<noteq> [] \<Longrightarrow> \<exists>r w'. sys_write f buf w = Some (r, w') \<and> length (replies w') = length (replies w) - 1"
  by (cases "replies w"; cases "hd (replies w)") (auto simp: sys_write_def next_reply_def emit_def Let_def)

lemma nwrite_loop_total:
  "nleft \<le> length (replies w) \<Longrightarrow> nleft \<le> length buf
    \<Longrightarrow> \<exists>r w'. nwrite_loop f buf count nleft w = Some (r, w') \<and> length (replies w) \<le> length (replies w') + nleft"
proof (induction f buf count nleft w rule: nwrite_loop.induct)
  case (1 f buf count nleft w)
  show ?case
  proof (cases "nleft = 0")
    case True
    then show ?thesis by (simp add: nwrite_loop.simps)
  next
    case False
    then obtain r1 w1 where wr: "sys_write f (take nleft buf) w = Some (r1, w1)"
      and l1: "length (replies w1) = length (replies w) - 1"
      using sys_write_total [of w f "take nleft buf"] 1(2) by fastforce
    show ?thesis
    proof (cases "r1 \<le> 0")
      case True
      with False wr l1 1(2) show ?thesis by (subst nwrite_loop.simps) (auto simp: le_diff_conv)
    next
      case pos: False
      from wr have "nat r1 \<le> nleft" using sys_write_Some [OF wr] by auto
      with pos 1(2,3) l1 have "\<exists>r w'. nwrite_loop f (drop (nat r1) buf) count (nleft - nat r1) w1 = Some (r, w')
          \<and> length (replies w1) \<le> length (replies w') + (nleft - nat r1)"
        by (intro 1(1) [OF False wr refl]) auto
      with False pos wr l1 \<open>nat r1 \<le> nleft\<close> show ?thesis by (subst nwrite_loop.simps) auto
    qed
  qed
qed

lemma Nwrite_total:
  "n \<le> length (replies w) \<Longrightarrow> n \<le> length buf \<Longrightarrow> \<exists>r w'. Nwrite f buf n prot w = Some (r, w')"
  using nwrite_loop_total [of n w buf f n] by (auto simp: Nwrite_def)

lemma recv_total: "replies w \<noteq> [] \<Longrightarrow> \<exists>r bs w'. recv_or_read f n so w = Some (r, bs, w')
    \<and> length (replies w') = length (replies w) - 1"
  by (cases "replies w"; cases "hd (replies w)")
    (auto simp: recv_or_read_def sys_read_def sys_recv_def next_reply_def emit_def)

lemma nrecv_no_select_total:
  "nleft \<le> length (replies w)
    \<Longrightarrow> \<exists>r got w'. nrecv_no_select_loop f count so nleft buf w = Some (r, got, w')
          \<and> length (replies w) \<le> length (replies w') + nleft"
proof (induction f count so nleft buf w rule: nrecv_no_select_loop.induct)
  case (1 f count so nleft buf w)
  show ?case
  proof (cases "nleft = 0")
    case True
    then show ?thesis by (simp add: nrecv_no_select_loop.simps)
  next
    case False
    then obtain r1 bs w1 where rd: "recv_or_read f nleft so w = Some (r1, bs, w1)"
      and l1: "length (replies w1) = length (replies w) - 1"
      using recv_total [of w f nleft so] 1(2) by fastforce
    show ?thesis
    proof (cases "r1 \<le> 0")
      case True
      with False rd l1 1(2) show ?thesis by (subst nrecv_no_select_loop.simps) (auto simp: le_diff_conv)
    next
      case pos: False
      have c: "bytes_copied r1 nleft so \<noteq> 0" "bytes_copied r1 nleft so \<le> nleft"
        using pos False recv_or_read_Some [OF rd] by (auto simp: bytes_copied_def split: if_splits)
      with 1(2) l1 have "\<exists>r got w'. nrecv_no_select_loop f count so (nleft - bytes_copied r1 nleft so) (buf @ bs) w1
            = Some (r, got, w') \<and> length (replies w1) \<le> length (replies w') + (nleft - bytes_copied r1 nleft so)"
        by (intro 1(1) [OF False rd refl refl]) (use pos in auto)
      with False pos rd l1 c show ?thesis by (subst nrecv_no_select_loop.simps) auto
    qed
  qed
qed

lemma clock_total: "replies w \<noteq> [] \<Longrightarrow> \<exists>r t' w'. iperf_time_now t w = Some (r, t', w')
    \<and> length (replies w') = length (replies w) - 1"
  by (cases "replies w"; cases "hd (replies w)")
    (auto simp: iperf_time_now_def next_reply_def emit_def clock_gettime_helper_def)

lemma bind_total: "m = Some x \<Longrightarrow> f x = Some y \<Longrightarrow> m \<bind> f = Some y"
  by simp

text \<open>With a buffer of the block size, which is at least the header, sending and receiving a UDP
  datagram stays within the buffer.\<close>

definition udp_buffer_ok :: "iperf_test \<Rightarrow> iperf_stream \<Rightarrow> bool" where
  "udp_buffer_ok t sp \<longleftrightarrow> MIN_UDP_BLOCKSIZE \<le> blksize (settings t) \<and> int (length (buffer sp)) = blksize (settings t)"

lemma udp_send_total:
  assumes b: "udp_buffer_ok t sp" and fuel: "nat (blksize (settings t)) < length (replies w)"
  shows "\<exists>y. iperf_udp_send t sp w = Some y"
proof -
  let ?n = "nat (blksize (settings t))"
  from fuel have "replies w \<noteq> []" by auto
  then obtain r b t' w1 where now: "iperf_time_now zero_time w = Some (b, t', w1)"
    and l: "length (replies w1) = length (replies w) - 1"
    using clock_total by blast
  have n: "16 \<le> ?n" "length (buffer sp) = ?n" using b by (auto simp: udp_buffer_ok_def)
  let ?h = "udp_header (udp_counters_64bit t \<noteq> 0) t' (packet_count sp + 1)"
  have st: "stamp_header (udp_counters_64bit t \<noteq> 0) t' (packet_count sp + 1) (buffer sp)
      = Some (?h @ drop (length ?h) (buffer sp))"
    using n by (auto simp: stamp_header_def store_def header_length)
  let ?buf = "?h @ drop (length ?h) (buffer sp)"
  have lb: "length ?buf = ?n" using n by (auto simp: header_length)
  have sz: "sized (blksize (settings t)) ?buf = Some ?n"
    using lb b by (auto simp: sized_def udp_buffer_ok_def)
  obtain r w2 where wr: "Nwrite (socket sp) ?buf ?n Pudp w1 = Some (r, w2)"
  proof -
    have "?n \<le> length (replies w1)" using fuel l by linarith
    from Nwrite_total [OF this eq_refl [OF lb [symmetric]], of "socket sp" Pudp] that show thesis by blast
  qed
  show ?thesis
    using now st sz wr by (simp add: iperf_udp_send_def Let_def)
qed

lemma read_header_total: "16 \<le> length buf \<Longrightarrow> \<exists>y. read_header c buf = Some y"
  by (simp add: read_header_def load_def)

lemma udp_recv_total:
  assumes b: "udp_buffer_ok t sp" and fuel: "nat (blksize (settings t)) < length (replies w)"
  shows "\<exists>y. iperf_udp_recv t sp w = Some y"
proof -
  let ?trunc = "skip_rx_copy (settings t) \<noteq> 0"
  let ?n = "nat (if ?trunc then 16 else blksize (settings t))"
  have n: "?n \<le> length (buffer sp)" "?n < length (replies w)" "16 \<le> length (buffer sp)"
    using b fuel by (auto simp: udp_buffer_ok_def)
  have sz: "sized (if ?trunc then 16 else blksize (settings t)) (buffer sp) = Some ?n"
    using n b by (auto simp: sized_def udp_buffer_ok_def)
  obtain r got w1 where rd: "Nrecv_no_select (socket sp) ?n Pudp (if ?trunc then MSG_TRUNC else 0) w = Some (r, got, w1)"
    and l: "length (replies w) \<le> length (replies w1) + ?n"
    using nrecv_no_select_total [of ?n w] n by (fastforce simp: Nrecv_no_select_def)
  have lg: "length got \<le> ?n" by (rule Nrecv_no_select_Some(3) [OF rd])
  let ?buf = "got @ drop (length got) (buffer sp)"
  have st: "store 0 got (buffer sp) = Some ?buf" using lg n by (auto simp: store_def)
  have lb: "16 \<le> length ?buf" using lg n by auto
  obtain y where h: "read_header (udp_counters_64bit t \<noteq> 0) ?buf = Some y" using read_header_total [OF lb] by blast
  have "replies w1 \<noteq> []" using l n by auto
  then obtain c t' w2 where now: "iperf_time_now zero_time w1 = Some (c, t', w2)" using clock_total by blast
  have cr: "buffer (count_received r s) = buffer s" for r s
    by (simp add: count_received_def upd_result_def)
  obtain ts pc where y: "y = (ts, pc)" by (cases y)
  show ?thesis
    using sz rd st h now y cr by (simp add: iperf_udp_recv_def Let_def)
qed

section \<open>On the wire\<close>

text \<open>A datagram that was sent starts with the header of the packet it was counted as.\<close>

lemma udp_send_wire:
  assumes run: "iperf_udp_send t sp w = Some (r, sp', t', w')" and r: "r = blksize (settings t)"
    and b: "udp_buffer_ok t sp"
  shows "packet_count sp' = packet_count sp + 1"
    and "\<exists>now. take (if udp_counters_64bit t \<noteq> 0 then 16 else 12) (bytes_written (socket sp) (events w w'))
           = udp_header (udp_counters_64bit t \<noteq> 0) now (packet_count sp')"
    and "int (length (bytes_written (socket sp) (events w w'))) = blksize (settings t)"
proof -
  let ?c = "udp_counters_64bit t \<noteq> 0"
  have r0: "0 < r" using r b by (simp add: udp_buffer_ok_def)
  obtain c now w1 buf n where now: "iperf_time_now zero_time w = Some (c, now, w1)"
    and st: "stamp_header ?c now (packet_count sp + 1) (buffer sp) = Some buf"
    and sz: "sized (blksize (settings t)) buf = Some n"
    and wr: "Nwrite (socket sp) buf n Pudp w1 = Some (r, w')"
    and pc: "packet_count sp' = packet_count sp + 1"
    using run r0 by (auto simp: iperf_udp_send_def bind_eq_Some_conv Let_def count_sent_def upd_result_def split: if_splits)
  have lb: "length buf = length (buffer sp)" using st store_length by (auto simp: stamp_header_def)
  have n: "n = length buf" using sz lb b by (auto simp: sized_def udp_buffer_ok_def split: if_splits)
  have ev: "bytes_written (socket sp) (events w1 w') = take (nat r) buf" "later w1 w'"
    using Nwrite_Some [OF wr] n r0 by auto
  have "events w w' = EvClock # events w1 w'"
    using time_now_Some [OF now] events_append [of w w1 w'] ev by simp
  then have all: "bytes_written (socket sp) (events w w') = buf"
    using ev n lb r b by (simp add: udp_buffer_ok_def) linarith
  have "take (length (udp_header ?c now (packet_count sp + 1))) buf = udp_header ?c now (packet_count sp + 1)"
    using store_prefix [of "udp_header ?c now (packet_count sp + 1)" "[]" "buffer sp" buf] st
    by (simp add: stamp_header_def)
  then show "\<exists>now. take (if ?c then 16 else 12) (bytes_written (socket sp) (events w w'))
      = udp_header ?c now (packet_count sp')"
    unfolding all pc header_length by blast
  show "packet_count sp' = packet_count sp + 1" by (rule pc)
  show "int (length (bytes_written (socket sp) (events w w'))) = blksize (settings t)"
    using all lb b by (simp add: udp_buffer_ok_def)
qed

text \<open>What a TCP stream counts as sent is what it wrote; what is left of the block is kept in
  pending_size.\<close>

lemma tcp_send_wire:
  assumes run: "iperf_tcp_send t sp w = Some (r, sp', t', w')" and z: "zerocopy t = 0" and r: "0 \<le> r"
  shows "int (length (bytes_written (socket sp) (events w w'))) = r"
    and "bytes_sent (result sp') = bytes_sent (result sp) + word_of_int r"
    and "pending_size sp' = (if pending_size sp = 0 then blksize (settings t) else pending_size sp) - r"
    and "0 \<le> pending_size sp'"
proof -
  let ?p = "if pending_size sp = 0 then blksize (settings t) else pending_size sp"
  obtain n where sz: "sized ?p (buffer sp) = Some n"
    and wr: "Nwrite (socket sp) (buffer sp) n Ptcp w = Some (r, w')"
    and sp': "sp' = count_sent r (sp\<lparr>pending_size := ?p - r\<rparr>)"
    using run r z by (auto simp: iperf_tcp_send_def bind_eq_Some_conv Let_def split: if_splits)
  have n: "?p = int n" "n \<le> length (buffer sp)" using sz by (auto simp: sized_def split: if_splits)
  have ev: "bytes_written (socket sp) (events w w') = take (nat r) (buffer sp)" "nat r \<le> n"
    using Nwrite_Some [OF wr n(2)] r by auto
  then have "length (bytes_written (socket sp) (events w w')) = nat r" using n by simp
  then show "int (length (bytes_written (socket sp) (events w w'))) = r" using r by simp
  show "bytes_sent (result sp') = bytes_sent (result sp) + word_of_int r"
    by (simp add: sp' count_sent_def)
  show pend: "pending_size sp' = ?p - r" by (simp add: sp' count_sent_def upd_result_def)
  show "0 \<le> pending_size sp'" unfolding pend using n ev r by linarith
qed

text \<open>A TCP stream counts what it read while the test runs, and nothing at other times.\<close>

lemma tcp_recv_wire:
  assumes run: "iperf_tcp_recv t sp w = Some (r, sp', t', w')" and r: "0 \<le> r"
  shows "int (length (bytes_read (socket sp) (events w w'))) = r"
    and "bytes_received (result sp')
      = bytes_received (result sp) + (if state t = TEST_RUNNING then word_of_int r else 0)"
    and "t' = t"
proof -
  obtain n so got where rd: "Nrecv_no_select (socket sp) n Ptcp so w = Some (r, got, w')"
    using run r by (auto simp: iperf_tcp_recv_def bind_eq_Some_conv Let_def split: if_splits)
  show "int (length (bytes_read (socket sp) (events w w'))) = r"
    using Nrecv_no_select_Some(2,4) [OF rd] r by simp
  show "bytes_received (result sp')
      = bytes_received (result sp) + (if state t = TEST_RUNNING then word_of_int r else 0)" "t' = t"
    using run r by (auto simp: iperf_tcp_recv_def bind_eq_Some_conv Let_def count_received_def split: if_splits)
qed

end
