(* ===== verification/Iperf_Pacing.thy ===== *)
theory Iperf_Pacing
  imports Iperf_Transfer_Ok
begin

text \<open>
  Pacing in src/iperf_api.c: iperf_check_throttle with its sleep until the average rate is down to
  the target, iperf_check_total_rate for the server's limit on all streams, the rounds
  iperf_send_mt and iperf_recv_mt of a worker thread, iperf_init_test and iperf_create_send_timers.
  The modelled build has clock_nanosleep.
\<close>

section \<open>iperf_check_throttle\<close>

abbreviation (input) SEC_TO_NS :: int where "SEC_TO_NS \<equiv> 1000000000"

text \<open>Division of doubles; an infinity or NaN has no integer value, so a result for a zero divisor
  is never needed.\<close>

definition fdiv :: "real \<Rightarrow> real \<Rightarrow> real option" where
  "fdiv a b = (if b = 0 then None else Some (a / b))"

text \<open>A signed 64-bit result, which must not overflow.\<close>

definition s64 :: "int \<Rightarrow> int option" where
  "s64 n = (if s64_min \<le> n \<and> n \<le> s64_max then Some n else None)"

text \<open>The time to wait in nanoseconds: the bits sent too much over the rate.\<close>

definition time_to_green_light :: "u64 \<Rightarrow> real \<Rightarrow> u64 \<Rightarrow> int option" where
  "time_to_green_light bits_sent seconds rat = do {
     delta_bits \<leftarrow> double_to_s64 (real (unat bits_sent) - seconds * real (unat rat));
     ns_bits \<leftarrow> s64 (SEC_TO_NS * delta_bits);
     Some (sint ((word_of_int ns_bits :: u64) div rat)) }"

text \<open>clock_nanosleep to an absolute time is repeated while it is interrupted. It returns the error
  number itself, which is not zero.\<close>

function sleep_until :: "int \<Rightarrow> int \<Rightarrow> world \<Rightarrow> (int \<times> world) option" where
  "sleep_until s ns w =
     (case next_reply w of
        None \<Rightarrow> None
      | Some (Fail e, w) \<Rightarrow> if e = EINTR then sleep_until s ns w else Some (if e = 0 then EINVAL else e, w)
      | Some (Ret _ _, w) \<Rightarrow> Some (0, emit (EvSleep s ns) w))"
  by pat_completeness auto
termination
  by (relation "measure (\<lambda>(s, ns, w). length (replies w))") (auto simp: next_reply_Some)

declare sleep_until.simps [simp del]

text \<open>The wait: the time now, the time to wake up, and the sleep.\<close>

definition wait_for_green :: "int \<Rightarrow> iperf_stream \<Rightarrow> world \<Rightarrow> (iperf_stream \<times> world) option" where
  "wait_for_green ttgl sp w = do {
     (r, w) \<leftarrow> next_reply w;
     case r of
       Fail e \<Rightarrow> Some (sp, emit EvClock (w\<lparr>errno := e\<rparr>))
     | Ret v _ \<Rightarrow> do {
         let tv_sec = v div SEC_TO_NS;
         ns \<leftarrow> s64 (v mod SEC_TO_NS + ttgl);
         (ret, w) \<leftarrow> (if ns < SEC_TO_NS then sleep_until tv_sec ns (emit EvClock w)
                     else sleep_until (tv_sec + ns div SEC_TO_NS) (ns mod SEC_TO_NS) (emit EvClock w));
         Some (if ret = 0 then sp\<lparr>green_light := 1\<rparr> else sp, w) } }"

definition iperf_check_throttle ::
    "iperf_test \<Rightarrow> iperf_stream \<Rightarrow> iperf_time \<Rightarrow> world \<Rightarrow> (iperf_stream \<times> world) option" where
  "iperf_check_throttle t sp now w =
     (if test_done t \<noteq> 0 \<or> rate (settings t) = 0 then Some (sp, w)
      else do {
        let seconds = iperf_time_in_secs (snd (iperf_time_diff (start_time_fixed (result sp)) now));
        let bits_sent = bytes_sent (result sp) * 8;
        quotient \<leftarrow> fdiv (real (unat bits_sent)) seconds;
        bits_per_second \<leftarrow> double_to_u64 quotient;
        let missing_rate = sint (rate (settings t) - bits_per_second);
        let sp = sp\<lparr>green_light := (if missing_rate > 0 then 1 else 0)\<rparr>;
        if missing_rate < 0 then do {
          ttgl \<leftarrow> time_to_green_light bits_sent seconds (rate (settings t));
          if ttgl \<ge> 0 then wait_for_green ttgl sp w else Some (sp, w) }
        else Some (sp, w) })"

section \<open>iperf_check_total_rate\<close>

text \<open>The ring of the traffic of the last intervals. An index out of the ring is undefined.\<close>

definition iperf_check_total_rate :: "iperf_test \<Rightarrow> u64 \<Rightarrow> iperf_test option" where
  "iperf_check_total_rate t last_interval_bytes =
     (if test_done t \<noteq> 0 \<or> bitrate_limit (settings t) = 0 then Some t
      else do {
        let n = bitrate_limit_stats_per_interval (settings t);
        let i = bitrate_limit_last_interval_index t + 1;
        let i = (if i \<ge> word_of_int n then 0 else i);
        let t = t\<lparr>bitrate_limit_last_interval_index := i\<rparr>;
        let ring = bitrate_limit_intervals_traffic_bytes t;
        if unat i \<ge> length ring then None else do {
        let t = t\<lparr>bitrate_limit_intervals_traffic_bytes := ring[unat i := last_interval_bytes],
                 bitrate_limit_stats_count := bitrate_limit_stats_count t + 1\<rparr>;
        if bitrate_limit_stats_count t < word_of_int n then Some t
        else if nat n > length ring then None
        else do {
          let total_bytes = sum_list (take (nat n) (bitrate_limit_intervals_traffic_bytes t));
          let seconds = stats_interval t * of_int n;
          quotient \<leftarrow> fdiv (real (unat (total_bytes * 8))) seconds;
          bits_per_second \<leftarrow> double_to_u64 quotient;
          Some (if bits_per_second > bitrate_limit (settings t) then t\<lparr>bitrate_limit_exceeded := 1\<rparr> else t) } } })"

section \<open>iperf_send_mt and iperf_recv_mt\<close>

definition multisend_count :: "iperf_test \<Rightarrow> int" where
  "multisend_count t =
     (if burst (settings t) \<noteq> 0 then burst (settings t)
      else if rate (settings t) = 0 then multisend t
      else 1)"

definition count_block :: "int \<Rightarrow> iperf_stream \<Rightarrow> iperf_test \<Rightarrow> iperf_test" where
  "count_block r sp t =
     (let t = t\<lparr>test_bytes_sent := test_bytes_sent t + word_of_int r\<rparr>
      in if pending_size sp = 0 then t\<lparr>blocks_sent := blocks_sent t + 1\<rparr> else t)"

text \<open>The check after a block, against the time taken after the first block of the round.\<close>

definition throttle_block :: "bool \<Rightarrow> bool \<Rightarrow> iperf_time \<Rightarrow> iperf_test \<Rightarrow> iperf_stream \<Rightarrow> world
    \<Rightarrow> (iperf_time \<times> iperf_stream \<times> world) option" where
  "throttle_block per_message message_sent now t sp w =
     (if \<not> per_message then Some (now, sp, w)
      else if message_sent then do {
        (sp, w) \<leftarrow> iperf_check_throttle t sp now w;
        Some (now, sp, w) }
      else do {
        (_, now, w) \<leftarrow> iperf_time_now now w;
        (sp, w) \<leftarrow> iperf_check_throttle t sp now w;
        Some (now, sp, w) })"

text \<open>The loop over the blocks of a round, after the number of blocks left. The flag message_sent
  and the time of the first block of the round are handed on. The last result is None while the
  stream can go on, and the error that ends the function otherwise.\<close>

fun send_blocks :: "stream_op \<Rightarrow> bool \<Rightarrow> nat \<Rightarrow> bool \<Rightarrow> iperf_time \<Rightarrow> iperf_test \<Rightarrow> iperf_stream \<Rightarrow> world
    \<Rightarrow> (int option \<times> bool \<times> iperf_stream \<times> iperf_test \<times> world) option" where
  "send_blocks sndf per_message 0 message_sent now t sp w = Some (None, message_sent, sp, t, w)"
| "send_blocks sndf per_message (Suc n) message_sent now t sp w =
     (if green_light sp = 0 then Some (None, message_sent, sp, t, w)
      else if n > 0 \<and> bytes (settings t) \<noteq> 0 \<and> test_bytes_sent t \<ge> bytes (settings t)
           \<or> n > 0 \<and> blocks (settings t) \<noteq> 0 \<and> blocks_sent t \<ge> blocks (settings t)
      then Some (None, message_sent, sp, t, w)
      else do {
        (r, sp, t, w) \<leftarrow> sndf t sp w;
        if r < 0 then
          (if r = NET_SOFTERROR then Some (None, message_sent, sp, t, w)
           else Some (Some r, message_sent, sp, t, w\<lparr>i_errno := IESTREAMWRITE\<rparr>))
        else do {
          let t = count_block r sp t;
          (now, sp, w) \<leftarrow> throttle_block per_message message_sent now t sp w;
          send_blocks sndf per_message n True now t sp w } })"

definition iperf_send_mt :: "stream_op \<Rightarrow> stream_op" where
  "iperf_send_mt sndf t sp w = do {
     let throttle_check = (rate (settings t) \<noteq> 0);
     let per_message = (rate (settings t) \<noteq> 0 \<and> burst (settings t) = 0);
     (res, message_sent, sp, t, w) \<leftarrow>
       send_blocks sndf per_message (nat (multisend_count t)) False zero_time t sp w;
     case res of
       Some r \<Rightarrow> Some (r, sp, t, w)
     | None \<Rightarrow>
         if throttle_check \<and> (\<not> per_message \<or> \<not> message_sent) then do {
           (_, now, w) \<leftarrow> iperf_time_now zero_time w;
           (sp, w) \<leftarrow> iperf_check_throttle t sp now w;
           Some (0, sp, t, w) }
         else Some (0, sp, t, w) }"

definition iperf_recv_mt :: "stream_op \<Rightarrow> stream_op" where
  "iperf_recv_mt rcvf t sp w = do {
     (r, sp, t, w) \<leftarrow> rcvf t sp w;
     if r < 0 then Some (r, sp, t, w\<lparr>i_errno := IESTREAMREAD\<rparr>)
     else Some (0, sp,
       if r > 0 then t\<lparr>test_bytes_received := test_bytes_received t + word_of_int r,
                       blocks_received := blocks_received t + 1\<rparr>
       else t, w) }"

section \<open>iperf_init_test and iperf_create_send_timers\<close>

text \<open>The init function of the protocol and the callback on_test_start, which print and prepare
  the transport, are left to the result of the former.\<close>

definition iperf_init_test :: "int \<Rightarrow> iperf_test \<Rightarrow> world \<Rightarrow> (int \<times> iperf_test \<times> world) option" where
  "iperf_init_test init t w =
     (if init < 0 then Some (-1, t, w)
      else do {
        (r, now, w) \<leftarrow> iperf_time_now zero_time w;
        if r < 0 then Some (-1, t, w\<lparr>i_errno := IEINITTEST\<rparr>)
        else Some (0, t\<lparr>streams := map (upd_result (\<lambda>x. x\<lparr>start_time := now, start_time_fixed := now\<rparr>)) (streams t)\<rparr>, w) })"

definition iperf_create_send_timers :: "iperf_test \<Rightarrow> iperf_test" where
  "iperf_create_send_timers t = t\<lparr>streams := map (\<lambda>sp. sp\<lparr>green_light := 1\<rparr>) (streams t)\<rparr>"

end
