(* ===== verification/Iperf_Pacing_Ok.thy ===== *)
theory Iperf_Pacing_Ok
  imports Iperf_Pacing
begin

text \<open>
  The rounds of a worker count consistently: what a round adds to the test's total is what it adds to
  the stream's counter, for every send routine that keeps the contract sender_op. The throttle waits
  until the average rate is down to the target, and the ring of the server's rate limit holds the
  traffic of the last intervals.
\<close>

section \<open>Rounds of a worker\<close>

lemma post_sleep: "later v w \<Longrightarrow> (\<And>r w'. later v w' \<Longrightarrow> Q (r, w')) \<Longrightarrow> post (sleep_until s ns w) Q"
proof (induction s ns w rule: sleep_until.induct)
  case (1 s ns w)
  have up: "later v (w\<lparr>replies := rs\<rparr>)" if "replies w = r # rs" for r rs
    using that 1(2) by (auto simp: later_def)
  show ?case
  proof (cases "replies w")
    case Nil
    then show ?thesis by (simp add: sleep_until.simps next_reply_def)
  next
    case (Cons r rs)
    note u = up [OF Cons]
    show ?thesis
    proof (cases r)
      case (Fail e)
      have "post (sleep_until s ns (w\<lparr>replies := rs\<rparr>)) Q" if "e = EINTR"
        by (rule 1(1) [of "(r, w\<lparr>replies := rs\<rparr>)", OF _ refl _ that])
          (use Cons Fail u 1(3) in \<open>auto simp: next_reply_def\<close>)
      with Cons Fail u 1(3) show ?thesis
        by (subst sleep_until.simps) (auto simp: next_reply_def)
    next
      case (Ret x y)
      have "later v (emit (EvSleep s ns) (w\<lparr>replies := rs\<rparr>))" using u by (auto simp: later_def emit_def)
      with Cons Ret 1(3) show ?thesis by (subst sleep_until.simps) (auto simp: next_reply_def)
    qed
  qed
qed

definition throttled :: "iperf_stream \<Rightarrow> world \<Rightarrow> iperf_stream \<times> world \<Rightarrow> bool" where
  "throttled sp w = (\<lambda>(sp', w'). later w w' \<and> (\<exists>g. sp' = sp\<lparr>green_light := g\<rparr>))"

lemma green_same: "\<exists>g. sp = sp\<lparr>green_light := g\<rparr>"
  by (rule exI [of _ "green_light sp"]) simp

lemma post_s64: "(\<And>m. Q m) \<Longrightarrow> post (s64 n) Q"
  by (simp add: s64_def)

lemma wait_throttled: "post (wait_for_green d sp w) (throttled sp w)"
proof (cases "replies w")
  case (Cons r rs)
  have l: "later w (emit EvClock (w\<lparr>replies := rs\<rparr>))" "later w (emit EvClock (w\<lparr>replies := rs, errno := e\<rparr>))" for e
    using Cons by (auto simp: later_def emit_def)
  show ?thesis
    using Cons l green_same [of sp]
    by (cases r) (auto simp: wait_for_green_def next_reply_def throttled_def Let_def intro!: post_s64 post_sleep)
qed (simp add: wait_for_green_def next_reply_def)

lemma throttle_ok: "post (iperf_check_throttle t sp now w) (throttled sp w)"
proof -
  have g: "throttled (sp\<lparr>green_light := g\<rparr>) w x \<Longrightarrow> throttled sp w x" for g x
    by (auto simp: throttled_def)
  have s: "throttled sp w (sp, w)" "throttled sp w (sp\<lparr>green_light := g\<rparr>, w)" for g
    using green_same [of sp] by (auto simp: throttled_def)
  show ?thesis
    unfolding iperf_check_throttle_def
    by (auto simp: s Let_def intro!: post_any post_mono [OF wait_throttled] intro: g)
qed

text \<open>What a round does to test and stream: the counters move together, nothing else of the test
  changes but the flag done and the counts of blocks.\<close>

definition counts_only :: "iperf_test \<Rightarrow> iperf_test \<Rightarrow> bool" where
  "counts_only t t' \<longleftrightarrow> (\<exists>d b c. t' = t\<lparr>test_done := d, test_bytes_sent := b, blocks_sent := c\<rparr>)"

lemma counts_only_refl [simp]: "counts_only t t"
  unfolding counts_only_def
  by (intro exI [of _ "test_done t"] exI [of _ "test_bytes_sent t"] exI [of _ "blocks_sent t"]) simp

lemma counts_only_trans: "counts_only t t1 \<Longrightarrow> counts_only t1 t2 \<Longrightarrow> counts_only t t2"
  unfolding counts_only_def by (elim exE) (hypsubst, simp, blast)

lemma counts_only_upd [simp]:
  "counts_only t (t\<lparr>test_done := d\<rparr>)" "counts_only t (t\<lparr>test_bytes_sent := b\<rparr>)" "counts_only t (t\<lparr>blocks_sent := c\<rparr>)"
proof -
  have *: "counts_only t (t\<lparr>test_done := d::int, test_bytes_sent := b, blocks_sent := c\<rparr>)" for d b c
    unfolding counts_only_def by blast
  from * [where b = "test_bytes_sent t" and c = "blocks_sent t"] show "counts_only t (t\<lparr>test_done := d\<rparr>)" by simp
  from * [where d = "test_done t" and c = "blocks_sent t"] show "counts_only t (t\<lparr>test_bytes_sent := b\<rparr>)" by simp
  from * [where d = "test_done t" and b = "test_bytes_sent t"] show "counts_only t (t\<lparr>blocks_sent := c\<rparr>)" by simp
qed

definition round_ok :: "iperf_test \<Rightarrow> iperf_stream \<Rightarrow> world \<Rightarrow> iperf_stream \<Rightarrow> iperf_test \<Rightarrow> world \<Rightarrow> bool" where
  "round_ok t sp w sp' t' w' \<longleftrightarrow> later w w' \<and> sid sp' = sid sp \<and> sender sp' = sender sp \<and> socket sp' = socket sp
     \<and> test_bytes_sent t' - test_bytes_sent t = bytes_sent (result sp') - bytes_sent (result sp)
     \<and> bytes_received (result sp') = bytes_received (result sp)
     \<and> counts_only t t'"

lemma round_refl: "round_ok t sp w sp t w"
  by (simp add: round_ok_def)

lemma round_throttled: "round_ok t sp w sp1 t1 w1 \<Longrightarrow> throttled sp1 w1 (sp2, w2) \<Longrightarrow> round_ok t sp w sp2 t1 w2"
  by (auto simp: round_ok_def throttled_def intro: later_trans)

lemma round_clock: "round_ok t sp w sp1 t1 w1 \<Longrightarrow> later w1 w2 \<Longrightarrow> round_ok t sp w sp1 t1 w2"
  by (auto simp: round_ok_def intro: later_trans)

lemma round_trans:
  assumes "round_ok t sp w sp1 t1 w1" "round_ok t1 sp1 w1 sp2 t2 w2"
  shows "round_ok t sp w sp2 t2 w2"
proof -
  have "counts_only t t2"
    using assms counts_only_trans unfolding round_ok_def by blast
  moreover have "test_bytes_sent t2 - test_bytes_sent t = bytes_sent (result sp2) - bytes_sent (result sp)"
  proof -
    have "test_bytes_sent t2 - test_bytes_sent t
        = (test_bytes_sent t2 - test_bytes_sent t1) + (test_bytes_sent t1 - test_bytes_sent t)" by simp
    also have "\<dots> = (bytes_sent (result sp2) - bytes_sent (result sp1)) + (bytes_sent (result sp1) - bytes_sent (result sp))"
      using assms by (simp only: round_ok_def)
    finally show ?thesis by simp
  qed
  ultimately show ?thesis using assms later_trans [of w w1 w2] unfolding round_ok_def by simp
qed

lemma throttle_block_ok:
  assumes r: "round_ok t sp w sp1 t1 w1"
  shows "post (throttle_block pm ms now t1 sp1 w1) (\<lambda>(_, sp2, w2). round_ok t sp w sp2 t1 w2)"
proof -
  have th: "post (iperf_check_throttle t1 sp1 now1 w2) (\<lambda>(sp2, w3). round_ok t sp w sp2 t1 w3)" if "later w1 w2" for now1 w2
    by (rule post_mono [OF throttle_ok]) (use round_throttled [OF round_clock [OF r that]] in auto)
  show ?thesis
    unfolding throttle_block_def using r th
    by (auto intro!: post_clock [of w1] simp: case_prod_unfold)
qed

context sender_op
begin

lemma block_ok:
  assumes "snd t sp w = Some (r, sp', t', w')" "0 \<le> r"
  shows "round_ok t sp w sp' (count_block r sp' t') w'"
proof -
  note ok = postD [OF snd_ok assms(1)]
  then obtain d where t': "t' = t\<lparr>test_done := d\<rparr>" by (auto simp: send_ok_def only_done_def)
  have "counts_only t (t'\<lparr>test_bytes_sent := b\<rparr>)" "counts_only t (t'\<lparr>test_bytes_sent := b, blocks_sent := c\<rparr>)" for b c
    unfolding t' using counts_only_trans counts_only_upd by blast+
  with ok assms(2) t' show ?thesis by (auto simp: send_ok_def round_ok_def count_block_def Let_def)
qed

lemma soft_ok:
  assumes "snd t sp w = Some (r, sp', t', w')" "r < 0"
  shows "round_ok t sp w sp' t' w'"
  using postD [OF snd_ok assms(1)] assms(2) by (auto simp: send_ok_def round_ok_def only_done_def)

lemma send_blocks_ok:
  "post (send_blocks snd pm n ms now t sp w) (\<lambda>(res, ms', sp', t', w'). round_ok t sp w sp' t' w'
     \<and> (\<forall>r. res = Some r \<longrightarrow> r < NET_SOFTERROR))"
proof (induction n arbitrary: ms now t sp w)
  case 0
  show ?case by (simp add: round_refl)
next
  case (Suc n)
  let ?Q = "\<lambda>(res, ms', sp', t', w'). round_ok t sp w sp' t' w' \<and> (\<forall>r. res = Some r \<longrightarrow> r < NET_SOFTERROR)"
  have go: "post (send_blocks snd pm n True now2 t1 sp2 w2) ?Q" if "round_ok t sp w sp2 t1 w2" for now2 sp2 t1 w2
    using post_mono [OF Suc.IH [of True now2 t1 sp2 w2], of ?Q] round_trans [OF that] by auto
  have one: "post (throttle_block pm ms now t2 sp1 w1) (\<lambda>(now, sp, w). post (send_blocks snd pm n True now t2 sp w) ?Q)"
    if r: "round_ok t sp w sp1 t2 w1" for sp1 t2 w1
    by (rule post_mono [OF throttle_block_ok [OF r]]) (use go in auto)
  show ?case
  proof (cases "snd t sp w")
    case (Some x)
    obtain r sp1 t1 w1 where x: "x = (r, sp1, t1, w1)" by (cases x)
    note run = Some [unfolded x]
    show ?thesis
    proof (cases "r < 0")
      case True
      note ok = soft_ok [OF run True]
      have "round_ok t sp w sp1 t1 (w1\<lparr>i_errno := e\<rparr>)" for e
        by (rule round_clock [OF ok]) (simp add: later_def)
      with ok run True show ?thesis by (simp add: round_refl Let_def)
    next
      case False
      then have ok: "round_ok t sp w sp1 (count_block r sp1 t1) w1" by (intro block_ok [OF run]) simp
      with run False show ?thesis
        by (auto simp: round_refl Let_def intro!: post_mono [OF one [OF ok]])
    qed
  qed (simp add: round_refl)
qed

lemma send_mt_ok:
  "post (iperf_send_mt snd t sp w) (\<lambda>(r, sp', t', w'). round_ok t sp w sp' t' w' \<and> (r = 0 \<or> r < NET_SOFTERROR))"
proof -
  have fin: "post (iperf_time_now zero_time w1) (\<lambda>(_, now, w2). post (iperf_check_throttle t1 sp1 now w2)
      (\<lambda>(sp2, w3). round_ok t sp w sp2 t1 w3))" if r: "round_ok t sp w sp1 t1 w1" for sp1 t1 w1
  proof -
    have "post (iperf_check_throttle t1 sp1 now w2) (\<lambda>(sp2, w3). round_ok t sp w sp2 t1 w3)" if "later w1 w2" for now w2
      by (rule post_mono [OF throttle_ok]) (use round_throttled [OF round_clock [OF r that]] in auto)
    then show ?thesis by (intro post_clock [OF later_refl]) auto
  qed
  have step: "post (case res of Some r \<Rightarrow> Some (r, sp1, t1, w1)
      | None \<Rightarrow> if c then do {
           (_, now, w2) \<leftarrow> iperf_time_now zero_time w1;
           (sp2, w3) \<leftarrow> iperf_check_throttle t1 sp1 now w2;
           Some (0, sp2, t1, w3) }
         else Some (0, sp1, t1, w1)) (\<lambda>(r, sp', t', w'). round_ok t sp w sp' t' w' \<and> (r = 0 \<or> r < NET_SOFTERROR))"
    if "round_ok t sp w sp1 t1 w1" "\<forall>r. res = Some r \<longrightarrow> r < NET_SOFTERROR" for res c sp1 t1 w1
    using that fin [OF that(1)] by (auto simp: case_prod_unfold)
  show ?thesis
    unfolding iperf_send_mt_def Let_def post_bind
    by (rule post_mono [OF send_blocks_ok]) (auto intro!: step [where c = True, unfolded if_True] step [where c = False, unfolded if_False] simp del: post_option post_if post_bind)
qed

end

lemma stream_send_op: "sender_op q \<Longrightarrow> sender_op (stream_send q)"
proof
  fix t sp w
  assume q: "sender_op q"
  have p: "sender_op (proto_send q)"
    by unfold_locales (simp add: proto_send_def tcp.snd_ok udp.snd_ok sctp.snd_ok sender_op.snd_ok [OF q])
  then show "post (stream_send q t sp w) (send_ok t sp w)"
    using sender_op.snd_ok [OF p] sender_op.snd_ok [OF sender_op.diskfile_ok [OF p]]
    by (simp add: stream_send_def split: handler.split)
qed

section \<open>The wait of the throttle\<close>

text \<open>A stream that is ahead of its rate waits so long that the average at the end of the wait is the
  rate, up to a bit and a nanosecond.\<close>

lemma scaled_less: "1000000000 * n < k \<Longrightarrow> x < n + 1 \<Longrightarrow> 1000000000 * x < k + 1000000000" for k n x :: real
  by simp

lemma time_to_green_light_enough:
  assumes ttgl: "time_to_green_light bits_sent seconds rat = Some d" and rat: "rat \<noteq> 0"
    and ahead: "seconds * real (unat rat) \<le> real (unat bits_sent)"
  shows "0 \<le> d" and "real (unat bits_sent) \<le> (seconds + (real_of_int d + 1) / 1000000000) * real (unat rat) + 1"
proof -
  let ?x = "real (unat bits_sent) - seconds * real (unat rat)" and ?R = "uint rat"
  let ?n = "\<lfloor>?x\<rfloor>"
  have x: "0 \<le> ?x" using ahead by simp
  define N where "N = SEC_TO_NS * ?n"
  have run: "time_to_green_light bits_sent seconds rat
      = do { delta \<leftarrow> double_to_s64 ?x; n \<leftarrow> s64 (SEC_TO_NS * delta); Some (sint ((word_of_int n :: u64) div rat)) }"
    by (simp add: time_to_green_light_def)
  obtain m where m: "double_to_s64 ?x = Some m" using ttgl run by (cases "double_to_s64 ?x") auto
  with x have mN: "m = ?n" by (simp add: double_to_s64_def Let_def split: if_splits)
  have "s64 N = Some N \<and> N \<le> s64_max"
    using ttgl unfolding run m mN Option.bind.simps N_def [symmetric] by (simp add: s64_def split: if_splits)
  then have lim: "N \<le> s64_max" and d: "d = sint ((word_of_int N :: u64) div rat)"
    using ttgl unfolding run m mN Option.bind.simps N_def [symmetric] by simp_all
  have R: "0 < ?R" using rat uint_ge_0 [of rat] uint_0_iff [of rat] by linarith
  have n0: "0 \<le> N" using x by (simp add: N_def)
  have "uint ((word_of_int N :: u64) div rat) = N div ?R"
    by (simp only: uint_div to_u64 [OF n0 lim])
  moreover have qb: "0 \<le> N div ?R" "N div ?R \<le> s64_max"
    using n0 R lim zdiv_mono2 [of N 1 ?R] by (simp_all add: pos_imp_zdiv_nonneg_iff)
  ultimately have dd: "d = N div ?R"
    unfolding d by (simp add: sint_uint signed_take_bit_int_eq_self s64_max_def)
  with qb show "0 \<le> d" by simp
  have "N = ?R * (N div ?R) + N mod ?R" by simp
  moreover have "N mod ?R < ?R" using R by simp
  ultimately have "N < (d + 1) * ?R" unfolding dd by (simp only: distrib_right mult.commute [of ?R] mult_1)
  then have "real_of_int N < real_of_int ((d + 1) * ?R)" by (simp only: of_int_less_iff)
  then have "1000000000 * real_of_int ?n < (real_of_int d + 1) * real_of_int ?R" by (simp add: N_def)
  moreover have "?x < real_of_int ?n + 1" by linarith
  ultimately have "1000000000 * ?x < (real_of_int d + 1) * real_of_int ?R + 1000000000"
    by (rule scaled_less)
  moreover have "real_of_int ?R = real (unat rat)" by simp
  ultimately have "1000000000 * ?x < (real_of_int d + 1) * real (unat rat) + 1000000000" by (simp only:)
  then show "real (unat bits_sent) \<le> (seconds + (real_of_int d + 1) / 1000000000) * real (unat rat) + 1"
    by (simp add: field_simps)
qed

lemma sleep_until_slept:
  "sleep_until s ns w = Some (0, w') \<Longrightarrow> later w w' \<and> events w w' = [EvSleep s ns]"
proof (induction s ns w rule: sleep_until.induct)
  case (1 s ns w)
  show ?case
  proof (cases "replies w")
    case Nil
    with 1(2) show ?thesis by (simp add: sleep_until.simps next_reply_def)
  next
    case (Cons r rs)
    let ?w = "w\<lparr>replies := rs\<rparr>"
    have nx: "next_reply w = Some (r, ?w)" using Cons by (simp add: next_reply_def)
    show ?thesis
    proof (cases r)
      case (Fail e)
      with 1(2) nx have "e = EINTR" "sleep_until s ns ?w = Some (0, w')"
        by (subst (asm) sleep_until.simps, auto split: if_splits)+
      with 1(1) [OF nx refl Fail] have "later ?w w' \<and> events ?w w' = [EvSleep s ns]" by simp
      then show ?thesis using Cons by (auto simp: later_def events_def)
    next
      case (Ret x y)
      with 1(2) nx have "w' = emit (EvSleep s ns) ?w" by (subst (asm) sleep_until.simps) auto
      then show ?thesis using Cons by (auto simp: later_def events_def emit_def)
    qed
  qed
qed

text \<open>The average rate of a stream at a time.\<close>

definition elapsed :: "iperf_stream \<Rightarrow> iperf_time \<Rightarrow> real" where
  "elapsed sp now = iperf_time_in_secs (snd (iperf_time_diff (start_time_fixed (result sp)) now))"

definition bits_so_far :: "iperf_stream \<Rightarrow> u64" where
  "bits_so_far sp = bytes_sent (result sp) * 8"

lemma s64_Some: "s64 n = Some m \<longleftrightarrow> m = n \<and> s64_min \<le> n \<and> n \<le> s64_max"
  by (auto simp: s64_def)

lemma wait_slept:
  assumes "wait_for_green d sp w = Some (sp', w')" "green_light sp = 0" "green_light sp' \<noteq> 0"
  shows "\<exists>v bs s ns. hd (replies w) = Ret v bs \<and> s * SEC_TO_NS + ns = v + d \<and> EvSleep s ns \<in> set (events w w')"
proof (cases "replies w")
  case Nil
  with assms show ?thesis by (simp add: wait_for_green_def next_reply_def)
next
  case (Cons r rs)
  let ?w = "emit EvClock (w\<lparr>replies := rs\<rparr>)"
  have lw: "later w ?w" using Cons by (auto simp: later_def emit_def)
  show ?thesis
  proof (cases r)
    case (Fail e)
    with Cons assms show ?thesis by (auto simp: wait_for_green_def next_reply_def)
  next
    case (Ret v bs)
    let ?n = "v mod SEC_TO_NS + d"
    define s ns where s: "s = (if ?n < SEC_TO_NS then v div SEC_TO_NS else v div SEC_TO_NS + ?n div SEC_TO_NS)"
      and ns: "ns = (if ?n < SEC_TO_NS then ?n else ?n mod SEC_TO_NS)"
    have sum: "s * SEC_TO_NS + ns = v + d"
    proof -
      have "v div SEC_TO_NS * SEC_TO_NS + v mod SEC_TO_NS = v" by simp
      moreover have "?n div SEC_TO_NS * SEC_TO_NS + ?n mod SEC_TO_NS = ?n" by simp
      ultimately show ?thesis by (simp add: s ns distrib_right)
    qed
    obtain ret w2 where "sleep_until s ns ?w = Some (ret, w2)" "ret = 0" "w' = w2"
      using assms Cons Ret
      by (auto simp: wait_for_green_def next_reply_def s64_Some bind_eq_Some_conv Let_def s ns split: if_splits)
    then have "later ?w w' \<and> events ?w w' = [EvSleep s ns]" using sleep_until_slept by blast
    then have "EvSleep s ns \<in> set (events w w')" using events_append [OF lw, of w'] by simp
    with sum Cons Ret show ?thesis by auto
  qed
qed

lemma sint_in_range: "s64_min \<le> n \<Longrightarrow> n \<le> s64_max \<Longrightarrow> sint (word_of_int n :: u64) = n"
  by (simp add: s64_max_def s64_min_def sint_sbintrunc' signed_take_bit_int_eq_self)

lemma sint_diff:
  fixes a b :: u64
  assumes "uint a \<le> s64_max" "uint b \<le> s64_max"
  shows "sint (a - b) = uint a - uint b"
proof -
  have eq: "word_of_int (uint a - uint b) = a - b" by simp
  have "s64_min \<le> uint a - uint b" "uint a - uint b \<le> s64_max"
    using assms uint_ge_0 [of a] uint_ge_0 [of b] unfolding s64_min_def s64_max_def by linarith+
  from sint_in_range [OF this] show ?thesis unfolding eq .
qed

text \<open>The stream may go on only when its average rate is below the target, or after a sleep to the
  time at which the average is down to it.\<close>

lemma throttle_green:
  assumes run: "iperf_check_throttle t sp now w = Some (sp', w')" and green: "green_light sp' \<noteq> 0"
    and on: "test_done t = 0" "rate (settings t) \<noteq> 0" "uint (rate (settings t)) \<le> s64_max"
    and small: "real (unat (bits_so_far sp)) < elapsed sp now * 2 ^ 63"
  shows "real (unat (bits_so_far sp)) < elapsed sp now * real (unat (rate (settings t)))
    \<or> (\<exists>v bs s ns d. hd (replies w) = Ret v bs \<and> EvSleep s ns \<in> set (events w w') \<and> s * SEC_TO_NS + ns = v + d
        \<and> real (unat (bits_so_far sp))
            \<le> (elapsed sp now + (real_of_int d + 1) / 1000000000) * real (unat (rate (settings t))) + 1)"
proof -
  let ?b = "real (unat (bits_so_far sp))" and ?e = "elapsed sp now" and ?R = "rate (settings t)"
  have "0 < ?e * 2 ^ 63" by (rule order_le_less_trans [OF of_nat_0_le_iff small])
  then have e: "0 < ?e" by (simp add: zero_less_mult_iff)
  let ?q = "?b / ?e"
  have qn: "0 \<le> ?q" by (rule divide_nonneg_pos [OF of_nat_0_le_iff e])
  have qm: "?q < 2 ^ 63" using e small by (simp add: field_simps)
  obtain B where B: "double_to_u64 ?q = Some B" using qn qm by (simp add: double_to_u64_def)
  have uB: "uint B = \<lfloor>?q\<rfloor>" by (rule double_to_u64_Some(2) [OF B])
  then have "uint B \<le> s64_max" using qm by (simp add: s64_max_def floor_le_iff)
  then have miss: "sint (?R - B) = uint ?R - uint B" using on(3) sint_diff by blast
  have R: "real_of_int (uint ?R) = real (unat ?R)" by simp
  note body = run [unfolded iperf_check_throttle_def Let_def elapsed_def [symmetric] bits_so_far_def [symmetric]]
  show ?thesis
  proof (cases "uint B < uint ?R")
    case True
    then have "?q < real_of_int (uint ?R)" by (simp only: uB floor_less_iff)
    then show ?thesis using e by (simp add: field_simps)
  next
    case False
    show ?thesis
    proof (cases "uint B = uint ?R")
      case True
      then show ?thesis using body on e B miss green by (auto simp: fdiv_def)
    next
      case neq: False
      then have "uint ?R < uint B" using False by simp
      then have ahead: "?e * real (unat ?R) \<le> ?b"
      proof -
        have "real_of_int (uint ?R) \<le> ?q" using \<open>uint ?R < uint B\<close> uB by (simp only: le_floor_iff [symmetric])
        then show ?thesis using e R by (simp add: field_simps)
      qed
      let ?sp = "sp\<lparr>green_light := 0\<rparr>"
      have m0: "\<not> 0 < sint (?R - B)" "sint (?R - B) < 0" using miss \<open>uint ?R < uint B\<close> by simp_all
      obtain d where d: "time_to_green_light (bits_so_far sp) ?e ?R = Some d"
        and wt: "d \<ge> 0 \<longrightarrow> wait_for_green d ?sp w = Some (sp', w')"
        using body on(1,2) e B m0 by (auto simp: fdiv_def bind_eq_Some_conv split: if_splits)
      note enough = time_to_green_light_enough [OF d on(2) ahead]
      from wait_slept [of d ?sp w sp' w'] wt enough(1) green
      obtain v bs s ns where "hd (replies w) = Ret v bs" "s * SEC_TO_NS + ns = v + d" "EvSleep s ns \<in> set (events w w')"
        by auto
      with enough(2) show ?thesis by blast
    qed
  qed
qed

end
