(* ===== verification/Iperf_Rate_Limit.thy ===== *)
theory Iperf_Rate_Limit
  imports Iperf_Pacing_Ok
begin

text \<open>
  The server's rate limit: the ring iperf_check_total_rate keeps is shown to implement a history of
  the traffic of all intervals, newest first, of which the last n are averaged. A ring of the length
  the program gives it is big enough as long as n is at most 60.
\<close>

section \<open>The history\<close>

definition ring_inv :: "nat \<Rightarrow> u64 list \<Rightarrow> iperf_test \<Rightarrow> bool" where
  "ring_inv n hs t \<longleftrightarrow>
     0 < n \<and> n \<le> length (bitrate_limit_intervals_traffic_bytes t) \<and> n < 2147483648
     \<and> bitrate_limit_stats_per_interval (settings t) = int n
     \<and> length hs < 18446744073709551615
     \<and> bitrate_limit_stats_count t = word_of_nat (length hs)
     \<and> bitrate_limit_last_interval_index t = word_of_nat (length hs mod n)
     \<and> (\<forall>k < min n (length hs). bitrate_limit_intervals_traffic_bytes t ! ((length hs - k) mod n) = hs ! k)"

lemma mod_back_inj:
  assumes "k < n" "j < n" "k \<le> L" "j \<le> L" "(L - k) mod n = (L - j) mod (n::nat)"
  shows "k = j"
proof -
  have *: "a = b" if "a \<le> b" "b < n" "b \<le> L" "(L - a) mod n = (L - b) mod n" for a b
  proof -
    have "(L - b + (b - a)) mod n = (L - b) mod n" using that by simp
    then have "n dvd (L - b + (b - a)) - (L - b)" by (rule mod_eq_dvd_iff_nat [THEN iffD1, rotated]) simp
    then have "n dvd b - a" by simp
    then show ?thesis using that by (auto dest: dvd_imp_le)
  qed
  show ?thesis using * [of k j] * [of j k] assms by (cases "k \<le> j") auto
qed

lemma ring_sum:
  fixes f :: "nat \<Rightarrow> 'a::comm_monoid_add"
  assumes "0 < n" "n \<le> L + 1"
  shows "(\<Sum>k<n. f ((L - k) mod n)) = (\<Sum>j<n. f j)"
proof -
  have inj: "inj_on (\<lambda>k. (L - k) mod n) {..<n}"
    using assms by (intro inj_onI) (rule mod_back_inj [of _ n _ L], auto)
  have "(\<lambda>k. (L - k) mod n) ` {..<n} = {..<n}"
    by (rule endo_inj_surj [OF _ _ inj]) (use assms in auto)
  then show ?thesis using sum.reindex [OF inj, of f] by (simp add: comp_def)
qed

lemma sum_list_take_nth: "n \<le> length xs \<Longrightarrow> sum_list (take n xs) = (\<Sum>j<n. xs ! j)"
  by (simp add: sum_list_sum_nth atLeast0LessThan)

lemma ring_total:
  assumes "0 < n" "n \<le> length ring" "n \<le> length hs"
    and "\<forall>k < n. ring ! ((length hs - k) mod n) = hs ! k"
  shows "sum_list (take n ring) = sum_list (take n (hs :: u64 list))"
proof -
  have "sum_list (take n hs) = (\<Sum>k<n. ring ! ((length hs - k) mod n))"
    using assms by (simp add: sum_list_take_nth)
  also have "\<dots> = (\<Sum>j<n. ring ! j)" by (rule ring_sum) (use assms in auto)
  finally show ?thesis using assms by (simp add: sum_list_take_nth)
qed

lemma ring_step:
  fixes ring :: "u64 list"
  assumes n: "0 < n" "n \<le> length ring"
    and h: "\<forall>k < min n (length hs). ring ! ((length hs - k) mod n) = hs ! k"
    and k: "k < min n (length (x # hs))"
  shows "ring[Suc (length hs) mod n := x] ! ((length (x # hs) - k) mod n) = (x # hs) ! k"
proof (cases k)
  case 0
  have "Suc (length hs) mod n < length ring" using n by (meson less_le_trans mod_less_divisor)
  with 0 show ?thesis by simp
next
  case (Suc j)
  have "(length (x # hs) - k) mod n \<noteq> (length (x # hs) - 0) mod n"
    using mod_back_inj [of k n 0 "length (x # hs)"] k n Suc by auto
  then have ne: "(length hs - j) mod n \<noteq> Suc (length hs) mod n" using Suc by simp
  have "ring ! ((length hs - j) mod n) = hs ! j" using h k Suc by simp
  with ne Suc show ?thesis by simp
qed

section \<open>The check\<close>

text \<open>The rate over the last n intervals of which the history has at least n.\<close>

definition average :: "iperf_test \<Rightarrow> nat \<Rightarrow> u64 list \<Rightarrow> real" where
  "average t n hs = real (unat (sum_list (take n hs) * 8)) / (stats_interval t * real n)"

lemma unat_small: "m < 18446744073709551616 \<Longrightarrow> unat (word_of_nat m :: u64) = m"
  by (simp add: unat_of_nat)

lemma index_step:
  assumes "0 < n" "n < 2147483648"
  shows "(if (word_of_nat (L mod n) + 1 :: u64) \<ge> word_of_int (int n) then 0 else word_of_nat (L mod n) + 1)
      = word_of_nat (Suc L mod n)"
proof -
  have m: "L mod n < n" using assms by simp
  have u: "unat (word_of_nat (Suc (L mod n)) :: u64) = Suc (L mod n)" "unat (word_of_nat n :: u64) = n"
    by (rule unat_small, use m assms in linarith)+
  have s: "word_of_nat (L mod n) + 1 = (word_of_nat (Suc (L mod n)) :: u64)" by simp
  have c: "(word_of_int (int n) :: u64) \<le> word_of_nat (Suc (L mod n)) \<longleftrightarrow> n \<le> Suc (L mod n)"
    by (simp only: of_int_of_nat_eq word_le_nat_alt u)
  show ?thesis
    unfolding s c using m by (auto simp: mod_Suc)
qed

lemma iperf_check_total_rate_ok:
  assumes inv: "ring_inv n hs t" and on: "test_done t = 0" "bitrate_limit (settings t) \<noteq> 0"
    and secs: "1 \<le> stats_interval t * real n" and room: "Suc (length hs) < 18446744073709551615"
  shows "\<exists>t'. iperf_check_total_rate t x = Some t' \<and> ring_inv n (x # hs) t'
    \<and> bitrate_limit_exceeded t' =
        (if n \<le> length (x # hs) \<and> \<lfloor>average t n (x # hs)\<rfloor> > uint (bitrate_limit (settings t))
         then 1 else bitrate_limit_exceeded t)"
proof -
  let ?L = "length hs" and ?ring = "bitrate_limit_intervals_traffic_bytes t"
  let ?i = "word_of_nat (Suc ?L mod n) :: u64" and ?ring' = "?ring[Suc ?L mod n := x]"
  note i = inv [unfolded ring_inv_def]
  have n: "0 < n" "n \<le> length ?ring" "n < 2147483648" using i by auto
  have ilt: "Suc ?L mod n < n" using n by simp
  have ui: "unat ?i = Suc ?L mod n" by (rule unat_small) (use ilt n in linarith)
  have ni: "nat (int n) = n" by simp
  define C where "C = (word_of_nat (Suc ?L) :: u64)"
  have cnt: "bitrate_limit_stats_count t + 1 = C" using i by (simp add: C_def)
  have le: "C < word_of_nat n \<longleftrightarrow> Suc ?L < n"
  proof -
    have "unat (word_of_nat (Suc ?L) :: u64) = Suc ?L" "unat (word_of_nat n :: u64) = n"
      by (rule unat_small, use room n in linarith)+
    then show ?thesis by (simp only: C_def word_less_nat_alt)
  qed
  let ?t = "t\<lparr>bitrate_limit_last_interval_index := ?i, bitrate_limit_intervals_traffic_bytes := ?ring',
      bitrate_limit_stats_count := C\<rparr>"
  have step: "ring_inv n (x # hs) ?t"
    using i n room ring_step [of n ?ring hs _ x] unfolding ring_inv_def by (simp add: C_def)
  have idx: "(if bitrate_limit_last_interval_index t + 1 \<ge> word_of_int (int n) then 0
      else bitrate_limit_last_interval_index t + 1) = ?i"
  proof -
    have b: "bitrate_limit_last_interval_index t = word_of_nat (?L mod n)" using i by simp
    show ?thesis unfolding b by (rule index_step [OF n(1,3)])
  qed
  have run: "iperf_check_total_rate t x =
     (if Suc ?L < n then Some ?t
      else do {
        quotient \<leftarrow> fdiv (real (unat (sum_list (take n ?ring') * 8))) (stats_interval t * real n);
        bits_per_second \<leftarrow> double_to_u64 quotient;
        Some (if bits_per_second > bitrate_limit (settings t) then ?t\<lparr>bitrate_limit_exceeded := 1\<rparr> else ?t) })"
  proof -
    have p: "bitrate_limit_stats_per_interval (settings t) = int n" using i by simp
    have r: "\<not> length ?ring \<le> Suc ?L mod n" "\<not> length ?ring < n" using ilt n by linarith+
    show ?thesis
      unfolding iperf_check_total_rate_def Let_def p idx ui ni using on r cnt le
      by (simp only: if_False simp_thms iperf_test.simps test_flags.simps length_list_update) (simp cong: if_cong)
  qed
  show ?thesis
  proof (cases "Suc ?L < n")
    case True
    with run step show ?thesis by simp
  next
    case False
    have sum: "sum_list (take n ?ring') = sum_list (take n (x # hs))"
      by (rule ring_total) (use step n False in \<open>auto simp: ring_inv_def\<close>)
    let ?q = "average t n (x # hs)"
    have d: "fdiv (real (unat (sum_list (take n ?ring') * 8))) (stats_interval t * real n) = Some ?q"
    proof -
      have "stats_interval t * real n \<noteq> 0" using secs by linarith
      then show ?thesis by (simp only: fdiv_def sum average_def if_False)
    qed
    have q0: "0 \<le> ?q" unfolding average_def by (rule divide_nonneg_nonneg [OF of_nat_0_le_iff]) (use secs in linarith)
    have "?q \<le> real (unat (sum_list (take n (x # hs)) * 8)) / 1"
      unfolding average_def by (rule divide_left_mono [OF secs of_nat_0_le_iff]) (use secs in linarith)
    also have "\<dots> < 2 ^ 64"
    proof -
      have "unat w < 18446744073709551616" for w :: u64 using unsigned_less [of w, where ?'a = nat] by simp
      then have "real (unat w) < real (18446744073709551616 :: nat)" for w :: u64 by (simp only: of_nat_less_iff)
      then show ?thesis by (simp only: div_by_1 of_nat_numeral) simp
    qed
    finally obtain B where B: "double_to_u64 ?q = Some B" using q0 by (simp add: double_to_u64_def)
    have uB: "uint B = \<lfloor>?q\<rfloor>" by (rule double_to_u64_Some(2) [OF B])
    have cmp: "bitrate_limit (settings t) < B \<longleftrightarrow> uint (bitrate_limit (settings t)) < \<lfloor>?q\<rfloor>"
      by (simp only: word_less_def uB)
    have exc: "ring_inv n (x # hs) (?t\<lparr>bitrate_limit_exceeded := 1\<rparr>)"
      using step by (simp add: ring_inv_def)
    show ?thesis
      using run False step exc d B cmp by (simp add: not_less)
  qed
qed

end
