(* ===== verification/Iperf_Socket.thy ===== *)
theory Iperf_Socket
  imports Iperf_Net
begin

text \<open>
  How src/net.c makes sockets: timeout_connect, create_socket, netdial, netannounce and
  getsockdomain, for the Linux build (SO_BINDTODEVICE and IPV6_V6ONLY present). The lemmas follow
  the resources: a call that fails leaves no descriptor open, no address list allocated and the
  errno of the failing call in place, and a call that succeeds holds exactly what it returns.
\<close>

abbreviation (input) AF_UNSPEC :: int where "AF_UNSPEC \<equiv> 0"
abbreviation (input) AF_INET :: int where "AF_INET \<equiv> 2"
abbreviation (input) AF_INET6 :: int where "AF_INET6 \<equiv> 10"
abbreviation (input) SOCK_STREAM :: int where "SOCK_STREAM \<equiv> 1"
abbreviation (input) SOCK_DGRAM :: int where "SOCK_DGRAM \<equiv> 2"

section \<open>Address lists\<close>

text \<open>An address list from getaddrinfo: which allocation it is, and the family of its head.\<close>

record addrinfo =
  ai_id :: nat
  ai_family :: int

definition sys_getaddrinfo :: "world \<Rightarrow> (int \<times> addrinfo option \<times> world) option" where
  "sys_getaddrinfo w = do {
     (r, w) \<leftarrow> next_reply w;
     case r of
       Fail e \<Rightarrow> Some (if e = 0 then -2 else e, None, w)
     | Ret fam _ \<Rightarrow>
         Some (0, Some \<lparr>ai_id = new_addr w, ai_family = fam\<rparr>, emit (EvGetAddr (new_addr w)) w) }"

text \<open>freeaddrinfo; a null pointer is accepted by the C library of the modelled platform.\<close>

definition freeaddrinfo :: "addrinfo option \<Rightarrow> world \<Rightarrow> world" where
  "freeaddrinfo a w = (case a of None \<Rightarrow> w | Some x \<Rightarrow> emit (EvFreeAddr (ai_id x)) w)"

text \<open>The error path of the file: close and free, with errno saved over the close.\<close>

definition close_free :: "fd \<Rightarrow> addrinfo option list \<Rightarrow> world \<Rightarrow> world" where
  "close_free s as w = (fold freeaddrinfo as (sys_close s w))\<lparr>errno := errno w\<rparr>"

section \<open>timeout_connect\<close>

definition set_flags :: "fd \<Rightarrow> int \<Rightarrow> world \<Rightarrow> (int \<times> world) option" where
  "set_flags s flags w = sys_ok (EvFcntl s flags) w"

definition connect_wait :: "fd \<Rightarrow> world \<Rightarrow> (int \<times> world) option" where
  "connect_wait s w = do {
     (n, w) \<leftarrow> sys_select s w;
     if n = 1 then do {
       (optval, w) \<leftarrow> sys_val [] w;
       if optval \<ge> 0
       then Some (if optval = 0 then 0 else -1, w\<lparr>errno := optval\<rparr>)
       else Some (optval, w) }
     else if n = 0 then Some (-1, w\<lparr>errno := ETIMEDOUT\<rparr>)
     else Some (-1, w) }"

definition timeout_connect :: "fd \<Rightarrow> int \<Rightarrow> world \<Rightarrow> (int \<times> world) option" where
  "timeout_connect s timeout w = do {
     (flags, w) \<leftarrow> (if timeout \<noteq> -1 then sys_val [] w else Some (0, w));
     (r, w) \<leftarrow> (if timeout \<noteq> -1 then set_flags s (flags OR O_NONBLOCK) w else Some (0, w));
     if r = -1 then Some (-1, w)
     else do {
       (ret, w) \<leftarrow> sys_ok (EvConnect s) w;
       (ret, w) \<leftarrow> (if ret \<noteq> 0 \<and> errno w = EINPROGRESS then connect_wait s w else Some (ret, w));
       if timeout \<noteq> -1 then do {
         (r, w) \<leftarrow> set_flags s flags w;
         Some (if r = -1 then -1 else ret, w) }
       else Some (ret, w) } }"

section \<open>create_socket and netdial\<close>

definition bind_device :: "fd \<Rightarrow> string \<Rightarrow> world \<Rightarrow> (int \<times> world) option" where
  "bind_device s dev w = sys_ok (EvSetopt s ''SO_BINDTODEVICE'' 0 True) w"

text \<open>The part of create_socket after the socket exists: the device, then the local address.\<close>

definition create_bind :: "fd \<Rightarrow> addrinfo option \<Rightarrow> string option \<Rightarrow> int \<Rightarrow> addrinfo \<Rightarrow> world
    \<Rightarrow> (int \<times> addrinfo option \<times> world) option" where
  "create_bind s local_res bind_dev local_port server_res w = do {
     (r, w) \<leftarrow> (case bind_dev of None \<Rightarrow> Some (0, w) | Some dev \<Rightarrow> bind_device s dev w);
     if r < 0 then Some (-1, None, close_free s [local_res, Some server_res] w)
     else (case local_res of
       Some l \<Rightarrow> do {
         (r, w) \<leftarrow> sys_ok (EvBind s) w;
         if r < 0 then Some (-1, None, close_free s [local_res, Some server_res] w)
         else Some (s, Some server_res, freeaddrinfo local_res w) }
     | None \<Rightarrow>
         if local_port \<noteq> 0 then
           if ai_family server_res \<noteq> AF_INET \<and> ai_family server_res \<noteq> AF_INET6
           then Some (-1, None, (freeaddrinfo (Some server_res) (sys_close s w))\<lparr>errno := EAFNOSUPPORT\<rparr>)
           else do {
             (r, w) \<leftarrow> sys_ok (EvBind s) w;
             if r < 0 then Some (-1, None, close_free s [Some server_res] w)
             else Some (s, Some server_res, w) }
         else Some (s, Some server_res, w)) }"

definition create_socket :: "int \<Rightarrow> int \<Rightarrow> int \<Rightarrow> string option \<Rightarrow> string option \<Rightarrow> int \<Rightarrow> string \<Rightarrow> int
    \<Rightarrow> world \<Rightarrow> (int \<times> addrinfo option \<times> world) option" where
  "create_socket domain type proto local bind_dev local_port server port w = do {
     (e, local_res, w) \<leftarrow> (case local of None \<Rightarrow> Some (0, None, w)
                          | Some _ \<Rightarrow> do { (e, a, w) \<leftarrow> sys_getaddrinfo w; Some (e, a, w\<lparr>gerror := e\<rparr>) });
     if e \<noteq> 0 then Some (-1, None, w)
     else do {
       (e, server_res, w) \<leftarrow> sys_getaddrinfo w;
       let w = w\<lparr>gerror := e\<rparr>;
       case server_res of
         None \<Rightarrow> Some (-1, None, freeaddrinfo local_res w)
       | Some sres \<Rightarrow> do {
           (s, w) \<leftarrow> sys_open w;
           if s < 0 then Some (-1, None, freeaddrinfo server_res (freeaddrinfo local_res w))
           else create_bind s local_res bind_dev local_port sres w } } }"

definition netdial :: "int \<Rightarrow> int \<Rightarrow> string option \<Rightarrow> string option \<Rightarrow> int \<Rightarrow> string \<Rightarrow> int \<Rightarrow> int
    \<Rightarrow> world \<Rightarrow> (int \<times> world) option" where
  "netdial domain proto local bind_dev local_port server port timeout w = do {
     (s, server_res, w) \<leftarrow> create_socket domain proto 0 local bind_dev local_port server port w;
     if s < 0 then Some (-1, w)
     else do {
       (r, w) \<leftarrow> timeout_connect s timeout w;
       if r < 0 \<and> errno w \<noteq> EINPROGRESS then Some (-1, close_free s [server_res] w)
       else Some (s, freeaddrinfo server_res w) } }"

section \<open>netannounce\<close>

text \<open>The family asked for: AF_INET6 for an unbound socket without an explicit family.\<close>

definition announce_family :: "int \<Rightarrow> string option \<Rightarrow> int" where
  "announce_family domain local = (if domain = AF_UNSPEC \<and> local = None then AF_INET6 else domain)"

text \<open>The options set before bind: the device, SO_REUSEADDR, and IPV6_V6ONLY.\<close>

definition announce_opts :: "fd \<Rightarrow> int \<Rightarrow> string option \<Rightarrow> addrinfo \<Rightarrow> world \<Rightarrow> (int \<times> world) option" where
  "announce_opts s domain bind_dev res w = do {
     (r, w) \<leftarrow> (case bind_dev of None \<Rightarrow> Some (0, w) | Some dev \<Rightarrow> bind_device s dev w);
     if r < 0 then Some (-1, w)
     else do {
       (r, w) \<leftarrow> sys_ok (EvSetopt s ''SO_REUSEADDR'' 1 True) w;
       if r < 0 then Some (-1, w)
       else if ai_family res = AF_INET6 \<and> (domain = AF_UNSPEC \<or> domain = AF_INET6)
       then sys_ok (EvSetopt s ''IPV6_V6ONLY'' (if domain = AF_UNSPEC then 0 else 1) True) w
       else Some (0, w) } }"

definition announce_bind :: "fd \<Rightarrow> int \<Rightarrow> addrinfo \<Rightarrow> world \<Rightarrow> (int \<times> world) option" where
  "announce_bind s proto res w = do {
     (r, w) \<leftarrow> sys_ok (EvBind s) w;
     if r < 0 then Some (-1, close_free s [Some res] w)
     else
       let w = freeaddrinfo (Some res) w in
       if proto = SOCK_STREAM then do {
         (r, w) \<leftarrow> sys_ok (EvListen s) w;
         if r < 0 then Some (-1, close_free s [] w) else Some (s, w) }
       else Some (s, w) }"

definition netannounce :: "int \<Rightarrow> int \<Rightarrow> string option \<Rightarrow> string option \<Rightarrow> int \<Rightarrow> world
    \<Rightarrow> (int \<times> world) option" where
  "netannounce domain proto local bind_dev port w = do {
     (e, ares, w) \<leftarrow> sys_getaddrinfo w;
     let w = w\<lparr>gerror := e\<rparr>;
     case ares of
       None \<Rightarrow> Some (-1, w)
     | Some res \<Rightarrow> do {
         (s, w) \<leftarrow> sys_open w;
         if s < 0 then Some (-1, freeaddrinfo (Some res) w)
         else do {
           (r, w) \<leftarrow> announce_opts s domain bind_dev res w;
           if r < 0 then Some (-1, close_free s [Some res] w)
           else announce_bind s proto res w } } }"

definition getsockdomain :: "fd \<Rightarrow> world \<Rightarrow> (int \<times> world) option" where
  "getsockdomain sock w = sys_val [] w"

section \<open>Resources\<close>

text \<open>held w w' F A: the run from w to w' ends with the descriptors F open and the address lists A
  allocated.\<close>

definition held :: "world \<Rightarrow> world \<Rightarrow> fd set \<Rightarrow> nat set \<Rightarrow> bool" where
  "held w w' F A \<longleftrightarrow> later w w' \<and> fds w' = F \<and> addrs w' = A"

lemma held_start: "held w w (fds w) (addrs w)"
  by (simp add: held_def)

lemma emit_held [simp]:
  "fds (emit (EvOpen f) w) = insert f (fds w)" "fds (emit (EvClose f) w) = fds w - {f}"
  "addrs (emit (EvOpen f) w) = addrs w" "addrs (emit (EvClose f) w) = addrs w"
  "fds (emit (EvGetAddr a) w) = fds w" "addrs (emit (EvGetAddr a) w) = insert a (addrs w)"
  "fds (emit (EvFreeAddr a) w) = fds w" "addrs (emit (EvFreeAddr a) w) = addrs w - {a}"
  by (simp_all add: fds_def addrs_def emit_def)

lemma upd_held [simp]:
  "fds (w\<lparr>errno := e\<rparr>) = fds w" "addrs (w\<lparr>errno := e\<rparr>) = addrs w" "later v (w\<lparr>errno := e\<rparr>) = later v w"
  "fds (w\<lparr>gerror := e\<rparr>) = fds w" "addrs (w\<lparr>gerror := e\<rparr>) = addrs w" "later v (w\<lparr>gerror := e\<rparr>) = later v w"
  by (simp_all add: fds_def addrs_def later_def)

lemma later_emit [simp]: "later v w \<Longrightarrow> later v (emit e w)"
  by (auto simp: later_def emit_def)

lemma close_held: "later v (sys_close f w) \<longleftrightarrow> later v (emit (EvClose f) w)"
  "fds (sys_close f w) = fds w - {f}" "addrs (sys_close f w) = addrs w"
  by (simp_all add: sys_close_def later_def emit_def fds_def addrs_def)

lemma held_upd [simp]: "held v (w\<lparr>errno := e\<rparr>) F A = held v w F A" "held v (w\<lparr>gerror := e\<rparr>) F A = held v w F A"
  by (simp_all add: held_def)

lemma held_close: "held v w F A \<Longrightarrow> held v (sys_close f w) (F - {f}) A"
  by (auto simp: held_def close_held)

lemma held_free: "held v w F A \<Longrightarrow> held v (freeaddrinfo a w) F (A - ai_id ` set_option a)"
  by (auto simp: held_def freeaddrinfo_def split: option.splits)

lemma held_close_free: "held v w F A \<Longrightarrow>
    held v (close_free s as w) (F - {s}) (A - (\<Union>a\<in>set as. ai_id ` set_option a))"
proof -
  have "held v w F A \<Longrightarrow> held v (fold freeaddrinfo as w) F (A - (\<Union>a\<in>set as. ai_id ` set_option a))" for w F A
  proof (induction as arbitrary: w A)
    case (Cons a as)
    from Cons.IH [OF held_free [OF Cons.prems, of a]] show ?case by (simp add: Diff_eq Int_assoc)
  qed simp
  from this [OF held_close] show "held v w F A \<Longrightarrow> ?thesis" by (simp add: close_free_def)
qed

text \<open>The events of a step that neither hands out nor takes back anything.\<close>

fun plain :: "event \<Rightarrow> bool" where
  "plain (EvOpen _) = False"
| "plain (EvClose _) = False"
| "plain (EvGetAddr _) = False"
| "plain (EvFreeAddr _) = False"
| "plain _ = True"

lemma plain_emit: "plain e \<Longrightarrow> fds (emit e w) = fds w \<and> addrs (emit e w) = addrs w"
  by (cases e) (simp_all add: fds_def addrs_def emit_def)

lemma held_events: "held v w F A \<Longrightarrow> later w w' \<Longrightarrow> list_all plain (events w w') \<Longrightarrow> held v w' F A"
proof -
  have "list_all plain es \<Longrightarrow> open_fds S es = S \<and> held_addrs A es = A" for es S A
  proof (induction es arbitrary: S A)
    case (Cons e es)
    then show ?case by (cases e) auto
  qed simp
  moreover assume "held v w F A" "later w w'" "list_all plain (events w w')"
  ultimately show "held v w' F A"
    using trace_later [of w w'] later_trans [of v w w'] by (simp add: held_def fds_def addrs_def)
qed

lemma held_ok [vcg]:
  assumes "held v w F A" "plain e" "\<And>r w'. held v w' F A \<Longrightarrow> r = -1 \<or> r = 0 \<Longrightarrow> Q (r, w')"
  shows "post (sys_ok e w) Q"
  using assms held_events [of v w F A] by (intro post_2I) (auto dest!: sys_ok_Some)

lemma held_val [vcg]:
  assumes "held v w F A" "\<And>r w'. held v w' F A \<Longrightarrow> Q (r, w')"
  shows "post (sys_val [] w) Q"
  using assms held_events [of v w F A] by (intro post_2I) (auto dest!: sys_val_Some)

lemma held_select [vcg]:
  assumes "held v w F A" "\<And>r w'. held v w' F A \<Longrightarrow> Q (r, w')"
  shows "post (sys_select s w) Q"
  using assms held_events [of v w F A] by (intro post_2I) (auto dest!: sys_select_Some)

lemma held_open [vcg]:
  assumes "held v w F A" "\<And>w'. held v w' F A \<Longrightarrow> Q (-1, w')"
    "\<And>s w'. held v w' (insert s F) A \<Longrightarrow> 0 \<le> s \<Longrightarrow> s \<notin> F \<Longrightarrow> Q (s, w')"
  shows "post (sys_open w) Q"
proof (rule post_2I)
  fix s w' assume "sys_open w = Some (s, w')"
  note s = sys_open_Some [OF this]
  show "Q (s, w')"
  proof (cases "s = -1")
    case True
    with s have "events w w' = []" by auto
    with s True assms(2) held_events [OF assms(1), of w'] show ?thesis by auto
  next
    case False
    with s have ev: "events w w' = [EvOpen s]" "0 \<le> s" "s \<notin> fds w" "later w w'" by auto
    from trace_later [OF ev(4)] ev(1) have "trace w' = trace w @ [EvOpen s]" by simp
    with ev assms(1) have "held v w' (insert s F) A"
      using later_trans [of v w w'] by (simp add: held_def fds_def addrs_def)
    moreover have "s \<notin> F" using ev assms(1) by (simp add: held_def)
    ultimately show ?thesis using assms(3) ev by blast
  qed
qed

lemma held_getaddrinfo [vcg]:
  assumes "held v w F A" "\<And>e w'. held v w' F A \<Longrightarrow> e \<noteq> 0 \<Longrightarrow> Q (e, None, w')"
    "\<And>a w'. held v w' F (insert (ai_id a) A) \<Longrightarrow> ai_id a \<notin> A \<Longrightarrow> Q (0, Some a, w')"
  shows "post (sys_getaddrinfo w) Q"
proof -
  have up: "held v (w\<lparr>replies := rs\<rparr>) F A" if "replies w = r # rs" for r rs
    using assms(1) that by (auto simp: held_def later_def fds_def addrs_def)
  show ?thesis
    unfolding sys_getaddrinfo_def next_reply_def
  proof (cases "replies w")
    case (Cons r rs)
    note h = up [OF Cons]
    have n: "new_addr (w\<lparr>replies := rs\<rparr>) \<notin> A" using h new_addr_fresh by (auto simp: held_def)
    have g: "held v (emit (EvGetAddr a) (w\<lparr>replies := rs\<rparr>)) F (insert a A)" for a
      using h by (simp add: held_def)
    show "post (do { (r, w) \<leftarrow> (case replies w of [] \<Rightarrow> None | r # rs \<Rightarrow> Some (r, w\<lparr>replies := rs\<rparr>));
       case r of Fail e \<Rightarrow> Some (if e = 0 then -2 else e, None, w)
       | Ret fam _ \<Rightarrow> Some (0, Some \<lparr>ai_id = new_addr w, ai_family = fam\<rparr>, emit (EvGetAddr (new_addr w)) w) }) Q"
      using Cons h assms(2) assms(3) [of _ "\<lparr>ai_id = new_addr (w\<lparr>replies := rs\<rparr>), ai_family = fam\<rparr>" for fam] n g
      by (cases r) auto
  qed simp
qed

lemma held_connect [vcg]:
  assumes "held v w F A" "\<And>r w'. held v w' F A \<Longrightarrow> Q (r, w')"
  shows "post (timeout_connect s t w) Q"
  using assms unfolding timeout_connect_def connect_wait_def set_flags_def
  by (auto intro!: vcg)

lemma held_eq: "held v w F A \<Longrightarrow> F = G \<Longrightarrow> A = B \<Longrightarrow> held v w G B"
  by simp

lemma held_create_bind [vcg]:
  assumes h: "held v w (insert s F) (ai_id ` set_option lres \<union> insert (ai_id sres) A)"
    and n: "0 \<le> s" "s \<notin> F" "ai_id sres \<notin> A" "ai_id ` set_option lres \<inter> insert (ai_id sres) A = {}"
    and fail: "\<And>w'. held v w' F A \<Longrightarrow> Q (-1, None, w')"
    and ok: "\<And>w'. held v w' (insert s F) (insert (ai_id sres) A) \<Longrightarrow> Q (s, Some sres, w')"
  shows "post (create_bind s lres dev port sres w) Q"
proof -
  define F2 A2 where F2: "F2 = insert s F" and A2: "A2 = ai_id ` set_option lres \<union> insert (ai_id sres) A"
  have cl: "held v x F2 A2 \<Longrightarrow> lres = l \<Longrightarrow> Q (-1, None, close_free s [l, Some sres] x)" for x l
    unfolding F2 A2 using n by (intro fail held_eq [OF held_close_free]) auto
  have cl0: "held v x F2 A2 \<Longrightarrow> lres = None \<Longrightarrow> Q (-1, None, close_free s [Some sres] x)" for x
    unfolding F2 A2 using n by (intro fail held_eq [OF held_close_free]) auto
  have cl1: "held v x F2 A2 \<Longrightarrow> lres = None
      \<Longrightarrow> Q (-1, None, (freeaddrinfo (Some sres) (sys_close s x))\<lparr>errno := EAFNOSUPPORT\<rparr>)" for x
    unfolding F2 A2 using n by (intro fail) (auto intro!: held_eq [OF held_free [OF held_close]])
  have rel: "held v x F2 A2 \<Longrightarrow> lres = l \<Longrightarrow> Q (s, Some sres, freeaddrinfo l x)" for x l
    unfolding F2 A2 using n by (intro ok held_eq [OF held_free]) auto
  have stay: "held v x F2 A2 \<Longrightarrow> lres = None \<Longrightarrow> Q (s, Some sres, x)" for x
    unfolding F2 A2 by (intro ok) auto
  have h2: "held v w F2 A2" using h by (simp add: F2 A2)
  show ?thesis
    unfolding create_bind_def bind_device_def
    by (auto intro!: held_ok [where v = v and F = F2 and A = A2] intro: h2 cl cl0 cl1 stay rel)
qed

lemma held_create_socket [vcg]:
  assumes h: "held v w F A" and fail: "\<And>w'. held v w' F A \<Longrightarrow> Q (-1, None, w')"
    and ok: "\<And>s a w'. held v w' (insert s F) (insert (ai_id a) A) \<Longrightarrow> 0 \<le> s \<Longrightarrow> s \<notin> F \<Longrightarrow> ai_id a \<notin> A
        \<Longrightarrow> Q (s, Some a, w')"
  shows "post (create_socket domain type proto local dev lport server port w) Q"
proof (cases local)
  case None
  show ?thesis
    unfolding create_socket_def None
    by (auto simp: freeaddrinfo_def [of None] intro!: held_getaddrinfo [OF h] held_open fail ok held_create_bind
        intro: held_eq [OF held_free])
next
  case (Some a)
  show ?thesis
    unfolding create_socket_def Some
    by (auto intro!: held_getaddrinfo [OF h] held_getaddrinfo held_open fail held_create_bind ok
        intro: held_eq [OF held_free] held_eq [OF held_free [OF held_free]])
qed

lemma held_netdial:
  assumes h: "held v w F A" and fail: "\<And>w'. held v w' F A \<Longrightarrow> Q (-1, w')"
    and ok: "\<And>s w'. held v w' (insert s F) A \<Longrightarrow> 0 \<le> s \<Longrightarrow> s \<notin> F \<Longrightarrow> Q (s, w')"
  shows "post (netdial domain proto local dev lport server port t w) Q"
  unfolding netdial_def
proof (subst post_bind, rule held_create_socket [OF h])
  fix s and a :: addrinfo and w1
  assume h1: "held v w1 (insert s F) (insert (ai_id a) A)" and n: "0 \<le> s" "s \<notin> F" "ai_id a \<notin> A"
  have "held v x (insert s F) (insert (ai_id a) A) \<Longrightarrow> Q (-1, close_free s [Some a] x)" for x
    using n by (intro fail held_eq [OF held_close_free]) auto
  moreover have "held v x (insert s F) (insert (ai_id a) A) \<Longrightarrow> Q (s, freeaddrinfo (Some a) x)" for x
    using n by (intro ok held_eq [OF held_free]) auto
  ultimately show "post (case (s, Some a, w1) of (s, server_res, w) \<Rightarrow>
      if s < 0 then Some (-1, w) else do {
       (r, w) \<leftarrow> timeout_connect s t w;
       if r < 0 \<and> errno w \<noteq> EINPROGRESS then Some (-1, close_free s [server_res] w)
       else Some (s, freeaddrinfo server_res w) }) Q"
    using n by (auto intro!: held_connect [OF h1])
qed (auto intro: fail)

lemma held_announce_opts [vcg]:
  assumes "held v w F A" "\<And>r w'. held v w' F A \<Longrightarrow> Q (r, w')"
  shows "post (announce_opts s domain dev res w) Q"
  unfolding announce_opts_def bind_device_def using assms by (auto intro!: held_ok [where v = v and F = F and A = A])

lemma held_netannounce:
  assumes h: "held v w F A" and fail: "\<And>w'. held v w' F A \<Longrightarrow> Q (-1, w')"
    and ok: "\<And>s w'. held v w' (insert s F) A \<Longrightarrow> 0 \<le> s \<Longrightarrow> s \<notin> F \<Longrightarrow> Q (s, w')"
  shows "post (netannounce domain proto local dev port w) Q"
proof -
  have rest: "post (announce_opts s domain dev a w2) (\<lambda>x. \<forall>r w. x = (r, w) \<longrightarrow>
      (r < 0 \<longrightarrow> Q (- 1, close_free s [Some a] w)) \<and> (\<not> r < 0 \<longrightarrow> post (announce_bind s proto a w) Q))"
    if h2: "held v w2 (insert s F) (insert (ai_id a) A)" and n: "\<not> s < 0" "s \<notin> F" "ai_id a \<notin> A"
    for s and a :: addrinfo and w2
  proof -
    have cl: "held v x (insert s F) (insert (ai_id a) A) \<Longrightarrow> Q (-1, close_free s [Some a] x)" for x
      using n by (intro fail held_eq [OF held_close_free]) auto
    have cl0: "held v x (insert s F) A \<Longrightarrow> Q (-1, close_free s [] x)" for x
      using n by (intro fail held_eq [OF held_close_free]) auto
    have fr: "held v x (insert s F) (insert (ai_id a) A) \<Longrightarrow> held v (freeaddrinfo (Some a) x) (insert s F) A" for x
      using n by (intro held_eq [OF held_free]) auto
    have ab: "post (announce_bind s proto a x) Q" if hx: "held v x (insert s F) (insert (ai_id a) A)" for x
      unfolding announce_bind_def using n
      by (auto intro!: held_ok [OF hx] held_ok [where v = v and F = "insert s F" and A = A] fr cl cl0 ok)
    show ?thesis
      using n by (auto intro!: held_announce_opts [OF h2] cl ab)
  qed
  show ?thesis
    unfolding netannounce_def
    by (auto intro!: held_getaddrinfo [OF h] held_open fail rest intro: held_eq [OF held_free])
qed

end
