(* ===== verification/Iperf_Quic.thy ===== *)
theory Iperf_Quic
  imports Iperf_Types Iperf_Socket
begin

text \<open>
  The QUIC transport: src/iperf_quic.c without the transfer of blocks (Iperf_Quic_Transfer). msquic
  itself is outside the program. A call into it takes its result from the world (a status, or a
  handle) and leaves its name in the log quic_calls; what it reports through the callbacks are the
  events of coming_events, one batch before each time the code takes a lock of the context or of a
  stream, so that a theorem for all batches is one for all interleavings at the locks. Using a stream
  context after it was freed is undefined and is None here. test->quic_ctx and the memory behind
  it are the field quic_mem of the world, as the callbacks reach it from other threads. What inet_pton
  and the reading of a PKCS#12 file give are arguments (quic_lib). The messages of --debug are left
  out, and the locks are held by no one in between.
\<close>

section \<open>The shared memory\<close>

definition upd_quic :: "(quic_state \<Rightarrow> quic_state) \<Rightarrow> world \<Rightarrow> world" where
  "upd_quic f w = w\<lparr>quic_mem := f (quic_mem w)\<rparr>"

definition upd_ctx :: "(quic_context \<Rightarrow> quic_context) \<Rightarrow> world \<Rightarrow> world" where
  "upd_ctx f = upd_quic (\<lambda>q. q\<lparr>quic_ctx := map_option f (quic_ctx q)\<rparr>)"

definition set_sc :: "nat \<Rightarrow> quic_stream_ctx \<Rightarrow> world \<Rightarrow> world" where
  "set_sc a sc = upd_quic (\<lambda>q. q\<lparr>stream_ctxs := (stream_ctxs q)(a \<mapsto> sc)\<rparr>)"

definition quic_call :: "quic_call \<Rightarrow> world \<Rightarrow> world" where
  "quic_call c = upd_quic (\<lambda>q. q\<lparr>quic_calls := quic_calls q @ [c]\<rparr>)"

text \<open>SetCallbackHandler for a stream: the context its events come with.\<close>

definition set_callback :: "nat \<Rightarrow> nat option \<Rightarrow> world \<Rightarrow> world" where
  "set_callback h c = upd_quic (\<lambda>q. q\<lparr>callback_ctx := (callback_ctx q)(h := c)\<rparr>)"

text \<open>A call that succeeds or fails, one that gives a handle, and an allocation.\<close>

definition quic_status :: "world \<Rightarrow> (bool \<times> world) option" where
  "quic_status w = do {
     (r, w) \<leftarrow> next_reply w;
     Some (case r of Fail _ \<Rightarrow> False | Ret _ _ \<Rightarrow> True, w) }"

definition quic_handle :: "world \<Rightarrow> (nat option \<times> world) option" where
  "quic_handle w = do {
     (r, w) \<leftarrow> next_reply w;
     Some (case r of Fail _ \<Rightarrow> None | Ret h _ \<Rightarrow> Some (nat h), w) }"

definition alloc :: "world \<Rightarrow> (bool \<times> world) option" where
  "alloc w = quic_status w"

section \<open>Stream contexts\<close>

definition quic_sc_new :: "nat \<Rightarrow> world \<Rightarrow> (nat option \<times> world) option" where
  "quic_sc_new h w = do {
     (ok, w) \<leftarrow> alloc w;
     if \<not> ok then Some (None, w)
     else (let a = next_ctx (quic_mem w) in
       Some (Some a, set_sc a \<lparr>hquic = Some h, recv_queue = [], queued_bytes = 0, pending_sends = 0, fin_seen = 0\<rparr>
                       (upd_quic (\<lambda>q. q\<lparr>next_ctx := Suc a\<rparr>) w))) }"

definition quic_sc_free :: "nat \<Rightarrow> world \<Rightarrow> world" where
  "quic_sc_free a = upd_quic (\<lambda>q. q\<lparr>stream_ctxs := (stream_ctxs q)(a := None)\<rparr>)"

text \<open>The map from ids to contexts and the queue of the streams nobody has accepted yet. When no
  memory is left the context is lost.\<close>

definition map_add :: "int \<Rightarrow> nat \<Rightarrow> world \<Rightarrow> world option" where
  "map_add n a w = do {
     (ok, w) \<leftarrow> alloc w;
     Some (if ok then upd_ctx (\<lambda>c. c\<lparr>id_map := (n, a) # id_map c\<rparr>) w else w) }"

fun take_first :: "int \<Rightarrow> (int \<times> nat) list \<Rightarrow> (nat \<times> (int \<times> nat) list) option" where
  "take_first n [] = None"
| "take_first n ((k, a) # m) =
     (if k = n then Some (a, m)
      else case take_first n m of None \<Rightarrow> None | Some (b, m) \<Rightarrow> Some (b, (k, a) # m))"

definition map_take :: "int \<Rightarrow> world \<Rightarrow> (nat \<times> world) option" where
  "map_take n w = (case quic_ctx (quic_mem w) of
     None \<Rightarrow> None
   | Some c \<Rightarrow> (case take_first n (id_map c) of
       None \<Rightarrow> None
     | Some (a, m) \<Rightarrow> Some (a, upd_ctx (\<lambda>c. c\<lparr>id_map := m\<rparr>) w)))"

definition notify_pipe :: "quic_context \<Rightarrow> world \<Rightarrow> world option" where
  "notify_pipe c w = (if wake_write c \<ge> 0 then do { (_, w) \<leftarrow> sys_write (wake_write c) [1] w; Some w } else Some w)"

definition accept_enq :: "nat \<Rightarrow> world \<Rightarrow> world option" where
  "accept_enq a w = do {
     (ok, w) \<leftarrow> alloc w;
     if \<not> ok then Some w
     else do {
       c \<leftarrow> quic_ctx (quic_mem w);
       notify_pipe c (upd_ctx (\<lambda>c. c\<lparr>accept_queue := accept_queue c @ [a]\<rparr>) w) } }"

definition accept_deq :: "world \<Rightarrow> (nat option \<times> world) option" where
  "accept_deq w = do {
     c \<leftarrow> quic_ctx (quic_mem w);
     case accept_queue c of
       [] \<Rightarrow> Some (None, w)
     | a # q \<Rightarrow> Some (Some a, upd_ctx (\<lambda>c. c\<lparr>accept_queue := q\<rparr>) w) }"

section \<open>The callbacks\<close>

definition upd_sc :: "nat \<Rightarrow> (quic_stream_ctx \<Rightarrow> quic_stream_ctx) \<Rightarrow> world \<Rightarrow> world option" where
  "upd_sc a f w = (case stream_ctxs (quic_mem w) a of None \<Rightarrow> None | Some sc \<Rightarrow> Some (set_sc a (f sc) w))"

definition add_chunk :: "u8 list \<Rightarrow> quic_stream_ctx \<Rightarrow> quic_stream_ctx" where
  "add_chunk bs sc = sc\<lparr>recv_queue := recv_queue sc @ [\<lparr>chunk_data = bs, chunk_off = 0\<rparr>],
     queued_bytes := queued_bytes sc + length bs\<rparr>"

text \<open>The buffers of a receive event; the loop ends at the first one no memory is left for.\<close>

fun receive_chunks :: "nat \<Rightarrow> u8 list list \<Rightarrow> world \<Rightarrow> world option" where
  "receive_chunks a [] w = Some w"
| "receive_chunks a (b # bs) w = do {
     (ok, w) \<leftarrow> alloc w;
     if \<not> ok then Some w
     else do {
       (ok, w) \<leftarrow> alloc w;
       if \<not> ok then Some w
       else do { w \<leftarrow> upd_sc a (add_chunk b) w; receive_chunks a bs w } } }"

definition seen_fin :: "quic_stream_ctx \<Rightarrow> quic_stream_ctx" where
  "seen_fin sc = sc\<lparr>fin_seen := 1\<rparr>"

text \<open>stream_cb for the stream h, which has no context before SetCallbackHandler gave it one.\<close>

definition with_context :: "nat \<Rightarrow> (nat \<Rightarrow> world option) \<Rightarrow> world \<Rightarrow> world option" where
  "with_context h f w = (case callback_ctx (quic_mem w) h of None \<Rightarrow> Some w | Some a \<Rightarrow> f a)"

definition send_complete :: "quic_stream_ctx \<Rightarrow> quic_stream_ctx" where
  "send_complete sc = (if pending_sends sc > 0 then sc\<lparr>pending_sends := pending_sends sc - 1\<rparr> else sc)"

text \<open>conn_cb, listener_cb and stream_cb by the kind of event.\<close>

definition peer_stream :: "nat \<Rightarrow> world \<Rightarrow> world option" where
  "peer_stream h w = do {
     (sc, w) \<leftarrow> quic_sc_new h w;
     case sc of
       None \<Rightarrow> Some w
     | Some a \<Rightarrow> accept_enq a (set_callback h (Some a) w) }"

definition new_connection :: "nat \<Rightarrow> world \<Rightarrow> world option" where
  "new_connection h w = do {
     c \<leftarrow> quic_ctx (quic_mem w);
     Some (quic_call (Connection_setup h) (upd_ctx (\<lambda>c. c\<lparr>quic_conn := Some h\<rparr>) w)) }"

fun quic_callback :: "quic_event \<Rightarrow> world \<Rightarrow> world option" where
  "quic_callback (Send_complete h) w = with_context h (\<lambda>a. upd_sc a send_complete w) w"
| "quic_callback (Received h bs) w = with_context h (\<lambda>a. receive_chunks a bs w) w"
| "quic_callback (Peer_send_shutdown h) w = with_context h (\<lambda>a. upd_sc a seen_fin w) w"
| "quic_callback (Peer_send_aborted h) w = with_context h (\<lambda>a. upd_sc a seen_fin w) w"
| "quic_callback (Stream_shutdown_complete h closing) w =
     with_context h (\<lambda>a. do {
       w \<leftarrow> upd_sc a seen_fin w;
       Some (if closing then w else quic_call (Stream_close h) w) }) w"
| "quic_callback Connected w = do {
     c \<leftarrow> quic_ctx (quic_mem w);
     Some (upd_ctx (\<lambda>c. c\<lparr>handshake_ready := 1\<rparr>) w) }"
| "quic_callback (Peer_stream_started h) w = peer_stream h w"
| "quic_callback Conn_shutdown_complete w = do {
     c \<leftarrow> quic_ctx (quic_mem w);
     Some (upd_ctx (\<lambda>c. c\<lparr>handshake_ready := 0, shutdown_done := 1\<rparr>) w) }"
| "quic_callback (New_connection h) w = new_connection h w"

fun deliver :: "quic_event list \<Rightarrow> world \<Rightarrow> world option" where
  "deliver [] w = Some w"
| "deliver (e # es) w = do { w \<leftarrow> quic_callback e w; deliver es w }"

text \<open>What has happened when a lock is taken, and what happens during one wait on a condition, which
  does not end when nothing will come any more.\<close>

definition quic_lock :: "world \<Rightarrow> world option" where
  "quic_lock w = (case coming_events (quic_mem w) of
     [] \<Rightarrow> Some w
   | b # bs \<Rightarrow> deliver b (upd_quic (\<lambda>q. q\<lparr>coming_events := bs\<rparr>) w))"

section \<open>The context of a test\<close>

record quic_lib =
  is_ipv4 :: "string \<Rightarrow> bool"
  is_ipv6 :: "string \<Rightarrow> bool"
  p12_blob :: "string \<Rightarrow> u8 list option"

definition set_nonblock :: "fd \<Rightarrow> world \<Rightarrow> world option" where
  "set_nonblock f w = do {
     (fl, w) \<leftarrow> sys_val [] w;
     if fl \<ge> 0 then do { (_, w) \<leftarrow> sys_ok (EvFcntl f (fl OR O_NONBLOCK)) w; Some w } else Some w }"

definition sys_pipe :: "world \<Rightarrow> ((fd \<times> fd) option \<times> world) option" where
  "sys_pipe w = do {
     (r, w) \<leftarrow> next_reply w;
     case r of
       Fail e \<Rightarrow> Some (None, w\<lparr>errno := e\<rparr>)
     | Ret v _ \<Rightarrow> (let f = new_fd w v; w = emit (EvOpen f) w; g = new_fd w (f + 1)
                   in Some (Some (f, g), emit (EvOpen g) w)) }"

definition open_api :: "world \<Rightarrow> (bool \<times> world) option" where
  "open_api w = do {
     (ok, w) \<leftarrow> quic_status w;
     if \<not> ok then Some (False, w)
     else do {
       let w = upd_ctx (\<lambda>c. c\<lparr>api_open := True\<rparr>) w;
       (h, w) \<leftarrow> quic_handle w;
       case h of
         None \<Rightarrow> Some (False, w)
       | Some h \<Rightarrow> Some (True, upd_ctx (\<lambda>c. c\<lparr>registration := Some h\<rparr>) w) } }"

definition quic_window :: "iperf_test \<Rightarrow> int" where
  "quic_window t = (if quic_buf_size t \<noteq> 0 then quic_buf_size t else 32 * 1024 * 1024)"

text \<open>The number of streams the peer may open, as a 16-bit number that is not zero.\<close>

definition peer_streams :: "iperf_test \<Rightarrow> int option" where
  "peer_streams t =
     (if num_streams t > 0
      then (let n = (num_streams t * (if bidirectional t \<noteq> 0 then 2 else 1)) mod 2 ^ 16
            in Some (if n = 0 then 1 else n))
      else None)"

definition idle_ms :: "iperf_test \<Rightarrow> int option" where
  "idle_ms t = (if idle_timeout (settings t) > 0 then Some (idle_timeout (settings t) * 1000) else None)"

text \<open>The credentials of the server, as the arguments of ConfigurationLoadCredential: the blob and
  its password, or the files of the certificate. A client has none.\<close>

definition load_credential :: "string list \<Rightarrow> world \<Rightarrow> (bool \<times> world) option" where
  "load_credential cred w = do {
     (ok, w) \<leftarrow> quic_status w;
     Some (ok, if ok then quic_call (Load_credential cred) w else w) }"

definition password_arg :: "string option \<Rightarrow> string list" where
  "password_arg p = (case p of None \<Rightarrow> [] | Some s \<Rightarrow> [s])"

definition server_credential :: "quic_lib \<Rightarrow> iperf_test \<Rightarrow> string list option" where
  "server_credential lib t =
     (case quic_p12_file t of
        Some file \<Rightarrow> (case p12_blob lib file of
            None \<Rightarrow> None
          | Some blob \<Rightarrow> if blob = [] then None else Some (''p12'' # file # password_arg (quic_p12_password t)))
      | None \<Rightarrow> (case (quic_cert_file t, quic_key_file t) of
            (Some cert, Some key) \<Rightarrow> Some (''files'' # cert # key # password_arg (quic_key_password t))
          | _ \<Rightarrow> None))"

definition open_config :: "quic_lib \<Rightarrow> iperf_test \<Rightarrow> bool \<Rightarrow> world \<Rightarrow> (bool \<times> world) option" where
  "open_config lib t as_server w = do {
     (h, w) \<leftarrow> quic_handle w;
     case h of
       None \<Rightarrow> Some (False, w)
     | Some h \<Rightarrow> do {
         let w = quic_call (Configuration_open (idle_ms t) (quic_window t) (quic_window t * 4) (peer_streams t))
                   (upd_ctx (\<lambda>c. c\<lparr>configuration := Some h\<rparr>) w);
         if as_server then
           (case server_credential lib t of
              None \<Rightarrow> Some (False, w\<lparr>i_errno := IEQUICCERT\<rparr>)
            | Some cred \<Rightarrow> load_credential cred w)
         else load_credential [] w } }"

section \<open>The end of a context\<close>

definition close_end :: "fd \<Rightarrow> world \<Rightarrow> world" where
  "close_end f w = (if f \<ge> 0 then sys_close f w else w)"

text \<open>A stream context that is dropped with its stream still open: the stream is aborted and closed.\<close>

definition drop_context :: "nat \<Rightarrow> world \<Rightarrow> world" where
  "drop_context a w =
     quic_sc_free a
       (case stream_ctxs (quic_mem w) a of
          None \<Rightarrow> w
        | Some sc \<Rightarrow> (case hquic sc of
            None \<Rightarrow> w
          | Some h \<Rightarrow> quic_call (Stream_close h) (quic_call (Stream_shutdown h True) w)))"

definition stop_listener :: "quic_context \<Rightarrow> world \<Rightarrow> world" where
  "stop_listener c w = (case quic_listener c of
     None \<Rightarrow> w
   | Some h \<Rightarrow> upd_ctx (\<lambda>c. c\<lparr>quic_listener := None\<rparr>) (quic_call (Listener_close h) (quic_call (Listener_stop h) w)))"

definition close_handle :: "(nat \<Rightarrow> quic_call) \<Rightarrow> nat option \<Rightarrow> world \<Rightarrow> world" where
  "close_handle f h w = (case h of None \<Rightarrow> w | Some h \<Rightarrow> quic_call (f h) w)"

definition iperf_quic_free_test :: "iperf_test \<Rightarrow> world \<Rightarrow> iperf_test \<times> world" where
  "iperf_quic_free_test t w =
     (case quic_ctx (quic_mem w) of
        None \<Rightarrow> (t, w)
      | Some c \<Rightarrow>
          (let w = stop_listener c w;
               w = fold drop_context (map snd (id_map c)) w;
               w = fold drop_context (accept_queue c) w;
               w = close_handle Connection_close (quic_conn c) (close_handle Connection_shutdown (quic_conn c) w);
               w = close_end (wake_write c) (close_end (wake_read c) w);
               w = close_handle Configuration_close (configuration c) w;
               w = close_handle Registration_close (registration c) w;
               w = (if api_open c then quic_call Msquic_close w else w)
           in (t\<lparr>prot_listener := -1\<rparr>, upd_quic (\<lambda>q. q\<lparr>quic_ctx := None\<rparr>) w)))"

definition iperf_quic_reset_test :: "iperf_test \<Rightarrow> world \<Rightarrow> iperf_test \<times> world" where
  "iperf_quic_reset_test = iperf_quic_free_test"

definition iperf_quic_close_listener :: "iperf_test \<Rightarrow> world \<Rightarrow> iperf_test \<times> world" where
  "iperf_quic_close_listener t w =
     (case quic_ctx (quic_mem w) of
        None \<Rightarrow> (t, w)
      | Some c \<Rightarrow>
          (let w = stop_listener c w;
               t = (if prot_listener t > -1
                    then t\<lparr>read_set := fd_clr (prot_listener t) (read_set t), write_set := fd_clr (prot_listener t) (write_set t)\<rparr>
                    else t);
               w = close_end (wake_write c) (close_end (wake_read c) w)
           in (t\<lparr>prot_listener := -1\<rparr>,
               upd_ctx (\<lambda>c. c\<lparr>wake_read := min (wake_read c) (-1), wake_write := min (wake_write c) (-1)\<rparr>) w)))"

definition iperf_quic_shutdown_complete :: "world \<Rightarrow> int" where
  "iperf_quic_shutdown_complete w =
     (case quic_ctx (quic_mem w) of None \<Rightarrow> 0 | Some c \<Rightarrow> if shutdown_done c \<noteq> 0 then 1 else 0)"

text \<open>Closing one stream in good order, and the end of the stream of an iperf_stream.\<close>

definition close_stream :: "nat \<Rightarrow> world \<Rightarrow> world" where
  "close_stream a w =
     (case stream_ctxs (quic_mem w) a of
        None \<Rightarrow> w
      | Some sc \<Rightarrow> (case hquic sc of
          None \<Rightarrow> w
        | Some h \<Rightarrow> set_sc a (sc\<lparr>hquic := None\<rparr>) (quic_call (Stream_close h) (quic_call (Stream_shutdown h False) w))))"

definition iperf_quic_stream_cleanup :: "iperf_stream \<Rightarrow> world \<Rightarrow> iperf_stream \<times> world" where
  "iperf_quic_stream_cleanup sp w =
     (case stream_ctx sp of
        None \<Rightarrow> (sp, w)
      | Some a \<Rightarrow> (sp\<lparr>stream_ctx := None\<rparr>, quic_sc_free a (if quic_ctx (quic_mem w) \<noteq> None then close_stream a w else w)))"

section \<open>Setting up\<close>

definition new_context :: "bool \<Rightarrow> quic_context" where
  "new_context as_server = \<lparr>api_open = False, registration = None, configuration = None, quic_listener = None,
     quic_conn = None, handshake_ready = 0, quic_is_server = (if as_server then 1 else 0), shutdown_done = 0,
     wake_read = -1, wake_write = -1, next_stream_id = 0, id_map = [], accept_queue = []\<rparr>"

text \<open>After a failure the context is freed again.\<close>

definition quic_ctx_init :: "quic_lib \<Rightarrow> bool \<Rightarrow> iperf_test \<Rightarrow> world \<Rightarrow> (int \<times> iperf_test \<times> world) option" where
  "quic_ctx_init lib as_server t w =
     (if quic_ctx (quic_mem w) \<noteq> None then Some (0, t, w)
      else do {
        (ok, w) \<leftarrow> alloc w;
        if \<not> ok then Some (-1, t, w)
        else do {
          let w = upd_quic (\<lambda>q. q\<lparr>quic_ctx := Some (new_context as_server)\<rparr>) w;
          let fail = (\<lambda>w. case iperf_quic_free_test t w of (t, w) \<Rightarrow> Some (-1, t, w));
          (ok, w) \<leftarrow> open_api w;
          if \<not> ok then fail w
          else do {
            (ok, w) \<leftarrow> open_config lib t as_server w;
            if \<not> ok then fail w
            else do {
              (p, w) \<leftarrow> sys_pipe w;
              case p of
                None \<Rightarrow> fail w
              | Some (f, g) \<Rightarrow> do {
                  w \<leftarrow> set_nonblock f w;
                  w \<leftarrow> set_nonblock g w;
                  Some (0, t, upd_ctx (\<lambda>c. c\<lparr>wake_read := f, wake_write := g\<rparr>) w) } } } } })"

definition quic_udp_port :: "iperf_test \<Rightarrow> int" where
  "quic_udp_port t = (if quic_port t > 0 then quic_port t else server_port t) mod 2 ^ 16"

text \<open>Whether the listener takes IPv4: the address it is bound to says so, or the domain of the
  settings.\<close>

definition listen_ipv4 :: "quic_lib \<Rightarrow> iperf_test \<Rightarrow> bool" where
  "listen_ipv4 lib t =
     (let of_domain = domain (settings t) \<noteq> AF_INET6 in
      case bind_address t of
        None \<Rightarrow> of_domain
      | Some a \<Rightarrow> if is_ipv4 lib a then True else if is_ipv6 lib a then False else of_domain)"

definition quic_fails :: "int \<Rightarrow> iperf_test \<Rightarrow> world \<Rightarrow> (int \<times> iperf_test \<times> world) option" where
  "quic_fails e t w = Some (-1, t, w\<lparr>i_errno := e\<rparr>)"

definition iperf_quic_listen :: "quic_lib \<Rightarrow> iperf_test \<Rightarrow> world \<Rightarrow> (int \<times> iperf_test \<times> world) option" where
  "iperf_quic_listen lib t w = do {
     (r, t, w) \<leftarrow> quic_ctx_init lib True t w;
     if r < 0 then Some (-1, t, if i_errno w = 0 then w\<lparr>i_errno := IELISTEN\<rparr> else w)
     else do {
       (h, w) \<leftarrow> quic_handle w;
       case h of
         None \<Rightarrow> quic_fails IELISTEN t w
       | Some h \<Rightarrow> do {
           let w = upd_ctx (\<lambda>c. c\<lparr>quic_listener := Some h\<rparr>) w;
           (ok, w) \<leftarrow> quic_status w;
           if \<not> ok then quic_fails IELISTEN t w
           else do {
             let w = quic_call (Listener_start (listen_ipv4 lib t) (quic_udp_port t)) w;
             c \<leftarrow> quic_ctx (quic_mem w);
             let t = (if wake_read c \<ge> 0 then t\<lparr>prot_listener := wake_read c\<rparr> else t);
             Some (prot_listener t, t, w) } } } }"

section \<open>Accepting and connecting\<close>

definition fresh_id :: "nat \<Rightarrow> world \<Rightarrow> (int \<times> world) option" where
  "fresh_id a w = do {
     c \<leftarrow> quic_ctx (quic_mem w);
     let n = next_stream_id c + 1;
     w \<leftarrow> map_add n a (upd_ctx (\<lambda>c. c\<lparr>next_stream_id := n\<rparr>) w);
     Some (n, w) }"

definition iperf_quic_accept :: "iperf_test \<Rightarrow> world \<Rightarrow> (int \<times> iperf_test \<times> world) option" where
  "iperf_quic_accept t w =
     (case quic_ctx (quic_mem w) of
        None \<Rightarrow> quic_fails IEACCEPT t w
      | Some c \<Rightarrow> do {
          w \<leftarrow> (if wake_read c \<ge> 0 then do { (_, _, w) \<leftarrow> sys_read (wake_read c) 1 w; Some w } else Some w);
          w \<leftarrow> quic_lock w;
          (sc, w) \<leftarrow> accept_deq w;
          case sc of
            None \<Rightarrow> Some (-1, t, w)
          | Some a \<Rightarrow> do { (n, w) \<leftarrow> fresh_id a w; Some (n, t, w) } })"

text \<open>The wait for the handshake, without and with a time limit. The time limit is one point in time;
  the reply of a wait says whether it has passed.\<close>

fun wait_ready :: "quic_event list list \<Rightarrow> world \<Rightarrow> world option" where
  "wait_ready bs w = (case quic_ctx (quic_mem w) of
     None \<Rightarrow> None
   | Some c \<Rightarrow> if handshake_ready c \<noteq> 0 then Some (upd_quic (\<lambda>q. q\<lparr>coming_events := bs\<rparr>) w)
       else (case bs of [] \<Rightarrow> None | b # bs \<Rightarrow> do { w \<leftarrow> deliver b w; wait_ready bs w }))"

declare wait_ready.simps [simp del]

fun wait_ready_until :: "quic_event list list \<Rightarrow> world \<Rightarrow> world option" where
  "wait_ready_until bs w = (case quic_ctx (quic_mem w) of
     None \<Rightarrow> None
   | Some c \<Rightarrow> if handshake_ready c \<noteq> 0 then Some (upd_quic (\<lambda>q. q\<lparr>coming_events := bs\<rparr>) w)
       else (case bs of
           [] \<Rightarrow> Some (upd_quic (\<lambda>q. q\<lparr>coming_events := []\<rparr>) w)
         | b # bs \<Rightarrow> do {
             w \<leftarrow> deliver b w;
             (timed_out, w) \<leftarrow> quic_status w;
             if timed_out then Some (upd_quic (\<lambda>q. q\<lparr>coming_events := bs\<rparr>) w) else wait_ready_until bs w }))"

declare wait_ready_until.simps [simp del]

text \<open>A point in time after another, in seconds and nanoseconds.\<close>

definition time_limit :: "int \<Rightarrow> int \<times> int \<Rightarrow> int \<times> int" where
  "time_limit ms ts =
     (let s = fst ts + c_div ms 1000; ns = snd ts + c_rem ms 1000 * 1000000
      in if ns \<ge> 1000000000 then (s + 1, ns - 1000000000) else (s, ns))"

definition clock_plus :: "int \<Rightarrow> world \<Rightarrow> ((int \<times> int) \<times> world) option" where
  "clock_plus ms w = do {
     (v, w) \<leftarrow> sys_val [EvClock] w;
     Some (time_limit ms (v div 1000000000, v mod 1000000000), w) }"

definition quic_handshake :: "iperf_test \<Rightarrow> world \<Rightarrow> world option" where
  "quic_handshake t w = do {
     c \<leftarrow> quic_ctx (quic_mem w);
     if handshake_ready c \<noteq> 0 then Some w
     else if connect_timeout (settings t) > 0 then do {
       ((s, ns), w) \<leftarrow> clock_plus (connect_timeout (settings t)) w;
       wait_ready_until (coming_events (quic_mem w)) (quic_call (Timed_wait s ns) w) }
     else wait_ready (coming_events (quic_mem w)) w }"

definition quic_family :: "iperf_test \<Rightarrow> int" where
  "quic_family t = (if domain (settings t) = AF_INET \<or> domain (settings t) = AF_INET6 then domain (settings t) else AF_UNSPEC)"

definition open_connection :: "iperf_test \<Rightarrow> world \<Rightarrow> (bool \<times> world) option" where
  "open_connection t w = do {
     c \<leftarrow> quic_ctx (quic_mem w);
     if quic_conn c \<noteq> None then Some (True, w)
     else do {
       (h, w) \<leftarrow> quic_handle w;
       case h of
         None \<Rightarrow> Some (False, w)
       | Some h \<Rightarrow> do {
           let w = upd_ctx (\<lambda>c. c\<lparr>quic_conn := Some h\<rparr>) w;
           (ok, w) \<leftarrow> quic_status w;
           if \<not> ok then Some (False, w)
           else do {
             host \<leftarrow> server_hostname t;
             Some (True, quic_call (Connection_setup h)
               (quic_call (Connection_start (quic_family t) host (quic_udp_port t)) w)) } } } }"

text \<open>One bidirectional stream. Its callback has no context before SetCallbackHandler.\<close>

definition open_stream :: "iperf_test \<Rightarrow> world \<Rightarrow> (int \<times> iperf_test \<times> world) option" where
  "open_stream t w = do {
     (h, w) \<leftarrow> quic_handle w;
     case h of
       None \<Rightarrow> quic_fails IECONNECT t w
     | Some h \<Rightarrow> do {
         let w = set_callback h None w;
         (sc, w) \<leftarrow> quic_sc_new h w;
         case sc of
           None \<Rightarrow> quic_fails IECONNECT t (quic_call (Stream_close h) w)
         | Some a \<Rightarrow> do {
             let w = set_callback h (Some a) w;
             (ok, w) \<leftarrow> quic_status w;
             if \<not> ok then quic_fails IECONNECT t (quic_sc_free a (close_stream a w))
             else do {
               w \<leftarrow> quic_lock (quic_call (Stream_start h) w);
               (n, w) \<leftarrow> fresh_id a w;
               Some (n, t, w) } } } }"

definition iperf_quic_connect :: "quic_lib \<Rightarrow> iperf_test \<Rightarrow> world \<Rightarrow> (int \<times> iperf_test \<times> world) option" where
  "iperf_quic_connect lib t w = do {
     (r, t, w) \<leftarrow> quic_ctx_init lib False t w;
     if r < 0 then Some (-1, t, if i_errno w = 0 then w\<lparr>i_errno := IECONNECT\<rparr> else w)
     else do {
       (ok, w) \<leftarrow> open_connection t w;
       if \<not> ok then quic_fails IECONNECT t w
       else do {
         w \<leftarrow> quic_lock w;
         w \<leftarrow> quic_handshake t w;
         c \<leftarrow> quic_ctx (quic_mem w);
         if handshake_ready c = 0 then quic_fails IECONNECT t w else open_stream t w } } }"

definition iperf_quic_attach_stream :: "iperf_test \<Rightarrow> iperf_stream \<Rightarrow> int \<Rightarrow> world \<Rightarrow> (int \<times> iperf_stream \<times> world) option" where
  "iperf_quic_attach_stream t sp n w =
     (case quic_ctx (quic_mem w) of
        None \<Rightarrow> Some (-1, sp, w)
      | Some c \<Rightarrow> do {
          w \<leftarrow> quic_lock w;
          Some (case map_take n w of None \<Rightarrow> (-1, sp, w) | Some (a, w) \<Rightarrow> (0, sp\<lparr>stream_ctx := Some a\<rparr>, w)) })"

definition iperf_quic_init :: "iperf_test \<Rightarrow> int" where
  "iperf_quic_init t = 0"

section \<open>What the rest of the program sees\<close>

text \<open>The shared memory is not the system: only the pipe is.\<close>

definition quic_fds :: "world \<Rightarrow> fd set" where
  "quic_fds w = (case quic_ctx (quic_mem w) of
     None \<Rightarrow> {}
   | Some c \<Rightarrow> {f. (f = wake_read c \<or> f = wake_write c) \<and> 0 \<le> f})"

lemmas shared_defs = upd_ctx_def set_sc_def quic_call_def set_callback_def quic_sc_free_def

lemma upd_quic_system [simp]: "trace (upd_quic f w) = trace w" "replies (upd_quic f w) = replies w"
  "quic_mem (upd_quic f w) = f (quic_mem w)"
  by (simp_all add: upd_quic_def)

lemma drop_context_system [simp]:
  "trace (drop_context a w) = trace w" "replies (drop_context a w) = replies w"
  "quic_ctx (quic_mem (drop_context a w)) = quic_ctx (quic_mem w)"
  by (simp_all add: drop_context_def shared_defs split: option.split)

lemma drop_contexts_system [simp]:
  "trace (fold drop_context as w) = trace w" "replies (fold drop_context as w) = replies w"
  "quic_ctx (quic_mem (fold drop_context as w)) = quic_ctx (quic_mem w)"
  by (induction as arbitrary: w) simp_all

lemma close_handle_system [simp]: "trace (close_handle f h w) = trace w" "replies (close_handle f h w) = replies w"
  by (simp_all add: close_handle_def shared_defs split: option.split)

lemma stop_listener_system [simp]: "trace (stop_listener c w) = trace w" "replies (stop_listener c w) = replies w"
  by (simp_all add: stop_listener_def shared_defs split: option.split)

lemma stream_cleanup_system [simp]:
  "trace (snd (iperf_quic_stream_cleanup sp w)) = trace w" "replies (snd (iperf_quic_stream_cleanup sp w)) = replies w"
  "quic_ctx (quic_mem (snd (iperf_quic_stream_cleanup sp w))) = quic_ctx (quic_mem w)"
  by (simp_all add: iperf_quic_stream_cleanup_def close_stream_def shared_defs split: option.split)

lemma close_end_system [simp]: "replies (close_end f w) = replies w"
  "trace (close_end f w) = trace w @ (if f \<ge> 0 then [EvClose f] else [])"
  by (simp_all add: close_end_def sys_close_def emit_def)

lemma quic_free_test_trace:
  "trace (snd (iperf_quic_free_test t w)) = trace w @ (case quic_ctx (quic_mem w) of
     None \<Rightarrow> []
   | Some c \<Rightarrow> (if wake_read c \<ge> 0 then [EvClose (wake_read c)] else []) @ (if wake_write c \<ge> 0 then [EvClose (wake_write c)] else []))"
  by (simp add: iperf_quic_free_test_def Let_def quic_call_def split: option.split)

lemma quic_free_test_fds: "fds (snd (iperf_quic_free_test t w)) = fds w - quic_fds w"
  by (auto simp: fds_def quic_free_test_trace quic_fds_def split: option.split)

lemma quic_free_test_later: "later w (snd (iperf_quic_free_test t w))"
  unfolding later_def by (simp add: quic_free_test_trace) (simp add: iperf_quic_free_test_def Let_def quic_call_def split: option.split)

end
