(* ===== verification/Iperf_Config.thy ===== *)
theory Iperf_Config
  imports Iperf_Quic
begin

text \<open>
  The life of a test's configuration in src/iperf_api.c: iperf_defaults, the setters that keep role
  and mode together, get_protocol and set_protocol, iperf_free_stream, iperf_reset_test between
  two tests of a server and iperf_reset_stats at the end of the omit period. The modelled build is
  Linux with TCP_INFO and without MsQuic.
\<close>

section \<open>Role, direction and protocol\<close>

definition has_tcpinfo_retransmits :: bool where "has_tcpinfo_retransmits = True"

definition check_sender_has_retransmits :: "'a test_flags_scheme \<Rightarrow> 'a test_flags_scheme" where
  "check_sender_has_retransmits t =
     t\<lparr>sender_has_retransmits :=
         (if mode t \<noteq> RECEIVER \<and> protocol t = Ptcp \<and> has_tcpinfo_retransmits then 1 else 0)\<rparr>"

definition iperf_set_test_role :: "char \<Rightarrow> 'a test_flags_scheme \<Rightarrow> 'a test_flags_scheme" where
  "iperf_set_test_role r t =
     (let t = t\<lparr>role := r\<rparr>;
          m = (if reverse t = 0 then
                 (if bidirectional t \<noteq> 0 then BIDIRECTIONAL
                  else if r = CHR ''c'' then SENDER
                  else if r = CHR ''s'' then RECEIVER else mode t)
               else if r = CHR ''c'' then RECEIVER
               else if r = CHR ''s'' then SENDER else mode t)
      in check_sender_has_retransmits (t\<lparr>mode := m\<rparr>))"

definition iperf_set_test_reverse :: "int \<Rightarrow> 'a test_flags_scheme \<Rightarrow> 'a test_flags_scheme" where
  "iperf_set_test_reverse r t =
     (let t = t\<lparr>reverse := r\<rparr>;
          m = (if reverse t = 0 then
                 (if role t = CHR ''c'' then SENDER else if role t = CHR ''s'' then RECEIVER else mode t)
               else if role t = CHR ''c'' then RECEIVER
               else if role t = CHR ''s'' then SENDER else mode t)
      in check_sender_has_retransmits (t\<lparr>mode := m\<rparr>))"

definition iperf_set_test_bidirectional :: "int \<Rightarrow> 'a test_flags_scheme \<Rightarrow> 'a test_flags_scheme" where
  "iperf_set_test_bidirectional b t =
     (let t = t\<lparr>bidirectional := b\<rparr> in
      if b \<noteq> 0 then t\<lparr>mode := BIDIRECTIONAL\<rparr> else iperf_set_test_reverse (reverse t) t)"

text \<open>get_protocol and set_protocol with the new value of i_errno.\<close>

definition get_protocol :: "int \<Rightarrow> 'a test_flags_scheme \<Rightarrow> int \<Rightarrow> int option \<times> int" where
  "get_protocol prot_id t ie =
     (if prot_id \<in> set (protocols t) then (Some prot_id, ie) else (None, IEPROTOCOL))"

definition set_protocol :: "int \<Rightarrow> 'a test_flags_scheme \<Rightarrow> int \<Rightarrow> int \<times> 'a test_flags_scheme \<times> int" where
  "set_protocol prot_id t ie =
     (if prot_id \<in> set (protocols t)
      then (0, check_sender_has_retransmits (t\<lparr>protocol := prot_id\<rparr>), ie)
      else (-1, t, IEPROTOCOL))"

section \<open>iperf_defaults\<close>

definition default_settings :: "iperf_settings \<Rightarrow> iperf_settings" where
  "default_settings s = s\<lparr>
     domain := 0, unit_format := CHR ''a'', socket_bufsize := 0, blksize := DEFAULT_TCP_BLKSIZE,
     rate := 0, bitrate_limit := 0, bitrate_limit_interval := 5,
     bitrate_limit_stats_per_interval := 0, fqrate := 0, pacing_timer := DEFAULT_PACING_TIMER,
     burst := 0, mss := 0, bytes := 0, blocks := 0, connect_timeout := -1,
     rcv_timeout := \<lparr>secs = word_of_int (DEFAULT_NO_MSG_RCVD_TIMEOUT div SEC_TO_mS),
                     usecs = word_of_int (DEFAULT_NO_MSG_RCVD_TIMEOUT mod SEC_TO_mS * mS_TO_US)\<rparr>,
     skip_rx_copy := 0, cntl_ka := 0, cntl_ka_keepidle := 0, cntl_ka_interval := 0, cntl_ka_count := 0\<rparr>"

text \<open>The fields the function sets, in its order. The flags tell which protocol_new calls obtain
  memory; the list of protocols is what SLIST_INSERT_HEAD and SLIST_INSERT_AFTER build.\<close>

definition iperf_defaults :: "bool \<Rightarrow> bool \<Rightarrow> bool \<Rightarrow> bool option \<Rightarrow> iperf_test \<Rightarrow> int \<times> iperf_test" where
  "iperf_defaults tcp_ok udp_ok quic_ok sctp testp =
     (let t = testp\<lparr>omit := OMIT, duration := DURATION, diskfile_name := None, affinity := -1,
            server_affinity := -1, xbind_addrs := [], title := None, extra_data := None,
            congestion := None, congestion_used := None, remote_congestion_used := None,
            server_port := PORT, quic_port := 0, ctrl_sck := -1, listener := -1, prot_listener := -1,
            other_side_has_retransmits := 0, stats_interval := 1, reporter_interval := 1,
            num_streams := 1, settings := default_settings (settings testp), zerocopy := 0,
            quic_cert_file := None, quic_key_file := None, quic_key_password := None,
            quic_p12_file := None, quic_p12_password := None, quic_buf_size := 0,
            cookie := replicate COOKIE_SIZE 0, multisend := 10, streams := [], protocols := []\<rparr>
      in if \<not> tcp_ok then (-1, t)
         else let t = t\<lparr>protocols := [Ptcp]\<rparr> in
         if \<not> udp_ok then (-1, t)
         else let t = t\<lparr>protocols := [Ptcp, Pudp]\<rparr> in
         if \<not> quic_ok then (-1, t)
         else let t = t\<lparr>protocols := [Ptcp, Pudp, Pquic]\<rparr>;
                  (_, t, _) = set_protocol Ptcp t 0
         in case sctp of
              None \<Rightarrow> (0, t\<lparr>server_output_list := []\<rparr>)
            | Some False \<Rightarrow> (-1, t)
            | Some True \<Rightarrow> (0, t\<lparr>protocols := [Ptcp, Pudp, Pquic, Psctp], server_output_list := []\<rparr>))"

section \<open>iperf_free_stream and iperf_reset_test\<close>

definition cancel_timer :: "addr option \<Rightarrow> 'p tstore \<Rightarrow> 'p tstore option" where
  "cancel_timer h s = (case h of None \<Rightarrow> Some s | Some t \<Rightarrow> tmr_cancel t s)"

definition iperf_free_stream :: "iperf_test \<Rightarrow> iperf_stream \<Rightarrow> 'p tstore \<times> world \<Rightarrow> ('p tstore \<times> world) option" where
  "iperf_free_stream t sp = (\<lambda>(s, w). do {
     let w = (if protocol t = Pquic then snd (iperf_quic_stream_cleanup sp w) else w);
     let w = sys_close (buffer_fd sp) w;
     let w = (if diskfile_fd sp \<ge> 0 then sys_close (diskfile_fd sp) w else w);
     s \<leftarrow> cancel_timer (send_timer sp) s;
     Some (s, w) })"

fun free_streams :: "iperf_test \<Rightarrow> iperf_stream list \<Rightarrow> 'p tstore \<times> world \<Rightarrow> ('p tstore \<times> world) option" where
  "free_streams t [] sw = Some sw"
| "free_streams t (sp # sps) sw = do { sw \<leftarrow> iperf_free_stream t sp sw; free_streams t sps sw }"

text \<open>The settings iperf_reset_test touches. It leaves bytes and blocks alone.\<close>

definition reset_settings :: "iperf_settings \<Rightarrow> iperf_settings" where
  "reset_settings s = s\<lparr>
     socket_bufsize := 0, blksize := DEFAULT_TCP_BLKSIZE, rate := 0, fqrate := 0, burst := 0,
     mss := 0, tos := 0, dont_fragment := 0, skip_rx_copy := 0, authtoken := None,
     client_username := None, client_password := None, client_rsa_pubkey := None\<rparr>"

text \<open>The assignments after the streams and timers are gone.\<close>

definition reset_fields :: "iperf_test \<Rightarrow> iperf_test" where
  "reset_fields t =
     (let t = t\<lparr>test_done := 0, streams := [], congestion := None, remote_congestion_used := None,
            role := CHR ''s'', mode := RECEIVER, sender_has_retransmits := 0\<rparr>;
          (_, t, _) = set_protocol Ptcp t 0
      in t\<lparr>omit := OMIT, duration := DURATION, server_affinity := -1, state := 0, summary_printed := 0,
            ctrl_sck := -1, listener := -1, prot_listener := -1, test_bytes_sent := 0,
            blocks_sent := 0, test_bytes_received := 0, blocks_received := 0,
            other_side_has_retransmits := 0, bitrate_limit_stats_count := 0,
            bitrate_limit_last_interval_index := 0, bitrate_limit_exceeded := 0,
            bitrate_limit_intervals_traffic_bytes :=
              replicate 60 0 @ drop 60 (bitrate_limit_intervals_traffic_bytes t),
            reverse := 0, bidirectional := 0, no_delay := 0, read_set := [], write_set := [],
            num_streams := 1, settings := reset_settings (settings t), zerocopy := 0,
            cookie := replicate COOKIE_SIZE 0, multisend := 10, udp_counters_64bit := 0,
            title := None, extra_data := None, server_output_list := []\<rparr>)"

text \<open>The four timers are cancelled and their handles cleared, in the source's order.\<close>

definition cancel_timers :: "iperf_test \<Rightarrow> 'p tstore \<Rightarrow> (iperf_test \<times> 'p tstore) option" where
  "cancel_timers t s = do {
     s \<leftarrow> cancel_timer (omit_timer t) s;
     s \<leftarrow> cancel_timer (timer t) s;
     s \<leftarrow> cancel_timer (stats_timer t) s;
     s \<leftarrow> cancel_timer (reporter_timer t) s;
     Some (t\<lparr>omit_timer := None, timer := None, stats_timer := None, reporter_timer := None\<rparr>, s) }"

definition iperf_reset_test :: "iperf_test \<Rightarrow> 'p tstore \<times> world \<Rightarrow> (iperf_test \<times> 'p tstore \<times> world) option" where
  "iperf_reset_test t sw = do {
     (s, w) \<leftarrow> free_streams t (streams t) sw;
     let (t, w) = iperf_quic_reset_test t w;
     (t, s) \<leftarrow> cancel_timers t s;
     Some (reset_fields t, s, w) }"

section \<open>iperf_reset_stats\<close>

text \<open>The total number of retransmissions comes from TCP_INFO of the stream's socket.\<close>

definition reset_stream_stats :: "int \<Rightarrow> (iperf_stream \<Rightarrow> int) \<Rightarrow> iperf_time \<Rightarrow> iperf_stream \<Rightarrow> iperf_stream" where
  "reset_stream_stats has_retr total_retrans now sp =
     sp\<lparr>omitted_packet_count := packet_count sp, omitted_cnt_error := cnt_error sp,
        omitted_outoforder_packets := outoforder_packets sp, jitter := 0,
        result := (result sp)\<lparr>bytes_sent_omit := bytes_sent (result sp), bytes_received := 0,
          bytes_sent_this_interval := 0, bytes_received_this_interval := 0,
          stream_prev_total_retrans :=
            (if has_retr = 1 then total_retrans sp else stream_prev_total_retrans (result sp)),
          stream_retrans := 0, start_time := now\<rparr>\<rparr>"

definition iperf_reset_stats :: "(iperf_stream \<Rightarrow> int) \<Rightarrow> iperf_time \<Rightarrow> iperf_test \<Rightarrow> iperf_test" where
  "iperf_reset_stats total_retrans now t =
     t\<lparr>test_bytes_sent := 0, blocks_sent := 0,
       streams := map (reset_stream_stats (sender_has_retransmits t) total_retrans now) (streams t)\<rparr>"

section \<open>Consistency of role and mode\<close>

text \<open>The mode a test has to have for its role and direction options.\<close>

definition expected_mode :: "char \<Rightarrow> int \<Rightarrow> int \<Rightarrow> iperf_mode" where
  "expected_mode r dir bidir =
     (if bidir \<noteq> 0 then BIDIRECTIONAL
      else if (r = CHR ''c'') = (dir = 0) then SENDER else RECEIVER)"

definition mode_ok :: "'a test_flags_scheme \<Rightarrow> bool" where
  "mode_ok t \<longleftrightarrow> (role t = CHR ''c'' \<or> role t = CHR ''s'')
     \<and> \<not> (reverse t \<noteq> 0 \<and> bidirectional t \<noteq> 0)
     \<and> mode t = expected_mode (role t) (reverse t) (bidirectional t)"

lemma check_sender_fields [simp]:
  "mode (check_sender_has_retransmits t) = mode t" "role (check_sender_has_retransmits t) = role t"
  "reverse (check_sender_has_retransmits t) = reverse t"
  "bidirectional (check_sender_has_retransmits t) = bidirectional t"
  "protocol (check_sender_has_retransmits t) = protocol t"
  "protocols (check_sender_has_retransmits t) = protocols t"
  "settings (check_sender_has_retransmits t) = settings t"
  by (simp_all add: check_sender_has_retransmits_def)

lemma set_role_mode_ok:
  "r = CHR ''c'' \<or> r = CHR ''s'' \<Longrightarrow> \<not> (reverse t \<noteq> 0 \<and> bidirectional t \<noteq> 0)
    \<Longrightarrow> mode_ok (iperf_set_test_role r t)"
  by (auto simp: mode_ok_def iperf_set_test_role_def expected_mode_def Let_def)

lemma set_reverse_mode_ok:
  "mode_ok t \<Longrightarrow> bidirectional t = 0 \<Longrightarrow> mode_ok (iperf_set_test_reverse r t)"
  by (auto simp: mode_ok_def iperf_set_test_reverse_def expected_mode_def Let_def)

lemma set_bidirectional_mode_ok:
  "mode_ok t \<Longrightarrow> reverse t = 0 \<Longrightarrow> mode_ok (iperf_set_test_bidirectional b t)"
  by (auto simp: mode_ok_def iperf_set_test_bidirectional_def iperf_set_test_reverse_def
      expected_mode_def Let_def)

end
