(* ===== verification/Iperf_Stats.thy ===== *)
theory Iperf_Stats
  imports Iperf_Rate_Limit Iperf_Config
begin

text \<open>
  The statistics taken at the end of every interval: add_to_interval_list and
  iperf_stats_callback of src/iperf_api.c with the accessors of src/tcp_info.c and
  iperf_sctp_get_info of src/iperf_sctp.c. What the kernel says (the clock, TCP_INFO and the SCTP
  status of a stream) is an argument, so that the callback is a function of the test. The modelled
  build is Linux with TCP_INFO and the sent window in it.
\<close>

section \<open>Readings\<close>

text \<open>The SCTP status, when the call succeeds: pmtu, rtt, cwnd and wnd. The buffer for an interval
  starts out uninitialised.\<close>

record readings =
  clock_at :: "iperf_stream \<Rightarrow> iperf_time"
  tcp_at :: "iperf_stream \<Rightarrow> tcp_info"
  sctp_at :: "iperf_stream \<Rightarrow> (int \<times> int \<times> int \<times> int) option"
  junk :: iperf_interval_results

definition has_tcpinfo :: bool where "has_tcpinfo = True"

definition save_tcpinfo :: "readings \<Rightarrow> iperf_stream \<Rightarrow> iperf_interval_results \<Rightarrow> iperf_interval_results" where
  "save_tcpinfo rd sp irp = irp\<lparr>tcpInfo := tcp_at rd sp\<rparr>"

definition get_total_retransmits :: "iperf_interval_results \<Rightarrow> int" where
  "get_total_retransmits irp = tcpi_total_retrans (tcpInfo irp)"

definition get_snd_cwnd :: "iperf_interval_results \<Rightarrow> int" where
  "get_snd_cwnd irp = tcpi_snd_cwnd (tcpInfo irp) * tcpi_snd_mss (tcpInfo irp)"

definition get_snd_wnd :: "iperf_interval_results \<Rightarrow> int" where
  "get_snd_wnd irp = tcpi_snd_wnd (tcpInfo irp)"

definition get_rtt :: "iperf_interval_results \<Rightarrow> int" where
  "get_rtt irp = tcpi_rtt (tcpInfo irp)"

definition get_rttvar :: "iperf_interval_results \<Rightarrow> int" where
  "get_rttvar irp = tcpi_rttvar (tcpInfo irp)"

definition get_pmtu :: "iperf_interval_results \<Rightarrow> int" where
  "get_pmtu irp = tcpi_pmtu (tcpInfo irp)"

definition get_reorder :: "iperf_interval_results \<Rightarrow> int" where
  "get_reorder irp = tcpi_reord_seen (tcpInfo irp)"

section \<open>iperf_stats_callback\<close>

text \<open>Only the last interval is kept.\<close>

definition add_to_interval_list :: "iperf_interval_results \<Rightarrow> iperf_stream_result \<Rightarrow> iperf_stream_result" where
  "add_to_interval_list new rp = rp\<lparr>interval_results := butlast (interval_results rp) @ [new]\<rparr>"

definition last_interval :: "iperf_stream_result \<Rightarrow> iperf_interval_results option" where
  "last_interval rp = (if interval_results rp = [] then None else Some (last (interval_results rp)))"

definition note_cwnd :: "int \<Rightarrow> iperf_stream_result \<Rightarrow> iperf_stream_result" where
  "note_cwnd c rp = (if c > stream_max_snd_cwnd rp then rp\<lparr>stream_max_snd_cwnd := c\<rparr> else rp)"

definition note_wnd :: "int \<Rightarrow> iperf_stream_result \<Rightarrow> iperf_stream_result" where
  "note_wnd c rp = (if c > stream_max_snd_wnd rp then rp\<lparr>stream_max_snd_wnd := c\<rparr> else rp)"

definition note_rtt :: "int \<Rightarrow> iperf_stream_result \<Rightarrow> iperf_stream_result" where
  "note_rtt r rp =
     (let rp = (if r > stream_max_rtt rp then rp\<lparr>stream_max_rtt := r\<rparr> else rp);
          rp = (if stream_min_rtt rp = 0 \<or> r < stream_min_rtt rp then rp\<lparr>stream_min_rtt := r\<rparr> else rp)
      in rp\<lparr>stream_sum_rtt := stream_sum_rtt rp + r, stream_count_rtt := stream_count_rtt rp + 1\<rparr>)"

text \<open>The start of an interval is the end of the one before, or the start of the stream.\<close>

definition stats_times :: "readings \<Rightarrow> iperf_stream \<Rightarrow> iperf_interval_results \<times> iperf_stream_result
    \<Rightarrow> iperf_interval_results \<times> iperf_stream_result" where
  "stats_times rd sp = (\<lambda>(temp, rp).
     (let start = (case last_interval rp of Some _ \<Rightarrow> end_time rp | None \<Rightarrow> start_time rp);
          rp = rp\<lparr>end_time := clock_at rd sp\<rparr>
      in (temp\<lparr>interval_start_time := start, interval_end_time := end_time rp,
              interval_duration := iperf_time_in_secs (snd (iperf_time_diff start (end_time rp)))\<rparr>, rp)))"

definition stats_tcp :: "readings \<Rightarrow> int \<Rightarrow> iperf_stream \<Rightarrow> iperf_interval_results \<times> iperf_stream_result
    \<Rightarrow> iperf_interval_results \<times> iperf_stream_result" where
  "stats_tcp rd has_retr sp = (\<lambda>(temp, rp).
     (let temp = save_tcpinfo rd sp temp in
      if has_retr \<noteq> 1 then (temp, rp)
      else
        (let total_retrans = get_total_retransmits temp;
             temp = temp\<lparr>interval_retrans := total_retrans - stream_prev_total_retrans rp\<rparr>;
             rp = rp\<lparr>stream_retrans := stream_retrans rp + interval_retrans temp,
                    stream_prev_total_retrans := total_retrans\<rparr>;
             temp = temp\<lparr>snd_cwnd := get_snd_cwnd temp\<rparr>;
             rp = note_cwnd (snd_cwnd temp) rp;
             temp = temp\<lparr>snd_wnd := get_snd_wnd temp\<rparr>;
             rp = note_wnd (snd_wnd temp) rp;
             temp = temp\<lparr>rtt := get_rtt temp\<rparr>;
             rp = note_rtt (rtt temp) rp;
             temp = temp\<lparr>rttvar := get_rttvar temp, pmtu := get_pmtu temp, reorder := get_reorder temp\<rparr>
         in (temp, rp\<lparr>stream_reorder := reorder temp\<rparr>))))"

definition stats_packets :: "iperf_stream \<Rightarrow> iperf_interval_results \<times> iperf_stream_result
    \<Rightarrow> iperf_interval_results \<times> iperf_stream_result" where
  "stats_packets sp = (\<lambda>(temp, rp).
     (let (p, ooo, err) = (case last_interval rp of
            None \<Rightarrow> (0, 0, 0)
          | Some irp \<Rightarrow> (ir_packet_count irp, ir_outoforder_packets irp, ir_cnt_error irp))
      in (temp\<lparr>interval_packet_count := packet_count sp - p,
              interval_outoforder_packets := outoforder_packets sp - ooo,
              interval_cnt_error := cnt_error sp - err,
              ir_packet_count := packet_count sp, ir_jitter := jitter sp,
              ir_outoforder_packets := outoforder_packets sp, ir_cnt_error := cnt_error sp\<rparr>, rp)))"

definition stats_sctp :: "readings \<Rightarrow> iperf_stream \<Rightarrow> iperf_interval_results \<times> iperf_stream_result
    \<Rightarrow> iperf_interval_results \<times> iperf_stream_result" where
  "stats_sctp rd sp = (\<lambda>(temp, rp).
     (case sctp_at rd sp of
        None \<Rightarrow> (temp, rp)
      | Some (mtu, r, cwnd, wnd) \<Rightarrow>
          (let temp = temp\<lparr>pmtu := mtu, rtt := r, snd_cwnd := cwnd, snd_wnd := wnd\<rparr>;
               rp = note_wnd wnd (note_cwnd cwnd rp)
           in (temp, if r \<ge> 0 then note_rtt r rp else rp))))"

text \<open>One round of the loop: the buffer carries over to the next stream.\<close>

definition stats_stream :: "readings \<Rightarrow> iperf_test \<Rightarrow> iperf_interval_results \<Rightarrow> iperf_stream
    \<Rightarrow> iperf_interval_results \<times> iperf_stream" where
  "stats_stream rd t temp sp =
     (let rp = result sp;
          temp = temp\<lparr>bytes_transferred := (if sender sp \<noteq> 0 then bytes_sent_this_interval rp
                                          else bytes_received_this_interval rp)\<rparr>;
          tr = stats_times rd sp (temp, rp);
          tr = (if protocol t = Ptcp
                then (if has_tcpinfo then stats_tcp rd (sender_has_retransmits t) sp tr else tr)
                else stats_packets sp tr);
          (temp, rp) = (if protocol t = Psctp then stats_sctp rd sp tr else tr);
          rp = add_to_interval_list temp rp
      in (temp, sp\<lparr>result := rp\<lparr>bytes_sent_this_interval := 0, bytes_received_this_interval := 0\<rparr>\<rparr>))"

fun stats_streams :: "readings \<Rightarrow> iperf_test \<Rightarrow> iperf_interval_results \<Rightarrow> iperf_stream list \<Rightarrow> iperf_stream list" where
  "stats_streams rd t temp [] = []"
| "stats_streams rd t temp (sp # sps) =
     (case stats_stream rd t temp sp of (temp, sp) \<Rightarrow> sp # stats_streams rd t temp sps)"

definition interval_bytes :: "iperf_stream list \<Rightarrow> u64" where
  "interval_bytes sps = sum_list (map (\<lambda>sp. bytes_sent_this_interval (result sp) + bytes_received_this_interval (result sp)) sps)"

definition iperf_stats_callback :: "readings \<Rightarrow> iperf_test \<Rightarrow> iperf_test option" where
  "iperf_stats_callback rd t =
     (let temp = (junk rd)\<lparr>omitted := omitting t, rtt := 0, rttvar := 0, pmtu := 0\<rparr>;
          t' = t\<lparr>streams := stats_streams rd t temp (streams t)\<rparr>
      in if role t = CHR ''s'' then iperf_check_total_rate t' (interval_bytes (streams t)) else Some t')"

section \<open>What an interval report holds\<close>

lemma note_frames [simp]:
  "interval_results (note_cwnd c rp) = interval_results rp" "interval_results (note_wnd c rp) = interval_results rp"
  "interval_results (note_rtt c rp) = interval_results rp"
  "bytes_sent (note_cwnd c rp) = bytes_sent rp" "bytes_sent (note_wnd c rp) = bytes_sent rp"
  "bytes_sent (note_rtt c rp) = bytes_sent rp"
  "bytes_received (note_cwnd c rp) = bytes_received rp" "bytes_received (note_wnd c rp) = bytes_received rp"
  "bytes_received (note_rtt c rp) = bytes_received rp"
  "stream_retrans (note_cwnd c rp) = stream_retrans rp" "stream_retrans (note_wnd c rp) = stream_retrans rp"
  "stream_retrans (note_rtt c rp) = stream_retrans rp"
  "stream_prev_total_retrans (note_cwnd c rp) = stream_prev_total_retrans rp"
  "stream_prev_total_retrans (note_wnd c rp) = stream_prev_total_retrans rp"
  "stream_prev_total_retrans (note_rtt c rp) = stream_prev_total_retrans rp"
  "end_time (note_cwnd c rp) = end_time rp" "end_time (note_wnd c rp) = end_time rp"
  "end_time (note_rtt c rp) = end_time rp"
  by (simp_all add: note_cwnd_def note_wnd_def note_rtt_def Let_def)

lemmas stage_defs = stats_tcp_def stats_packets_def stats_sctp_def save_tcpinfo_def Let_def

lemma stage_frames [simp]:
  "interval_results (snd (stats_tcp rd h sp tr)) = interval_results (snd tr)"
  "interval_results (snd (stats_packets sp tr)) = interval_results (snd tr)"
  "interval_results (snd (stats_sctp rd sp tr)) = interval_results (snd tr)"
  "bytes_sent (snd (stats_tcp rd h sp tr)) = bytes_sent (snd tr)"
  "bytes_sent (snd (stats_packets sp tr)) = bytes_sent (snd tr)"
  "bytes_sent (snd (stats_sctp rd sp tr)) = bytes_sent (snd tr)"
  "bytes_received (snd (stats_tcp rd h sp tr)) = bytes_received (snd tr)"
  "bytes_received (snd (stats_packets sp tr)) = bytes_received (snd tr)"
  "bytes_received (snd (stats_sctp rd sp tr)) = bytes_received (snd tr)"
  "end_time (snd (stats_tcp rd h sp tr)) = end_time (snd tr)"
  "end_time (snd (stats_packets sp tr)) = end_time (snd tr)"
  "end_time (snd (stats_sctp rd sp tr)) = end_time (snd tr)"
  by (cases tr, simp add: stage_defs split: option.split prod.split)+

lemma stage_temp_frames [simp]:
  "bytes_transferred (fst (stats_tcp rd h sp tr)) = bytes_transferred (fst tr)"
  "bytes_transferred (fst (stats_packets sp tr)) = bytes_transferred (fst tr)"
  "bytes_transferred (fst (stats_sctp rd sp tr)) = bytes_transferred (fst tr)"
  "interval_start_time (fst (stats_tcp rd h sp tr)) = interval_start_time (fst tr)"
  "interval_start_time (fst (stats_packets sp tr)) = interval_start_time (fst tr)"
  "interval_start_time (fst (stats_sctp rd sp tr)) = interval_start_time (fst tr)"
  "interval_end_time (fst (stats_tcp rd h sp tr)) = interval_end_time (fst tr)"
  "interval_end_time (fst (stats_packets sp tr)) = interval_end_time (fst tr)"
  "interval_end_time (fst (stats_sctp rd sp tr)) = interval_end_time (fst tr)"
  by (cases tr, simp add: stage_defs split: option.split prod.split)+

lemma stats_times_simps [simp]:
  "interval_results (snd (stats_times rd sp tr)) = interval_results (snd tr)"
  "bytes_sent (snd (stats_times rd sp tr)) = bytes_sent (snd tr)"
  "bytes_received (snd (stats_times rd sp tr)) = bytes_received (snd tr)"
  "end_time (snd (stats_times rd sp tr)) = clock_at rd sp"
  "bytes_transferred (fst (stats_times rd sp tr)) = bytes_transferred (fst tr)"
  "interval_end_time (fst (stats_times rd sp tr)) = clock_at rd sp"
  "interval_start_time (fst (stats_times rd sp tr))
    = (if interval_results (snd tr) = [] then start_time (snd tr) else end_time (snd tr))"
  "stream_retrans (snd (stats_times rd sp tr)) = stream_retrans (snd tr)"
  "stream_prev_total_retrans (snd (stats_times rd sp tr)) = stream_prev_total_retrans (snd tr)"
  by (cases tr, simp add: stats_times_def last_interval_def Let_def)+

text \<open>The stages of a round, one after the other.\<close>

definition stages :: "readings \<Rightarrow> iperf_test \<Rightarrow> iperf_interval_results \<Rightarrow> iperf_stream
    \<Rightarrow> iperf_interval_results \<times> iperf_stream_result" where
  "stages rd t temp sp =
     (let tr = stats_times rd sp (temp\<lparr>bytes_transferred := (if sender sp \<noteq> 0 then bytes_sent_this_interval (result sp)
                  else bytes_received_this_interval (result sp))\<rparr>, result sp);
          tr = (if protocol t = Ptcp then stats_tcp rd (sender_has_retransmits t) sp tr else stats_packets sp tr)
      in if protocol t = Psctp then stats_sctp rd sp tr else tr)"

lemma stats_stream_stages:
  "stats_stream rd t temp sp =
     (fst (stages rd t temp sp),
      sp\<lparr>result := (add_to_interval_list (fst (stages rd t temp sp)) (snd (stages rd t temp sp)))
           \<lparr>bytes_sent_this_interval := 0, bytes_received_this_interval := 0\<rparr>\<rparr>)"
  by (simp add: stats_stream_def stages_def has_tcpinfo_def Let_def case_prod_unfold)

text \<open>After the callback a stream has exactly one interval on its list, the one just ended: it starts
  where the last one ended, it holds the bytes counted since then, and the counting starts again.\<close>

lemma stats_stream_report:
  assumes run: "stats_stream rd t temp sp = (temp', sp')"
  shows "length (interval_results (result sp)) \<le> 1 \<Longrightarrow> interval_results (result sp') = [temp']"
    and "bytes_transferred temp' = (if sender sp \<noteq> 0 then bytes_sent_this_interval (result sp)
           else bytes_received_this_interval (result sp))"
    and "interval_start_time temp' = (if interval_results (result sp) = [] then start_time (result sp)
           else end_time (result sp))"
    and "interval_end_time temp' = clock_at rd sp" and "end_time (result sp') = clock_at rd sp"
    and "bytes_sent_this_interval (result sp') = 0" and "bytes_received_this_interval (result sp') = 0"
    and "bytes_sent (result sp') = bytes_sent (result sp)"
    and "bytes_received (result sp') = bytes_received (result sp)"
    and "sid sp' = sid sp"
proof -
  have t: "temp' = fst (stages rd t temp sp)" and s: "sp' = sp\<lparr>result := (add_to_interval_list temp' (snd (stages rd t temp sp)))
           \<lparr>bytes_sent_this_interval := 0, bytes_received_this_interval := 0\<rparr>\<rparr>"
    using run unfolding stats_stream_stages by auto
  show "interval_results (result sp') = [temp']" if "length (interval_results (result sp)) \<le> 1"
  proof -
    have "butlast (interval_results (result sp)) = []"
      using that by (cases "interval_results (result sp)") auto
    then show ?thesis by (simp add: s add_to_interval_list_def stages_def Let_def)
  qed
  note d = t s add_to_interval_list_def stages_def Let_def
  show "bytes_transferred temp' = (if sender sp \<noteq> 0 then bytes_sent_this_interval (result sp)
           else bytes_received_this_interval (result sp))" by (simp add: d)
  show "interval_start_time temp' = (if interval_results (result sp) = [] then start_time (result sp)
           else end_time (result sp))" by (simp add: d)
  show "interval_end_time temp' = clock_at rd sp" "end_time (result sp') = clock_at rd sp"
    "bytes_sent_this_interval (result sp') = 0" "bytes_received_this_interval (result sp') = 0"
    "bytes_sent (result sp') = bytes_sent (result sp)" "bytes_received (result sp') = bytes_received (result sp)"
    "sid sp' = sid sp" by (simp_all add: d)
qed

text \<open>The retransmissions of the intervals add up to what the kernel counted.\<close>

lemma stats_tcp_retrans:
  "stream_retrans (snd (stats_tcp rd 1 sp tr))
     = stream_retrans (snd tr) + (tcpi_total_retrans (tcp_at rd sp) - stream_prev_total_retrans (snd tr))"
  "stream_prev_total_retrans (snd (stats_tcp rd 1 sp tr)) = tcpi_total_retrans (tcp_at rd sp)"
  "interval_retrans (fst (stats_tcp rd 1 sp tr)) = tcpi_total_retrans (tcp_at rd sp) - stream_prev_total_retrans (snd tr)"
  by (cases tr, simp add: stats_tcp_def save_tcpinfo_def get_total_retransmits_def Let_def)+

lemma stats_stream_retrans:
  assumes "stats_stream rd t temp sp = (temp', sp')" "protocol t = Ptcp" "sender_has_retransmits t = 1"
  shows "stream_retrans (result sp') - stream_retrans (result sp)
           = tcpi_total_retrans (tcp_at rd sp) - stream_prev_total_retrans (result sp)"
    and "stream_prev_total_retrans (result sp') = tcpi_total_retrans (tcp_at rd sp)"
    and "interval_retrans temp' = stream_retrans (result sp') - stream_retrans (result sp)"
  using assms
  by (auto simp: stats_stream_stages stages_def add_to_interval_list_def stats_tcp_retrans Let_def)

section \<open>The callback returns\<close>

text \<open>What the server's rate check needs: a ring that covers the averaging period.\<close>

definition rate_ok :: "iperf_test \<Rightarrow> bool" where
  "rate_ok t \<longleftrightarrow> bitrate_limit (settings t) = 0
     \<or> (\<exists>n. 0 < n \<and> n < 2147483648 \<and> n \<le> length (bitrate_limit_intervals_traffic_bytes t)
            \<and> bitrate_limit_stats_per_interval (settings t) = int n \<and> 1 \<le> stats_interval t * real n)"

definition rate_only :: "iperf_test \<Rightarrow> iperf_test \<Rightarrow> bool" where
  "rate_only t t' \<longleftrightarrow> (\<exists>i ring c e. length ring = length (bitrate_limit_intervals_traffic_bytes t)
     \<and> t' = t\<lparr>bitrate_limit_last_interval_index := i, bitrate_limit_intervals_traffic_bytes := ring,
             bitrate_limit_stats_count := c, bitrate_limit_exceeded := e\<rparr>)"

lemma rate_onlyI:
  "length ring = length (bitrate_limit_intervals_traffic_bytes t)
    \<Longrightarrow> rate_only t (t\<lparr>bitrate_limit_last_interval_index := i, bitrate_limit_intervals_traffic_bytes := ring,
             bitrate_limit_stats_count := c, bitrate_limit_exceeded := e\<rparr>)"
  unfolding rate_only_def by blast

lemma rate_only_refl: "rate_only t t"
  using rate_onlyI [of "bitrate_limit_intervals_traffic_bytes t" t, where i = "bitrate_limit_last_interval_index t"
      and c = "bitrate_limit_stats_count t" and e = "bitrate_limit_exceeded t"] by simp

lemma rate_only_ok: "rate_only t t' \<Longrightarrow> rate_ok t' = rate_ok t"
  by (auto simp: rate_only_def rate_ok_def)

lemma rate_only_frames:
  assumes "rate_only t t'"
  shows "streams t' = streams t" "timer t' = timer t" "stats_timer t' = stats_timer t"
    "reporter_timer t' = reporter_timer t" "omit_timer t' = omit_timer t" "role t' = role t" "test_done t' = test_done t"
  using assms by (auto simp: rate_only_def)

lemma check_total_rate_total:
  assumes "rate_ok t"
  shows "\<exists>t'. iperf_check_total_rate t x = Some t' \<and> rate_only t t'"
proof (cases "test_done t \<noteq> 0 \<or> bitrate_limit (settings t) = 0")
  case True
  then show ?thesis using rate_only_refl by (auto simp: iperf_check_total_rate_def)
next
  case False
  let ?ring = "bitrate_limit_intervals_traffic_bytes t"
  from False assms obtain n where n: "0 < n" "n < 2147483648" "n \<le> length ?ring"
    "bitrate_limit_stats_per_interval (settings t) = int n" "1 \<le> stats_interval t * real n"
    by (auto simp: rate_ok_def)
  define i where "i = (if bitrate_limit_last_interval_index t + 1 \<ge> word_of_int (int n) then 0
      else bitrate_limit_last_interval_index t + 1)"
  have "unat i < n"
  proof (cases "bitrate_limit_last_interval_index t + 1 \<ge> word_of_int (int n)")
    case False
    have "unat (word_of_nat n :: u64) = n" by (rule unat_small) (use n in linarith)
    with False show ?thesis by (simp add: i_def word_less_nat_alt not_le)
  qed (use n in \<open>simp add: i_def\<close>)
  then have il: "\<not> length ?ring \<le> unat i" "\<not> length ?ring < n" using n by auto
  let ?c = "bitrate_limit_stats_count t + 1" and ?r = "?ring[unat i := x]"
  let ?t = "t\<lparr>bitrate_limit_last_interval_index := i, bitrate_limit_intervals_traffic_bytes := ?r,
      bitrate_limit_stats_count := ?c\<rparr>"
  let ?q = "real (unat (sum_list (take n ?r) * 8)) / (stats_interval t * real n)"
  have run: "iperf_check_total_rate t x =
     (if ?c < word_of_int (int n) then Some ?t
      else do {
        quotient \<leftarrow> fdiv (real (unat (sum_list (take n ?r) * 8))) (stats_interval t * real n);
        bits_per_second \<leftarrow> double_to_u64 quotient;
        Some (if bits_per_second > bitrate_limit (settings t) then ?t\<lparr>bitrate_limit_exceeded := 1\<rparr> else ?t) })"
    unfolding iperf_check_total_rate_def Let_def n(4) i_def [symmetric] using False il
    by (simp cong: if_cong)
  have only: "rate_only t ?t" "rate_only t (?t\<lparr>bitrate_limit_exceeded := 1\<rparr>)"
    using rate_onlyI [of ?r t, where i = i and c = ?c and e = "bitrate_limit_exceeded t"]
      rate_onlyI [of ?r t, where i = i and c = ?c and e = 1] by simp_all
  have s: "stats_interval t * real n \<noteq> 0" "0 < stats_interval t * real n" using n(5) by linarith+
  have "unat w < 18446744073709551616" for w :: u64 using unsigned_less [of w, where ?'a = nat] by simp
  then have "real (unat w) < real (18446744073709551616 :: nat)" for w :: u64 by (simp only: of_nat_less_iff)
  then have w: "real (unat w) < 2 ^ 64" for w :: u64 by (simp only: of_nat_numeral) simp
  have "?q \<le> real (unat (sum_list (take n ?r) * 8)) / 1"
    by (rule divide_left_mono [OF n(5) of_nat_0_le_iff]) (use s in simp)
  then have "?q < 2 ^ 64" using w [of "sum_list (take n ?r) * 8"] by (simp only: div_by_1)
  moreover have "0 \<le> ?q" by (rule divide_nonneg_pos [OF of_nat_0_le_iff s(2)])
  ultimately obtain B where B: "double_to_u64 ?q = Some B" by (simp add: double_to_u64_def)
  have f: "fdiv (real (unat (sum_list (take n ?r) * 8))) (stats_interval t * real n) = Some ?q"
    by (simp only: fdiv_def s if_False)
  show ?thesis unfolding run f Option.bind.simps B using only by (auto split: if_split)
qed

end
