(* ===== verification/Iperf_Timer_List.thy ===== *)
theory Iperf_Timer_List
  imports Iperf_Timer
begin

text \<open>
  The refinement of the pointer code of Iperf_Timer to lists of addresses: dseg says which list a
  doubly linked segment of the store holds, and each operation is shown to return (no access to
  unallocated memory, no endless walk) and to act on that list as a sorted insertion or a deletion.
\<close>

section \<open>Segments of the store\<close>

fun dseg :: "(addr \<Rightarrow> 'p Timer option) \<Rightarrow> addr option \<Rightarrow> addr option \<Rightarrow> addr list
    \<Rightarrow> addr option \<Rightarrow> addr option \<Rightarrow> bool" where
  "dseg h p q [] p' q' \<longleftrightarrow> p = p' \<and> q = q'"
| "dseg h p q (a # as) p' q' \<longleftrightarrow>
     p = Some a \<and> (\<exists>x. h a = Some x \<and> prev x = q \<and> dseg h (nxt x) (Some a) as p' q')"

text \<open>The free list is linked by next only.\<close>

fun fseg :: "(addr \<Rightarrow> 'p Timer option) \<Rightarrow> addr option \<Rightarrow> addr list \<Rightarrow> bool" where
  "fseg h p [] \<longleftrightarrow> p = None"
| "fseg h p (a # as) \<longleftrightarrow> p = Some a \<and> (\<exists>x. h a = Some x \<and> fseg h (nxt x) as)"

lemma dseg_append:
  "dseg h p q (xs @ ys) p' q' \<longleftrightarrow> (\<exists>p1 q1. dseg h p q xs p1 q1 \<and> dseg h p1 q1 ys p' q')"
  by (induction xs arbitrary: p q) auto

lemma dseg_frame: "(\<And>a. a \<in> set xs \<Longrightarrow> h' a = h a) \<Longrightarrow> dseg h' p q xs p' q' = dseg h p q xs p' q'"
  by (induction xs arbitrary: p q) auto

lemma dseg_upd_other [simp]: "a \<notin> set xs \<Longrightarrow> dseg (h(a := v)) p q xs p' q' = dseg h p q xs p' q'"
  by (rule dseg_frame) auto

lemma fseg_frame: "(\<And>a. a \<in> set xs \<Longrightarrow> h' a = h a) \<Longrightarrow> fseg h' p xs = fseg h p xs"
  by (induction xs arbitrary: p) auto

lemma dseg_last: "dseg h p q xs p' q' \<Longrightarrow> q' = (if xs = [] then q else Some (last xs))"
  by (induction xs arbitrary: p q) auto

lemma dseg_first: "dseg h p q xs p' q' \<Longrightarrow> p = (if xs = [] then p' else Some (hd xs))"
  by (cases xs) auto

lemma dseg_alloc: "dseg h p q xs p' q' \<Longrightarrow> a \<in> set xs \<Longrightarrow> \<exists>x. h a = Some x"
  by (induction xs arbitrary: p q) auto

lemma fseg_alloc: "fseg h p xs \<Longrightarrow> a \<in> set xs \<Longrightarrow> \<exists>x. h a = Some x"
  by (induction xs arbitrary: p) auto

lemma dseg_relink_end:
  "dseg h p q (xs @ [b]) p' q' \<Longrightarrow> b \<notin> set xs \<Longrightarrow> h b = Some x
    \<Longrightarrow> dseg (h(b \<mapsto> x\<lparr>nxt := n\<rparr>)) p q (xs @ [b]) n (Some b)"
  by (auto simp: dseg_append)

lemma dseg_relink_start:
  "dseg h p q (c # ys) p' q' \<Longrightarrow> c \<notin> set ys \<Longrightarrow> h c = Some x
    \<Longrightarrow> dseg (h(c \<mapsto> x\<lparr>prev := q2\<rparr>)) (Some c) q2 (c # ys) p' q'"
  by auto

section \<open>What relinking leaves alone\<close>

definition pay :: "'p Timer \<Rightarrow> 'p Timer" where
  "pay x = x\<lparr>prev := None, nxt := None\<rparr>"

definition same_pay :: "(addr \<Rightarrow> 'p Timer option) \<Rightarrow> (addr \<Rightarrow> 'p Timer option) \<Rightarrow> bool" where
  "same_pay h h' \<longleftrightarrow> (\<forall>a. map_option pay (h' a) = map_option pay (h a))"

lemma pay_fields:
  "pay x = pay y \<longleftrightarrow> timer_proc x = timer_proc y \<and> client_data x = client_data y
     \<and> period_usecs x = period_usecs y \<and> periodic x = periodic y \<and> time x = time y"
  by (cases x; cases y) (auto simp: pay_def)

lemma same_pay_refl [simp]: "same_pay h h"
  by (simp add: same_pay_def)

lemma same_pay_trans: "same_pay h h' \<Longrightarrow> same_pay h' h'' \<Longrightarrow> same_pay h h''"
  by (simp add: same_pay_def)

lemma same_pay_upd: "h a = Some x \<Longrightarrow> pay y = pay x \<Longrightarrow> same_pay h (h(a \<mapsto> y))"
  by (simp add: same_pay_def)

lemma same_pay_Some: "same_pay h h' \<Longrightarrow> h a = Some x \<Longrightarrow> \<exists>y. h' a = Some y \<and> pay y = pay x"
  unfolding same_pay_def by (metis map_option_eq_Some)

lemma pay_link [simp]: "pay (x\<lparr>prev := q\<rparr>) = pay x" "pay (x\<lparr>nxt := n\<rparr>) = pay x"
  by (simp_all add: pay_def)

text \<open>The time an address is sorted by.\<close>

definition tm :: "'p tstore \<Rightarrow> addr \<Rightarrow> iperf_time" where
  "tm s a = time (the (cells s a))"

definition relinked :: "addr set \<Rightarrow> 'p tstore \<Rightarrow> 'p tstore \<Rightarrow> bool" where
  "relinked A s s' \<longleftrightarrow> free_timers s' = free_timers s \<and> same_pay (cells s) (cells s')
     \<and> (\<forall>a. a \<notin> A \<longrightarrow> cells s' a = cells s a)"

lemma relinked_tm: "relinked A s s' \<Longrightarrow> tm s' = tm s"
proof
  fix a
  assume "relinked A s s'"
  then have "map_option pay (cells s' a) = map_option pay (cells s a)"
    by (simp add: relinked_def same_pay_def)
  then show "tm s' a = tm s a"
    by (cases "cells s a"; cases "cells s' a") (auto simp: tm_def pay_fields)
qed

lemma relinked_trans: "relinked A s s' \<Longrightarrow> relinked B s' s'' \<Longrightarrow> relinked (A \<union> B) s s''"
  by (auto simp: relinked_def intro: same_pay_trans)

lemmas store_ops = set_next_def set_prev_def set_time_def put_def

section \<open>Deletion\<close>

lemma unlink_left:
  assumes "dseg (cells s) (timers s) None xs (Some t) q" and "distinct xs"
  obtains s' where "(case q of None \<Rightarrow> Some (s\<lparr>timers := n\<rparr>) | Some b \<Rightarrow> set_next b n s) = Some s'"
    and "dseg (cells s') (timers s') None xs n q" and "relinked (set xs) s s'"
proof (cases xs rule: rev_cases)
  case Nil
  with assms(1) have "q = None" by simp
  with Nil show ?thesis by (intro that [of "s\<lparr>timers := n\<rparr>"]) (auto simp: relinked_def)
next
  case (snoc ys b)
  with assms dseg_last [OF assms(1)] have q: "q = Some b" by simp
  from assms(1) snoc obtain x where x: "cells s b = Some x" using dseg_alloc by fastforce
  from dseg_relink_end [of "cells s" "timers s" None ys b "Some t" q x n] assms snoc x
  have "dseg ((cells s)(b \<mapsto> x\<lparr>nxt := n\<rparr>)) (timers s) None xs n q" by (simp add: q)
  with q x snoc show ?thesis
    by (intro that [of "put b (x\<lparr>nxt := n\<rparr>) s"])
      (auto simp: store_ops relinked_def intro: same_pay_upd)
qed

lemma unlink_right:
  assumes "dseg (cells s) n q ys None l" and "distinct ys"
  obtains s' l' where "(case n of None \<Rightarrow> Some s | Some c \<Rightarrow> set_prev c q2 s) = Some s'"
    and "dseg (cells s') n q2 ys None l'" and "relinked (set ys) s s'" and "timers s' = timers s"
proof (cases ys)
  case Nil
  with assms(1) show ?thesis by (intro that [of s q2]) (auto simp: relinked_def)
next
  case (Cons c zs)
  with assms(1) obtain x where n: "n = Some c" and x: "cells s c = Some x" by auto
  from dseg_relink_start [of "cells s" n q c zs None l x q2] assms Cons x
  have "dseg ((cells s)(c \<mapsto> x\<lparr>prev := q2\<rparr>)) n q2 ys None l" by (simp add: n)
  with n x Cons show ?thesis
    by (intro that [of "put c (x\<lparr>prev := q2\<rparr>) s" l])
      (auto simp: store_ops relinked_def intro: same_pay_upd)
qed

lemma list_remove_ok:
  assumes d: "dseg (cells s) (timers s) None (xs @ t # ys) None l" and dist: "distinct (xs @ t # ys)"
  obtains s' l' where "list_remove t s = Some s'"
    and "dseg (cells s') (timers s') None (xs @ ys) None l'"
    and "relinked (set (xs @ ys)) s s'"
proof -
  from d obtain x where x: "cells s t = Some x"
    and l: "dseg (cells s) (timers s) None xs (Some t) (prev x)"
    and r: "dseg (cells s) (nxt x) (Some t) ys None l"
    by (auto simp: dseg_append)
  obtain s1 where s1: "(case prev x of None \<Rightarrow> Some (s\<lparr>timers := nxt x\<rparr>)
        | Some b \<Rightarrow> set_next b (nxt x) s) = Some s1"
    and l1: "dseg (cells s1) (timers s1) None xs (nxt x) (prev x)" and rel1: "relinked (set xs) s s1"
    using unlink_left [OF l] dist by auto
  have r1: "dseg (cells s1) (nxt x) (Some t) ys None l"
    using rel1 dist r by (subst dseg_frame [of ys "cells s1" "cells s"]) (auto simp: relinked_def)
  obtain s2 l2 where s2: "(case nxt x of None \<Rightarrow> Some s1 | Some c \<Rightarrow> set_prev c (prev x) s1) = Some s2"
    and r2: "dseg (cells s2) (nxt x) (prev x) ys None l2"
    and rel2: "relinked (set ys) s1 s2" and tm2: "timers s2 = timers s1"
    using unlink_right [OF r1] dist by auto
  have l2: "dseg (cells s2) (timers s2) None xs (nxt x) (prev x)"
    using rel2 dist l1 tm2
    by (subst dseg_frame [of xs "cells s2" "cells s1"]) (auto simp: relinked_def)
  show thesis
  proof (rule that)
    show "list_remove t s = Some s2" using x s1 s2 by (simp add: list_remove_def)
    show "dseg (cells s2) (timers s2) None (xs @ ys) None l2"
      using l2 r2 by (auto simp: dseg_append)
    show "relinked (set (xs @ ys)) s s2" using relinked_trans [OF rel1 rel2] by simp
  qed
qed

section \<open>Insertion\<close>

fun tinsert :: "('a \<Rightarrow> 'k::linorder) \<Rightarrow> 'a \<Rightarrow> 'a list \<Rightarrow> 'a list" where
  "tinsert f t [] = [t]"
| "tinsert f t (a # as) = (if f t < f a then t # a # as else a # tinsert f t as)"

lemma set_tinsert [simp]: "set (tinsert f t as) = insert t (set as)"
  by (induction as) auto

lemma distinct_tinsert [simp]: "distinct (tinsert f t as) \<longleftrightarrow> t \<notin> set as \<and> distinct as"
  by (induction as) auto

lemma sorted_tinsert [simp]: "sorted (map f as) \<Longrightarrow> sorted (map f (tinsert f t as))"
  by (induction as) auto

lemma tinsert_cong: "(\<And>a. a \<in> insert t (set as) \<Longrightarrow> f a = g a) \<Longrightarrow> tinsert f t as = tinsert g t as"
  by (induction as) auto

lemma list_add_walk_ok:
  "dseg (cells s) (timers s) None (xs @ [b]) t2 (Some b) \<Longrightarrow> dseg (cells s) t2 (Some b) ys None l
    \<Longrightarrow> distinct (xs @ b # ys) \<Longrightarrow> t \<notin> set (xs @ b # ys) \<Longrightarrow> cells s t = Some x
    \<Longrightarrow> \<exists>s' l'. list_add_walk t b t2 s = Some s'
          \<and> dseg (cells s') (timers s') None (xs @ b # tinsert (tm s) t ys) None l'
          \<and> relinked (insert t (set (xs @ b # ys))) s s'"
proof (induction ys arbitrary: xs b t2)
  case Nil
  then have t2: "t2 = None" by simp
  from Nil obtain y where y: "cells s b = Some y" by (auto simp: dseg_append)
  let ?s1 = "put b (y\<lparr>nxt := Some t\<rparr>) s"
  let ?s3 = "put t (x\<lparr>prev := Some b, nxt := None\<rparr>) ?s1"
  have "b \<noteq> t" using Nil.prems by auto
  then have run: "list_add_walk t b t2 s = Some ?s3"
    using y Nil.prems by (simp add: t2 list_add_walk.simps store_ops)
  have "dseg (cells ?s1) (timers ?s1) None (xs @ [b]) (Some t) (Some b)"
    using Nil.prems y dseg_relink_end [of "cells s" "timers s" None xs b t2 "Some b" y "Some t"]
    by (simp add: put_def)
  then have "dseg (cells ?s3) (timers ?s3) None (xs @ [b, t]) None (Some t)"
    using Nil.prems \<open>b \<noteq> t\<close> by (auto simp: dseg_append put_def)
  moreover have "relinked (insert t (set (xs @ [b]))) s ?s3"
    using y Nil.prems \<open>b \<noteq> t\<close> by (auto simp: relinked_def put_def same_pay_def)
  ultimately show ?case using run by auto
next
  case (Cons a ys)
  from Cons.prems obtain y where y: "cells s b = Some y" by (auto simp: dseg_append)
  from Cons.prems obtain z where t2: "t2 = Some a" and z: "cells s a = Some z" "prev z = Some b"
    and rest: "dseg (cells s) (nxt z) (Some a) ys None l" by auto
  have ne: "b \<noteq> t" "a \<noteq> t" "a \<noteq> b" using Cons.prems by auto
  have tms: "tm s t = time x" "tm s a = time z" using Cons.prems z by (auto simp: tm_def)
  show ?case
  proof (cases "time x < time z")
    case True
    let ?s1 = "put b (y\<lparr>nxt := Some t\<rparr>) s"
    let ?s3 = "put t (x\<lparr>prev := Some b, nxt := Some a\<rparr>) ?s1"
    let ?s4 = "put a (z\<lparr>prev := Some t\<rparr>) ?s3"
    have run: "list_add_walk t b t2 s = Some ?s4"
      using True y z ne Cons.prems by (simp add: t2 list_add_walk.simps store_ops)
    have "dseg (cells ?s1) (timers ?s1) None (xs @ [b]) (Some t) (Some b)"
      using Cons.prems y dseg_relink_end [of "cells s" "timers s" None xs b t2 "Some b" y "Some t"]
      by (simp add: put_def)
    then have "dseg (cells ?s4) (timers ?s4) None (xs @ b # t # a # ys) None l"
      using Cons.prems ne rest by (auto simp: dseg_append put_def)
    moreover have "relinked (insert t (set (xs @ b # a # ys))) s ?s4"
      using y z Cons.prems ne by (auto simp: relinked_def put_def same_pay_def)
    ultimately show ?thesis using run True tms by auto
  next
    case False
    have d: "dseg (cells s) (timers s) None ((xs @ [b]) @ [a]) (nxt z) (Some a)"
      using Cons.prems(1) z t2 by (subst dseg_append) auto
    have "list_add_walk t b t2 s = list_add_walk t a (nxt z) s"
      using False y z Cons.prems by (subst list_add_walk.simps) (simp add: t2)
    moreover have "\<exists>s' l'. list_add_walk t a (nxt z) s = Some s'
          \<and> dseg (cells s') (timers s') None ((xs @ [b]) @ a # tinsert (tm s) t ys) None l'
          \<and> relinked (insert t (set ((xs @ [b]) @ a # ys))) s s'"
      by (rule Cons.IH [OF d rest]) (use Cons.prems in auto)
    ultimately show ?thesis using False tms by auto
  qed
qed

lemma list_add_ok:
  assumes d: "dseg (cells s) (timers s) None as None l" and dist: "distinct as"
    and t: "t \<notin> set as" and x: "cells s t = Some x"
  obtains s' l' where "list_add t s = Some s'"
    and "dseg (cells s') (timers s') None (tinsert (tm s) t as) None l'"
    and "relinked (insert t (set as)) s s'"
proof (cases as)
  case Nil
  with d x show ?thesis
    by (intro that [of "put t (x\<lparr>nxt := None, prev := None\<rparr>) (s\<lparr>timers := Some t\<rparr>)" "Some t"])
      (auto simp: list_add_def store_ops relinked_def same_pay_def)
next
  case (Cons h ys)
  with d obtain y where h: "timers s = Some h" and y: "cells s h = Some y" "prev y = None"
    and rest: "dseg (cells s) (nxt y) (Some h) ys None l" by auto
  have tms: "tm s t = time x" "tm s h = time y" using x y by (auto simp: tm_def)
  show ?thesis
  proof (cases "time x < time y")
    case True
    let ?s = "put h (y\<lparr>prev := Some t\<rparr>) (put t (x\<lparr>prev := None, nxt := Some h\<rparr>) s)\<lparr>timers := Some t\<rparr>"
    have "list_add t s = Some ?s"
      using True h x y t Cons by (auto simp: list_add_def store_ops)
    moreover have "dseg (cells ?s) (timers ?s) None (tinsert (tm s) t as) None l"
      using True tms Cons rest t dist by (auto simp: put_def)
    moreover have "relinked (insert t (set as)) s ?s"
      using Cons x y t by (auto simp: relinked_def put_def same_pay_def)
    ultimately show ?thesis by (rule that)
  next
    case False
    have "list_add t s = list_add_walk t h (nxt y) s"
      using False h x y by (simp add: list_add_def)
    moreover have "\<exists>s' l'. list_add_walk t h (nxt y) s = Some s'
        \<and> dseg (cells s') (timers s') None ([] @ h # tinsert (tm s) t ys) None l'
        \<and> relinked (insert t (set ([] @ h # ys))) s s'"
      by (rule list_add_walk_ok [OF _ rest]) (use h y Cons dist t x in auto)
    ultimately show ?thesis using that False tms Cons by auto
  qed
qed

end
