(* ===== verification/Iperf_Timer_Ops.thy ===== *)
theory Iperf_Timer_Ops
  imports Iperf_Timer_List
begin

text \<open>
  The invariant of the timer package and the operations that move a timer. In timers_inv s as fs
  the active list holds the addresses as, sorted by expiry, the free list holds fs, and no other
  Timer struct is allocated.
\<close>

section \<open>The invariant\<close>

definition timers_inv :: "'p tstore \<Rightarrow> addr list \<Rightarrow> addr list \<Rightarrow> bool" where
  "timers_inv s as fs \<longleftrightarrow>
     (\<exists>l. dseg (cells s) (timers s) None as None l) \<and> distinct as \<and> sorted (map (tm s) as)
     \<and> fseg (cells s) (free_timers s) fs \<and> distinct fs \<and> set as \<inter> set fs = {}
     \<and> dom (cells s) = set as \<union> set fs"

lemma timers_inv_empty: "timers_inv no_timers [] []"
  by (simp add: timers_inv_def no_timers_def)

lemma timers_inv_cell: "timers_inv s as fs \<Longrightarrow> a \<in> set as \<Longrightarrow> \<exists>x. cells s a = Some x"
  unfolding timers_inv_def by (meson dseg_alloc)

lemma timers_inv_head: "timers_inv s as fs \<Longrightarrow> timers s = (case as of [] \<Rightarrow> None | a # _ \<Rightarrow> Some a)"
  by (cases as) (auto simp: timers_inv_def)

lemma relinked_dom: "relinked A s s' \<Longrightarrow> dom (cells s') = dom (cells s)"
proof -
  assume "relinked A s s'"
  then have "map_option pay (cells s' a) = map_option pay (cells s a)" for a
    by (simp add: relinked_def same_pay_def)
  then have "cells s' a = None \<longleftrightarrow> cells s a = None" for a
    using map_option_is_None [of pay] by metis
  then show ?thesis by (auto simp: dom_def)
qed

lemma split_list_mem: "a \<in> set as \<Longrightarrow> distinct as
    \<Longrightarrow> \<exists>xs ys. as = xs @ a # ys \<and> remove1 a as = xs @ ys \<and> a \<notin> set xs \<and> a \<notin> set ys"
  by (drule split_list) (fastforce simp: remove1_append)

lemma set_remove1_distinct [simp]: "distinct as \<Longrightarrow> set (remove1 a as) = set as - {a}"
  by (simp add: set_remove1_eq)

lemma sorted_remove1: "sorted (map f as) \<Longrightarrow> sorted (map f (remove1 a as))"
proof (induction as)
  case (Cons b as)
  then show ?case using set_remove1_subset [of a as] by auto
qed simp

lemma list_remove_inv:
  assumes inv: "timers_inv s as fs" and t: "t \<in> set as"
  obtains s' l' where "list_remove t s = Some s'" and "relinked (set as - {t}) s s'"
    and "dseg (cells s') (timers s') None (remove1 t as) None l'"
proof -
  from inv have "distinct as" by (simp add: timers_inv_def)
  with t obtain xs ys where sp: "as = xs @ t # ys" "remove1 t as = xs @ ys" "t \<notin> set xs" "t \<notin> set ys"
    using split_list_mem by metis
  from inv obtain l where "dseg (cells s) (timers s) None (xs @ t # ys) None l" "distinct (xs @ t # ys)"
    by (auto simp: timers_inv_def sp(1))
  then obtain s' l' where "list_remove t s = Some s'"
    "dseg (cells s') (timers s') None (xs @ ys) None l'" "relinked (set (xs @ ys)) s s'"
    by (rule list_remove_ok)
  moreover have "set (xs @ ys) = set as - {t}" using sp by auto
  ultimately show thesis using that sp(2) by metis
qed

section \<open>tmr_cancel\<close>

lemma tmr_cancel_ok:
  assumes inv: "timers_inv s as fs" and t: "t \<in> set as"
  obtains s' where "tmr_cancel t s = Some s'" and "timers_inv s' (remove1 t as) (t # fs)"
    and "same_pay (cells s) (cells s')"
proof -
  obtain s1 l1 where s1: "list_remove t s = Some s1" and rel: "relinked (set as - {t}) s s1"
    and d: "dseg (cells s1) (timers s1) None (remove1 t as) None l1"
    using list_remove_inv [OF inv t] .
  from timers_inv_cell [OF inv t] obtain x where x: "cells s t = Some x" ..
  with rel have x1: "cells s1 t = Some x" by (auto simp: relinked_def)
  let ?s = "put t (x\<lparr>nxt := free_timers s, prev := None\<rparr>) s1\<lparr>free_timers := Some t\<rparr>"
  from rel have fr: "free_timers s1 = free_timers s" by (simp add: relinked_def)
  have run: "tmr_cancel t s = Some ?s"
    using s1 x1 fr by (simp add: tmr_cancel_def store_ops)
  have nt: "t \<notin> set (remove1 t as)" and ntf: "t \<notin> set fs"
    using inv t by (auto simp: timers_inv_def)
  have tms: "tm ?s a = tm s a" for a
    using fun_cong [OF relinked_tm [OF rel], of a] x1 by (auto simp: tm_def put_def)
  have pay: "same_pay (cells s) (cells ?s)"
    using rel x1 by (auto simp: relinked_def same_pay_def put_def)
  have free: "fseg (cells ?s) (free_timers s) fs"
  proof -
    have "cells ?s a = cells s a" if "a \<in> set fs" for a
      using that inv rel ntf by (auto simp: relinked_def timers_inv_def put_def)
    then show ?thesis using inv by (subst fseg_frame [of fs _ "cells s"]) (auto simp: timers_inv_def)
  qed
  have "dom (cells ?s) = dom (cells s)"
    using relinked_dom [OF rel] x by (auto simp: put_def)
  moreover have "map (tm ?s) = map (tm s)" using tms by (simp add: fun_eq_iff)
  ultimately have "timers_inv ?s (remove1 t as) (t # fs)"
    using inv d nt ntf free t x1 sorted_remove1 [of "tm s" as t]
    by (auto simp: timers_inv_def put_def)
  with run pay show thesis using that by blast
qed

section \<open>tmr_reset\<close>

definition per :: "'p tstore \<Rightarrow> addr \<Rightarrow> u64" where
  "per s a = period_usecs (the (cells s a))"

text \<open>A store that differs from s only in the expiry of one timer (and in its links).\<close>

definition retimed :: "addr \<Rightarrow> iperf_time \<Rightarrow> 'p tstore \<Rightarrow> 'p tstore \<Rightarrow> bool" where
  "retimed t v s s' \<longleftrightarrow> (\<forall>a. map_option (\<lambda>x. pay (x\<lparr>time := v\<rparr>)) (cells s' a)
        = map_option (\<lambda>x. pay (x\<lparr>time := v\<rparr>)) (cells s a))
     \<and> (\<forall>a. tm s' a = (if a = t then v else tm s a))"

lemma list_resort_ok:
  assumes inv: "timers_inv s as fs" and t: "t \<in> set as" and x: "cells s t = Some x"
  obtains s' where "do { s \<leftarrow> set_time t v s; list_resort t s } = Some s'"
    and "timers_inv s' (tinsert (tm s') t (remove1 t as)) fs" and "retimed t v s s'"
proof -
  let ?s = "put t (x\<lparr>time := v\<rparr>) s"
  from inv t have dist: "distinct as" and ntf: "t \<notin> set fs" by (auto simp: timers_inv_def)
  with t obtain xs ys where sp: "as = xs @ t # ys" "remove1 t as = xs @ ys" "t \<notin> set xs" "t \<notin> set ys"
    using split_list_mem by metis
  from inv obtain l where d: "dseg (cells s) (timers s) None (xs @ t # ys) None l"
    by (auto simp: timers_inv_def sp(1))
  then have "dseg (cells ?s) (timers ?s) None (xs @ t # ys) None l"
    using x sp by (auto simp: dseg_append put_def)
  moreover have "distinct (xs @ t # ys)" using dist sp by simp
  ultimately obtain s1 l1 where s1: "list_remove t ?s = Some s1"
    and d1: "dseg (cells s1) (timers s1) None (xs @ ys) None l1" and rel1: "relinked (set (xs @ ys)) ?s s1"
    by (rule list_remove_ok)
  have x1: "cells s1 t = Some (x\<lparr>time := v\<rparr>)" using rel1 sp by (auto simp: relinked_def put_def)
  obtain s2 l2 where s2: "list_add t s1 = Some s2"
    and d2: "dseg (cells s2) (timers s2) None (tinsert (tm s1) t (xs @ ys)) None l2"
    and rel2: "relinked (insert t (set (xs @ ys))) s1 s2"
    using list_add_ok [OF d1 _ _ x1] dist sp by auto
  have rel: "relinked (set as) ?s s2"
  proof -
    have "set (xs @ ys) \<union> insert t (set (xs @ ys)) = set as" using sp by auto
    with relinked_trans [OF rel1 rel2] show ?thesis by simp
  qed
  have tm12: "tm s2 = tm ?s" "tm s1 = tm ?s" using relinked_tm [OF rel] relinked_tm [OF rel1] by auto
  have tmv: "tm ?s a = (if a = t then v else tm s a)" for a by (simp add: tm_def put_def)
  have run: "do { s \<leftarrow> set_time t v s; list_resort t s } = Some s2"
    using x s1 s2 by (simp add: store_ops list_resort_def)
  have ret: "retimed t v s s2"
    unfolding retimed_def
  proof (intro conjI allI)
    fix a
    show "tm s2 a = (if a = t then v else tm s a)" using tm12 tmv by simp
    have "map_option pay (cells s2 a) = map_option pay (cells ?s a)"
      using rel by (simp add: relinked_def same_pay_def)
    then show "map_option (\<lambda>x. pay (x\<lparr>time := v\<rparr>)) (cells s2 a)
        = map_option (\<lambda>x. pay (x\<lparr>time := v\<rparr>)) (cells s a)"
      using x by (cases "a = t"; cases "cells s2 a"; cases "cells s a") (auto simp: put_def pay_fields)
  qed
  have "map (tm s) (xs @ ys) = map (tm s2) (xs @ ys)" using tm12 tmv sp by auto
  moreover have "sorted (map (tm s) (xs @ ys))"
    using inv sorted_remove1 [of "tm s" as t] sp by (auto simp: timers_inv_def)
  ultimately have srt: "sorted (map (tm s2) (tinsert (tm s2) t (xs @ ys)))" by (simp only: sorted_tinsert)
  have free: "fseg (cells s2) (free_timers s2) fs"
  proof -
    have "cells s2 a = cells s a" if "a \<in> set fs" for a
      using that inv rel ntf by (auto simp: relinked_def timers_inv_def put_def)
    then show ?thesis using inv rel
      by (subst fseg_frame [of fs _ "cells s"]) (auto simp: timers_inv_def relinked_def put_def)
  qed
  have "dom (cells s2) = dom (cells s)"
    using relinked_dom [OF rel] x by (auto simp: put_def)
  then have "timers_inv s2 (tinsert (tm s2) t (remove1 t as)) fs"
    using inv d2 srt free sp dist t unfolding timers_inv_def tm12 by auto
  with run ret show thesis using that by blast
qed

lemma retimed_per: "retimed t v s s' \<Longrightarrow> per s' a = per s a"
proof -
  assume "retimed t v s s'"
  then have "map_option (\<lambda>x. pay (x\<lparr>time := v\<rparr>)) (cells s' a)
      = map_option (\<lambda>x. pay (x\<lparr>time := v\<rparr>)) (cells s a)" by (simp add: retimed_def)
  then show ?thesis
    by (cases "cells s a"; cases "cells s' a") (auto simp: per_def pay_fields)
qed

lemma tmr_reset_ok:
  assumes inv: "timers_inv s as fs" and t: "t \<in> set as"
  obtains s' where "tmr_reset nowP clock t s = Some s'"
    and "timers_inv s' (tinsert (tm s') t (remove1 t as)) fs"
    and "retimed t (iperf_time_add_usecs (getnow nowP clock) (per s t)) s s'"
proof -
  from timers_inv_cell [OF inv t] obtain x where x: "cells s t = Some x" ..
  let ?v = "iperf_time_add_usecs (getnow nowP clock) (per s t)"
  obtain s' where "do { s \<leftarrow> set_time t ?v s; list_resort t s } = Some s'"
    "timers_inv s' (tinsert (tm s') t (remove1 t as)) fs" "retimed t ?v s s'"
    using list_resort_ok [OF inv t x] .
  then show thesis using x by (intro that) (auto simp: tmr_reset_def per_def)
qed

end
