(* ===== verification/Iperf_Timer_Run.thy ===== *)
theory Iperf_Timer_Run
  imports Iperf_Timer_Ops
begin

text \<open>
  tmr_create, tmr_timeout, tmr_cleanup and tmr_destroy on the invariant of Iperf_Timer_Ops: which
  block a creation takes and where it is linked, what the timeout computes, and that destroying
  the timers leaves nothing allocated.
\<close>

section \<open>tmr_create\<close>

text \<open>What one Timer holds apart from its links and its expiry.\<close>

definition tpay :: "'p tstore \<Rightarrow> addr \<Rightarrow> ('p \<times> nat \<times> u64 \<times> bool) option" where
  "tpay s a = map_option (\<lambda>x. (timer_proc x, client_data x, period_usecs x, periodic x)) (cells s a)"

lemma same_pay_tpay: "same_pay (cells s) (cells s') \<Longrightarrow> tpay s' = tpay s"
proof
  fix a assume "same_pay (cells s) (cells s')"
  then have "map_option pay (cells s' a) = map_option pay (cells s a)" by (simp add: same_pay_def)
  then show "tpay s' a = tpay s a"
    by (cases "cells s a"; cases "cells s' a") (auto simp: tpay_def pay_fields)
qed

lemma same_pay_tm: "same_pay (cells s) (cells s') \<Longrightarrow> tm s' = tm s"
proof
  fix a assume "same_pay (cells s) (cells s')"
  then have "map_option pay (cells s' a) = map_option pay (cells s a)" by (simp add: same_pay_def)
  then show "tm s' a = tm s a"
    by (cases "cells s a"; cases "cells s' a") (auto simp: tm_def pay_fields)
qed

lemma retimed_tpay: "retimed t v s s' \<Longrightarrow> tpay s' = tpay s"
proof
  fix a assume "retimed t v s s'"
  then have "map_option (\<lambda>x. pay (x\<lparr>time := v\<rparr>)) (cells s' a)
      = map_option (\<lambda>x. pay (x\<lparr>time := v\<rparr>)) (cells s a)" by (simp add: retimed_def)
  then show "tpay s' a = tpay s a"
    by (cases "cells s a"; cases "cells s' a") (auto simp: tpay_def pay_fields)
qed

lemma list_add_inv:
  assumes d: "dseg (cells s) (timers s) None as None l" and dist: "distinct as"
    and srt: "sorted (map (tm s) as)" and fr: "fseg (cells s) (free_timers s) fs" "distinct fs"
    and disj: "set as \<inter> set fs = {}" "t \<notin> set as" "t \<notin> set fs"
    and dom: "dom (cells s) = insert t (set as \<union> set fs)"
  obtains s' where "list_add t s = Some s'" and "timers_inv s' (tinsert (tm s') t as) fs"
    and "same_pay (cells s) (cells s')"
proof -
  from dom obtain x where x: "cells s t = Some x" by auto
  obtain s' l' where s': "list_add t s = Some s'"
    and d': "dseg (cells s') (timers s') None (tinsert (tm s) t as) None l'"
    and rel: "relinked (insert t (set as)) s s'"
    using list_add_ok [OF d dist disj(2) x] .
  have tms: "tm s' = tm s" by (rule relinked_tm [OF rel])
  have "fseg (cells s') (free_timers s') fs"
    using rel fr(1) disj by (subst fseg_frame [of fs _ "cells s"]) (auto simp: relinked_def)
  then have "timers_inv s' (tinsert (tm s') t as) fs"
    using d' dist srt fr(2) disj relinked_dom [OF rel] dom by (auto simp: timers_inv_def tms)
  moreover have "same_pay (cells s) (cells s')" using rel by (simp add: relinked_def)
  ultimately show thesis using s' that by blast
qed

text \<open>The struct a call of tmr_create initialises: a block of the free list, or a new one.\<close>

definition create_cell :: "iperf_time \<Rightarrow> 'p \<Rightarrow> nat \<Rightarrow> u64 \<Rightarrow> bool \<Rightarrow> 'p Timer \<Rightarrow> 'p Timer" where
  "create_cell now proc cdata us p x = x\<lparr>timer_proc := proc, client_data := cdata, period_usecs := us,
      periodic := p, time := iperf_time_add_usecs now us\<rparr>"

lemma tmr_create_no_memory:
  assumes "timers_inv s as []"
  shows "tmr_create nowP clock proc cdata us p None s = Some (None, s)"
  using assms by (simp add: timers_inv_def tmr_create_def)

lemma create_step:
  assumes d: "dseg (cells s) (timers s) None as None l" and dist: "distinct as"
    and srt: "sorted (map (tm s) as)" and fr: "fseg (cells s) (free_timers s) fs" "distinct fs"
    and disj: "set as \<inter> set fs = {}" "a \<notin> set as" "a \<notin> set fs"
    and dom: "dom (cells s) = insert a (set as \<union> set fs)" and x: "cells s a = Some x"
  obtains s' where "list_add a (put a (create_cell now proc cdata us p x) s) = Some s'"
    and "timers_inv s' (tinsert (tm s') a as) fs"
    and "tpay s' = (tpay s)(a \<mapsto> (proc, cdata, us, p))"
    and "tm s' = (tm s)(a := iperf_time_add_usecs now us)"
proof -
  let ?y = "create_cell now proc cdata us p x"
  let ?s = "put a ?y s"
  have tms: "tm ?s = (tm s)(a := iperf_time_add_usecs now us)"
    by (auto simp: tm_def put_def create_cell_def)
  have "map (tm ?s) as = map (tm s) as" using disj tms by (auto simp: map_eq_conv)
  then have "sorted (map (tm ?s) as)" using srt by metis
  moreover have "fseg (cells ?s) (free_timers ?s) fs"
    using fr(1) disj by (subst fseg_frame [of fs _ "cells s"]) (auto simp: put_def)
  moreover have "dseg (cells ?s) (timers ?s) None as None l" using d disj by (simp add: put_def)
  ultimately obtain s' where s': "list_add a ?s = Some s'" "timers_inv s' (tinsert (tm s') a as) fs"
    "same_pay (cells ?s) (cells s')"
    using list_add_inv [of ?s as l fs a] dist fr(2) disj dom by (auto simp: put_def)
  moreover have "tpay ?s = (tpay s)(a \<mapsto> (proc, cdata, us, p))"
    by (auto simp: tpay_def put_def create_cell_def)
  ultimately show thesis
    using that [of s'] same_pay_tpay [of ?s s'] same_pay_tm [of ?s s'] tms by metis
qed

lemma tmr_create_reuse:
  assumes inv: "timers_inv s as (a # fs)"
  obtains s' where "tmr_create nowP clock proc cdata us p mal s = Some (Some a, s')"
    and "timers_inv s' (tinsert (tm s') a as) fs"
    and "tpay s' = (tpay s)(a \<mapsto> (proc, cdata, us, p))"
    and "tm s' = (tm s)(a := iperf_time_add_usecs (getnow nowP clock) us)"
proof -
  from inv obtain x l where x: "cells s a = Some x" and f: "free_timers s = Some a"
    and fs: "fseg (cells s) (nxt x) fs" and d: "dseg (cells s) (timers s) None as None l"
    by (auto simp: timers_inv_def)
  let ?s = "s\<lparr>free_timers := nxt x\<rparr>"
  have tms: "tm ?s = tm s" "tpay ?s = tpay s" by (auto simp: tm_def tpay_def)
  have h: "dseg (cells ?s) (timers ?s) None as None l" "distinct as" "sorted (map (tm ?s) as)"
    "fseg (cells ?s) (free_timers ?s) fs" "distinct fs" "set as \<inter> set fs = {}" "a \<notin> set as"
    "a \<notin> set fs" "dom (cells ?s) = insert a (set as \<union> set fs)" "cells ?s a = Some x"
    using inv d fs x by (auto simp: timers_inv_def tms)
  obtain s' where "list_add a (put a (create_cell (getnow nowP clock) proc cdata us p x) ?s) = Some s'"
    "timers_inv s' (tinsert (tm s') a as) fs" "tpay s' = (tpay ?s)(a \<mapsto> (proc, cdata, us, p))"
    "tm s' = (tm ?s)(a := iperf_time_add_usecs (getnow nowP clock) us)"
    using create_step [OF h] .
  with x f show thesis
    by (intro that [of s']) (auto simp: tmr_create_def Let_def create_cell_def tms)
qed

lemma tmr_create_malloc:
  assumes inv: "timers_inv s as []" and fresh: "cells s a = None"
  obtains s' where "tmr_create nowP clock proc cdata us p (Some (a, junk)) s = Some (Some a, s')"
    and "timers_inv s' (tinsert (tm s') a as) []"
    and "tpay s' = (tpay s)(a \<mapsto> (proc, cdata, us, p))"
    and "tm s' = (tm s)(a := iperf_time_add_usecs (getnow nowP clock) us)"
proof -
  let ?s = "put a junk s"
  from inv obtain l where d: "dseg (cells s) (timers s) None as None l" by (auto simp: timers_inv_def)
  from inv fresh have na: "a \<notin> set as" using timers_inv_cell by fastforce
  have tms: "map (tm ?s) as = map (tm s) as"
    using na by (auto simp: tm_def put_def)
  then have srt: "sorted (map (tm ?s) as)" using inv unfolding timers_inv_def by metis
  have h: "dseg (cells ?s) (timers ?s) None as None l" "distinct as"
    "fseg (cells ?s) (free_timers ?s) []" "distinct ([]::addr list)" "set as \<inter> set [] = {}" "a \<notin> set as"
    "a \<notin> set []" "dom (cells ?s) = insert a (set as \<union> set [])" "cells ?s a = Some junk"
    using inv d na by (auto simp: timers_inv_def put_def)
  obtain s' where "list_add a (put a (create_cell (getnow nowP clock) proc cdata us p junk) ?s) = Some s'"
    "timers_inv s' (tinsert (tm s') a as) []" "tpay s' = (tpay ?s)(a \<mapsto> (proc, cdata, us, p))"
    "tm s' = (tm ?s)(a := iperf_time_add_usecs (getnow nowP clock) us)"
    using create_step [OF h(1,2) srt h(3-9)] .
  moreover have "(tpay ?s)(a \<mapsto> (proc, cdata, us, p)) = (tpay s)(a \<mapsto> (proc, cdata, us, p))"
    "(tm ?s)(a := v) = (tm s)(a := v)" for v by (auto simp: tpay_def tm_def put_def)
  moreover have "free_timers s = None" using inv by (simp add: timers_inv_def)
  ultimately show thesis
    by (intro that [of s']) (auto simp: tmr_create_def Let_def create_cell_def put_def)
qed

section \<open>tmr_timeout\<close>

lemma tmr_timeout_idle: "timers_inv s [] fs \<Longrightarrow> tmr_timeout nowP clock s = Some None"
  by (simp add: tmr_timeout_def timers_inv_head)

lemma sint_small: "unat (w::u64) < 2 ^ 63 \<Longrightarrow> sint w = int (unat w)"
proof -
  assume "unat w < 2 ^ 63"
  then have "int (unat w) < int (2 ^ 63)" by (simp only: of_nat_less_iff)
  then have "uint w < 2 ^ 63" by simp
  moreover have "- (2 ^ 63) \<le> uint w" by (rule order_trans [of _ 0]) simp_all
  ultimately show ?thesis using signed_take_bit_int_eq_self [of 63 "uint w"] by (simp add: sint_uint)
qed

lemma tmr_timeout_next:
  assumes inv: "timers_inv s (t # as) fs" and wf: "wf_time (tm s t)" "wf_time (getnow nowP clock)"
  shows "tmr_timeout nowP clock s =
    Some (Some (let us = int (time_us (tm s t) - time_us (getnow nowP clock))
                in (us div 1000000, us mod 1000000)))"
proof -
  let ?now = "getnow nowP clock"
  from inv obtain x where h: "timers s = Some t" and x: "cells s t = Some x"
    by (auto simp: timers_inv_def)
  have tx: "tm s t = time x" using x by (simp add: tm_def)
  obtain pst d where pd: "iperf_time_diff (time x) ?now = (pst, d)" by (cases "iperf_time_diff (time x) ?now")
  have p: "pst \<noteq> 0 \<longleftrightarrow> time x \<le> ?now" using diff_past [of "time x" ?now] pd by (auto split: if_splits)
  have du: "int (time_us d) = \<bar>int (time_us (time x)) - int (time_us ?now)\<bar>"
    using diff_us [of "time x" ?now] wf pd tx by simp
  have "sint (iperf_time_in_usecs d) = int (time_us d)"
    using time_us_bound [of d] by (subst sint_small) simp_all
  then have us: "(if pst \<noteq> 0 then 0 else sint (iperf_time_in_usecs d))
      = int (time_us (tm s t) - time_us ?now)"
    using p du time_le_us [of "time x" ?now] wf tx by auto
  show ?thesis
    using h x pd us by (simp add: tmr_timeout_def Let_def c_div_nonneg c_rem_nonneg)
qed

section \<open>tmr_cleanup and tmr_destroy\<close>

lemma tmr_cleanup_ok:
  "timers_inv s as fs \<Longrightarrow> \<exists>s'. tmr_cleanup s = Some s' \<and> timers_inv s' as []
      \<and> timers s' = timers s \<and> (\<forall>a\<in>set as. cells s' a = cells s a)"
proof (induction fs arbitrary: s)
  case Nil
  then have "free_timers s = None" by (simp add: timers_inv_def)
  with Nil show ?case by (auto simp: tmr_cleanup.simps)
next
  case (Cons a fs)
  from Cons.prems obtain x where f: "free_timers s = Some a" and x: "cells s a = Some x"
    by (auto simp: timers_inv_def)
  let ?s = "s\<lparr>free_timers := nxt x, cells := (cells s)(a := None)\<rparr>"
  from Cons.prems have na: "a \<notin> set as" "a \<notin> set fs" by (auto simp: timers_inv_def)
  have "map (tm ?s) as = map (tm s) as" using na by (auto simp: tm_def)
  then have "sorted (map (tm ?s) as)" using Cons.prems unfolding timers_inv_def by metis
  moreover have "fseg (cells ?s) (nxt x) fs"
    using Cons.prems x na by (subst fseg_frame [of fs _ "cells s"]) (auto simp: timers_inv_def)
  moreover have "dom (cells ?s) = set as \<union> set fs"
    using Cons.prems na by (auto simp: timers_inv_def)
  ultimately have "timers_inv ?s as fs" using Cons.prems na by (auto simp: timers_inv_def)
  from Cons.IH [OF this] obtain s' where "tmr_cleanup ?s = Some s'" "timers_inv s' as []"
    "timers s' = timers s" "\<forall>a\<in>set as. cells s' a = cells ?s a" by auto
  moreover have "tmr_cleanup s = tmr_cleanup ?s" using f x by (subst tmr_cleanup.simps) simp
  ultimately show ?case using na by auto
qed

lemma tmr_cancel_all_ok:
  "timers_inv s as fs \<Longrightarrow> \<exists>s'. tmr_cancel_all s = Some s' \<and> timers_inv s' [] (rev as @ fs)"
proof (induction as arbitrary: s fs)
  case Nil
  then show ?case by (subst tmr_cancel_all.simps) (auto simp: timers_inv_head)
next
  case (Cons a as)
  obtain s1 where s1: "tmr_cancel a s = Some s1" "timers_inv s1 (remove1 a (a # as)) (a # fs)"
    by (rule tmr_cancel_ok [OF Cons.prems, of a]) auto
  from Cons.IH [of s1 "a # fs"] s1 obtain s' where
    "tmr_cancel_all s1 = Some s'" "timers_inv s' [] (rev as @ a # fs)" by auto
  with s1 Cons.prems show ?case by (subst tmr_cancel_all.simps) (simp add: timers_inv_head)
qed

lemma tmr_destroy_ok: "timers_inv s as fs \<Longrightarrow> tmr_destroy s = Some no_timers"
proof -
  assume "timers_inv s as fs"
  from tmr_cancel_all_ok [OF this] obtain s1 where
    s1: "tmr_cancel_all s = Some s1" "timers_inv s1 [] (rev as @ fs)" by blast
  from tmr_cleanup_ok [OF s1(2)] obtain s2 where
    s2: "tmr_cleanup s1 = Some s2" "timers_inv s2 [] []" by blast
  from s2(2) have "s2 = no_timers" by (cases s2) (auto simp: timers_inv_def no_timers_def)
  with s1 s2 show ?thesis by (simp add: tmr_destroy_def)
qed

end
