(* ===== verification/Iperf_Timer_Client.thy ===== *)
theory Iperf_Timer_Client
  imports Iperf_Timer_Run
begin

text \<open>
  tmr_run under the contract its callbacks have to keep. The locale timer_client says what a
  callback may do to the timers while the loop walks the list: under it the loop returns, touches
  no released timer and keeps the invariant, although a callback may move other timers. The locale
  quiet_timer_client is the contract of callbacks that leave the timers alone: under it the loop
  passes over no timer that is due.
\<close>

section \<open>The contract\<close>

definition active :: "'p tstore \<Rightarrow> addr list \<Rightarrow> addr \<Rightarrow> ('p \<times> nat \<times> u64 \<times> bool) option" where
  "active s as = tpay s |` set as"

text \<open>No expiry computed from now leaves the 32-bit seconds, and no timer has period zero.\<close>

definition periods_ok :: "iperf_time \<Rightarrow> 'p tstore \<Rightarrow> addr list \<Rightarrow> bool" where
  "periods_ok now s as \<longleftrightarrow> wf_time now \<and>
     (\<forall>a\<in>set as. wf_time (tm s a) \<and> 0 < unat (per s a)
        \<and> time_us now + unat (per s a) < 4294967296 * 1000000)"

lemma tpay_per: "tpay s' = tpay s \<Longrightarrow> per s' a = per s a \<or> cells s a = None \<and> cells s' a = None"
  by (drule fun_cong [of _ _ a], cases "cells s a"; cases "cells s' a") (auto simp: tpay_def per_def)

lemma tpay_cell: "tpay s' = tpay s \<Longrightarrow> cells s a = Some x \<Longrightarrow>
    \<exists>y. cells s' a = Some y \<and> timer_proc y = timer_proc x \<and> client_data y = client_data x
      \<and> period_usecs y = period_usecs x \<and> periodic y = periodic x"
  by (drule fun_cong [of _ _ a], cases "cells s' a") (auto simp: tpay_def)

locale timer_client =
  fixes cb :: "('p, 's) callback"
    and cinv :: "'s \<Rightarrow> (addr \<Rightarrow> ('p \<times> nat \<times> u64 \<times> bool) option) \<Rightarrow> bool"
  assumes cb_ok: "timers_inv s as fs \<Longrightarrow> cinv c (active s as) \<Longrightarrow> periods_ok now s as
      \<Longrightarrow> t \<in> set as \<Longrightarrow> cells s t = Some x \<Longrightarrow> time x \<le> now
      \<Longrightarrow> \<exists>c' s' as'. cb (timer_proc x) (client_data x) now (c, s) = Some (c', s')
            \<and> timers_inv s' as' fs \<and> set as' = set as \<and> tpay s' = tpay s \<and> tm s' t = tm s t
            \<and> (\<forall>a\<in>set as. tm s' a = tm s a \<or> wf_time (tm s' a) \<and> now < tm s' a)
            \<and> cinv c' (if periodic x then active s as else (active s as)(t := None))"

text \<open>The measure of the loop: how far the active timers that are due lie behind the time.\<close>

definition lag :: "iperf_time \<Rightarrow> 'p tstore \<Rightarrow> addr list \<Rightarrow> nat" where
  "lag now s as = (\<Sum>a\<in>set as. Suc (time_us now) - time_us (tm s a))"

lemma lag_less:
  assumes "t \<in> set as" and "\<And>a. a \<in> set as \<Longrightarrow> time_us (tm s a) \<le> time_us (tm s' a) \<or> time_us now < time_us (tm s' a)"
    and "time_us (tm s t) \<le> time_us now"
    and "set as' = set as \<and> time_us (tm s t) < time_us (tm s' t) \<or> set as' = set as - {t}"
  shows "lag now s' as' < lag now s as"
proof -
  let ?f = "\<lambda>a. Suc (time_us now) - time_us (tm s a)"
  let ?g = "\<lambda>a. Suc (time_us now) - time_us (tm s' a)"
  have le: "(\<Sum>a\<in>set as - {t}. ?g a) \<le> (\<Sum>a\<in>set as - {t}. ?f a)"
  proof (rule sum_mono)
    fix a assume "a \<in> set as - {t}"
    then show "?g a \<le> ?f a" using assms(2) [of a] by auto
  qed
  have f: "lag now s as = ?f t + (\<Sum>a\<in>set as - {t}. ?f a)"
    using assms(1) by (simp add: lag_def sum.remove)
  from assms(4) show ?thesis
  proof
    assume a: "set as' = set as \<and> time_us (tm s t) < time_us (tm s' t)"
    then have "lag now s' as' = ?g t + (\<Sum>a\<in>set as - {t}. ?g a)"
      using assms(1) by (simp add: lag_def sum.remove)
    with f le a assms(3) show ?thesis by linarith
  next
    assume "set as' = set as - {t}"
    with f le assms(3) show ?thesis by (simp add: lag_def)
  qed
qed

lemma retimed_later:
  assumes p: "periods_ok now s as" and t: "t \<in> set as" "tm s t \<le> now"
  shows "time_us (iperf_time_add_usecs (tm s t) (per s t)) = time_us (tm s t) + unat (per s t)"
proof (rule time_us_add_usecs)
  have "wf_time (tm s t)" "wf_time now" using p t by (auto simp: periods_ok_def)
  with t(2) have le: "time_us (tm s t) \<le> time_us now" by (simp add: time_le_us)
  have b: "time_us now + unat (per s t) < 4294967296 * 1000000" using p t by (auto simp: periods_ok_def)
  with le show "time_us (tm s t) + unat (per s t) < 4294967296 * 1000000" by simp
  show "unat (usecs (tm s t)) + unat (per s t) < 2 ^ 64"
    using b unat_u32_less [of "usecs (tm s t)"] by simp
qed

section \<open>One firing\<close>

context timer_client
begin

lemma fire_ok:
  assumes inv: "timers_inv s as fs" and ci: "cinv c (active s as)" and p: "periods_ok now s as"
    and t: "t \<in> set as" "cells s t = Some x" "time x \<le> now"
  obtains c' s' as' fs' where "tmr_fire cb now t x (c, s) = Some (c', s')"
    and "timers_inv s' as' fs'" and "cinv c' (active s' as')" and "periods_ok now s' as'"
    and "lag now s' as' < lag now s as" and "set as - {t} \<subseteq> set as'" and "set as' \<subseteq> set as"
    and "set as \<union> set fs = set as' \<union> set fs'"
    and "t \<notin> set as' \<or> time_us (tm s t) < time_us (tm s' t)"
    and "\<forall>a\<in>set as - {t}. tm s' a = tm s a \<or> wf_time (tm s' a) \<and> now < tm s' a"
    and "\<exists>c1 s1 as1. cb (timer_proc x) (client_data x) now (c, s) = Some (c1, s1) \<and> timers_inv s1 as1 fs
          \<and> as' = (if periodic x then tinsert (tm s') t (remove1 t as1) else remove1 t as1)"
proof -
  from cb_ok [OF inv ci p t] obtain c1 s1 as1 where
    run: "cb (timer_proc x) (client_data x) now (c, s) = Some (c1, s1)"
    and inv1: "timers_inv s1 as1 fs" and as1: "set as1 = set as" and pay1: "tpay s1 = tpay s"
    and tm1: "tm s1 t = tm s t"
    and mv: "\<And>a. a \<in> set as \<Longrightarrow> tm s1 a = tm s a \<or> wf_time (tm s1 a) \<and> now < tm s1 a"
    and ci1: "cinv c1 (if periodic x then active s as else (active s as)(t := None))" by metis
  from tpay_cell [OF pay1 t(2)] obtain y where y: "cells s1 t = Some y" "periodic y = periodic x"
    "period_usecs y = period_usecs x" by blast
  have ty: "time y = tm s1 t" and py: "period_usecs y = per s t"
    using y t by (auto simp: tm_def per_def)
  have tmt: "tm s t = time x" using t by (simp add: tm_def)
  have wfn: "wf_time now" and wfa: "\<And>a. a \<in> set as \<Longrightarrow> wf_time (tm s a)"
    using p by (auto simp: periods_ok_def)
  have per1: "per s1 a = per s a" if "a \<in> set as" for a
    using tpay_per [OF pay1, of a] timers_inv_cell [OF inv that] by auto
  have p1: "periods_ok now s1 as1"
    unfolding periods_ok_def
  proof (intro conjI ballI)
    fix a assume "a \<in> set as1"
    then have a: "a \<in> set as" by (simp add: as1)
    show "wf_time (tm s1 a)" using mv [OF a] wfa [OF a] by auto
    show "0 < unat (per s1 a)" "time_us now + unat (per s1 a) < 4294967296 * 1000000"
      using p a by (auto simp: periods_ok_def per1 [OF a])
  qed (rule wfn)
  have mono: "time_us (tm s a) \<le> time_us (tm s1 a) \<or> time_us now < time_us (tm s1 a)"
    if "a \<in> set as" for a using mv [OF that] wfn time_less_us by auto
  have due: "time_us (tm s t) \<le> time_us now" using t tmt wfn wfa time_le_us by metis
  show thesis
  proof (cases "periodic x")
    case True
    let ?v = "iperf_time_add_usecs (time y) (period_usecs y)"
    obtain s2 where s2: "do { s \<leftarrow> set_time t ?v s1; list_resort t s } = Some s2"
      and inv2: "timers_inv s2 (tinsert (tm s2) t (remove1 t as1)) fs" and ret: "retimed t ?v s1 s2"
      using list_resort_ok [OF inv1 _ y(1), of ?v] t as1 by auto
    let ?as = "tinsert (tm s2) t (remove1 t as1)"
    have d1: "distinct as1" using inv1 by (simp add: timers_inv_def)
    have as2: "set ?as = set as" using d1 t as1 by auto
    have tm2: "tm s2 a = (if a = t then ?v else tm s1 a)" for a using ret by (simp add: retimed_def)
    have later: "time_us ?v = time_us (tm s t) + unat (per s t)"
      using retimed_later [OF p t(1)] t(3) tmt by (simp add: ty py tm1)
    have pos: "0 < unat (per s t)" using p t by (auto simp: periods_ok_def)
    have act: "active s2 ?as = active s as"
      using retimed_tpay [OF ret] pay1 as2 by (simp add: active_def)
    have per2: "per s2 a = per s1 a" for a by (rule retimed_per [OF ret])
    show thesis
    proof (rule that)
      show "tmr_fire cb now t x (c, s) = Some (c1, s2)"
        using run y s2 True by (simp add: tmr_fire_def)
      show "cinv c1 (active s2 ?as)" using ci1 True act by simp
      show "periods_ok now s2 ?as"
        using p1 t(1) unfolding periods_ok_def as2 as1 tm2 per2 by auto
      show "lag now s2 ?as < lag now s as"
        by (rule lag_less [OF t(1) _ due]) (use mono later pos as2 tm2 in auto)
      show "\<forall>a\<in>set as - {t}. tm s2 a = tm s a \<or> wf_time (tm s2 a) \<and> now < tm s2 a"
        using mv tm2 by auto
      show "timers_inv s2 ?as fs" by (rule inv2)
      show "\<exists>c1 s1 as1. cb (timer_proc x) (client_data x) now (c, s) = Some (c1, s1) \<and> timers_inv s1 as1 fs
          \<and> ?as = (if periodic x then tinsert (tm s2) t (remove1 t as1) else remove1 t as1)"
        using run inv1 True by auto
      show "set as - {t} \<subseteq> set ?as" "set ?as \<subseteq> set as" "set as \<union> set fs = set ?as \<union> set fs"
        unfolding as2 by auto
      show "t \<notin> set ?as \<or> time_us (tm s t) < time_us (tm s2 t)" using later pos tm2 by simp
    qed
  next
    case False
    obtain s2 where s2: "tmr_cancel t s1 = Some s2" and inv2: "timers_inv s2 (remove1 t as1) (t # fs)"
      and sp: "same_pay (cells s1) (cells s2)"
      using tmr_cancel_ok [OF inv1] t as1 by auto
    have d1: "distinct as1" using inv1 by (simp add: timers_inv_def)
    have as2: "set (remove1 t as1) = set as - {t}" using d1 as1 by auto
    have tm2: "tm s2 = tm s1" by (rule same_pay_tm [OF sp])
    have pay2: "tpay s2 = tpay s1" by (rule same_pay_tpay [OF sp])
    have act: "active s2 (remove1 t as1) = (active s as)(t := None)"
      unfolding active_def pay2 pay1 as2 by (auto simp: restrict_map_def)
    have per2: "per s2 a = per s1 a" if "a \<in> set as" for a
      using tpay_per [OF pay2, of a] that timers_inv_cell [OF inv1, of a] unfolding as1 by auto
    show thesis
    proof (rule that)
      show "tmr_fire cb now t x (c, s) = Some (c1, s2)"
        using run y s2 False by (simp add: tmr_fire_def)
      show "cinv c1 (active s2 (remove1 t as1))" using ci1 False act by simp
      show "periods_ok now s2 (remove1 t as1)"
        using p1 unfolding periods_ok_def as2 as1 tm2 by (simp add: per2)
      show "lag now s2 (remove1 t as1) < lag now s as"
        by (rule lag_less [OF t(1) _ due]) (use mono as2 tm2 in auto)
      show "\<forall>a\<in>set as - {t}. tm s2 a = tm s a \<or> wf_time (tm s2 a) \<and> now < tm s2 a"
        using mv tm2 by auto
      show "timers_inv s2 (remove1 t as1) (t # fs)" by (rule inv2)
      show "\<exists>c1 s1 as3. cb (timer_proc x) (client_data x) now (c, s) = Some (c1, s1) \<and> timers_inv s1 as3 fs
          \<and> remove1 t as1 = (if periodic x then tinsert (tm s2) t (remove1 t as3) else remove1 t as3)"
        using run inv1 False by auto
      show "set as - {t} \<subseteq> set (remove1 t as1)" "set (remove1 t as1) \<subseteq> set as"
        "set as \<union> set fs = set (remove1 t as1) \<union> set (t # fs)"
        "t \<notin> set (remove1 t as1) \<or> time_us (tm s t) < time_us (tm s2 t)"
        unfolding as2 using t(1) by auto
    qed
  qed
qed

end

section \<open>The loop\<close>

lemma dseg_next:
  "dseg h p q xs None l \<Longrightarrow> a \<in> set xs \<Longrightarrow> distinct xs \<Longrightarrow> h a = Some x \<Longrightarrow> nxt x = Some b
    \<Longrightarrow> b \<in> set xs \<and> b \<noteq> a"
proof (induction xs arbitrary: p q)
  case (Cons y ys)
  show ?case
  proof (cases "a = y")
    case True
    with Cons.prems have "dseg h (Some b) (Some a) ys None l" by auto
    with True Cons.prems show ?thesis by (cases ys) auto
  next
    case False
    with Cons.prems Cons.IH [of "nxt (the (h y))" "Some y"] show ?thesis by auto
  qed
qed simp

lemma timers_inv_next: "timers_inv s as fs \<Longrightarrow> a \<in> set as \<Longrightarrow> cells s a = Some x \<Longrightarrow> nxt x = Some b
    \<Longrightarrow> b \<in> set as - {a}"
  unfolding timers_inv_def using dseg_next [of "cells s" "timers s" None as] by blast

context timer_client
begin

lemma run_from_ok:
  "timers_inv s as fs \<Longrightarrow> cinv c (active s as) \<Longrightarrow> periods_ok now s as
    \<Longrightarrow> (case cur of None \<Rightarrow> True | Some t \<Rightarrow> t \<in> set as)
    \<Longrightarrow> \<exists>c' s' as' fs'. tmr_run_from cb now cur (c, s) = Some (c', s') \<and> timers_inv s' as' fs'
          \<and> cinv c' (active s' as') \<and> set as' \<subseteq> set as \<and> set as \<union> set fs = set as' \<union> set fs'"
proof (induction "lag now s as" arbitrary: s as fs c cur rule: less_induct)
  case less
  show ?case
  proof (cases cur)
    case None
    with less.prems show ?thesis by (subst tmr_run_from.simps) auto
  next
    case (Some t)
    with less.prems have t: "t \<in> set as" by simp
    from timers_inv_cell [OF less.prems(1) t] obtain x where x: "cells s t = Some x" ..
    show ?thesis
    proof (cases "now < time x")
      case True
      with Some x less.prems show ?thesis by (subst tmr_run_from.simps) auto
    next
      case False
      then have "time x \<le> now" by simp
      from fire_ok [OF less.prems(1-3) t x this] obtain c1 s1 as1 fs1 where
        f: "tmr_fire cb now t x (c, s) = Some (c1, s1)" "timers_inv s1 as1 fs1"
        "cinv c1 (active s1 as1)" "periods_ok now s1 as1" "lag now s1 as1 < lag now s as"
        "set as - {t} \<subseteq> set as1" "set as1 \<subseteq> set as" "set as \<union> set fs = set as1 \<union> set fs1" .
      have "case nxt x of None \<Rightarrow> True | Some b \<Rightarrow> b \<in> set as1"
        using timers_inv_next [OF less.prems(1) t x] f(6) by (auto split: option.splits)
      from less.hyps [OF f(5,2,3,4) this] obtain c2 s2 as2 fs2 where
        ih: "tmr_run_from cb now (nxt x) (c1, s1) = Some (c2, s2)" "timers_inv s2 as2 fs2"
          "cinv c2 (active s2 as2)" "set as2 \<subseteq> set as1" "set as1 \<union> set fs1 = set as2 \<union> set fs2" by blast
      have "tmr_run_from cb now cur (c, s) = tmr_run_from cb now (nxt x) (c1, s1)"
        using f(1) False Some x by (subst tmr_run_from.simps) simp
      moreover have "set as2 \<subseteq> set as" "set as \<union> set fs = set as2 \<union> set fs2" using ih f(7,8) by auto
      ultimately show ?thesis using ih
        by (intro exI [of _ c2] exI [of _ s2] exI [of _ as2] exI [of _ fs2]) simp
    qed
  qed
qed

lemma run_ok:
  assumes "timers_inv s as fs" "cinv c (active s as)" "periods_ok (getnow nowP clock) s as"
  shows "\<exists>c' s' as' fs'. tmr_run cb nowP clock (c, s) = Some (c', s') \<and> timers_inv s' as' fs'
          \<and> cinv c' (active s' as') \<and> set as' \<subseteq> set as \<and> set as \<union> set fs = set as' \<union> set fs'"
proof -
  have "case timers s of None \<Rightarrow> True | Some t \<Rightarrow> t \<in> set as"
    using timers_inv_head [OF assms(1)] by (cases as) auto
  from run_from_ok [OF assms this] show ?thesis by (simp add: tmr_run_def)
qed

end

section \<open>Callbacks that leave the timers alone\<close>

locale quiet_timer_client = timer_client cb cinv
  for cb :: "('p, 's) callback" and cinv +
  assumes cb_quiet: "cinv c (active s as) \<Longrightarrow> t \<in> set as \<Longrightarrow> cells s t = Some x
      \<Longrightarrow> cb (timer_proc x) (client_data x) now (c, s) = Some (c', s') \<Longrightarrow> s' = s"

lemma dseg_unique:
  "dseg h p q xs None l \<Longrightarrow> dseg h p q ys None l' \<Longrightarrow> xs = ys"
proof (induction xs arbitrary: p q ys)
  case Nil
  then show ?case by (cases ys) auto
next
  case (Cons x xs)
  then show ?case by (cases ys) auto
qed

lemma timers_inv_unique: "timers_inv s as fs \<Longrightarrow> timers_inv s as' fs' \<Longrightarrow> as = as'"
  unfolding timers_inv_def using dseg_unique by blast

definition head :: "'a list \<Rightarrow> 'a option" where
  "head xs = (case xs of [] \<Rightarrow> None | a # _ \<Rightarrow> Some a)"

lemma head_simps [simp]: "head [] = None" "head (a # as) = Some a"
  by (simp_all add: head_def)

lemma tinsert_split:
  "\<exists>pre' suf'. tinsert f t (pre @ rest) = pre' @ suf' \<and> head suf' = head rest \<and> set rest \<subseteq> set suf'"
proof (induction pre)
  case Nil
  show ?case
  proof (cases rest)
    case Nil
    then show ?thesis by (intro exI [of _ "[t]"] exI [of _ "[]"]) simp
  next
    case (Cons b r)
    show ?thesis
    proof (cases "f t < f b")
      case True
      with Cons show ?thesis by (intro exI [of _ "[t]"] exI [of _ rest]) simp
    next
      case False
      with Cons show ?thesis by (intro exI [of _ "[]"] exI [of _ "b # tinsert f t r"]) auto
    qed
  qed
next
  case (Cons a pre)
  show ?case
  proof (cases "f t < f a")
    case True
    then show ?thesis by (intro exI [of _ "t # a # pre"] exI [of _ rest]) simp
  next
    case False
    from Cons.IH obtain pre' suf' where "tinsert f t (pre @ rest) = pre' @ suf'" "head suf' = head rest"
      "set rest \<subseteq> set suf'" by blast
    with False show ?thesis by (intro exI [of _ "a # pre'"] exI [of _ suf']) simp
  qed
qed

lemma dseg_mid: "dseg h p q (pre @ t # rest) None l \<Longrightarrow> h t = Some x \<Longrightarrow> nxt x = head rest"
  by (cases rest) (auto simp: dseg_append)

text \<open>One firing of a timer whose callback left the timers alone.\<close>

lemma fire_keeps:
  assumes inv: "timers_inv s as fs" and t: "t \<in> set as" "cells s t = Some x"
    and cb: "cb (timer_proc x) (client_data x) now (c, s) = Some (c1, s)"
    and run: "tmr_fire cb now t x (c, s) = Some (c2, s2)"
  shows "tpay s2 = tpay s" and "a \<noteq> t \<Longrightarrow> tm s2 a = tm s a"
proof -
  have "tpay s2 = tpay s \<and> (\<forall>a. a \<noteq> t \<longrightarrow> tm s2 a = tm s a)"
  proof (cases "periodic x")
    case True
    let ?v = "iperf_time_add_usecs (time x) (period_usecs x)"
    obtain s' where s': "do { s \<leftarrow> set_time t ?v s; list_resort t s } = Some s'" "retimed t ?v s s'"
      using list_resort_ok [OF inv t, of ?v] by metis
    then have "s2 = s'" using run cb t True by (simp add: tmr_fire_def)
    with s'(2) retimed_tpay [OF s'(2)] show ?thesis by (simp add: retimed_def)
  next
    case False
    obtain s' where s': "tmr_cancel t s = Some s'" "same_pay (cells s) (cells s')"
      using tmr_cancel_ok [OF inv t(1)] by metis
    then have "s2 = s'" using run cb t False by (simp add: tmr_fire_def)
    with same_pay_tpay [OF s'(2)] same_pay_tm [OF s'(2)] show ?thesis by simp
  qed
  then show "tpay s2 = tpay s" and "a \<noteq> t \<Longrightarrow> tm s2 a = tm s a" by simp_all
qed

context quiet_timer_client
begin

text \<open>Where the loop stands: everything not yet looked at is in suf. A timer that was due when the
  loop started is gone or has been rescheduled when it ends.\<close>

lemma run_from_fires:
  "timers_inv s (pre @ suf) fs \<Longrightarrow> cinv c (active s (pre @ suf)) \<Longrightarrow> periods_ok now s (pre @ suf)
    \<Longrightarrow> \<exists>c' s' as' fs'. tmr_run_from cb now (head suf) (c, s) = Some (c', s') \<and> timers_inv s' as' fs'
          \<and> cinv c' (active s' as')
          \<and> (\<forall>a. a \<in> set as' \<longrightarrow> a \<in> set (pre @ suf)
                \<and> (time_us (tm s a) \<le> time_us (tm s' a) \<or> time_us now < time_us (tm s' a)))
          \<and> (\<forall>a\<in>set suf. tm s a \<le> now \<longrightarrow> a \<notin> set as' \<or> time_us (tm s a) < time_us (tm s' a))
          \<and> tpay s' = tpay s
          \<and> (\<forall>a x. a \<in> set as' \<longrightarrow> cells s a = Some x \<longrightarrow> \<not> periodic x \<longrightarrow> tm s' a = tm s a)"
proof (induction "lag now s (pre @ suf)" arbitrary: s pre suf fs c rule: less_induct)
  case less
  show ?case
  proof (cases suf)
    case Nil
    with less.prems show ?thesis
      by (intro exI [of _ c] exI [of _ s] exI [of _ pre] exI [of _ fs]) (simp add: tmr_run_from.simps)
  next
    case (Cons t rest)
    have t: "t \<in> set (pre @ suf)" using Cons by simp
    from timers_inv_cell [OF less.prems(1) t] obtain x where x: "cells s t = Some x" ..
    have tx: "time x = tm s t" using x by (simp add: tm_def)
    show ?thesis
    proof (cases "now < time x")
      case True
      have "sorted (map (tm s) suf)"
        using less.prems(1) by (simp add: timers_inv_def sorted_append)
      with Cons True tx have "\<forall>a\<in>set suf. \<not> tm s a \<le> now" by auto
      with True Cons x less.prems show ?thesis
        by (intro exI [of _ c] exI [of _ s] exI [of _ "pre @ suf"] exI [of _ fs])
          (simp add: tmr_run_from.simps)
    next
      case False
      then have due: "time x \<le> now" by simp
      obtain c1 s1 as1 fs1 where
        f: "tmr_fire cb now t x (c, s) = Some (c1, s1)" "timers_inv s1 as1 fs1"
          "cinv c1 (active s1 as1)" "periods_ok now s1 as1" "lag now s1 as1 < lag now s (pre @ suf)"
          "set (pre @ suf) - {t} \<subseteq> set as1" "set as1 \<subseteq> set (pre @ suf)"
          "set (pre @ suf) \<union> set fs = set as1 \<union> set fs1"
          "t \<notin> set as1 \<or> time_us (tm s t) < time_us (tm s1 t)"
          "\<forall>a\<in>set (pre @ suf) - {t}. tm s1 a = tm s a \<or> wf_time (tm s1 a) \<and> now < tm s1 a"
        and w: "\<exists>c1 s2 as2. cb (timer_proc x) (client_data x) now (c, s) = Some (c1, s2) \<and> timers_inv s2 as2 fs
          \<and> as1 = (if periodic x then tinsert (tm s1) t (remove1 t as2) else remove1 t as2)"
        by (rule fire_ok [OF less.prems t x due])
      from w obtain c2 s2 as2 where w2: "cb (timer_proc x) (client_data x) now (c, s) = Some (c2, s2)"
        "timers_inv s2 as2 fs" "as1 = (if periodic x then tinsert (tm s1) t (remove1 t as2) else remove1 t as2)"
        by blast
      have "s2 = s" by (rule cb_quiet [OF less.prems(2) t x w2(1)])
      with w2(2) timers_inv_unique [OF less.prems(1)] have as2: "as2 = pre @ suf" by simp
      have dist: "distinct (pre @ suf)" using less.prems(1) by (simp add: timers_inv_def)
      have rem: "remove1 t as2 = pre @ rest" using as2 Cons dist by (simp add: remove1_append)
      obtain pre1 suf1 where sp: "as1 = pre1 @ suf1" "head suf1 = head rest" "set rest \<subseteq> set suf1"
        using w2(3) tinsert_split [of "tm s1" t pre rest] unfolding rem by (cases "periodic x") auto
      obtain l where "dseg (cells s) (timers s) None (pre @ t # rest) None l"
        using less.prems(1) Cons by (auto simp: timers_inv_def)
      with x have nx: "nxt x = head suf1" using sp(2) dseg_mid by metis
      note keeps = fire_keeps [OF less.prems(1) t x w2(1) [unfolded \<open>s2 = s\<close>] f(1)]
      from less.hyps [of s1 pre1 suf1 fs1 c1] f(2-5) obtain c3 s3 as3 fs3 where
        ih: "tmr_run_from cb now (head suf1) (c1, s1) = Some (c3, s3)" "timers_inv s3 as3 fs3"
          "cinv c3 (active s3 as3)"
          "\<And>a. a \<in> set as3 \<Longrightarrow> a \<in> set as1 \<and> (time_us (tm s1 a) \<le> time_us (tm s3 a) \<or> time_us now < time_us (tm s3 a))"
          "\<And>a. a \<in> set suf1 \<Longrightarrow> tm s1 a \<le> now \<Longrightarrow> a \<notin> set as3 \<or> time_us (tm s1 a) < time_us (tm s3 a)"
          "tpay s3 = tpay s1"
          "\<And>a y. a \<in> set as3 \<Longrightarrow> cells s1 a = Some y \<Longrightarrow> \<not> periodic y \<Longrightarrow> tm s3 a = tm s1 a"
        unfolding sp(1) by blast
      have still: "tm s3 a = tm s a" if a: "a \<in> set as3" "cells s a = Some y" "\<not> periodic y" for a y
      proof -
        obtain z where z: "cells s1 a = Some z" "periodic z = periodic y"
          using tpay_cell [OF keeps(1) a(2)] by blast
        have "a \<noteq> t"
        proof
          assume "a = t"
          with a x w2(3) have "a \<notin> set as1" using rem Cons dist by auto
          with ih(4) [OF a(1)] show False by simp
        qed
        with ih(7) [OF a(1) z(1)] z(2) a(3) keeps(2) show ?thesis by simp
      qed
      have run: "tmr_run_from cb now (head suf) (c, s) = Some (c3, s3)"
        using f(1) False Cons x nx ih(1) by (simp add: tmr_run_from.simps [of cb now "Some t"])
      have wf: "wf_time now" "\<And>a. a \<in> set (pre @ suf) \<Longrightarrow> wf_time (tm s a)"
        using less.prems(3) by (auto simp: periods_ok_def)
      have mv: "tm s1 a = tm s a \<or> time_us now < time_us (tm s1 a)" if "a \<in> set (pre @ suf)" "a \<noteq> t" for a
        using f(10) that wf(1) time_less_us by blast
      have past: "time_us (tm s a) \<le> time_us now" if "a \<in> set (pre @ suf)" "tm s a \<le> now" for a
        using that wf time_le_us by blast
      have gen: "a \<in> set (pre @ suf) \<and> (time_us (tm s a) \<le> time_us (tm s3 a) \<or> time_us now < time_us (tm s3 a))"
        if a: "a \<in> set as3" for a
      proof -
        have a1: "a \<in> set as1" "a \<in> set (pre @ suf)" using ih(4) [OF a] f(7) by auto
        then have "time_us (tm s a) \<le> time_us (tm s1 a) \<or> time_us now < time_us (tm s1 a)"
          using mv [of a] f(9) by (cases "a = t") auto
        with ih(4) [OF a] a1 show ?thesis by auto
      qed
      have fired: "a \<notin> set as3 \<or> time_us (tm s a) < time_us (tm s3 a)"
        if a: "a \<in> set suf" "tm s a \<le> now" for a
      proof (cases "a = t")
        case True
        with f(9) ih(4) [of a] past [OF t] due tx show ?thesis by fastforce
      next
        case False
        with a Cons sp(3) have "a \<in> set suf1" "a \<in> set (pre @ suf)" by auto
        with mv [of a] False ih(4,5) [of a] past [of a] a f(10) show ?thesis by fastforce
      qed
      have "tpay s3 = tpay s" using ih(6) keeps(1) by simp
      with run ih(2,3) gen fired still show ?thesis by blast
    qed
  qed
qed

lemma run_fires:
  assumes "timers_inv s as fs" "cinv c (active s as)" "periods_ok (getnow nowP clock) s as"
  shows "\<exists>c' s' as' fs'. tmr_run cb nowP clock (c, s) = Some (c', s') \<and> timers_inv s' as' fs'
          \<and> cinv c' (active s' as') \<and> set as' \<subseteq> set as
          \<and> (\<forall>a\<in>set as. tm s a \<le> getnow nowP clock \<longrightarrow> a \<notin> set as' \<or> time_us (tm s a) < time_us (tm s' a))
          \<and> tpay s' = tpay s
          \<and> (\<forall>a x. a \<in> set as' \<longrightarrow> cells s a = Some x \<longrightarrow> \<not> periodic x \<longrightarrow> tm s' a = tm s a)"
proof -
  have "timers s = head as" using timers_inv_head [OF assms(1)] by (cases as) auto
  with run_from_fires [of s "[]" as fs c "getnow nowP clock"] assms show ?thesis
    unfolding tmr_run_def by (auto simp: subset_iff)
qed

end

end
