(* ===== verification/Iperf_Timer_Procs.thy ===== *)
theory Iperf_Timer_Procs
  imports Iperf_Stats Iperf_Timer_Client
begin

text \<open>
  The timers of a test: the four timer procedures of src/iperf_client_api.c and of
  src/iperf_server_api.c, and the functions that create the timers at the start of a test. A timer
  procedure is called by tmr_run with the client data of the timer, which is always the test; it is
  modelled as a callback on the test, the outside world and the timers. What it prints is left out.
\<close>

section \<open>The reporter callback\<close>

text \<open>Of iperf_print_results only the times it settles on the first stream stay.\<close>

definition settle_times :: "iperf_stream \<Rightarrow> iperf_stream" where
  "settle_times sp =
     (let e = iperf_time_in_secs (snd (iperf_time_diff (start_time (result sp)) (end_time (result sp)))) in
      if sender sp \<noteq> 0
      then upd_result (\<lambda>r. r\<lparr>sender_time := e, receiver_time := (if receiver_time r = 0 then e else receiver_time r)\<rparr>) sp
      else upd_result (\<lambda>r. r\<lparr>receiver_time := e, sender_time := (if sender_time r = 0 then e else sender_time r)\<rparr>) sp)"

definition iperf_print_results :: "iperf_test \<Rightarrow> iperf_test" where
  "iperf_print_results t = (case streams t of [] \<Rightarrow> t | sp # sps \<Rightarrow> t\<lparr>streams := settle_times sp # sps\<rparr>)"

definition iperf_reporter_callback :: "iperf_test \<Rightarrow> iperf_test" where
  "iperf_reporter_callback t =
     (if state t = TEST_END \<or> state t = DISPLAY_RESULTS then iperf_print_results t else t)"

section \<open>The timer procedures\<close>

text \<open>The readings a callback takes: those of the statistics, the clock of iperf_reset_stats and the
  CPU utilisation.\<close>

record proc_env =
  stats_rd :: readings
  reset_now :: iperf_time
  cpu_now :: "real list"

datatype timer_name = Test_timer | Stats_timer | Reporter_timer | Omit_timer

type_synonym app = "iperf_test \<times> world"

definition reset_handle :: "iperf_time \<Rightarrow> addr option \<Rightarrow> timer_name tstore \<Rightarrow> timer_name tstore option" where
  "reset_handle now h s = (case h of None \<Rightarrow> Some s | Some a \<Rightarrow> tmr_reset (Some now) now a s)"

text \<open>The end of the omit period is the same on both sides.\<close>

definition omit_timer_proc :: "proc_env \<Rightarrow> iperf_time \<Rightarrow> app \<times> timer_name tstore \<Rightarrow> (app \<times> timer_name tstore) option" where
  "omit_timer_proc env now = (\<lambda>((t, w), s). do {
     let t = t\<lparr>omit_timer := None, omitting := 0\<rparr>;
     let t = iperf_reset_stats (\<lambda>sp. tcpi_total_retrans (tcp_at (stats_rd env) sp)) (reset_now env) t;
     s \<leftarrow> reset_handle now (stats_timer t) s;
     s \<leftarrow> reset_handle now (reporter_timer t) s;
     Some ((t, w), s) })"

definition client_timer_proc :: "proc_env \<Rightarrow> (timer_name, app) callback" where
  "client_timer_proc env p cd now = (\<lambda>((t, w), s).
     (case p of
        Test_timer \<Rightarrow> Some ((t\<lparr>timer := None, test_done := 1\<rparr>, w), s)
      | Stats_timer \<Rightarrow>
          if test_done t \<noteq> 0 then Some ((t, w), s)
          else do { t \<leftarrow> iperf_stats_callback (stats_rd env) t; Some ((t, w), s) }
      | Reporter_timer \<Rightarrow>
          Some ((if test_done t \<noteq> 0 then t else iperf_reporter_callback t, w), s)
      | Omit_timer \<Rightarrow> omit_timer_proc env now ((t, w), s)))"

text \<open>The server's test timer is a watchdog: it ends the test when the client did not.\<close>

definition server_timer_fired :: "proc_env \<Rightarrow> app \<Rightarrow> app option" where
  "server_timer_fired env = (\<lambda>(t, w).
     (let t = t\<lparr>timer := None\<rparr> in
      if test_done t \<noteq> 0 then Some (t, w)
      else
        let t = t\<lparr>test_done := 1\<rparr> in
        if protocol t = Pquic then Some (t, w)
        else do {
          t \<leftarrow> iperf_stats_callback (stats_rd env) (t\<lparr>cpu_util := cpu_now env\<rparr>);
          let t = (if summary_printed t = 0 then iperf_print_results (t\<lparr>summary_printed := 1\<rparr>) else t);
          let w = sys_close (ctrl_sck t) w;
          Some (t\<lparr>ctrl_sck := -1\<rparr>, w) }))"

definition server_timer_proc :: "proc_env \<Rightarrow> (timer_name, app) callback" where
  "server_timer_proc env p cd now = (\<lambda>((t, w), s).
     (case p of
        Test_timer \<Rightarrow> do { a \<leftarrow> server_timer_fired env (t, w); Some (a, s) }
      | Stats_timer \<Rightarrow>
          if test_done t \<noteq> 0 then Some ((t, w), s)
          else do { t \<leftarrow> iperf_stats_callback (stats_rd env) t; Some ((t, w), s) }
      | Reporter_timer \<Rightarrow>
          Some ((if test_done t \<noteq> 0 then t else iperf_reporter_callback t, w), s)
      | Omit_timer \<Rightarrow> omit_timer_proc env now ((t, w), s)))"

section \<open>Creating the timers\<close>

abbreviation (input) SEC_TO_US :: int where "SEC_TO_US \<equiv> 1000000"

text \<open>A sum of ints, undefined when it overflows.\<close>

definition int_sum :: "int \<Rightarrow> int option" where
  "int_sum n = (if - 2147483648 \<le> n \<and> n < 2147483648 then Some n else None)"

text \<open>What malloc returns when the timer of a name is created.\<close>

type_synonym mallocs = "timer_name \<Rightarrow> (addr \<times> timer_name Timer) option"

definition set_handle :: "timer_name \<Rightarrow> addr option \<Rightarrow> iperf_test \<Rightarrow> iperf_test" where
  "set_handle p h t = (case p of Test_timer \<Rightarrow> t\<lparr>timer := h\<rparr> | Stats_timer \<Rightarrow> t\<lparr>stats_timer := h\<rparr>
     | Reporter_timer \<Rightarrow> t\<lparr>reporter_timer := h\<rparr> | Omit_timer \<Rightarrow> t\<lparr>omit_timer := h\<rparr>)"

text \<open>One timer created and kept in the test; the client data is the test itself.\<close>

definition create_one :: "timer_name \<Rightarrow> int \<Rightarrow> bool \<Rightarrow> mallocs \<Rightarrow> iperf_time
    \<Rightarrow> app \<times> timer_name tstore \<Rightarrow> (int \<times> app \<times> timer_name tstore) option" where
  "create_one p us rep mal now = (\<lambda>((t, w), s). do {
     (h, s) \<leftarrow> tmr_create (Some now) now p 0 (word_of_int us) rep (mal p) s;
     let t = set_handle p h t;
     if h = None then Some (-1, (t, w\<lparr>i_errno := IEINITTEST\<rparr>), s) else Some (0, (t, w), s) })"

definition create_test_timer :: "int \<Rightarrow> mallocs \<Rightarrow> iperf_time
    \<Rightarrow> app \<times> timer_name tstore \<Rightarrow> (int \<times> app \<times> timer_name tstore) option" where
  "create_test_timer grace mal now = (\<lambda>((t, w), s).
     if duration t = 0 then Some (0, (t, w), s)
     else do {
       seconds \<leftarrow> int_sum (duration t + omit t + grace);
       create_one Test_timer (seconds * SEC_TO_US) False mal now ((t\<lparr>test_done := 0\<rparr>, w), s) })"

definition create_interval_timer :: "timer_name \<Rightarrow> (iperf_test \<Rightarrow> real) \<Rightarrow> mallocs \<Rightarrow> iperf_time
    \<Rightarrow> app \<times> timer_name tstore \<Rightarrow> (int \<times> app \<times> timer_name tstore) option" where
  "create_interval_timer p interval mal now = (\<lambda>((t, w), s).
     if interval t = 0 then Some (0, (t, w), s)
     else do {
       us \<leftarrow> double_to_s64 (interval t * of_int SEC_TO_US);
       create_one p us True mal now ((t, w), s) })"

definition create_timers :: "int \<Rightarrow> mallocs
    \<Rightarrow> app \<times> timer_name tstore \<Rightarrow> (int \<times> app \<times> timer_name tstore) option" where
  "create_timers grace mal = (\<lambda>((t, w), s). do {
     (r, now, w) \<leftarrow> iperf_time_now zero_time w;
     if r < 0 then Some (-1, (t, w\<lparr>i_errno := IEINITTEST\<rparr>), s)
     else do {
       let t = t\<lparr>timer := None, stats_timer := None, reporter_timer := None\<rparr>;
       (r, a, s) \<leftarrow> create_test_timer grace mal now ((t, w), s);
       if r < 0 then Some (-1, a, s)
       else do {
         (r, a, s) \<leftarrow> create_interval_timer Stats_timer stats_interval mal now (a, s);
         if r < 0 then Some (-1, a, s)
         else create_interval_timer Reporter_timer reporter_interval mal now (a, s) } } })"

definition create_client_timers :: "mallocs
    \<Rightarrow> app \<times> timer_name tstore \<Rightarrow> (int \<times> app \<times> timer_name tstore) option" where
  "create_client_timers = create_timers 0"

text \<open>The watchdog of the server leaves the client max_rtt * state_transitions seconds more.\<close>

definition create_server_timers :: "mallocs
    \<Rightarrow> app \<times> timer_name tstore \<Rightarrow> (int \<times> app \<times> timer_name tstore) option" where
  "create_server_timers = create_timers (4 * 10)"

text \<open>create_client_omit_timer and create_server_omit_timer.\<close>

definition create_omit_timer :: "mallocs
    \<Rightarrow> app \<times> timer_name tstore \<Rightarrow> (int \<times> app \<times> timer_name tstore) option" where
  "create_omit_timer mal = (\<lambda>((t, w), s).
     if omit t = 0 then Some (0, (t\<lparr>omit_timer := None, omitting := 0\<rparr>, w), s)
     else do {
       (r, now, w) \<leftarrow> iperf_time_now zero_time w;
       if r < 0 then Some (-1, (t, w\<lparr>i_errno := IEINITTEST\<rparr>), s)
       else create_one Omit_timer (omit t * SEC_TO_US) False mal now ((t\<lparr>omitting := 1\<rparr>, w), s) })"

section \<open>The handles of a test and its active timers\<close>

definition handle_of :: "timer_name \<Rightarrow> iperf_test \<Rightarrow> addr option" where
  "handle_of p t = (case p of Test_timer \<Rightarrow> timer t | Stats_timer \<Rightarrow> stats_timer t
     | Reporter_timer \<Rightarrow> reporter_timer t | Omit_timer \<Rightarrow> omit_timer t)"

text \<open>A handle that is not NULL is an active timer with the right procedure, and every active timer is
  that of its handle; the timers of the statistics and of the reports are the periodic ones.\<close>

definition app_inv :: "app \<Rightarrow> (addr \<Rightarrow> (timer_name \<times> nat \<times> u64 \<times> bool) option) \<Rightarrow> bool" where
  "app_inv = (\<lambda>(t, w) act. rate_ok t
     \<and> (\<forall>p a. handle_of p t = Some a \<longleftrightarrow> (\<exists>cd us. act a = Some (p, cd, us, p = Stats_timer \<or> p = Reporter_timer)))
     \<and> (\<forall>a p cd us per. act a = Some (p, cd, us, per) \<longrightarrow> per = (p = Stats_timer \<or> p = Reporter_timer)))"

lemma handle_frames [simp]:
  "handle_of p (t\<lparr>test_done := d\<rparr>) = handle_of p t" "handle_of p (t\<lparr>streams := sps\<rparr>) = handle_of p t"
  "handle_of p (t\<lparr>omitting := x\<rparr>) = handle_of p t" "handle_of p (t\<lparr>cpu_util := c\<rparr>) = handle_of p t"
  "handle_of p (t\<lparr>summary_printed := x\<rparr>) = handle_of p t" "handle_of p (t\<lparr>ctrl_sck := f\<rparr>) = handle_of p t"
  "handle_of p (t\<lparr>test_bytes_sent := b\<rparr>) = handle_of p t" "handle_of p (t\<lparr>blocks_sent := b\<rparr>) = handle_of p t"
  by (simp_all add: handle_of_def split: timer_name.split)

lemma handle_upd [simp]:
  "handle_of p (t\<lparr>timer := h\<rparr>) = (if p = Test_timer then h else handle_of p t)"
  "handle_of p (t\<lparr>omit_timer := h\<rparr>) = (if p = Omit_timer then h else handle_of p t)"
  by (simp_all add: handle_of_def split: timer_name.split)

lemma rate_frames [simp]:
  "rate_ok (t\<lparr>test_done := d\<rparr>) = rate_ok t" "rate_ok (t\<lparr>streams := sps\<rparr>) = rate_ok t"
  "rate_ok (t\<lparr>omitting := x\<rparr>) = rate_ok t" "rate_ok (t\<lparr>cpu_util := c\<rparr>) = rate_ok t"
  "rate_ok (t\<lparr>summary_printed := x\<rparr>) = rate_ok t" "rate_ok (t\<lparr>ctrl_sck := f\<rparr>) = rate_ok t"
  "rate_ok (t\<lparr>timer := h\<rparr>) = rate_ok t" "rate_ok (t\<lparr>omit_timer := h\<rparr>) = rate_ok t"
  "rate_ok (t\<lparr>test_bytes_sent := b\<rparr>) = rate_ok t" "rate_ok (t\<lparr>blocks_sent := b\<rparr>) = rate_ok t"
  by (simp_all add: rate_ok_def)

lemma reporter_frames [simp]:
  "handle_of p (iperf_print_results t) = handle_of p t" "rate_ok (iperf_print_results t) = rate_ok t"
  "handle_of p (iperf_reporter_callback t) = handle_of p t" "rate_ok (iperf_reporter_callback t) = rate_ok t"
  by (simp_all add: iperf_print_results_def iperf_reporter_callback_def split: list.split)

lemma reset_stats_frames [simp]:
  "handle_of p (iperf_reset_stats f now t) = handle_of p t" "rate_ok (iperf_reset_stats f now t) = rate_ok t"
  "stats_timer (iperf_reset_stats f now t) = stats_timer t"
  "reporter_timer (iperf_reset_stats f now t) = reporter_timer t"
  by (simp_all add: iperf_reset_stats_def)

lemma stats_callback_total:
  assumes "rate_ok t"
  shows "\<exists>t'. iperf_stats_callback rd t = Some t' \<and> rate_ok t' \<and> (\<forall>p. handle_of p t' = handle_of p t)
    \<and> test_done t' = test_done t \<and> duration t' = duration t"
proof -
  let ?t = "t\<lparr>streams := stats_streams rd t ((junk rd)\<lparr>omitted := omitting t, rtt := 0, rttvar := 0, pmtu := 0\<rparr>) (streams t)\<rparr>"
  have ok: "rate_ok ?t" using assms by simp
  obtain t' where "iperf_check_total_rate ?t (interval_bytes (streams t)) = Some t'" "rate_only ?t t'"
    using check_total_rate_total [OF ok] by blast
  moreover from rate_only_frames [OF this(2)] have "handle_of p t' = handle_of p t" for p
    by (simp add: handle_of_def split: timer_name.split)
  moreover have "rate_ok t'" using rate_only_ok [OF \<open>rate_only ?t t'\<close>] ok by simp
  moreover have "test_done t' = test_done t" "duration t' = duration t"
    using \<open>rate_only ?t t'\<close> by (auto simp: rate_only_def)
  ultimately show ?thesis
    using ok by (cases "role t = CHR ''s''") (simp_all add: iperf_stats_callback_def Let_def)
qed

end
