(* ===== verification/Iperf_Timer_Procs_Ok.thy ===== *)
theory Iperf_Timer_Procs_Ok
  imports Iperf_Timer_Procs
begin

text \<open>
  The timer procedures of the client and of the server keep the contract of tmr_run: both are
  interpretations of the locale timer_client, and, once the omit period is over, of the locale
  quiet_timer_client, so tmr_run passes over none of their timers that is due.
\<close>

section \<open>Resetting a timer from a callback\<close>

text \<open>What a callback may do to the timers: move some of them past now.\<close>

definition moved :: "iperf_time \<Rightarrow> addr list \<Rightarrow> 'p tstore \<Rightarrow> addr list \<Rightarrow> 'p tstore \<Rightarrow> bool" where
  "moved now as s as' s' \<longleftrightarrow> set as' = set as \<and> tpay s' = tpay s
     \<and> (\<forall>a\<in>set as. tm s' a = tm s a \<or> wf_time (tm s' a) \<and> now < tm s' a)"

lemma moved_refl [simp]: "moved now as s as s"
  by (simp add: moved_def)

lemma moved_trans: "moved now as s as' s' \<Longrightarrow> moved now as' s' as'' s'' \<Longrightarrow> moved now as s as'' s''"
  unfolding moved_def by (intro conjI ballI; metis)

lemma moved_periods:
  assumes "timers_inv s as fs" "periods_ok now s as" "moved now as s as' s'"
  shows "periods_ok now s' as'"
proof -
  have "per s' a = per s a" if "a \<in> set as" for a
    using tpay_per [of s' s a] assms(3) timers_inv_cell [OF assms(1) that] by (auto simp: moved_def)
  with assms show ?thesis by (auto simp: periods_ok_def moved_def)
qed

lemma later_than_now:
  assumes "wf_time now" "0 < unat us" "time_us now + unat us < 4294967296 * 1000000"
  shows "now < iperf_time_add_usecs now us"
proof -
  have "time_us (iperf_time_add_usecs now us) = time_us now + unat us"
    using assms unat_u32_less [of "usecs now"] by (intro time_us_add_usecs) auto
  with assms show ?thesis by (simp add: time_less_us)
qed

lemma reset_handle_ok:
  assumes inv: "timers_inv s as fs" and p: "periods_ok now s as" and h: "\<And>a. h = Some a \<Longrightarrow> a \<in> set as"
  obtains s' as' where "reset_handle now h s = Some s'" and "timers_inv s' as' fs"
    and "moved now as s as' s'" and "\<And>a. h \<noteq> Some a \<Longrightarrow> tm s' a = tm s a"
proof (cases h)
  case None
  with inv show thesis by (intro that [of s as]) (simp_all add: reset_handle_def)
next
  case (Some a)
  with h have a: "a \<in> set as" by simp
  let ?v = "iperf_time_add_usecs (getnow (Some now) now) (per s a)"
  obtain s' where s': "tmr_reset (Some now) now a s = Some s'"
    "timers_inv s' (tinsert (tm s') a (remove1 a as)) fs" "retimed a ?v s s'"
    using tmr_reset_ok [OF inv a] .
  have d: "distinct as" using inv by (simp add: timers_inv_def)
  have later: "now < ?v" using p a by (auto simp: periods_ok_def getnow_def intro: later_than_now)
  have tms: "tm s' b = (if b = a then ?v else tm s b)" for b using s'(3) by (simp add: retimed_def)
  show thesis
  proof (rule that)
    show "reset_handle now h s = Some s'" using Some s' by (simp add: reset_handle_def)
    show "timers_inv s' (tinsert (tm s') a (remove1 a as)) fs" by (rule s')
    show "moved now as s (tinsert (tm s') a (remove1 a as)) s'"
      using later a d retimed_tpay [OF s'(3)] by (auto simp: moved_def tms)
    show "\<And>b. h \<noteq> Some b \<Longrightarrow> tm s' b = tm s b" using Some tms by simp
  qed
qed

section \<open>The contract of the callbacks\<close>

text \<open>The conclusion cb_ok asks for, for one callback.\<close>

lemma app_inv_handle:
  "app_inv (t, w) act \<Longrightarrow> handle_of p t = Some a \<Longrightarrow> \<exists>cd us. act a = Some (p, cd, us, p = Stats_timer \<or> p = Reporter_timer)"
  by (simp add: app_inv_def)

lemma app_inv_rate: "app_inv (t, w) act \<Longrightarrow> rate_ok t"
  by (simp add: app_inv_def)

lemma handle_in_list:
  assumes "app_inv (t, w) (active s as)" "handle_of p t = Some a"
  shows "a \<in> set as"
  using app_inv_handle [OF assms] by (auto simp: active_def restrict_map_def split: if_splits)

lemma active_cell:
  assumes "cells s a = Some x" "a \<in> set as"
  shows "active s as a = Some (timer_proc x, client_data x, period_usecs x, periodic x)"
  using assms by (simp add: active_def tpay_def)

text \<open>A timer is periodic exactly when its procedure is that of the statistics or of the reports.\<close>

abbreviation periodic_name :: "timer_name \<Rightarrow> bool" where
  "periodic_name p \<equiv> p = Stats_timer \<or> p = Reporter_timer"

lemma app_inv_active:
  assumes "app_inv (t, w) act" "act a = Some (p, cd, us, b)"
  shows "handle_of p t = Some a" and "b = periodic_name p"
proof -
  show b: "b = periodic_name p" using assms unfolding app_inv_def prod.case by blast
  from assms(2) have "\<exists>cd us. act a = Some (p, cd, us, periodic_name p)" unfolding b by blast
  with assms(1) show "handle_of p t = Some a" unfolding app_inv_def prod.case by blast
qed

lemma app_invI:
  assumes "rate_ok t"
    and "\<And>p a. handle_of p t = Some a \<Longrightarrow> \<exists>cd us. act a = Some (p, cd, us, periodic_name p)"
    and "\<And>a p cd us b. act a = Some (p, cd, us, b) \<Longrightarrow> handle_of p t = Some a \<and> b = periodic_name p"
  shows "app_inv (t, w) act"
  unfolding app_inv_def prod.case using assms by blast

lemma fired_handle:
  assumes "app_inv (t, w) (active s as)" "cells s a = Some x" "a \<in> set as"
  shows "handle_of (timer_proc x) t = Some a" and "periodic x = periodic_name (timer_proc x)"
  using app_inv_active [OF assms(1) active_cell [OF assms(2,3)]] by simp_all

lemma app_inv_keep:
  assumes "app_inv (t, w) act" "rate_ok t'" "\<And>p. handle_of p t' = handle_of p t"
  shows "app_inv (t', w') act"
  using assms by (simp add: app_inv_def)

lemma app_inv_fired:
  assumes a: "app_inv (t, w) act" "rate_ok t'" "handle_of p t = Some a"
    and h: "\<And>q. handle_of q t' = (if q = p then None else handle_of q t)"
  shows "app_inv (t', w') (act(a := None))"
proof (rule app_invI [OF a(2)])
  fix q b assume "handle_of q t' = Some b"
  with h have q: "q \<noteq> p" "handle_of q t = Some b" by (auto split: if_splits)
  from app_inv_handle [OF a(1) q(2)] obtain cd us where b: "act b = Some (q, cd, us, periodic_name q)" by blast
  from app_inv_handle [OF a(1,3)] b q(1) have "b \<noteq> a" by auto
  with b show "\<exists>cd us. (act(a := None)) b = Some (q, cd, us, periodic_name q)" by simp
next
  fix b q cd us c assume "(act(a := None)) b = Some (q, cd, us, c)"
  then have b: "b \<noteq> a" "act b = Some (q, cd, us, c)" by (auto split: if_splits)
  from app_inv_active [OF a(1) b(2)] have "handle_of q t = Some b" "c = periodic_name q" by simp_all
  with h a(3) b(1) show "handle_of q t' = Some b \<and> c = periodic_name q" by auto
qed

lemma omit_proc_ok:
  assumes inv: "timers_inv s as fs" and ci: "app_inv (t, w) (active s as)" and p: "periods_ok now s as"
    and a: "a \<in> set as" "cells s a = Some x" "timer_proc x = Omit_timer"
  shows "\<exists>t' w' s' as'. omit_timer_proc env now ((t, w), s) = Some ((t', w'), s') \<and> timers_inv s' as' fs
      \<and> moved now as s as' s' \<and> tm s' a = tm s a \<and> app_inv (t', w') ((active s as)(a := None))"
proof -
  let ?t = "iperf_reset_stats (\<lambda>sp. tcpi_total_retrans (tcp_at (stats_rd env) sp)) (reset_now env)
      (t\<lparr>omit_timer := None, omitting := 0\<rparr>)"
  note hf = fired_handle [OF ci a(2,1)]
  have sth: "stats_timer ?t = handle_of Stats_timer t" "reporter_timer ?t = handle_of Reporter_timer t"
    by (simp_all add: handle_of_def)
  obtain s1 as1 where s1: "reset_handle now (stats_timer ?t) s = Some s1" "timers_inv s1 as1 fs"
    "moved now as s as1 s1" "\<And>b. stats_timer ?t \<noteq> Some b \<Longrightarrow> tm s1 b = tm s b"
    using reset_handle_ok [OF inv p, of "stats_timer ?t"] handle_in_list [OF ci] unfolding sth by metis
  have set1: "set as1 = set as" using s1(3) by (simp add: moved_def)
  obtain s2 as2 where s2: "reset_handle now (reporter_timer ?t) s1 = Some s2" "timers_inv s2 as2 fs"
    "moved now as1 s1 as2 s2" "\<And>b. reporter_timer ?t \<noteq> Some b \<Longrightarrow> tm s2 b = tm s1 b"
    using reset_handle_ok [OF s1(2) moved_periods [OF inv p s1(3)], of "reporter_timer ?t"]
      handle_in_list [OF ci] unfolding sth set1 by metis
  have neq: "stats_timer ?t \<noteq> Some a" "reporter_timer ?t \<noteq> Some a"
  proof -
    have "handle_of q t \<noteq> Some a" if "q \<noteq> Omit_timer" for q
    proof
      assume "handle_of q t = Some a"
      from app_inv_handle [OF ci this] active_cell [OF a(2,1)] that a(3) show False by simp
    qed
    then show "stats_timer ?t \<noteq> Some a" "reporter_timer ?t \<noteq> Some a" unfolding sth by simp_all
  qed
  have "app_inv (?t, w) ((active s as)(a := None))"
    using hf(1) a(3) app_inv_rate [OF ci] by (intro app_inv_fired [OF ci, where p = Omit_timer]) simp_all
  moreover have "omit_timer_proc env now ((t, w), s) = Some ((?t, w), s2)"
    using s1(1) s2(1) by (simp add: omit_timer_proc_def)
  moreover have "tm s2 a = tm s a" using s1(4) s2(4) neq by simp
  ultimately show ?thesis using s2(2) moved_trans [OF s1(3) s2(3)] by blast
qed

text \<open>A callback that leaves the timers alone needs only to account for the handle of a timer that
  will not fire again.\<close>

lemma still_ok:
  assumes "timers_inv s as fs" "app_inv (t, w) (active s as)" "rate_ok t'" "\<And>p. handle_of p t' = handle_of p t"
    and "a \<in> set as" "cells s a = Some x" "periodic_name (timer_proc x)"
    and "r = Some ((t', w'), s)"
  shows "\<exists>c' s' as'. r = Some (c', s') \<and> timers_inv s' as' fs \<and> set as' = set as \<and> tpay s' = tpay s
    \<and> tm s' a = tm s a \<and> (\<forall>b\<in>set as. tm s' b = tm s b \<or> wf_time (tm s' b) \<and> now < tm s' b)
    \<and> app_inv c' (if periodic x then active s as else (active s as)(a := None))"
proof -
  have "periodic x" using fired_handle(2) [OF assms(2,6,5)] assms(7) by simp
  with assms(1,8) app_inv_keep [OF assms(2-4)] show ?thesis by auto
qed

lemma ended_ok:
  assumes "timers_inv s as fs" "app_inv (t, w) (active s as)" "rate_ok t'"
    and "\<And>p. handle_of p t' = (if p = Test_timer then None else handle_of p t)"
    and "a \<in> set as" "cells s a = Some x" "timer_proc x = Test_timer"
    and "r = Some ((t', w'), s)"
  shows "\<exists>c' s' as'. r = Some (c', s') \<and> timers_inv s' as' fs \<and> set as' = set as \<and> tpay s' = tpay s
    \<and> tm s' a = tm s a \<and> (\<forall>b\<in>set as. tm s' b = tm s b \<or> wf_time (tm s' b) \<and> now < tm s' b)
    \<and> app_inv c' (if periodic x then active s as else (active s as)(a := None))"
proof -
  note f = fired_handle [OF assms(2,6,5)]
  have "\<not> periodic x" using f(2) assms(7) by simp
  with assms(1,8) app_inv_fired [OF assms(2,3) _ assms(4), of a w'] f(1) assms(7) show ?thesis by auto
qed

lemma omitted_ok:
  assumes "timers_inv s as fs" "app_inv (t, w) (active s as)" "periods_ok now s as"
    and "a \<in> set as" "cells s a = Some x" "timer_proc x = Omit_timer"
    and "r = omit_timer_proc env now ((t, w), s)"
  shows "\<exists>c' s' as'. r = Some (c', s') \<and> timers_inv s' as' fs \<and> set as' = set as \<and> tpay s' = tpay s
    \<and> tm s' a = tm s a \<and> (\<forall>b\<in>set as. tm s' b = tm s b \<or> wf_time (tm s' b) \<and> now < tm s' b)
    \<and> app_inv c' (if periodic x then active s as else (active s as)(a := None))"
proof -
  have "\<not> periodic x" using fired_handle(2) [OF assms(2,5,4)] assms(6) by simp
  with omit_proc_ok [OF assms(1-6), of env] assms(7) show ?thesis unfolding moved_def by auto
qed

lemma server_timer_fired_ok:
  assumes "rate_ok t"
  shows "\<exists>t' w'. server_timer_fired env (t, w) = Some (t', w') \<and> rate_ok t'
    \<and> (\<forall>p. handle_of p t' = (if p = Test_timer then None else handle_of p t))"
proof -
  let ?t = "t\<lparr>timer := None, test_done := 1, cpu_util := cpu_now env\<rparr>"
  have "rate_ok ?t" using assms by simp
  from stats_callback_total [OF this] obtain t' where
    "iperf_stats_callback (stats_rd env) ?t = Some t'" "rate_ok t'" "\<forall>p. handle_of p t' = handle_of p ?t" by blast
  with assms show ?thesis by (simp add: server_timer_fired_def Let_def)
qed

section \<open>The interpretations\<close>

interpretation client_procs: timer_client "client_timer_proc env" app_inv for env
proof
  fix s as fs c now a x
  assume inv: "timers_inv s as fs" and ci: "app_inv c (active s as)" and p: "periods_ok now s as"
    and a: "a \<in> set as" and x: "cells s a = Some x"
  obtain t w where c: "c = (t, w)" by (cases c)
  note ci = ci [unfolded c]
  note ro = app_inv_rate [OF ci]
  obtain t1 where st: "iperf_stats_callback (stats_rd env) t = Some t1" "rate_ok t1"
    "\<And>p. handle_of p t1 = handle_of p t" using stats_callback_total [OF ro] by blast
  show "\<exists>c' s' as'. client_timer_proc env (timer_proc x) (client_data x) now (c, s) = Some (c', s')
      \<and> timers_inv s' as' fs \<and> set as' = set as \<and> tpay s' = tpay s \<and> tm s' a = tm s a
      \<and> (\<forall>b\<in>set as. tm s' b = tm s b \<or> wf_time (tm s' b) \<and> now < tm s' b)
      \<and> app_inv c' (if periodic x then active s as else (active s as)(a := None))"
  proof (cases "timer_proc x")
    case Test_timer
    show ?thesis
      by (rule ended_ok [OF inv ci _ _ a x Test_timer]) (simp_all add: c Test_timer client_timer_proc_def ro)
  next
    case Stats_timer
    show ?thesis
      by (rule still_ok [OF inv ci, where t' = "if test_done t \<noteq> 0 then t else t1" and w' = w])
        (use a x ro st Stats_timer in \<open>simp_all add: c client_timer_proc_def\<close>)
  next
    case Reporter_timer
    show ?thesis
      by (rule still_ok [OF inv ci, where t' = "if test_done t \<noteq> 0 then t else iperf_reporter_callback t" and w' = w])
        (use a x ro Reporter_timer in \<open>simp_all add: c client_timer_proc_def\<close>)
  next
    case Omit_timer
    show ?thesis
      by (rule omitted_ok [OF inv ci p a x Omit_timer, where env = env])
        (simp add: c Omit_timer client_timer_proc_def)
  qed
qed

interpretation server_procs: timer_client "server_timer_proc env" app_inv for env
proof
  fix s as fs c now a x
  assume inv: "timers_inv s as fs" and ci: "app_inv c (active s as)" and p: "periods_ok now s as"
    and a: "a \<in> set as" and x: "cells s a = Some x"
  obtain t w where c: "c = (t, w)" by (cases c)
  note ci = ci [unfolded c]
  note ro = app_inv_rate [OF ci]
  obtain t1 where st: "iperf_stats_callback (stats_rd env) t = Some t1" "rate_ok t1"
    "\<And>p. handle_of p t1 = handle_of p t" using stats_callback_total [OF ro] by blast
  obtain t2 w2 where en: "server_timer_fired env (t, w) = Some (t2, w2)" "rate_ok t2"
    "\<And>p. handle_of p t2 = (if p = Test_timer then None else handle_of p t)"
    using server_timer_fired_ok [OF ro] by blast
  show "\<exists>c' s' as'. server_timer_proc env (timer_proc x) (client_data x) now (c, s) = Some (c', s')
      \<and> timers_inv s' as' fs \<and> set as' = set as \<and> tpay s' = tpay s \<and> tm s' a = tm s a
      \<and> (\<forall>b\<in>set as. tm s' b = tm s b \<or> wf_time (tm s' b) \<and> now < tm s' b)
      \<and> app_inv c' (if periodic x then active s as else (active s as)(a := None))"
  proof (cases "timer_proc x")
    case Test_timer
    show ?thesis
      by (rule ended_ok [OF inv ci en(2,3) a x Test_timer, where w' = w2])
        (simp_all add: c Test_timer server_timer_proc_def en(1))
  next
    case Stats_timer
    show ?thesis
      by (rule still_ok [OF inv ci, where t' = "if test_done t \<noteq> 0 then t else t1" and w' = w])
        (use a x ro st Stats_timer in \<open>simp_all add: c server_timer_proc_def\<close>)
  next
    case Reporter_timer
    show ?thesis
      by (rule still_ok [OF inv ci, where t' = "if test_done t \<noteq> 0 then t else iperf_reporter_callback t" and w' = w])
        (use a x ro Reporter_timer in \<open>simp_all add: c server_timer_proc_def\<close>)
  next
    case Omit_timer
    show ?thesis
      by (rule omitted_ok [OF inv ci p a x Omit_timer, where env = env])
        (simp add: c Omit_timer server_timer_proc_def)
  qed
qed

section \<open>After the omit period\<close>

text \<open>Once no omit timer is pending, no procedure touches the timers.\<close>

text \<open>A test of limited duration that has no timer any more is over.\<close>

definition ended :: "int \<Rightarrow> iperf_test \<Rightarrow> bool" where
  "ended d t \<longleftrightarrow> duration t = d \<and> (timer t = None \<longrightarrow> d = 0 \<or> test_done t \<noteq> 0)"

definition app_quiet :: "int \<Rightarrow> app \<Rightarrow> (addr \<Rightarrow> (timer_name \<times> nat \<times> u64 \<times> bool) option) \<Rightarrow> bool" where
  "app_quiet d c act \<longleftrightarrow> app_inv c act \<and> omit_timer (fst c) = None \<and> ended d (fst c)"

lemma stats_callback_ended:
  assumes "rate_ok t" "iperf_stats_callback rd t = Some t'"
  shows "timer t' = timer t" "test_done t' = test_done t" "duration t' = duration t" "ended d t' = ended d t"
proof -
  from stats_callback_total [OF assms(1), of rd] assms(2)
  have h: "handle_of Test_timer t' = handle_of Test_timer t" "test_done t' = test_done t" "duration t' = duration t"
    by auto
  then show "timer t' = timer t" "test_done t' = test_done t" "duration t' = duration t" "ended d t' = ended d t"
    by (simp_all add: handle_of_def ended_def)
qed

lemma reporter_ended [simp]:
  "ended d (iperf_print_results t) = ended d t" "ended d (iperf_reporter_callback t) = ended d t"
  by (simp_all add: ended_def iperf_print_results_def iperf_reporter_callback_def split: list.split)

lemma ended_duration: "ended d t \<Longrightarrow> duration t = d"
  by (simp add: ended_def)

lemma client_proc_ended:
  assumes "client_timer_proc env p cd now (c, s) = Some (c', s')" "p \<noteq> Omit_timer" "rate_ok (fst c)" "ended d (fst c)"
  shows "ended d (fst c')"
  using assms stats_callback_ended(4) [OF assms(3), where d = d] ended_duration [OF assms(4)]
  by (cases c; cases p) (auto simp: client_timer_proc_def bind_eq_Some_conv ended_def [of _ "_\<lparr>test_done := _\<rparr>"]
      split: if_splits)

lemma server_fired_ended:
  assumes "server_timer_fired env (t, w) = Some c'" "rate_ok t" "duration t = d"
  shows "ended d (fst c')"
proof (cases "test_done t \<noteq> 0")
  case True
  with assms show ?thesis by (auto simp: server_timer_fired_def ended_def)
next
  case False
  let ?t = "t\<lparr>timer := None, test_done := 1, cpu_util := cpu_now env\<rparr>"
  have ro: "rate_ok ?t" using assms(2) by simp
  show ?thesis
  proof (cases "protocol t = Pquic")
    case True
    with False assms show ?thesis by (auto simp: server_timer_fired_def ended_def)
  next
    case q: False
    from stats_callback_total [OF ro, of "stats_rd env"] obtain t1 where
      t1: "iperf_stats_callback (stats_rd env) ?t = Some t1" by blast
    have "test_done t1 = 1" "duration t1 = d" using stats_callback_ended(2,3) [OF ro t1] assms(3) by simp_all
    with False q t1 assms(1) show ?thesis
      by (auto simp: server_timer_fired_def ended_def Let_def iperf_print_results_def split: list.splits if_splits)
  qed
qed

lemma server_proc_ended:
  assumes "server_timer_proc env p cd now (c, s) = Some (c', s')" "p \<noteq> Omit_timer" "rate_ok (fst c)" "ended d (fst c)"
  shows "ended d (fst c')"
  using assms stats_callback_ended(4) [OF assms(3), where d = d] ended_duration [OF assms(4)]
  by (cases c; cases p) (auto simp: server_timer_proc_def bind_eq_Some_conv dest: server_fired_ended split: if_splits)

lemma app_quiet_keep:
  assumes q: "app_quiet d c act" and i: "app_inv c' (if b then act else act(a := None))" and e: "ended d (fst c')"
  shows "app_quiet d c' (if b then act else act(a := None))"
proof (cases "omit_timer (fst c')")
  case None
  with i e show ?thesis by (simp add: app_quiet_def)
next
  case (Some o')
  obtain t w t' w' where c: "c = (t, w)" "c' = (t', w')" by (cases c; cases c') auto
  from Some have "handle_of Omit_timer t' = Some o'" by (simp add: c handle_of_def)
  with i c obtain cd us x where "(if b then act else act(a := None)) o' = Some (Omit_timer, cd, us, x)"
    using app_inv_handle by blast
  then have "act o' = Some (Omit_timer, cd, us, x)" by (auto split: if_splits)
  with q c have "handle_of Omit_timer t = Some o'"
    using app_inv_active(1) by (auto simp: app_quiet_def)
  with q c show ?thesis by (simp add: app_quiet_def handle_of_def)
qed

lemma quiet_no_omit:
  assumes "app_quiet d c (active s as)" "a \<in> set as" "cells s a = Some x"
  shows "timer_proc x \<noteq> Omit_timer" and "rate_ok (fst c)" and "ended d (fst c)"
proof -
  obtain t w where c: "c = (t, w)" by (cases c)
  have i: "app_inv (t, w) (active s as)" "omit_timer t = None" using assms(1) by (auto simp: c app_quiet_def)
  show "timer_proc x \<noteq> Omit_timer"
    using fired_handle(1) [OF i(1) assms(3,2)] i(2) by (auto simp: handle_of_def)
  show "rate_ok (fst c)" "ended d (fst c)" using assms(1) app_inv_rate [OF i(1)] by (simp_all add: app_quiet_def c)
qed

interpretation client_quiet: quiet_timer_client "client_timer_proc env" "app_quiet dur" for env dur
proof
  fix s as fs c now a x
  assume inv: "timers_inv s as fs" and q: "app_quiet dur c (active s as)" and p: "periods_ok now s as"
    and a: "a \<in> set as" and x: "cells s a = Some x" and due: "time x \<le> now"
  have "app_inv c (active s as)" using q by (simp add: app_quiet_def)
  from client_procs.cb_ok [OF inv this p a x due, of env] obtain c' s' as' where
    r: "client_timer_proc env (timer_proc x) (client_data x) now (c, s) = Some (c', s')"
    "timers_inv s' as' fs" "set as' = set as" "tpay s' = tpay s" "tm s' a = tm s a"
    "\<forall>b\<in>set as. tm s' b = tm s b \<or> wf_time (tm s' b) \<and> now < tm s' b"
    "app_inv c' (if periodic x then active s as else (active s as)(a := None))" by blast
  have "ended dur (fst c')" by (rule client_proc_ended [OF r(1) quiet_no_omit [OF q a x]])
  with app_quiet_keep [OF q r(7)] r
  show "\<exists>c' s' as'. client_timer_proc env (timer_proc x) (client_data x) now (c, s) = Some (c', s')
      \<and> timers_inv s' as' fs \<and> set as' = set as \<and> tpay s' = tpay s \<and> tm s' a = tm s a
      \<and> (\<forall>b\<in>set as. tm s' b = tm s b \<or> wf_time (tm s' b) \<and> now < tm s' b)
      \<and> app_quiet dur c' (if periodic x then active s as else (active s as)(a := None))"
    by blast
next
  fix c s as a x now c' s'
  assume q: "app_quiet dur c (active s as)" and a: "a \<in> set as" "cells s a = Some x"
    and r: "client_timer_proc env (timer_proc x) (client_data x) now (c, s) = Some (c', s')"
  from quiet_no_omit(1) [OF q a] r show "s' = s"
    by (cases c) (auto simp: client_timer_proc_def split: timer_name.splits if_splits bind_splits)
qed

interpretation server_quiet: quiet_timer_client "server_timer_proc env" "app_quiet dur" for env dur
proof
  fix s as fs c now a x
  assume inv: "timers_inv s as fs" and q: "app_quiet dur c (active s as)" and p: "periods_ok now s as"
    and a: "a \<in> set as" and x: "cells s a = Some x" and due: "time x \<le> now"
  have "app_inv c (active s as)" using q by (simp add: app_quiet_def)
  from server_procs.cb_ok [OF inv this p a x due, of env] obtain c' s' as' where
    r: "server_timer_proc env (timer_proc x) (client_data x) now (c, s) = Some (c', s')"
    "timers_inv s' as' fs" "set as' = set as" "tpay s' = tpay s" "tm s' a = tm s a"
    "\<forall>b\<in>set as. tm s' b = tm s b \<or> wf_time (tm s' b) \<and> now < tm s' b"
    "app_inv c' (if periodic x then active s as else (active s as)(a := None))" by blast
  have "ended dur (fst c')" by (rule server_proc_ended [OF r(1) quiet_no_omit [OF q a x]])
  with app_quiet_keep [OF q r(7)] r
  show "\<exists>c' s' as'. server_timer_proc env (timer_proc x) (client_data x) now (c, s) = Some (c', s')
      \<and> timers_inv s' as' fs \<and> set as' = set as \<and> tpay s' = tpay s \<and> tm s' a = tm s a
      \<and> (\<forall>b\<in>set as. tm s' b = tm s b \<or> wf_time (tm s' b) \<and> now < tm s' b)
      \<and> app_quiet dur c' (if periodic x then active s as else (active s as)(a := None))"
    by blast
next
  fix c s as a x now c' s'
  assume q: "app_quiet dur c (active s as)" and a: "a \<in> set as" "cells s a = Some x"
    and r: "server_timer_proc env (timer_proc x) (client_data x) now (c, s) = Some (c', s')"
  from quiet_no_omit(1) [OF q a] r show "s' = s"
    by (cases c) (auto simp: server_timer_proc_def split: timer_name.splits if_splits bind_splits)
qed

section \<open>The end of a test\<close>

text \<open>When tmr_run has run after the expiry of the test timer, the test is over.\<close>

lemma deadline:
  assumes inv: "timers_inv s as fs" and q: "app_quiet d (t, w) (active s as)"
    and h: "timer t = Some a" "d \<noteq> 0"
    and inv': "timers_inv s' as' fs'" and q': "app_quiet d (t', w') (active s' as')"
    and fires: "a \<notin> set as' \<or> time_us (tm s a) < time_us (tm s' a)"
    and pay: "tpay s' = tpay s" and sub: "set as' \<subseteq> set as"
    and still: "\<forall>a x. a \<in> set as' \<longrightarrow> cells s a = Some x \<longrightarrow> \<not> periodic x \<longrightarrow> tm s' a = tm s a"
  shows "test_done t' \<noteq> 0 \<and> timer t' = None"
proof (cases "timer t'")
  case None
  with q' h(2) show ?thesis by (auto simp: app_quiet_def ended_def)
next
  case (Some b)
  have i: "app_inv (t, w) (active s as)" and i': "app_inv (t', w') (active s' as')"
    using q q' by (simp_all add: app_quiet_def)
  have hb: "handle_of Test_timer t' = Some b" "handle_of Test_timer t = Some a"
    using Some h by (simp_all add: handle_of_def)
  from app_inv_handle [OF i' hb(1)] obtain cd us where b: "active s' as' b = Some (Test_timer, cd, us, False)" by auto
  then have bas: "b \<in> set as'" by (auto simp: active_def restrict_map_def split: if_splits)
  with b sub pay have b': "active s as b = Some (Test_timer, cd, us, False)"
    by (auto simp: active_def restrict_map_def split: if_splits)
  from app_inv_active(1) [OF i b'] hb(2) have ab: "b = a" by simp
  from bas sub have "b \<in> set as" by auto
  with timers_inv_cell [OF inv] obtain x where x: "cells s b = Some x" by blast
  have "\<not> periodic x" using b' x \<open>b \<in> set as\<close> by (simp add: active_def tpay_def)
  with still bas x ab have "tm s' a = tm s a" by blast
  with fires bas ab show ?thesis by simp
qed

end
