(* ===== verification/Iperf_Timer_Create.thy ===== *)
theory Iperf_Timer_Create
  imports Iperf_Timer_Procs_Ok
begin

text \<open>
  The functions that create the timers of a test establish what the timer procedures rely on: the
  handles of the test are its active timers, with the right procedures, expiries and periods.
\<close>

section \<open>One timer\<close>

text \<open>The addresses malloc has ready for the timers still to be created are new and differ.\<close>

definition mal_fresh :: "timer_name set \<Rightarrow> mallocs \<Rightarrow> timer_name tstore \<Rightarrow> bool" where
  "mal_fresh P mal s \<longleftrightarrow> (\<forall>p\<in>P. \<forall>a j. mal p = Some (a, j) \<longrightarrow> cells s a = None
     \<and> (\<forall>q\<in>P. \<forall>k. mal q = Some (a, k) \<longrightarrow> q = p))"

lemma mal_fresh_step:
  assumes m: "mal_fresh P mal s" "p \<in> P" and d: "dom (cells s') \<subseteq> dom (cells s) \<union> fst ` set_option (mal p)"
  shows "mal_fresh (P - {p}) mal s'"
  unfolding mal_fresh_def
proof (intro ballI allI impI conjI)
  fix q a j assume q: "q \<in> P - {p}" "mal q = Some (a, j)"
  have n: "cells s a = None" using m(1) q by (auto simp: mal_fresh_def)
  have "a \<notin> fst ` set_option (mal p)"
  proof
    assume "a \<in> fst ` set_option (mal p)"
    then obtain k where "mal p = Some (a, k)" by auto
    with m q show False by (auto simp: mal_fresh_def)
  qed
  with n d show "cells s' a = None" by auto
  fix r k assume "r \<in> P - {p}" "mal r = Some (a, k)"
  with m q show "r = q" by (auto simp: mal_fresh_def)
qed

lemma mal_fresh_drop: "mal_fresh P mal s \<Longrightarrow> mal_fresh (P - {p}) mal s"
  by (auto simp: mal_fresh_def)

lemma mal_fresh_mono: "mal_fresh P mal s \<Longrightarrow> Q \<subseteq> P \<Longrightarrow> mal_fresh Q mal s"
  unfolding mal_fresh_def by blast

lemma handle_set [simp]: "handle_of q (set_handle p h t) = (if q = p then h else handle_of q t)"
  by (cases p; cases q) (simp_all add: set_handle_def handle_of_def)

lemma handle_omit: "handle_of Omit_timer t = omit_timer t"
  by (simp add: handle_of_def)

lemma set_handle_frames [simp]:
  "rate_ok (set_handle p h t) = rate_ok t" "duration (set_handle p h t) = duration t"
  "omit (set_handle p h t) = omit t" "stats_interval (set_handle p h t) = stats_interval t"
  "reporter_interval (set_handle p h t) = reporter_interval t" "test_done (set_handle p h t) = test_done t"
  by (cases p; simp add: set_handle_def rate_ok_def)+

lemma app_inv_create:
  assumes ci: "app_inv (t, w) act" and a: "act a = None" and h: "handle_of p t = None"
    and b: "b = periodic_name p"
  shows "app_inv (set_handle p (Some a) t, w') (act(a \<mapsto> (p, cd, us, b)))"
proof (rule app_invI)
  show "rate_ok (set_handle p (Some a) t)" using app_inv_rate [OF ci] by simp
next
  fix q c assume "handle_of q (set_handle p (Some a) t) = Some c"
  then consider "q = p" "c = a" | "q \<noteq> p" "handle_of q t = Some c" by (auto split: if_splits)
  then show "\<exists>cd' us'. (act(a \<mapsto> (p, cd, us, b))) c = Some (q, cd', us', periodic_name q)"
  proof cases
    case 1
    then show ?thesis using b by simp
  next
    case 2
    with app_inv_handle [OF ci 2(2)] a show ?thesis by auto
  qed
next
  fix c q cd' us' b' assume "(act(a \<mapsto> (p, cd, us, b))) c = Some (q, cd', us', b')"
  then consider "c = a" "q = p" "b' = b" | "c \<noteq> a" "act c = Some (q, cd', us', b')"
    by (auto split: if_splits)
  then show "handle_of q (set_handle p (Some a) t) = Some c \<and> b' = periodic_name q"
  proof cases
    case 1
    then show ?thesis using b by simp
  next
    case 2
    from app_inv_active [OF ci 2(2)] h show ?thesis by auto
  qed
qed

lemma tmr_create_ok:
  assumes inv: "timers_inv s as fs" and fresh: "\<And>a j. m = Some (a, j) \<Longrightarrow> cells s a = None"
  obtains (no_memory) "tmr_create (Some now) now p cd us b m s = Some (None, s)" "m = None"
  | (created) a s' fs' where "tmr_create (Some now) now p cd us b m s = Some (Some a, s')"
      "a \<notin> set as" "timers_inv s' (tinsert (tm s') a as) fs'"
      "tpay s' = (tpay s)(a \<mapsto> (p, cd, us, b))" "tm s' = (tm s)(a := iperf_time_add_usecs now us)"
      "dom (cells s') \<subseteq> dom (cells s) \<union> fst ` set_option m"
proof (cases fs)
  case (Cons a fs')
  note inv = inv [unfolded Cons]
  from inv have na: "a \<notin> set as" and da: "a \<in> dom (cells s)" by (auto simp: timers_inv_def)
  obtain s' where c: "tmr_create (Some now) now p cd us b m s = Some (Some a, s')"
    "timers_inv s' (tinsert (tm s') a as) fs'" "tpay s' = (tpay s)(a \<mapsto> (p, cd, us, b))"
    "tm s' = (tm s)(a := iperf_time_add_usecs (getnow (Some now) now) us)"
    using tmr_create_reuse [OF inv] .
  have "dom (cells s') = insert a (set as \<union> set fs')" using c(2) by (simp add: timers_inv_def)
  then have "dom (cells s') \<subseteq> dom (cells s)" using inv by (auto simp: timers_inv_def)
  with c na show thesis by (intro created) (auto simp: getnow_def)
next
  case Nil
  note inv = inv [unfolded Nil]
  show thesis
  proof (cases m)
    case None
    with tmr_create_no_memory [OF inv] show thesis by (intro no_memory) simp_all
  next
    case (Some aj)
    obtain a j where m: "m = Some (a, j)" using Some by (cases aj) simp
    have na: "a \<notin> set as" using fresh [OF m] timers_inv_cell [OF inv] by fastforce
    obtain s' where c: "tmr_create (Some now) now p cd us b (Some (a, j)) s = Some (Some a, s')"
      "timers_inv s' (tinsert (tm s') a as) []" "tpay s' = (tpay s)(a \<mapsto> (p, cd, us, b))"
      "tm s' = (tm s)(a := iperf_time_add_usecs (getnow (Some now) now) us)"
      using tmr_create_malloc [OF inv fresh [OF m]] .
    have "dom (cells s') = insert a (set as)" using c(2) by (simp add: timers_inv_def)
    then have "dom (cells s') \<subseteq> dom (cells s) \<union> fst ` set_option m"
      using inv m by (auto simp: timers_inv_def)
    with c na m show thesis by (intro created) (auto simp: getnow_def)
  qed
qed

text \<open>What the creation of one timer leaves, whether it succeeds or fails.\<close>

definition created :: "timer_name \<Rightarrow> iperf_time \<Rightarrow> u64 \<Rightarrow> timer_name set \<Rightarrow> mallocs \<Rightarrow> app \<Rightarrow> timer_name tstore \<Rightarrow> addr list
    \<Rightarrow> int \<Rightarrow> app \<Rightarrow> timer_name tstore \<Rightarrow> addr list \<Rightarrow> bool" where
  "created p now us P mal c s as r c' s' as' \<longleftrightarrow>
     (\<exists>fs'. timers_inv s' as' fs') \<and> app_inv c' (active s' as') \<and> mal_fresh (P - {p}) mal s'
     \<and> (\<forall>q. q \<noteq> p \<longrightarrow> handle_of q (fst c') = handle_of q (fst c))
     \<and> (if r = 0 then \<exists>a. handle_of p (fst c') = Some a \<and> tm s' a = iperf_time_add_usecs now us
            \<and> set as' = insert a (set as) \<and> a \<notin> set as \<and> tpay s' = (tpay s)(a \<mapsto> (p, 0, us, periodic_name p))
            \<and> (\<forall>b. b \<noteq> a \<longrightarrow> tm s' b = tm s b)
        else r = -1 \<and> mal p = None \<and> handle_of p (fst c') = None \<and> as' = as \<and> s' = s)"

lemma create_one_ok:
  assumes inv: "timers_inv s as fs" and ci: "app_inv (t, w) (active s as)" and h: "handle_of p t = None"
    and m: "mal_fresh P mal s" "p \<in> P" and b: "b = periodic_name p"
  obtains r c' s' as' where "create_one p us b mal now ((t, w), s) = Some (r, c', s')"
    and "created p now (word_of_int us) P mal (t, w) s as r c' s' as'"
    and "r = 0 \<Longrightarrow> fst c' = set_handle p (handle_of p (fst c')) t"
proof -
  have fr: "\<And>a j. mal p = Some (a, j) \<Longrightarrow> cells s a = None" using m by (auto simp: mal_fresh_def)
  consider (no_memory) "tmr_create (Some now) now p 0 (word_of_int us) b (mal p) s = Some (None, s)" "mal p = None"
    | (created) a s' fs' where "tmr_create (Some now) now p 0 (word_of_int us) b (mal p) s = Some (Some a, s')"
        "a \<notin> set as" "timers_inv s' (tinsert (tm s') a as) fs'"
        "tpay s' = (tpay s)(a \<mapsto> (p, 0, word_of_int us, b))"
        "tm s' = (tm s)(a := iperf_time_add_usecs now (word_of_int us))"
        "dom (cells s') \<subseteq> dom (cells s) \<union> fst ` set_option (mal p)"
    by (rule tmr_create_ok [OF inv fr, where now = now and p = p and cd = 0 and us = "word_of_int us" and b = b])
      blast+
  then show thesis
  proof cases
    case no_memory
    have "app_inv (set_handle p None t, w\<lparr>i_errno := IEINITTEST\<rparr>) (active s as)"
      using ci h by (intro app_inv_keep [OF ci]) (auto simp: app_inv_def)
    with no_memory inv h m show thesis
      by (intro that [of "-1" "(set_handle p None t, w\<lparr>i_errno := IEINITTEST\<rparr>)" s as])
        (auto simp: create_one_def created_def intro: mal_fresh_drop)
  next
    case (created a s' fs')
    let ?as = "tinsert (tm s') a as"
    have act: "active s' ?as = (active s as)(a \<mapsto> (p, 0, word_of_int us, b))"
      using created(2,4) by (auto simp: active_def restrict_map_def fun_eq_iff)
    have "active s as a = None" using created(2) by (simp add: active_def)
    from app_inv_create [OF ci this h b] have "app_inv (set_handle p (Some a) t, w) (active s' ?as)"
      unfolding act .
    moreover have "mal_fresh (P - {p}) mal s'"
      by (rule mal_fresh_step [OF m created(6)])
    ultimately show thesis using created b
      by (intro that [of 0 "(set_handle p (Some a) t, w)" s' ?as])
        (auto simp: create_one_def created_def)
  qed
qed

section \<open>All timers of a test\<close>

text \<open>The timer of a name is pending, with its procedure and its period, from the time now.\<close>

definition scheduled :: "timer_name \<Rightarrow> iperf_time \<Rightarrow> u64 \<Rightarrow> app \<Rightarrow> timer_name tstore \<Rightarrow> bool" where
  "scheduled p now us c s \<longleftrightarrow> (\<exists>a. handle_of p (fst c) = Some a
     \<and> tpay s a = Some (p, 0, us, periodic_name p) \<and> tm s a = iperf_time_add_usecs now us)"

definition timers_ok :: "app \<Rightarrow> timer_name tstore \<Rightarrow> bool" where
  "timers_ok c s \<longleftrightarrow> (\<exists>as fs. timers_inv s as fs \<and> app_inv c (active s as))"

definition configured :: "iperf_test \<Rightarrow> int \<times> int \<times> real \<times> real" where
  "configured t = (duration t, omit t, stats_interval t, reporter_interval t)"

text \<open>What a function that creates the timer p, or leaves it out (None), does to the rest.\<close>

definition starts :: "timer_name \<Rightarrow> iperf_time \<Rightarrow> u64 option \<Rightarrow> timer_name set \<Rightarrow> mallocs \<Rightarrow> app \<Rightarrow> timer_name tstore
    \<Rightarrow> int \<Rightarrow> app \<Rightarrow> timer_name tstore \<Rightarrow> bool" where
  "starts p now u P mal c s r c' s' \<longleftrightarrow> timers_ok c' s' \<and> mal_fresh (P - {p}) mal s' \<and> (r = 0 \<or> r = -1 \<and> mal p = None)
     \<and> (r = 0 \<longrightarrow> (case u of None \<Rightarrow> handle_of p (fst c') = None | Some us \<Rightarrow> scheduled p now us c' s'))
     \<and> (\<forall>q. q \<noteq> p \<longrightarrow> handle_of q (fst c') = handle_of q (fst c)
          \<and> (\<forall>now us. scheduled q now us c s \<longrightarrow> scheduled q now us c' s'))
     \<and> configured (fst c') = configured (fst c)"

lemma configured_frames [simp]:
  "configured (set_handle p h t) = configured t" "configured (t\<lparr>test_done := d\<rparr>) = configured t"
  "configured (t\<lparr>omitting := d\<rparr>) = configured t"
  by (simp_all add: configured_def)

lemma scheduled_frames [simp]:
  "scheduled p now us (t\<lparr>test_done := d\<rparr>, w) s = scheduled p now us (t, w) s"
  "scheduled p now us (t\<lparr>omitting := d\<rparr>, w) s = scheduled p now us (t, w) s"
  by (simp_all add: scheduled_def)

lemma create_one_starts:
  assumes ok: "timers_ok (t, w) s" and h: "handle_of p t = None"
    and m: "mal_fresh P mal s" "p \<in> P" and b: "b = periodic_name p"
  obtains r t' w' s' where "create_one p us b mal now ((t, w), s) = Some (r, (t', w'), s')"
    and "starts p now (Some (word_of_int us)) P mal (t, w) s r (t', w') s'"
proof -
  obtain as fs where inv: "timers_inv s as fs" and ci: "app_inv (t, w) (active s as)"
    using ok by (auto simp: timers_ok_def)
  obtain r c' s' as' where run: "create_one p us b mal now ((t, w), s) = Some (r, c', s')"
    and c: "created p now (word_of_int us) P mal (t, w) s as r c' s' as'"
    using create_one_ok [OF inv ci h m b] by metis
  have cf: "configured (fst c') = configured t"
    using run by (auto simp: create_one_def bind_eq_Some_conv Let_def split: if_splits)
  have keep: "scheduled q now v c' s'" if q: "q \<noteq> p" "scheduled q now v (t, w) s" for q v now
  proof -
    from q obtain a where a: "handle_of q t = Some a" "tpay s a = Some (q, 0, v, periodic_name q)"
      "tm s a = iperf_time_add_usecs now v" by (auto simp: scheduled_def)
    have "a \<in> set as" by (rule handle_in_list [OF ci a(1)])
    show ?thesis
    proof (cases "r = 0")
      case True
      with c obtain n where n: "\<forall>p'. p' \<noteq> p \<longrightarrow> handle_of p' (fst c') = handle_of p' t" "n \<notin> set as"
        "tpay s' = (tpay s)(n \<mapsto> (p, 0, word_of_int us, periodic_name p))" "\<forall>b. b \<noteq> n \<longrightarrow> tm s' b = tm s b"
        by (auto simp: created_def)
      with \<open>a \<in> set as\<close> have "a \<noteq> n" by blast
      then have "tm s' a = tm s a" "tpay s' a = tpay s a" using n(3,4) by simp_all
      with n(1) q(1) a show ?thesis by (auto simp: scheduled_def)
    next
      case False
      with c q(1) a show ?thesis by (auto simp: created_def scheduled_def)
    qed
  qed
  have "starts p now (Some (word_of_int us)) P mal (t, w) s r c' s'"
    using c cf keep unfolding starts_def timers_ok_def
    by (cases "r = 0") (auto simp: created_def scheduled_def)
  with run show thesis by (cases c') (simp add: that)
qed

lemma timers_ok_frames:
  assumes "timers_ok (t, w) s" "rate_ok t'" "\<And>p. handle_of p t' = handle_of p t"
  shows "timers_ok (t', w') s"
  using assms app_inv_keep unfolding timers_ok_def by blast

lemma leaves_out:
  "timers_ok c s \<Longrightarrow> mal_fresh P mal s \<Longrightarrow> handle_of p (fst c) = None \<Longrightarrow> starts p now None P mal c s 0 c s"
  by (auto simp: starts_def intro: mal_fresh_drop)

text \<open>The period of each timer as the options set it, in microseconds.\<close>

definition test_period :: "int \<Rightarrow> iperf_test \<Rightarrow> u64 option" where
  "test_period grace t = (if duration t = 0 then None
     else Some (word_of_int ((duration t + omit t + grace) * 1000000)))"

definition interval_period :: "real \<Rightarrow> u64 option" where
  "interval_period x = (if x = 0 then None
     else map_option word_of_int (double_to_s64 (x * 1000000)))"

definition in_range :: "int \<Rightarrow> iperf_test \<Rightarrow> bool" where
  "in_range grace t \<longleftrightarrow> - 2147483648 \<le> duration t + omit t + grace \<and> duration t + omit t + grace < 2147483648
     \<and> double_to_s64 (stats_interval t * 1000000) \<noteq> None \<and> double_to_s64 (reporter_interval t * 1000000) \<noteq> None"

lemma test_timer_starts:
  assumes ok: "timers_ok (t, w) s" and h: "handle_of Test_timer t = None"
    and m: "mal_fresh P mal s" "Test_timer \<in> P" and r: "in_range grace t"
  obtains r t' w' s' where "create_test_timer grace mal now ((t, w), s) = Some (r, (t', w'), s')"
    and "starts Test_timer now (test_period grace t) P mal (t, w) s r (t', w') s'"
proof (cases "duration t = 0")
  case True
  with ok h m show thesis
    by (intro that [of 0 t w s]) (auto simp: create_test_timer_def test_period_def intro: leaves_out)
next
  case False
  have ok': "timers_ok (t\<lparr>test_done := 0\<rparr>, w) s"
    by (rule timers_ok_frames [OF ok]) (use ok in \<open>auto simp: timers_ok_def app_inv_def\<close>)
  have h': "handle_of Test_timer (t\<lparr>test_done := 0\<rparr>) = None" using h by simp
  define us where "us = (duration t + omit t + grace) * SEC_TO_US"
  obtain r t' w' s' where c: "create_one Test_timer us False mal now ((t\<lparr>test_done := 0\<rparr>, w), s) = Some (r, (t', w'), s')"
    and p: "starts Test_timer now (Some (word_of_int us)) P mal (t\<lparr>test_done := 0\<rparr>, w) s r (t', w') s'"
    by (rule create_one_starts [OF ok' h' m, where b = False and us = us and now = now]) simp_all
  have u: "test_period grace t = Some (word_of_int us)" using False by (simp add: test_period_def us_def)
  show thesis
  proof (rule that)
    show "create_test_timer grace mal now ((t, w), s) = Some (r, (t', w'), s')"
      using c r False by (simp add: create_test_timer_def int_sum_def in_range_def us_def)
    show "starts Test_timer now (test_period grace t) P mal (t, w) s r (t', w') s'"
      using p unfolding u by (simp add: starts_def)
  qed
qed

lemma interval_timer_starts:
  assumes ok: "timers_ok (t, w) s" and h: "handle_of p t = None"
    and m: "mal_fresh P mal s" "p \<in> P" and p: "periodic_name p"
    and r: "double_to_s64 (f t * 1000000) \<noteq> None"
  obtains r t' w' s' where "create_interval_timer p f mal now ((t, w), s) = Some (r, (t', w'), s')"
    and "starts p now (interval_period (f t)) P mal (t, w) s r (t', w') s'"
proof (cases "f t = 0")
  case True
  with ok h m show thesis
    by (intro that [of 0 t w s]) (auto simp: create_interval_timer_def interval_period_def intro: leaves_out)
next
  case False
  from r obtain us where us: "double_to_s64 (f t * 1000000) = Some us" by blast
  obtain r t' w' s' where "create_one p us True mal now ((t, w), s) = Some (r, (t', w'), s')"
    and "starts p now (Some (word_of_int us)) P mal (t, w) s r (t', w') s'"
    by (rule create_one_starts [OF ok h m, where b = True and us = us and now = now]) (simp_all add: p)
  with False us show thesis
    by (intro that [of r t' w' s']) (auto simp: create_interval_timer_def interval_period_def)
qed

text \<open>The period the options ask for, by name; the omit timer is created on its own.\<close>

definition period_of :: "int \<Rightarrow> iperf_test \<Rightarrow> timer_name \<Rightarrow> u64 option" where
  "period_of grace t p = (case p of Test_timer \<Rightarrow> test_period grace t
     | Stats_timer \<Rightarrow> interval_period (stats_interval t)
     | Reporter_timer \<Rightarrow> interval_period (reporter_interval t)
     | Omit_timer \<Rightarrow> if omit t = 0 then None else Some (word_of_int (omit t * 1000000)))"

definition runs_as :: "timer_name \<Rightarrow> iperf_time \<Rightarrow> u64 option \<Rightarrow> app \<Rightarrow> timer_name tstore \<Rightarrow> bool" where
  "runs_as p now u c s \<longleftrightarrow> (case u of None \<Rightarrow> handle_of p (fst c) = None | Some us \<Rightarrow> scheduled p now us c s)"

lemma starts_runs: "starts p now u P mal c s 0 c' s' \<Longrightarrow> runs_as p now u c' s'"
  by (simp add: starts_def runs_as_def)

lemma starts_keeps: "starts p now u P mal c s r c' s' \<Longrightarrow> q \<noteq> p \<Longrightarrow> runs_as q now' v c s \<Longrightarrow> runs_as q now' v c' s'"
  by (auto simp: starts_def runs_as_def split: option.splits)

lemma starts_facts:
  assumes "starts p now u P mal c s r c' s'"
  shows "timers_ok c' s'" and "mal_fresh (P - {p}) mal s'" and "r = 0 \<or> r = -1 \<and> mal p = None"
    and "q \<noteq> p \<Longrightarrow> handle_of q (fst c') = handle_of q (fst c)"
    and "configured (fst c') = configured (fst c)"
  using assms by (auto simp: starts_def)

lemma configured_eq:
  "configured t' = configured t \<longleftrightarrow> duration t' = duration t \<and> omit t' = omit t
     \<and> stats_interval t' = stats_interval t \<and> reporter_interval t' = reporter_interval t"
  by (auto simp: configured_def)

lemma create_timers_ok:
  assumes ok: "timers_ok (t, w) s" and h: "\<And>p. p \<noteq> Omit_timer \<Longrightarrow> handle_of p t = None"
    and m: "mal_fresh UNIV mal s" and r: "in_range grace t"
    and now: "iperf_time_now zero_time w = Some (0, now, w1)"
  obtains r c' s' where "create_timers grace mal ((t, w), s) = Some (r, c', s')"
    and "timers_ok c' s'" and "mal_fresh {Omit_timer} mal s'" and "r = 0 \<or> r = -1 \<and> (\<exists>q. mal q = None)"
    and "handle_of Omit_timer (fst c') = handle_of Omit_timer t" and "configured (fst c') = configured t"
    and "r = 0 \<Longrightarrow> p \<noteq> Omit_timer \<Longrightarrow> runs_as p now (period_of grace t p) c' s'"
proof -
  have t0: "t\<lparr>timer := None, stats_timer := None, reporter_timer := None\<rparr> = t"
    using h [of Test_timer] h [of Stats_timer] h [of Reporter_timer] by (simp add: handle_of_def)
  have ok1: "timers_ok (t, w1) s"
    by (rule timers_ok_frames [OF ok]) (use ok in \<open>auto simp: timers_ok_def app_inv_def\<close>)
  obtain r1 t1 v1 s1 where c1: "create_test_timer grace mal now ((t, w1), s) = Some (r1, (t1, v1), s1)"
    and p1: "starts Test_timer now (test_period grace t) UNIV mal (t, w1) s r1 (t1, v1) s1"
    by (rule test_timer_starts [OF ok1 _ m UNIV_I r, where now = now]) (simp_all add: h)
  note f1 = starts_facts [OF p1, simplified]
  have cf1: "configured t1 = configured t" using f1(5) by simp
  show thesis
  proof (cases "r1 = 0")
    case False
    with f1(3) have "r1 = -1" and no: "mal Test_timer = None" by simp_all
    from this(1) now t0 c1 have run: "create_timers grace mal ((t, w), s) = Some (-1, (t1, v1), s1)"
      by (simp add: create_timers_def Let_def)
    have "mal_fresh {Omit_timer} mal s1" by (rule mal_fresh_mono [OF f1(2)]) simp
    with f1(1) cf1 no show thesis by (intro that [OF run]) (auto simp: f1(4))
  next
    case r1: True
    have h2: "handle_of Stats_timer t1 = None" "double_to_s64 (stats_interval t1 * 1000000) \<noteq> None"
      using f1(4) h r cf1 by (simp_all add: in_range_def configured_eq)
    obtain r2 t2 v2 s2 where c2: "create_interval_timer Stats_timer stats_interval mal now ((t1, v1), s1) = Some (r2, (t2, v2), s2)"
      and p2: "starts Stats_timer now (interval_period (stats_interval t1)) (UNIV - {Test_timer}) mal (t1, v1) s1 r2 (t2, v2) s2"
      by (rule interval_timer_starts [OF f1(1) h2(1) f1(2), where f = stats_interval and now = now]) (simp_all add: h2(2))
    note f2 = starts_facts [OF p2, simplified]
    have cf2: "configured t2 = configured t" using f2(5) cf1 by simp
    show thesis
    proof (cases "r2 = 0")
      case False
      with f2(3) have "r2 = -1" and no: "mal Stats_timer = None" by simp_all
      from this(1) now t0 c1 r1 c2 have run: "create_timers grace mal ((t, w), s) = Some (-1, (t2, v2), s2)"
        by (simp add: create_timers_def Let_def)
      have "mal_fresh {Omit_timer} mal s2" by (rule mal_fresh_mono [OF f2(2)]) simp
      with f2(1) cf2 no show thesis by (intro that [OF run]) (auto simp: f1(4) f2(4))
    next
      case r2: True
      have h3: "handle_of Reporter_timer t2 = None" "double_to_s64 (reporter_interval t2 * 1000000) \<noteq> None"
        using f1(4) f2(4) h r cf2 by (simp_all add: in_range_def configured_eq)
      obtain r3 t3 v3 s3 where c3: "create_interval_timer Reporter_timer reporter_interval mal now ((t2, v2), s2) = Some (r3, (t3, v3), s3)"
        and p3: "starts Reporter_timer now (interval_period (reporter_interval t2)) (UNIV - {Test_timer} - {Stats_timer}) mal (t2, v2) s2 r3 (t3, v3) s3"
        by (rule interval_timer_starts [OF f2(1) h3(1) f2(2), where f = reporter_interval and now = now]) (simp_all add: h3(2))
      note f3 = starts_facts [OF p3, simplified]
      have cf3: "configured t3 = configured t" using f3(5) cf2 by simp
      have U: "UNIV - {Test_timer} - {Stats_timer} - {Reporter_timer} = {Omit_timer}"
        by (auto intro: timer_name.exhaust)
      have sch: "runs_as p now (period_of grace t p) (t3, v3) s3" if r3: "r3 = 0" "p \<noteq> Omit_timer"
      proof (cases p)
        case Test_timer
        with starts_keeps [OF p3 _ starts_keeps [OF p2 _ starts_runs [OF p1 [unfolded r1]]]]
        show ?thesis by (simp add: period_of_def)
      next
        case Stats_timer
        with starts_keeps [OF p3 _ starts_runs [OF p2 [unfolded r2]]] cf1
        show ?thesis by (simp add: period_of_def configured_eq)
      next
        case Reporter_timer
        with starts_runs [OF p3 [unfolded r3(1)]] cf2
        show ?thesis by (simp add: period_of_def configured_eq)
      qed (use that in simp)
      from now t0 c1 r1 c2 r2 c3 have run: "create_timers grace mal ((t, w), s) = Some (r3, (t3, v3), s3)"
        by (simp add: create_timers_def Let_def)
      show thesis
        by (rule that [OF run]) (use f3 cf3 sch U in \<open>auto simp: f1(4) f2(4)\<close>)
    qed
  qed
qed

lemma runs_as_frames: "runs_as q now u (t\<lparr>omitting := x\<rparr>, w') s = runs_as q now u (t, w) s"
  by (simp add: runs_as_def scheduled_def split: option.splits)

text \<open>The omit timer is created after the others, when none is pending.\<close>

lemma create_omit_timer_ok:
  assumes ok: "timers_ok (t, w) s" and h: "omit_timer t = None" and m: "mal_fresh {Omit_timer} mal s"
    and now: "omit t \<noteq> 0 \<Longrightarrow> iperf_time_now zero_time w = Some (0, now, w1)"
  obtains r c' s' where "create_omit_timer mal ((t, w), s) = Some (r, c', s')"
    and "timers_ok c' s'" and "r = 0 \<or> r = -1 \<and> mal Omit_timer = None"
    and "r = 0 \<Longrightarrow> runs_as Omit_timer now (period_of grace t Omit_timer) c' s'"
    and "r = 0 \<Longrightarrow> omitting (fst c') = of_bool (omit t \<noteq> 0)"
    and "q \<noteq> Omit_timer \<Longrightarrow> runs_as q now' u (t, w) s \<Longrightarrow> runs_as q now' u c' s'"
proof (cases "omit t = 0")
  case True
  have e: "t\<lparr>omit_timer := None, omitting := 0\<rparr> = t\<lparr>omitting := 0\<rparr>" using h by simp
  have k: "timers_ok (t\<lparr>omitting := 0\<rparr>, w) s"
    by (rule timers_ok_frames [OF ok]) (use ok in \<open>auto simp: timers_ok_def app_inv_def\<close>)
  have run: "create_omit_timer mal ((t, w), s) = Some (0, (t\<lparr>omitting := 0\<rparr>, w), s)"
    using True e by (simp add: create_omit_timer_def)
  show thesis
    by (rule that [OF run k])
      (use True h in \<open>auto simp: runs_as_def period_of_def handle_omit split: option.splits\<close>)
next
  case False
  let ?t = "t\<lparr>omitting := 1\<rparr>"
  have ok1: "timers_ok (?t, w1) s"
    by (rule timers_ok_frames [OF ok]) (use ok in \<open>auto simp: timers_ok_def app_inv_def\<close>)
  have h1: "handle_of Omit_timer ?t = None" using h by (simp add: handle_of_def)
  obtain r t' w' s' where c: "create_one Omit_timer (omit t * SEC_TO_US) False mal now ((?t, w1), s) = Some (r, (t', w'), s')"
    and p: "starts Omit_timer now (Some (word_of_int (omit t * SEC_TO_US))) {Omit_timer} mal (?t, w1) s r (t', w') s'"
    by (rule create_one_starts [OF ok1 h1 m, where b = False and us = "omit t * SEC_TO_US" and now = now]) simp_all
  note f = starts_facts [OF p]
  have "omitting t' = 1"
    using c by (auto simp: create_one_def bind_eq_Some_conv Let_def set_handle_def split: if_splits)
  moreover have "runs_as q now' u (t', w') s'" if "q \<noteq> Omit_timer" "runs_as q now' u (t, w) s"
    using starts_keeps [OF p that(1)] that(2) by (simp add: runs_as_frames [where w = w])
  moreover have "runs_as Omit_timer now (period_of grace t Omit_timer) (t', w') s'" if "r = 0"
    using starts_runs [OF p [unfolded that]] False by (simp add: period_of_def)
  ultimately show thesis
    using False now c f(1,3) by (intro that [of r "(t', w')" s']) (auto simp: create_omit_timer_def)
qed

end
