(* ===== verification/Iperf_Cstr.thy ===== *)
theory Iperf_Cstr
  imports Iperf_Prelude
begin

text \<open>
  The parts of the C library that the option parser reads strings with: strtol, atoi, strtod and
  atof, the scanf conversion of a double followed by one character, strchr and strcasecmp, for
  decimal, octal and hexadecimal integers and decimal floating point numbers (hexadecimal floats,
  infinities and NaNs are not modelled). A C string is the list of characters before its NUL.
\<close>

section \<open>Characters\<close>

definition code :: "char \<Rightarrow> nat" where
  "code c = of_char c"

definition isspace :: "char \<Rightarrow> bool" where
  "isspace c \<longleftrightarrow> code c = 32 \<or> (9 \<le> code c \<and> code c \<le> 13)"

definition isdigit :: "char \<Rightarrow> bool" where
  "isdigit c \<longleftrightarrow> 48 \<le> code c \<and> code c \<le> 57"

definition isupper :: "char \<Rightarrow> bool" where
  "isupper c \<longleftrightarrow> 65 \<le> code c \<and> code c \<le> 90"

definition tolower :: "char \<Rightarrow> char" where
  "tolower c = (if isupper c then char_of (code c + 32) else c)"

definition toupper :: "char \<Rightarrow> char" where
  "toupper c = (if 97 \<le> code c \<and> code c \<le> 122 then char_of (code c - 32) else c)"

text \<open>The value of a digit in bases up to 36.\<close>

definition digit_value :: "char \<Rightarrow> nat option" where
  "digit_value c =
     (if isdigit c then Some (code c - 48)
      else if isupper c then Some (code c - 55)
      else if 97 \<le> code c \<and> code c \<le> 122 then Some (code c - 87)
      else None)"

definition strcaseeq :: "string \<Rightarrow> string \<Rightarrow> bool" where
  "strcaseeq s t \<longleftrightarrow> map tolower s = map tolower t"

text \<open>strchr with the string cut at the character found: what is before it and what is after.\<close>

fun split_at :: "char \<Rightarrow> string \<Rightarrow> string \<times> string option" where
  "split_at c [] = ([], None)"
| "split_at c (x # xs) =
     (if x = c then ([], Some xs) else (case split_at c xs of (a, b) \<Rightarrow> (x # a, b)))"

section \<open>Integers\<close>

text \<open>Reads digits of a base: the value, how many were read, and the rest.\<close>

fun read_digits :: "nat \<Rightarrow> nat \<Rightarrow> nat \<Rightarrow> string \<Rightarrow> nat \<times> nat \<times> string" where
  "read_digits base v n [] = (v, n, [])"
| "read_digits base v n (c # cs) =
     (case digit_value c of
        Some d \<Rightarrow> if d < base then read_digits base (v * base + d) (Suc n) cs else (v, n, c # cs)
      | None \<Rightarrow> (v, n, c # cs))"

fun read_sign :: "string \<Rightarrow> bool \<times> string" where
  "read_sign (c # cs) = (if c = CHR ''-'' then (True, cs) else if c = CHR ''+'' then (False, cs) else (False, c # cs))"
| "read_sign [] = (False, [])"

definition clamp64 :: "int \<Rightarrow> int" where
  "clamp64 n = max s64_min (min s64_max n)"

text \<open>strtol: the value and the rest, which is the whole string when nothing could be read. In
  base 0 a prefix 0x selects base 16 and a prefix 0 base 8.\<close>

definition strtol :: "string \<Rightarrow> nat \<Rightarrow> int \<times> string" where
  "strtol s base =
     (let (neg, t) = read_sign (dropWhile isspace s);
          hex = (length t \<ge> 3 \<and> hd t = CHR ''0'' \<and> tolower (t ! 1) = CHR ''x''
                 \<and> (case digit_value (t ! 2) of Some d \<Rightarrow> d < 16 | None \<Rightarrow> False));
          b = (if base \<noteq> 0 then base else if hex then 16 else if t \<noteq> [] \<and> hd t = CHR ''0'' then 8 else 10);
          t = (if hex \<and> b = 16 then drop 2 t else t);
          (v, n, r) = read_digits b 0 0 t
      in if n = 0 then (0, s) else (clamp64 (if neg then - int v else int v), r))"

text \<open>atoi: the long converted to a 32-bit int.\<close>

definition atoi :: "string \<Rightarrow> int" where
  "atoi s = sint (word_of_int (fst (strtol s 10)) :: 32 word)"

lemma atoi_range: "- 2147483648 \<le> atoi s" "atoi s < 2147483648"
  using sint_range_size [of "word_of_int (fst (strtol s 10)) :: 32 word"]
  by (auto simp: atoi_def word_size)

section \<open>Floating point numbers\<close>

text \<open>An exponent after the digits: its value and the rest; None when it is begun and not
  completed, which the scanf conversion refuses and strtod leaves unread.\<close>

definition read_exponent :: "string \<Rightarrow> (int \<times> string) option" where
  "read_exponent s =
     (case s of
        [] \<Rightarrow> Some (0, [])
      | c # cs \<Rightarrow>
          if tolower c = CHR ''e'' then
            (let (neg, t) = read_sign cs; (v, n, r) = read_digits 10 0 0 t
             in if n = 0 then None else Some (if neg then - int v else int v, r))
          else Some (0, s))"

definition read_double :: "bool \<Rightarrow> string \<Rightarrow> (real \<times> string) option" where
  "read_double strict s =
     (let (neg, t) = read_sign (dropWhile isspace s);
          (v, n, r) = read_digits 10 0 0 t;
          (v, k, r) = (case r of
                         c # cs \<Rightarrow> if c = CHR ''.'' then (case read_digits 10 v 0 cs of (v', k, r') \<Rightarrow> (v', k, r')) else (v, 0, r)
                       | [] \<Rightarrow> (v, 0, r))
      in if n + k = 0 then None
         else (case read_exponent r of
           Some (e, r) \<Rightarrow> Some ((if neg then -1 else 1) * real v * 10 powi (e - int k), r)
         | None \<Rightarrow> if strict then None else Some ((if neg then -1 else 1) * real v * 10 powi (- int k), r)))"

definition atof :: "string \<Rightarrow> real" where
  "atof s = (case read_double False s of None \<Rightarrow> 0 | Some (x, _) \<Rightarrow> x)"

text \<open>The conversion %lf%c: the number, and the character after it or NUL.\<close>

definition sscanf_lf_c :: "string \<Rightarrow> (real \<times> char) option" where
  "sscanf_lf_c s =
     (case read_double True s of
        None \<Rightarrow> None
      | Some (x, r) \<Rightarrow> Some (x, case r of [] \<Rightarrow> CHR 0x00 | c # _ \<Rightarrow> c))"

section \<open>Facts\<close>

lemma read_digits_nonneg: "read_digits b v n s = (v', n', r) \<Longrightarrow> n \<le> n'"
  by (induction b v n s rule: read_digits.induct) (fastforce split: option.splits if_splits)+

lemma read_digits_all:
  "list_all (\<lambda>c. \<exists>d. digit_value c = Some d \<and> d < b) s \<Longrightarrow>
     read_digits b v n s = (foldl (\<lambda>v c. v * b + the (digit_value c)) v s, n + length s, [])"
  by (induction s arbitrary: v n) auto

end
