(* ===== verification/Iperf_Json.thy ===== *)
theory Iperf_Json
  imports Iperf_Cstr Iperf_Net
begin

text \<open>
  JSON on the control connection: the part of cJSON's object model the program uses, the typed
  lookup iperf_cJSON_GetObjectItemType of src/iperf_util.c, and the framing JSON_write and JSON_read
  of src/iperf_api.c. The text form of a value is left to the vendored cJSON, whose printer and
  parser are arguments of the two framing functions.
\<close>

section \<open>Values\<close>

datatype json =
    JNull
  | JBool bool
  | JNumber (valuedouble: real)
  | JString (valuestring: string)
  | JArray (elems: "json list")
  | JObject (members: "(string \<times> json) list")

text \<open>valueint of a parsed value: a number truncated and saturated to 64 bits, 1 for true.\<close>

definition valueint :: "json \<Rightarrow> int" where
  "valueint j =
     (case j of JNumber x \<Rightarrow> clamp64 (if 0 \<le> x then \<lfloor>x\<rfloor> else \<lceil>x\<rceil>) | JBool b \<Rightarrow> of_bool b | _ \<Rightarrow> 0)"

text \<open>cJSON_GetObjectItem: the first member whose name is the same up to case.\<close>

fun lookup :: "string \<Rightarrow> (string \<times> json) list \<Rightarrow> json option" where
  "lookup k [] = None"
| "lookup k ((n, v) # kvs) = (if strcaseeq n k then Some v else lookup k kvs)"

definition cJSON_GetObjectItem :: "json \<Rightarrow> string \<Rightarrow> json option" where
  "cJSON_GetObjectItem j k = (case j of JObject kvs \<Rightarrow> lookup k kvs | _ \<Rightarrow> None)"

datatype expected_type = cJSON_True | cJSON_String | cJSON_Number | cJSON_Array

text \<open>The check for cJSON_True is cJSON_IsBool: false passes as well.\<close>

definition iperf_cJSON_GetObjectItemType :: "json \<Rightarrow> string \<Rightarrow> expected_type \<Rightarrow> json option" where
  "iperf_cJSON_GetObjectItemType j item_string ty =
     (case cJSON_GetObjectItem j item_string of
        None \<Rightarrow> None
      | Some j_p \<Rightarrow>
          (case (ty, j_p) of
             (cJSON_True, JBool _) \<Rightarrow> Some j_p
           | (cJSON_String, JString _) \<Rightarrow> Some j_p
           | (cJSON_Number, JNumber _) \<Rightarrow> Some j_p
           | (cJSON_Array, JArray _) \<Rightarrow> Some j_p
           | _ \<Rightarrow> None))"

text \<open>The members of an object built by a sequence of conditional cJSON_Add...ToObject calls.\<close>

definition present :: "(string \<times> json option) list \<Rightarrow> (string \<times> json) list" where
  "present fs = List.map_filter (\<lambda>(k, v). map_option (\<lambda>x. (k, x)) v) fs"

definition given :: "bool \<Rightarrow> json \<Rightarrow> json option" where
  "given b j = (if b then Some j else None)"

lemma present_simps [simp]:
  "present [] = []"
  "present ((k, None) # fs) = present fs"
  "present ((k, Some v) # fs) = (k, v) # present fs"
  by (simp_all add: present_def map_filter_simps)

definition folded_keys :: "(string \<times> 'a) list \<Rightarrow> string list" where
  "folded_keys fs = map (\<lambda>(k, _). map tolower k) fs"

lemma lookup_not_in: "map tolower k \<notin> set (folded_keys fs) \<Longrightarrow> lookup k (present fs) = None"
proof (induction fs)
  case (Cons f fs)
  obtain n v where f: "f = (n, v)" by (cases f)
  with Cons show ?case by (cases v) (auto simp: folded_keys_def strcaseeq_def)
qed (simp add: folded_keys_def)

lemma lookup_present:
  "distinct (folded_keys fs) \<Longrightarrow> (k, v) \<in> set fs \<Longrightarrow> lookup k (present fs) = v"
proof (induction fs)
  case (Cons f fs)
  obtain n u where f: "f = (n, u)" by (cases f)
  have notin: "map tolower n \<notin> set (folded_keys fs)" and dist: "distinct (folded_keys fs)"
    using Cons.prems(1) by (auto simp: f folded_keys_def)
  show ?case
  proof (cases "(k, v) = f")
    case True
    with f have "k = n" "v = u" by auto
    with f lookup_not_in [OF notin] show ?thesis by (cases u) (auto simp: strcaseeq_def)
  next
    case False
    with Cons.prems(2) have mem: "(k, v) \<in> set fs" by auto
    then have "map tolower k \<in> set (folded_keys fs)" by (force simp: folded_keys_def)
    with notin have ne: "map tolower n \<noteq> map tolower k" by metis
    with Cons.IH [OF dist mem] f show ?thesis by (cases u) (auto simp: strcaseeq_def)
  qed
qed simp

section \<open>JSON_write and JSON_read\<close>

text \<open>The printer returns None where cJSON_PrintUnformatted returns NULL.\<close>

definition JSON_write :: "(json \<Rightarrow> u8 list option) \<Rightarrow> fd \<Rightarrow> json \<Rightarrow> world \<Rightarrow> (int \<times> world) option" where
  "JSON_write pr f j w =
     (case pr j of
        None \<Rightarrow> Some (-1, w)
      | Some str \<Rightarrow> do {
          let hsize = (word_of_nat (length str) :: u32);
          (r, w) \<leftarrow> Nwrite f (be32 hsize) 4 1 w;
          if r < 0 then Some (-1, w)
          else do {
            (r, w) \<leftarrow> Nwrite f str (unat hsize) 1 w;
            Some (if r < 0 then -1 else 0, w) } })"

text \<open>The warnings of the source are not modelled; the buffer for the text is assumed to be
  allocated. Its size is computed in 32 bits, and a length for which it wraps to zero is refused.\<close>

definition JSON_read :: "(u8 list \<Rightarrow> json option) \<Rightarrow> fd \<Rightarrow> nat \<Rightarrow> world \<Rightarrow> (json option \<times> world) option" where
  "JSON_read pa f max_size w = do {
     (rc, nsize, w) \<leftarrow> Nread f 4 1 w;
     if rc = 4 then
       let hsize = unat (rd32 nsize) in
       if hsize > 0 \<and> (max_size = 0 \<or> hsize \<le> max_size) \<and> rd32 nsize + 1 \<noteq> 0 then do {
         (rc, str, w) \<leftarrow> Nread f hsize 1 w;
         Some (if rc \<ge> 0 \<and> rc = int hsize then pa str else None, w) }
       else Some (None, w)
     else Some (None, w) }"

definition frame :: "u8 list \<Rightarrow> u8 list" where
  "frame s = be32 (word_of_nat (length s)) @ s"

text \<open>What JSON_write puts on the connection: a prefix of the length and a prefix of the text. The
  code takes any result of Nwrite that is not negative for success, so both can be proper prefixes
  when a write is interrupted; without interruptions it is exactly one frame.\<close>

lemma Nwrite_done:
  assumes "Nwrite f buf n p w = Some (r, w')" "n \<le> length buf"
  shows "later w w'" and "0 \<le> r \<Longrightarrow> \<exists>k \<le> n. r = int k \<and> bytes_written f (events w w') = take k buf"
  using nwrite_loop_inv [of f buf n n w r w'] assms by (auto simp: Nwrite_def)

lemma JSON_write_bytes:
  assumes "JSON_write pr f j w = Some (0, w')" "pr j = Some s" "length s < 4294967296"
  obtains a b where "later w w'" and "a \<le> 4" and "b \<le> length s"
    and "bytes_written f (events w w') = take a (be32 (word_of_nat (length s))) @ take b s"
proof -
  have u: "unat (word_of_nat (length s) :: u32) = length s"
    using assms(3) by (simp add: unat_of_nat)
  from assms obtain r1 w1 r2 where 1: "Nwrite f (be32 (word_of_nat (length s))) 4 1 w = Some (r1, w1)" "\<not> r1 < 0"
    and 2: "Nwrite f s (length s) 1 w1 = Some (r2, w')" "\<not> r2 < 0"
    by (auto simp: JSON_write_def Let_def u Option.bind_eq_Some_conv split: if_splits)
  from Nwrite_done [OF 1(1)] 1(2) obtain a where a: "later w w1" "a \<le> 4"
    "bytes_written f (events w w1) = take a (be32 (word_of_nat (length s)))" by auto
  from Nwrite_done [OF 2(1)] 2(2) obtain b where b: "later w1 w'" "b \<le> length s"
    "bytes_written f (events w1 w') = take b s" by auto
  show thesis
    using that [OF later_trans [OF a(1) b(1)] a(2) b(2)] a(3) b(3) events_append [OF a(1) b(1)] by simp
qed

lemma JSON_write_whole:
  assumes run: "JSON_write pr f j w = Some (0, w')" and s: "pr j = Some s" "length s < 4294967296"
    and whole: "length (bytes_written f (events w w')) = 4 + length s"
  shows "bytes_written f (events w w') = frame s"
proof -
  obtain a b where ab: "a \<le> 4" "b \<le> length s"
    "bytes_written f (events w w') = take a (be32 (word_of_nat (length s))) @ take b s"
    using JSON_write_bytes [OF run s] by blast
  have "length (be32 (word_of_nat (length s))) = 4" by (simp add: be32_def)
  with ab whole have "a = 4" "b = length s" by auto
  with ab(3) show ?thesis by (simp add: frame_def be32_def)
qed

text \<open>What JSON_read takes from the connection when it yields a value: exactly one frame.\<close>

lemma Nread_done:
  assumes "Nread f n p w = Some (r, got, w')"
  shows "later w w'" and "got = bytes_read f (events w w')" and "length got \<le> n"
    and "r = int (length got) \<or> r = NET_HARDERROR"
  using Nrecv_result [of f n p 0 w r got w'] assms by (simp_all add: Nread_def)

lemma be32_rd32: "length bs = 4 \<Longrightarrow> be32 (rd32 bs) = bs"
proof -
  assume "length bs = 4"
  then obtain a b c d where bs: "bs = [a, b, c, d]"
    by (auto simp: length_Suc_conv numeral_eq_Suc)
  have u: "unat x < 256" for x :: u8 using unsigned_less [of x, where ?'a = nat] by simp
  define n where "n = of_be bs"
  have n: "n = ((unat a * 256 + unat b) * 256 + unat c) * 256 + unat d"
    by (simp add: n_def bs)
  have lt: "n < 4294967296" using u [of a] u [of b] u [of c] u [of d] by (simp add: n)
  have w: "unat (rd32 bs) = n" using lt by (simp add: rd32_def n_def [symmetric] unat_of_nat)
  have s1: "n div 256 = (unat a * 256 + unat b) * 256 + unat c" using u [of d] by (simp add: n)
  have s2: "n div 65536 = unat a * 256 + unat b"
    using div_mult2_eq [of n 256 256] s1 u [of c] by simp
  have s3: "n div 16777216 = unat a"
    using div_mult2_eq [of n 65536 256] s2 u [of b] by simp
  have d: "n mod 256 = unat d" "n div 256 mod 256 = unat c" "n div 65536 mod 256 = unat b"
    "n div 16777216 mod 256 = unat a"
    using u [of a] u [of b] u [of c] u [of d] unfolding s1 s2 s3
    by (simp_all only: n mod_mult_self3 mod_less)
  have byte: "ucast (drop_bit 24 (rd32 bs)) = (word_of_nat (n div 16777216 mod 256) :: u8)"
    "ucast (drop_bit 16 (rd32 bs)) = (word_of_nat (n div 65536 mod 256) :: u8)"
    "ucast (drop_bit 8 (rd32 bs)) = (word_of_nat (n div 256 mod 256) :: u8)"
    "ucast (rd32 bs) = (word_of_nat (n mod 256) :: u8)"
    by (simp_all add: word_unat_eq_iff unsigned_ucast_eq unsigned_drop_bit_eq drop_bit_eq_div
        take_bit_eq_mod unat_div_distrib w unat_of_nat)
  show ?thesis unfolding be32_def byte by (simp add: d bs)
qed

lemma JSON_read_frame:
  assumes "JSON_read pa f max_size w = Some (Some j, w')"
  obtains s where "later w w'" and "bytes_read f (events w w') = frame s" and "pa s = Some j"
    and "s \<noteq> []" and "max_size = 0 \<or> length s \<le> max_size"
proof -
  from assms obtain nsize w1 rc s where 1: "Nread f 4 1 w = Some (4, nsize, w1)"
    and h: "0 < unat (rd32 nsize)" "max_size = 0 \<or> unat (rd32 nsize) \<le> max_size"
    and 2: "Nread f (unat (rd32 nsize)) 1 w1 = Some (rc, s, w')" "rc = int (unat (rd32 nsize))" "pa s = Some j"
    by (auto simp: JSON_read_def Let_def Option.bind_eq_Some_conv split: if_splits)
  note n1 = Nread_done [OF 1]
  note n2 = Nread_done [OF 2(1)]
  have l4: "length nsize = 4" using n1(4) by auto
  have "0 \<le> rc" unfolding 2(2) by (rule of_nat_0_le_iff)
  then have "rc = int (length s)" using n2(4) by auto
  then have ls: "length s = unat (rd32 nsize)" using 2(2) by (metis of_nat_eq_iff)
  then have "word_of_nat (length s) = rd32 nsize" by simp
  then have "frame s = nsize @ s" using be32_rd32 [OF l4] by (simp add: frame_def)
  with n1 n2 have "bytes_read f (events w w') = frame s"
    using events_append [OF n1(1) n2(1)] by simp
  moreover have "s \<noteq> []" using ls h(1) by (cases s) auto
  moreover have "max_size = 0 \<or> length s \<le> max_size" using ls h(2) by simp
  ultimately show thesis using that [OF later_trans [OF n1(1) n2(1)] _ 2(3)] by blast
qed

text \<open>Two frames that begin one byte sequence are the same frame.\<close>

lemma frame_prefix:
  assumes "length s < 4294967296" "length t < 4294967296" "take (length (frame s)) (frame t @ rest) = frame s"
  shows "s = t"
proof -
  let ?n = "\<lambda>s. word_of_nat (length s) :: u32"
  from assms(3) have "take 4 (take (4 + length s) (be32 (?n t) @ t @ rest)) = take 4 (be32 (?n s) @ s)"
    by (simp add: frame_def)
  then have "be32 (?n t) = be32 (?n s)" by simp
  then have "?n t = ?n s" by (metis rd32_be32)
  then have "unat (?n t) = unat (?n s)" by simp
  then have "length s = length t" using assms(1,2) by (simp add: unat_of_nat)
  with assms(3) show ?thesis by (simp add: frame_def)
qed

end
