(* ===== verification/Iperf_Params.thy ===== *)
theory Iperf_Params
  imports Iperf_Json Iperf_Config
begin

text \<open>
  The exchange of test parameters in src/iperf_api.c: send_parameters on the client,
  get_parameters on the server. The fields of the message are listed in the order they are added;
  the server applies them in its own order. The token of the authentication is made by the
  vendored crypto code and is an argument.
\<close>

section \<open>send_parameters\<close>

definition num :: "int \<Rightarrow> json" where "num n = JNumber (of_int n)"

definition str_opt :: "string option \<Rightarrow> json option" where
  "str_opt s = map_option JString s"

definition param_fields :: "string option \<Rightarrow> iperf_test \<Rightarrow> (string \<times> json option) list" where
  "param_fields token t =
     [(''tcp'', given (protocol t = Ptcp) (JBool True)),
      (''udp'', given (protocol t = Pudp) (JBool True)),
      (''sctp'', given (protocol t = Psctp) (JBool True)),
      (''quic'', given (protocol t = Pquic) (JBool True)),
      (''quic_port'', given (quic_port t > 0) (num (quic_port t))),
      (''omit'', Some (num (omit t))),
      (''server_affinity'', given (server_affinity t \<noteq> -1) (num (server_affinity t))),
      (''time'', Some (num (duration t))),
      (''num'', Some (num (uint (bytes (settings t))))),
      (''blockcount'', Some (num (uint (blocks (settings t))))),
      (''MSS'', given (mss (settings t) \<noteq> 0) (num (mss (settings t)))),
      (''nodelay'', given (no_delay t \<noteq> 0) (JBool True)),
      (''parallel'', Some (num (num_streams t))),
      (''reverse'', given (reverse t \<noteq> 0) (JBool True)),
      (''bidirectional'', given (bidirectional t \<noteq> 0) (JBool True)),
      (''mptcp'', given (mptcp t \<noteq> 0) (JBool True)),
      (''window'', given (socket_bufsize (settings t) \<noteq> 0) (num (socket_bufsize (settings t)))),
      (''len'', given (blksize (settings t) \<noteq> 0) (num (blksize (settings t)))),
      (''bandwidth'', given (rate (settings t) \<noteq> 0) (num (uint (rate (settings t))))),
      (''fqrate'', given (fqrate (settings t) \<noteq> 0) (num (uint (fqrate (settings t))))),
      (''pacing_timer'', given (pacing_timer (settings t) \<noteq> 0) (num (pacing_timer (settings t)))),
      (''burst'', given (burst (settings t) \<noteq> 0) (num (burst (settings t)))),
      (''TOS'', given (tos (settings t) \<noteq> 0) (num (tos (settings t)))),
      (''flowlabel'', given (flowlabel (settings t) \<noteq> 0) (num (flowlabel (settings t)))),
      (''title'', str_opt (title t)),
      (''extra_data'', str_opt (extra_data t)),
      (''congestion'', str_opt (congestion t)),
      (''congestion_used'', str_opt (congestion_used t)),
      (''get_server_output'', given (get_server_output t \<noteq> 0) (num (get_server_output t))),
      (''udp_counters_64bit'', given (udp_counters_64bit t \<noteq> 0) (num (udp_counters_64bit t))),
      (''repeating_payload'', given (repeating_payload t \<noteq> 0) (num (repeating_payload t))),
      (''zerocopy'', given (zerocopy t \<noteq> 0) (num (zerocopy t))),
      (''dont_fragment'', given (dont_fragment (settings t) \<noteq> 0) (num (dont_fragment (settings t)))),
      (''authtoken'', str_opt token),
      (''skip_rx_copy'', given (skip_rx_copy (settings t) \<noteq> 0) (num (skip_rx_copy (settings t)))),
      (''client_version'', Some (JString ''3.20+''))]"

text \<open>The token is made when all three credentials are there; a failure ends the function.\<close>

definition needs_token :: "iperf_test \<Rightarrow> bool" where
  "needs_token t \<longleftrightarrow> client_username (settings t) \<noteq> None \<and> client_password (settings t) \<noteq> None
     \<and> client_rsa_pubkey (settings t) \<noteq> None"

definition send_parameters ::
    "(string \<Rightarrow> string \<Rightarrow> string \<Rightarrow> int \<Rightarrow> string option) \<Rightarrow> (json \<Rightarrow> u8 list option)
      \<Rightarrow> iperf_test \<Rightarrow> world \<Rightarrow> (int \<times> iperf_test \<times> world) option" where
  "send_parameters encode pr t w =
     (let token = (if needs_token t
                   then Some (encode (the (client_username (settings t))) (the (client_password (settings t)))
                          (the (client_rsa_pubkey (settings t))) (use_pkcs1_padding t))
                   else None);
          t = (case token of Some (Some tok) \<Rightarrow> upd_settings (\<lambda>x. x\<lparr>authtoken := Some tok\<rparr>) t | _ \<Rightarrow> t)
      in if token = Some None then Some (-1, t, w\<lparr>i_errno := IESENDPARAMS\<rparr>)
         else do {
           (r, w) \<leftarrow> JSON_write pr (ctrl_sck t) (JObject (present (param_fields (Option.bind token id) t))) w;
           if r < 0 then Some (-1, t, w\<lparr>i_errno := IESENDPARAMS\<rparr>) else Some (0, t, w) })"

section \<open>get_parameters\<close>

text \<open>An update made when the member is there and has the expected type.\<close>

definition item :: "json \<Rightarrow> string \<Rightarrow> expected_type \<Rightarrow> (json \<Rightarrow> iperf_test \<Rightarrow> iperf_test) \<Rightarrow> iperf_test \<Rightarrow> iperf_test" where
  "item j k ty f t = (case iperf_cJSON_GetObjectItemType j k ty of None \<Rightarrow> t | Some v \<Rightarrow> f v t)"

definition int_item :: "json \<Rightarrow> string \<Rightarrow> (int \<Rightarrow> iperf_test \<Rightarrow> iperf_test) \<Rightarrow> iperf_test \<Rightarrow> iperf_test" where
  "int_item j k f = item j k cJSON_Number (\<lambda>v. f (valueint v))"

text \<open>The member skip_rx_copy is looked up without a check of its type.\<close>

definition untyped_item :: "json \<Rightarrow> string \<Rightarrow> (int \<Rightarrow> iperf_test \<Rightarrow> iperf_test) \<Rightarrow> iperf_test \<Rightarrow> iperf_test" where
  "untyped_item j k f t = (case cJSON_GetObjectItem j k of None \<Rightarrow> t | Some v \<Rightarrow> f (valueint v) t)"

text \<open>The protocol members: the result is -1 for UDP with a file.\<close>

definition apply_protocol :: "json \<Rightarrow> iperf_test \<Rightarrow> int \<Rightarrow> int \<times> iperf_test \<times> int" where
  "apply_protocol j t ie =
     (let has = (\<lambda>k. iperf_cJSON_GetObjectItemType j k cJSON_True \<noteq> None);
          (_, t, ie) = (if has ''tcp'' then set_protocol Ptcp t ie else (0, t, ie));
          (r, t, ie) = (if has ''udp'' then
                          (if diskfile_name t \<noteq> None then (-1, t, IEUDPFILETRANSFER)
                           else (case set_protocol Pudp t ie of (_, t, ie) \<Rightarrow> (0, t, ie)))
                        else (0, t, ie));
          (_, t, ie) = (if has ''sctp'' then set_protocol Psctp t ie else (0, t, ie));
          (_, t, ie) = (if has ''quic'' then set_protocol Pquic t ie else (0, t, ie))
      in (r, t, ie))"

definition apply_numbers :: "json \<Rightarrow> iperf_test \<Rightarrow> iperf_test" where
  "apply_numbers j t =
     (let t = int_item j ''quic_port'' (\<lambda>n t. t\<lparr>quic_port := to_int n\<rparr>) t;
          t = int_item j ''omit'' (\<lambda>n t. t\<lparr>omit := to_int n\<rparr>) t;
          t = int_item j ''server_affinity'' (\<lambda>n t. t\<lparr>server_affinity := to_int n\<rparr>) t;
          t = int_item j ''time'' (\<lambda>n t. t\<lparr>duration := to_int n\<rparr>) t;
          t = upd_settings (\<lambda>x. x\<lparr>bytes := 0\<rparr>) t;
          t = int_item j ''num'' (\<lambda>n. upd_settings (\<lambda>x. x\<lparr>bytes := word_of_int n\<rparr>)) t;
          t = upd_settings (\<lambda>x. x\<lparr>blocks := 0\<rparr>) t;
          t = int_item j ''blockcount'' (\<lambda>n. upd_settings (\<lambda>x. x\<lparr>blocks := word_of_int n\<rparr>)) t;
          t = int_item j ''MSS'' (\<lambda>n. upd_settings (\<lambda>x. x\<lparr>mss := to_int n\<rparr>)) t;
          t = item j ''nodelay'' cJSON_True (\<lambda>_ t. t\<lparr>no_delay := 1\<rparr>) t;
          t = int_item j ''parallel'' (\<lambda>n t. t\<lparr>num_streams := to_int n\<rparr>) t
      in t)"

definition apply_direction :: "json \<Rightarrow> iperf_test \<Rightarrow> iperf_test" where
  "apply_direction j t =
     (let t = item j ''reverse'' cJSON_True (\<lambda>_. iperf_set_test_reverse 1) t;
          t = item j ''bidirectional'' cJSON_True (\<lambda>_. iperf_set_test_bidirectional 1) t;
          t = item j ''mptcp'' cJSON_True (\<lambda>_ t. t\<lparr>mptcp := 1\<rparr>) t
      in t)"

definition apply_settings :: "json \<Rightarrow> iperf_test \<Rightarrow> iperf_test" where
  "apply_settings j t =
     (let t = int_item j ''window'' (\<lambda>n. upd_settings (\<lambda>x. x\<lparr>socket_bufsize := to_int n\<rparr>)) t;
          t = int_item j ''len'' (\<lambda>n. upd_settings (\<lambda>x. x\<lparr>blksize := to_int n\<rparr>)) t;
          t = int_item j ''bandwidth'' (\<lambda>n. upd_settings (\<lambda>x. x\<lparr>rate := word_of_int n\<rparr>)) t;
          t = int_item j ''fqrate'' (\<lambda>n. upd_settings (\<lambda>x. x\<lparr>fqrate := word_of_int n\<rparr>)) t;
          t = int_item j ''pacing_timer'' (\<lambda>n. upd_settings (\<lambda>x. x\<lparr>pacing_timer := to_int n\<rparr>)) t;
          t = int_item j ''burst'' (\<lambda>n. upd_settings (\<lambda>x. x\<lparr>burst := to_int n\<rparr>)) t;
          t = int_item j ''TOS'' (\<lambda>n. upd_settings (\<lambda>x. x\<lparr>tos := to_int n\<rparr>)) t;
          t = int_item j ''flowlabel'' (\<lambda>n. upd_settings (\<lambda>x. x\<lparr>flowlabel := to_int n\<rparr>)) t
      in t)"

definition apply_strings :: "json \<Rightarrow> iperf_test \<Rightarrow> iperf_test" where
  "apply_strings j t =
     (let t = item j ''title'' cJSON_String (\<lambda>v t. t\<lparr>title := Some (valuestring v)\<rparr>) t;
          t = item j ''extra_data'' cJSON_String (\<lambda>v t. t\<lparr>extra_data := Some (valuestring v)\<rparr>) t;
          t = item j ''congestion'' cJSON_String (\<lambda>v t. t\<lparr>congestion := Some (valuestring v)\<rparr>) t;
          t = item j ''congestion_used'' cJSON_String (\<lambda>v t. t\<lparr>congestion_used := Some (valuestring v)\<rparr>) t;
          t = int_item j ''get_server_output'' (\<lambda>_ t. t\<lparr>get_server_output := 1\<rparr>) t;
          t = int_item j ''udp_counters_64bit'' (\<lambda>_ t. t\<lparr>udp_counters_64bit := 1\<rparr>) t;
          t = int_item j ''repeating_payload'' (\<lambda>_ t. t\<lparr>repeating_payload := 1\<rparr>) t;
          t = int_item j ''zerocopy'' (\<lambda>n t. t\<lparr>zerocopy := to_int n\<rparr>) t;
          t = int_item j ''dont_fragment'' (\<lambda>n. upd_settings (\<lambda>x. x\<lparr>dont_fragment := to_int n\<rparr>)) t;
          t = item j ''authtoken'' cJSON_String (\<lambda>v. upd_settings (\<lambda>x. x\<lparr>authtoken := Some (valuestring v)\<rparr>)) t;
          t = untyped_item j ''skip_rx_copy'' (\<lambda>n. upd_settings (\<lambda>x. x\<lparr>skip_rx_copy := to_int n\<rparr>)) t
      in t)"

text \<open>All members in the order of the source, then the flag for retransmissions and the server's limit
  on the duration.\<close>

definition apply_parameters :: "json \<Rightarrow> iperf_test \<Rightarrow> int \<Rightarrow> int \<times> iperf_test \<times> int" where
  "apply_parameters j t ie =
     (let (r, t, ie) = apply_protocol j t ie;
          t = apply_strings j (apply_settings j (apply_direction j (apply_numbers j t)));
          t = (if mode t \<noteq> RECEIVER \<and> protocol t = Ptcp \<and> has_tcpinfo_retransmits
               then t\<lparr>sender_has_retransmits := 1\<rparr> else t)
      in if max_server_duration t > 0
            \<and> (to_int (duration t + omit t) > max_server_duration t \<or> duration t = 0)
         then (-1, t, IEMAXSERVERTESTDURATIONEXCEEDED) else (r, t, ie))"

definition get_parameters ::
    "(u8 list \<Rightarrow> json option) \<Rightarrow> iperf_test \<Rightarrow> world \<Rightarrow> (int \<times> iperf_test \<times> world) option" where
  "get_parameters pa t w = do {
     (j, w) \<leftarrow> JSON_read pa (ctrl_sck t) (8 * 1024) w;
     case j of
       None \<Rightarrow> Some (-1, t, w\<lparr>i_errno := IERECVPARAMS\<rparr>)
     | Some j \<Rightarrow>
         (case apply_parameters j t (i_errno w) of (r, t, ie) \<Rightarrow> Some (r, t, w\<lparr>i_errno := ie\<rparr>)) }"

section \<open>What the server finds in the client's message\<close>

definition params :: "string option \<Rightarrow> iperf_test \<Rightarrow> json" where
  "params token t = JObject (present (param_fields token t))"

lemma param_keys_distinct: "distinct (folded_keys (param_fields token t))"
  unfolding folded_keys_def param_fields_def list.map prod.case by code_simp

lemma param_lookup: "(k, v) \<in> set (param_fields token t) \<Longrightarrow> cJSON_GetObjectItem (params token t) k = v"
  using lookup_present [OF param_keys_distinct] by (simp add: params_def cJSON_GetObjectItem_def)

lemma item_flag:
  "cJSON_GetObjectItem j k = given c (JBool True) \<Longrightarrow> item j k cJSON_True f t = (if c then f (JBool True) t else t)"
  by (simp add: item_def iperf_cJSON_GetObjectItemType_def given_def)

lemma valueint_num [simp]: "valueint (num n) = clamp64 n"
  by (simp add: valueint_def num_def)

lemma item_num:
  "cJSON_GetObjectItem j k = given c (num n) \<Longrightarrow> int_item j k f t = (if c then f (clamp64 n) t else t)"
  using valueint_num [of n]
  by (simp add: int_item_def item_def iperf_cJSON_GetObjectItemType_def given_def num_def)

lemma item_num_Some:
  "cJSON_GetObjectItem j k = Some (num n) \<Longrightarrow> int_item j k f t = f (clamp64 n) t"
  using item_num [of j k True n f t] by (simp add: given_def)

lemma item_str:
  "cJSON_GetObjectItem j k = str_opt s \<Longrightarrow>
     item j k cJSON_String f t = (case s of None \<Rightarrow> t | Some x \<Rightarrow> f (JString x) t)"
  by (cases s) (simp_all add: item_def iperf_cJSON_GetObjectItemType_def str_opt_def)

lemma type_flag:
  "cJSON_GetObjectItem j k = given c (JBool True) \<Longrightarrow> iperf_cJSON_GetObjectItemType j k cJSON_True = given c (JBool True)"
  by (simp add: iperf_cJSON_GetObjectItemType_def given_def)

lemmas in_fields = param_lookup [unfolded param_fields_def, simplified list.set insert_iff]

lemma look:
  "cJSON_GetObjectItem (params k t) ''tcp'' = given (protocol t = Ptcp) (JBool True)"
  "cJSON_GetObjectItem (params k t) ''udp'' = given (protocol t = Pudp) (JBool True)"
  "cJSON_GetObjectItem (params k t) ''sctp'' = given (protocol t = Psctp) (JBool True)"
  "cJSON_GetObjectItem (params k t) ''quic'' = given (protocol t = Pquic) (JBool True)"
  "cJSON_GetObjectItem (params k t) ''quic_port'' = given (quic_port t > 0) (num (quic_port t))"
  "cJSON_GetObjectItem (params k t) ''omit'' = Some (num (omit t))"
  "cJSON_GetObjectItem (params k t) ''server_affinity'' = given (server_affinity t \<noteq> -1) (num (server_affinity t))"
  "cJSON_GetObjectItem (params k t) ''time'' = Some (num (duration t))"
  "cJSON_GetObjectItem (params k t) ''num'' = Some (num (uint (bytes (settings t))))"
  "cJSON_GetObjectItem (params k t) ''blockcount'' = Some (num (uint (blocks (settings t))))"
  "cJSON_GetObjectItem (params k t) ''MSS'' = given (mss (settings t) \<noteq> 0) (num (mss (settings t)))"
  "cJSON_GetObjectItem (params k t) ''nodelay'' = given (no_delay t \<noteq> 0) (JBool True)"
  "cJSON_GetObjectItem (params k t) ''parallel'' = Some (num (num_streams t))"
  "cJSON_GetObjectItem (params k t) ''reverse'' = given (reverse t \<noteq> 0) (JBool True)"
  "cJSON_GetObjectItem (params k t) ''bidirectional'' = given (bidirectional t \<noteq> 0) (JBool True)"
  "cJSON_GetObjectItem (params k t) ''mptcp'' = given (mptcp t \<noteq> 0) (JBool True)"
  "cJSON_GetObjectItem (params k t) ''window'' = given (socket_bufsize (settings t) \<noteq> 0) (num (socket_bufsize (settings t)))"
  "cJSON_GetObjectItem (params k t) ''len'' = given (blksize (settings t) \<noteq> 0) (num (blksize (settings t)))"
  "cJSON_GetObjectItem (params k t) ''bandwidth'' = given (rate (settings t) \<noteq> 0) (num (uint (rate (settings t))))"
  "cJSON_GetObjectItem (params k t) ''fqrate'' = given (fqrate (settings t) \<noteq> 0) (num (uint (fqrate (settings t))))"
  "cJSON_GetObjectItem (params k t) ''pacing_timer'' = given (pacing_timer (settings t) \<noteq> 0) (num (pacing_timer (settings t)))"
  "cJSON_GetObjectItem (params k t) ''burst'' = given (burst (settings t) \<noteq> 0) (num (burst (settings t)))"
  "cJSON_GetObjectItem (params k t) ''TOS'' = given (tos (settings t) \<noteq> 0) (num (tos (settings t)))"
  "cJSON_GetObjectItem (params k t) ''flowlabel'' = given (flowlabel (settings t) \<noteq> 0) (num (flowlabel (settings t)))"
  "cJSON_GetObjectItem (params k t) ''title'' = str_opt (title t)"
  "cJSON_GetObjectItem (params k t) ''extra_data'' = str_opt (extra_data t)"
  "cJSON_GetObjectItem (params k t) ''congestion'' = str_opt (congestion t)"
  "cJSON_GetObjectItem (params k t) ''congestion_used'' = str_opt (congestion_used t)"
  "cJSON_GetObjectItem (params k t) ''get_server_output'' = given (get_server_output t \<noteq> 0) (num (get_server_output t))"
  "cJSON_GetObjectItem (params k t) ''udp_counters_64bit'' = given (udp_counters_64bit t \<noteq> 0) (num (udp_counters_64bit t))"
  "cJSON_GetObjectItem (params k t) ''repeating_payload'' = given (repeating_payload t \<noteq> 0) (num (repeating_payload t))"
  "cJSON_GetObjectItem (params k t) ''zerocopy'' = given (zerocopy t \<noteq> 0) (num (zerocopy t))"
  "cJSON_GetObjectItem (params k t) ''dont_fragment'' = given (dont_fragment (settings t) \<noteq> 0) (num (dont_fragment (settings t)))"
  "cJSON_GetObjectItem (params k t) ''authtoken'' = str_opt k"
  "cJSON_GetObjectItem (params k t) ''skip_rx_copy'' = given (skip_rx_copy (settings t) \<noteq> 0) (num (skip_rx_copy (settings t)))"
  by (rule in_fields, simp)+

section \<open>The round trip\<close>

text \<open>What iperf_reset_test and the defaults leave on a server that waits for a test. The last five
  equations are about options that iperf_reset_test does not touch.\<close>

definition fresh_server :: "iperf_test \<Rightarrow> bool" where
  "fresh_server s \<longleftrightarrow> role s = CHR ''s'' \<and> mode s = RECEIVER \<and> reverse s = 0 \<and> bidirectional s = 0
     \<and> {Ptcp, Pudp, Psctp, Pquic} \<subseteq> set (protocols s) \<and> diskfile_name s = None
     \<and> max_server_duration s = 0 \<and> protocol s = Ptcp
     \<and> no_delay s = 0 \<and> title s = None \<and> extra_data s = None \<and> congestion s = None
     \<and> server_affinity s = -1 \<and> udp_counters_64bit s = 0 \<and> zerocopy s = 0
     \<and> mss (settings s) = 0 \<and> socket_bufsize (settings s) = 0 \<and> rate (settings s) = 0
     \<and> fqrate (settings s) = 0 \<and> burst (settings s) = 0 \<and> tos (settings s) = 0
     \<and> dont_fragment (settings s) = 0 \<and> skip_rx_copy (settings s) = 0 \<and> authtoken (settings s) = None
     \<and> flowlabel (settings s) = 0 \<and> repeating_payload s = 0 \<and> mptcp s = 0
     \<and> get_server_output s = 0 \<and> quic_port s = 0"

text \<open>The ranges in which the numbers survive the trip: int for the ints, exact doubles for the
  64-bit sizes and rates.\<close>

definition i32 :: "int \<Rightarrow> bool" where
  "i32 n \<longleftrightarrow> - 2147483648 \<le> n \<and> n < 2147483648"

definition sendable :: "iperf_test \<Rightarrow> bool" where
  "sendable t \<longleftrightarrow> i32 (omit t) \<and> i32 (server_affinity t) \<and> i32 (duration t) \<and> i32 (num_streams t)
     \<and> i32 (quic_port t) \<and> i32 (zerocopy t)
     \<and> i32 (mss (settings t)) \<and> i32 (socket_bufsize (settings t)) \<and> i32 (blksize (settings t))
     \<and> i32 (pacing_timer (settings t)) \<and> i32 (burst (settings t)) \<and> i32 (tos (settings t))
     \<and> i32 (flowlabel (settings t)) \<and> i32 (dont_fragment (settings t)) \<and> i32 (skip_rx_copy (settings t))
     \<and> uint (bytes (settings t)) < 2 ^ 53 \<and> uint (blocks (settings t)) < 2 ^ 53
     \<and> uint (rate (settings t)) < 2 ^ 53 \<and> uint (fqrate (settings t)) < 2 ^ 53"

lemma clamp_i32 [simp]: "i32 n \<Longrightarrow> to_int (clamp64 n) = n"
  by (simp add: i32_def clamp64_def s64_min_def s64_max_def to_int_id)

lemma clamp_u64 [simp]: "uint b < 2 ^ 53 \<Longrightarrow> word_of_int (clamp64 (uint b)) = (b :: u64)"
proof -
  assume b: "uint b < 2 ^ 53"
  have "s64_min \<le> uint b" by (rule order_trans [of _ 0]) (simp_all add: s64_min_def)
  moreover have "uint b \<le> s64_max" using b by (simp add: s64_max_def)
  ultimately show ?thesis by (simp add: clamp64_def max_absorb2 min_absorb2)
qed

lemmas item_rules =
  look(1-4) [THEN type_flag] look(12,14-16) [THEN item_flag]
  look(5,7,11,17-24,29-33) [THEN item_num] look(6,8-10,13) [THEN item_num_Some]
  look(25-28,34) [THEN item_str]

text \<open>A member that is about another field leaves a field alone: the frame rules, for each field.\<close>

lemma frame:
  "(\<And>v t. F (f v t) = F t) \<Longrightarrow> F (int_item j k f t) = F t"
  "(\<And>v t. F (g v t) = F t) \<Longrightarrow> F (item j k ty g t) = F t"
  "(\<And>v t. F (f v t) = F t) \<Longrightarrow> F (untyped_item j k f t) = F t"
  by (simp_all add: int_item_def item_def untyped_item_def split: option.split)

lemmas frames =
  frame [of "\<lambda>t. socket_bufsize (settings t)"]
  frame [of "\<lambda>t. blksize (settings t)"]
  frame [of "\<lambda>t. rate (settings t)"]
  frame [of "\<lambda>t. fqrate (settings t)"]
  frame [of "\<lambda>t. pacing_timer (settings t)"]
  frame [of "\<lambda>t. burst (settings t)"]
  frame [of "\<lambda>t. mss (settings t)"]
  frame [of "\<lambda>t. tos (settings t)"]
  frame [of "\<lambda>t. flowlabel (settings t)"]
  frame [of "\<lambda>t. bytes (settings t)"]
  frame [of "\<lambda>t. blocks (settings t)"]
  frame [of "\<lambda>t. dont_fragment (settings t)"]
  frame [of "\<lambda>t. skip_rx_copy (settings t)"]
  frame [of protocol]
  frame [of omit]
  frame [of server_affinity]
  frame [of duration]
  frame [of no_delay]
  frame [of num_streams]
  frame [of reverse]
  frame [of bidirectional]
  frame [of mptcp]
  frame [of mode]
  frame [of title]
  frame [of extra_data]
  frame [of congestion]
  frame [of udp_counters_64bit]
  frame [of repeating_payload]
  frame [of zerocopy]
  frame [of get_server_output]
  frame [of max_server_duration]
  frame [of role]
  frame [of diskfile_name]
  frame [of protocols]
  frame [of quic_port]
  frame [of congestion_used]

lemma settings_frame:
  "protocol (upd_settings f t) = protocol t"
  "omit (upd_settings f t) = omit t"
  "server_affinity (upd_settings f t) = server_affinity t"
  "duration (upd_settings f t) = duration t"
  "no_delay (upd_settings f t) = no_delay t"
  "num_streams (upd_settings f t) = num_streams t"
  "reverse (upd_settings f t) = reverse t"
  "bidirectional (upd_settings f t) = bidirectional t"
  "mptcp (upd_settings f t) = mptcp t"
  "mode (upd_settings f t) = mode t"
  "title (upd_settings f t) = title t"
  "extra_data (upd_settings f t) = extra_data t"
  "congestion (upd_settings f t) = congestion t"
  "udp_counters_64bit (upd_settings f t) = udp_counters_64bit t"
  "repeating_payload (upd_settings f t) = repeating_payload t"
  "zerocopy (upd_settings f t) = zerocopy t"
  "get_server_output (upd_settings f t) = get_server_output t"
  "max_server_duration (upd_settings f t) = max_server_duration t"
  "role (upd_settings f t) = role t"
  "diskfile_name (upd_settings f t) = diskfile_name t"
  "protocols (upd_settings f t) = protocols t"
  "quic_port (upd_settings f t) = quic_port t"
  "congestion_used (upd_settings f t) = congestion_used t"
  by (simp_all add: upd_settings_def)

lemma direction_frame:
  "omit (iperf_set_test_reverse r t) = omit t" "omit (iperf_set_test_bidirectional b t) = omit t"
  "server_affinity (iperf_set_test_reverse r t) = server_affinity t" "server_affinity (iperf_set_test_bidirectional b t) = server_affinity t"
  "duration (iperf_set_test_reverse r t) = duration t" "duration (iperf_set_test_bidirectional b t) = duration t"
  "no_delay (iperf_set_test_reverse r t) = no_delay t" "no_delay (iperf_set_test_bidirectional b t) = no_delay t"
  "num_streams (iperf_set_test_reverse r t) = num_streams t" "num_streams (iperf_set_test_bidirectional b t) = num_streams t"
  "mptcp (iperf_set_test_reverse r t) = mptcp t" "mptcp (iperf_set_test_bidirectional b t) = mptcp t"
  "title (iperf_set_test_reverse r t) = title t" "title (iperf_set_test_bidirectional b t) = title t"
  "extra_data (iperf_set_test_reverse r t) = extra_data t" "extra_data (iperf_set_test_bidirectional b t) = extra_data t"
  "congestion (iperf_set_test_reverse r t) = congestion t" "congestion (iperf_set_test_bidirectional b t) = congestion t"
  "udp_counters_64bit (iperf_set_test_reverse r t) = udp_counters_64bit t" "udp_counters_64bit (iperf_set_test_bidirectional b t) = udp_counters_64bit t"
  "repeating_payload (iperf_set_test_reverse r t) = repeating_payload t" "repeating_payload (iperf_set_test_bidirectional b t) = repeating_payload t"
  "zerocopy (iperf_set_test_reverse r t) = zerocopy t" "zerocopy (iperf_set_test_bidirectional b t) = zerocopy t"
  "get_server_output (iperf_set_test_reverse r t) = get_server_output t" "get_server_output (iperf_set_test_bidirectional b t) = get_server_output t"
  "max_server_duration (iperf_set_test_reverse r t) = max_server_duration t" "max_server_duration (iperf_set_test_bidirectional b t) = max_server_duration t"
  "role (iperf_set_test_reverse r t) = role t" "role (iperf_set_test_bidirectional b t) = role t"
  "diskfile_name (iperf_set_test_reverse r t) = diskfile_name t" "diskfile_name (iperf_set_test_bidirectional b t) = diskfile_name t"
  "protocols (iperf_set_test_reverse r t) = protocols t" "protocols (iperf_set_test_bidirectional b t) = protocols t"
  "protocol (iperf_set_test_reverse r t) = protocol t" "protocol (iperf_set_test_bidirectional b t) = protocol t"
  "settings (iperf_set_test_reverse r t) = settings t" "settings (iperf_set_test_bidirectional b t) = settings t"
  "quic_port (iperf_set_test_reverse r t) = quic_port t" "quic_port (iperf_set_test_bidirectional b t) = quic_port t"
  "congestion_used (iperf_set_test_reverse r t) = congestion_used t" "congestion_used (iperf_set_test_bidirectional b t) = congestion_used t"
  by (simp_all add: iperf_set_test_reverse_def iperf_set_test_bidirectional_def
      check_sender_has_retransmits_def Let_def)

text \<open>The member that is about a field gives it the client's value.\<close>

lemma got:
  "omit (int_item (params k t) ''omit'' (\<lambda>n t. t\<lparr>omit := to_int n\<rparr>) s) = to_int (clamp64 (omit t))"
  "duration (int_item (params k t) ''time'' (\<lambda>n t. t\<lparr>duration := to_int n\<rparr>) s) = to_int (clamp64 (duration t))"
  "num_streams (int_item (params k t) ''parallel'' (\<lambda>n t. t\<lparr>num_streams := to_int n\<rparr>) s) = to_int (clamp64 (num_streams t))"
  "bytes (settings (int_item (params k t) ''num'' (\<lambda>n. upd_settings (\<lambda>x. x\<lparr>bytes := word_of_int n\<rparr>)) s)) = (word_of_int (clamp64 (uint (bytes (settings t)))) :: u64)"
  "blocks (settings (int_item (params k t) ''blockcount'' (\<lambda>n. upd_settings (\<lambda>x. x\<lparr>blocks := word_of_int n\<rparr>)) s)) = (word_of_int (clamp64 (uint (blocks (settings t)))) :: u64)"
  "server_affinity (int_item (params k t) ''server_affinity'' (\<lambda>n t. t\<lparr>server_affinity := to_int n\<rparr>) s)
    = (if server_affinity t \<noteq> -1 then to_int (clamp64 (server_affinity t)) else server_affinity s)"
  "mss (settings (int_item (params k t) ''MSS'' (\<lambda>n. upd_settings (\<lambda>x. x\<lparr>mss := to_int n\<rparr>)) s))
    = (if mss (settings t) \<noteq> 0 then to_int (clamp64 (mss (settings t))) else mss (settings s))"
  "socket_bufsize (settings (int_item (params k t) ''window'' (\<lambda>n. upd_settings (\<lambda>x. x\<lparr>socket_bufsize := to_int n\<rparr>)) s))
    = (if socket_bufsize (settings t) \<noteq> 0 then to_int (clamp64 (socket_bufsize (settings t))) else socket_bufsize (settings s))"
  "blksize (settings (int_item (params k t) ''len'' (\<lambda>n. upd_settings (\<lambda>x. x\<lparr>blksize := to_int n\<rparr>)) s))
    = (if blksize (settings t) \<noteq> 0 then to_int (clamp64 (blksize (settings t))) else blksize (settings s))"
  "pacing_timer (settings (int_item (params k t) ''pacing_timer'' (\<lambda>n. upd_settings (\<lambda>x. x\<lparr>pacing_timer := to_int n\<rparr>)) s))
    = (if pacing_timer (settings t) \<noteq> 0 then to_int (clamp64 (pacing_timer (settings t))) else pacing_timer (settings s))"
  "burst (settings (int_item (params k t) ''burst'' (\<lambda>n. upd_settings (\<lambda>x. x\<lparr>burst := to_int n\<rparr>)) s))
    = (if burst (settings t) \<noteq> 0 then to_int (clamp64 (burst (settings t))) else burst (settings s))"
  "tos (settings (int_item (params k t) ''TOS'' (\<lambda>n. upd_settings (\<lambda>x. x\<lparr>tos := to_int n\<rparr>)) s))
    = (if tos (settings t) \<noteq> 0 then to_int (clamp64 (tos (settings t))) else tos (settings s))"
  "flowlabel (settings (int_item (params k t) ''flowlabel'' (\<lambda>n. upd_settings (\<lambda>x. x\<lparr>flowlabel := to_int n\<rparr>)) s))
    = (if flowlabel (settings t) \<noteq> 0 then to_int (clamp64 (flowlabel (settings t))) else flowlabel (settings s))"
  "dont_fragment (settings (int_item (params k t) ''dont_fragment'' (\<lambda>n. upd_settings (\<lambda>x. x\<lparr>dont_fragment := to_int n\<rparr>)) s))
    = (if dont_fragment (settings t) \<noteq> 0 then to_int (clamp64 (dont_fragment (settings t))) else dont_fragment (settings s))"
  "rate (settings (int_item (params k t) ''bandwidth'' (\<lambda>n. upd_settings (\<lambda>x. x\<lparr>rate := word_of_int n\<rparr>)) s))
    = (if rate (settings t) \<noteq> 0 then word_of_int (clamp64 (uint (rate (settings t)))) else rate (settings s))"
  "fqrate (settings (int_item (params k t) ''fqrate'' (\<lambda>n. upd_settings (\<lambda>x. x\<lparr>fqrate := word_of_int n\<rparr>)) s))
    = (if fqrate (settings t) \<noteq> 0 then word_of_int (clamp64 (uint (fqrate (settings t)))) else fqrate (settings s))"
  "zerocopy (int_item (params k t) ''zerocopy'' (\<lambda>n t. t\<lparr>zerocopy := to_int n\<rparr>) s)
    = (if zerocopy t \<noteq> 0 then to_int (clamp64 (zerocopy t)) else zerocopy s)"
  "udp_counters_64bit (int_item (params k t) ''udp_counters_64bit'' (\<lambda>_ t. t\<lparr>udp_counters_64bit := 1\<rparr>) s) = (if udp_counters_64bit t \<noteq> 0 then 1 else udp_counters_64bit s)"
  "repeating_payload (int_item (params k t) ''repeating_payload'' (\<lambda>_ t. t\<lparr>repeating_payload := 1\<rparr>) s) = (if repeating_payload t \<noteq> 0 then 1 else repeating_payload s)"
  "get_server_output (int_item (params k t) ''get_server_output'' (\<lambda>_ t. t\<lparr>get_server_output := 1\<rparr>) s) = (if get_server_output t \<noteq> 0 then 1 else get_server_output s)"
  "no_delay (item (params k t) ''nodelay'' cJSON_True (\<lambda>_ t. t\<lparr>no_delay := 1\<rparr>) s) = (if no_delay t \<noteq> 0 then 1 else no_delay s)"
  "mptcp (item (params k t) ''mptcp'' cJSON_True (\<lambda>_ t. t\<lparr>mptcp := 1\<rparr>) s) = (if mptcp t \<noteq> 0 then 1 else mptcp s)"
  "title (item (params k t) ''title'' cJSON_String (\<lambda>v t. t\<lparr>title := Some (valuestring v)\<rparr>) s)
    = (case title t of None \<Rightarrow> title s | Some x \<Rightarrow> Some x)"
  "extra_data (item (params k t) ''extra_data'' cJSON_String (\<lambda>v t. t\<lparr>extra_data := Some (valuestring v)\<rparr>) s)
    = (case extra_data t of None \<Rightarrow> extra_data s | Some x \<Rightarrow> Some x)"
  "congestion (item (params k t) ''congestion'' cJSON_String (\<lambda>v t. t\<lparr>congestion := Some (valuestring v)\<rparr>) s)
    = (case congestion t of None \<Rightarrow> congestion s | Some x \<Rightarrow> Some x)"
  "congestion_used (item (params k t) ''congestion_used'' cJSON_String (\<lambda>v t. t\<lparr>congestion_used := Some (valuestring v)\<rparr>) s)
    = (case congestion_used t of None \<Rightarrow> congestion_used s | Some x \<Rightarrow> Some x)"
  "skip_rx_copy (settings (untyped_item (params k t) ''skip_rx_copy'' (\<lambda>n. upd_settings (\<lambda>x. x\<lparr>skip_rx_copy := to_int n\<rparr>)) s))
    = (if skip_rx_copy (settings t) \<noteq> 0 then to_int (clamp64 (skip_rx_copy (settings t))) else skip_rx_copy (settings s))"
  by (simp_all add: item_rules upd_settings_def untyped_item_def look(35) given_def split: option.split)

text \<open>The test after the fields other than the protocol.\<close>

definition received :: "json \<Rightarrow> iperf_test \<Rightarrow> iperf_test" where
  "received j s = apply_strings j (apply_settings j (apply_direction j (apply_numbers j s)))"

lemmas received_defs = received_def apply_strings_def apply_settings_def apply_direction_def apply_numbers_def
  Let_def

lemma received_mode:
  "mode (received (params k t) s) = (if bidirectional t \<noteq> 0 then BIDIRECTIONAL
     else if reverse t \<noteq> 0 then (if role s = CHR ''c'' then RECEIVER else if role s = CHR ''s'' then SENDER else mode s)
     else mode s)"
  "reverse (received (params k t) s) = (if reverse t \<noteq> 0 then 1 else reverse s)"
  "bidirectional (received (params k t) s) = (if bidirectional t \<noteq> 0 then 1 else bidirectional s)"
  by (simp_all add: received_defs frames settings_frame item_rules(5-8))
    (simp_all add: iperf_set_test_reverse_def iperf_set_test_bidirectional_def check_sender_has_retransmits_def
      Let_def frames settings_frame)

lemma received_fields:
  "omit (received (params k t) s) = to_int (clamp64 (omit t))"
  "duration (received (params k t) s) = to_int (clamp64 (duration t))"
  "num_streams (received (params k t) s) = to_int (clamp64 (num_streams t))"
  "server_affinity (received (params k t) s)
    = (if server_affinity t \<noteq> -1 then to_int (clamp64 (server_affinity t)) else server_affinity s)"
  "no_delay (received (params k t) s) = (if no_delay t \<noteq> 0 then 1 else no_delay s)"
  "mptcp (received (params k t) s) = (if mptcp t \<noteq> 0 then 1 else mptcp s)"
  "udp_counters_64bit (received (params k t) s) = (if udp_counters_64bit t \<noteq> 0 then 1 else udp_counters_64bit s)"
  "repeating_payload (received (params k t) s) = (if repeating_payload t \<noteq> 0 then 1 else repeating_payload s)"
  "zerocopy (received (params k t) s) = (if zerocopy t \<noteq> 0 then to_int (clamp64 (zerocopy t)) else zerocopy s)"
  "title (received (params k t) s) = (case title t of None \<Rightarrow> title s | Some x \<Rightarrow> Some x)"
  "congestion (received (params k t) s) = (case congestion t of None \<Rightarrow> congestion s | Some x \<Rightarrow> Some x)"
  "max_server_duration (received (params k t) s) = max_server_duration s"
  "protocol (received (params k t) s) = protocol s" "role (received (params k t) s) = role s"
  by (simp_all add: received_defs frames settings_frame direction_frame got cong: option.case_cong)

lemma received_settings:
  "bytes (settings (received (params k t) s)) = word_of_int (clamp64 (uint (bytes (settings t))))"
  "blocks (settings (received (params k t) s)) = word_of_int (clamp64 (uint (blocks (settings t))))"
  "mss (settings (received (params k t) s))
    = (if mss (settings t) \<noteq> 0 then to_int (clamp64 (mss (settings t))) else mss (settings s))"
  "socket_bufsize (settings (received (params k t) s))
    = (if socket_bufsize (settings t) \<noteq> 0 then to_int (clamp64 (socket_bufsize (settings t))) else socket_bufsize (settings s))"
  "blksize (settings (received (params k t) s))
    = (if blksize (settings t) \<noteq> 0 then to_int (clamp64 (blksize (settings t))) else blksize (settings s))"
  "rate (settings (received (params k t) s))
    = (if rate (settings t) \<noteq> 0 then word_of_int (clamp64 (uint (rate (settings t)))) else rate (settings s))"
  "fqrate (settings (received (params k t) s))
    = (if fqrate (settings t) \<noteq> 0 then word_of_int (clamp64 (uint (fqrate (settings t)))) else fqrate (settings s))"
  "pacing_timer (settings (received (params k t) s))
    = (if pacing_timer (settings t) \<noteq> 0 then to_int (clamp64 (pacing_timer (settings t))) else pacing_timer (settings s))"
  "burst (settings (received (params k t) s))
    = (if burst (settings t) \<noteq> 0 then to_int (clamp64 (burst (settings t))) else burst (settings s))"
  "tos (settings (received (params k t) s))
    = (if tos (settings t) \<noteq> 0 then to_int (clamp64 (tos (settings t))) else tos (settings s))"
  by (simp_all add: received_defs frames settings_frame direction_frame got)

section \<open>The server's test after the exchange\<close>

lemma received_protocol:
  fixes t s :: iperf_test
  assumes s: "{Ptcp, Pudp, Psctp, Pquic} \<subseteq> set (protocols s)" "diskfile_name s = None"
    and p: "protocol t \<in> {Ptcp, Pudp, Psctp, Pquic}"
  shows "apply_protocol (params k t) s ie = (0, check_sender_has_retransmits (s\<lparr>protocol := protocol t\<rparr>), ie)"
proof -
  have set: "set_protocol q s ie = (0, check_sender_has_retransmits (s\<lparr>protocol := q\<rparr>), ie)"
    if "q \<in> {Ptcp, Pudp, Psctp, Pquic}" for q
    using that s(1) by (auto simp: set_protocol_def)
  consider "protocol t = 1" | "protocol t = 2" | "protocol t = 12" | "protocol t = 256" using p by auto
  then show ?thesis
    by cases (simp_all add: apply_protocol_def item_rules(1-4) set s(2) given_def)
qed

text \<open>Both ends agree on the test, and on opposite directions.\<close>

definition same_test :: "iperf_test \<Rightarrow> iperf_test \<Rightarrow> bool" where
  "same_test c s \<longleftrightarrow> protocol s = protocol c \<and> omit s = omit c \<and> duration s = duration c
     \<and> bytes (settings s) = bytes (settings c) \<and> blocks (settings s) = blocks (settings c)
     \<and> num_streams s = num_streams c \<and> mss (settings s) = mss (settings c)
     \<and> socket_bufsize (settings s) = socket_bufsize (settings c)
     \<and> (blksize (settings c) \<noteq> 0 \<longrightarrow> blksize (settings s) = blksize (settings c))
     \<and> rate (settings s) = rate (settings c) \<and> fqrate (settings s) = fqrate (settings c)
     \<and> burst (settings s) = burst (settings c) \<and> tos (settings s) = tos (settings c)
     \<and> (pacing_timer (settings c) \<noteq> 0 \<longrightarrow> pacing_timer (settings s) = pacing_timer (settings c))
     \<and> title s = title c \<and> congestion s = congestion c \<and> zerocopy s = zerocopy c
     \<and> (no_delay s \<noteq> 0 \<longleftrightarrow> no_delay c \<noteq> 0) \<and> (udp_counters_64bit s \<noteq> 0 \<longleftrightarrow> udp_counters_64bit c \<noteq> 0)
     \<and> (repeating_payload s \<noteq> 0 \<longleftrightarrow> repeating_payload c \<noteq> 0) \<and> (mptcp s \<noteq> 0 \<longleftrightarrow> mptcp c \<noteq> 0)"

fun opposite :: "iperf_mode \<Rightarrow> iperf_mode" where
  "opposite SENDER = RECEIVER"
| "opposite RECEIVER = SENDER"
| "opposite BIDIRECTIONAL = BIDIRECTIONAL"

lemma same_test_retr [simp]: "same_test c (s\<lparr>sender_has_retransmits := n\<rparr>) = same_test c s"
  by (simp add: same_test_def)

lemma parameters_agree:
  fixes c s :: iperf_test
  assumes s: "fresh_server s" and c: "sendable c" "mode_ok c" "role c = CHR ''c''"
    "protocol c \<in> {Ptcp, Pudp, Psctp, Pquic}"
  shows "\<exists>s'. apply_parameters (params k c) s ie = (0, s', ie) \<and> same_test c s' \<and> mode s' = opposite (mode c)
     \<and> role s' = CHR ''s''"
proof -
  let ?s1 = "check_sender_has_retransmits (s\<lparr>protocol := protocol c\<rparr>)"
  let ?s2 = "received (params k c) ?s1"
  have p: "apply_protocol (params k c) s ie = (0, ?s1, ie)"
    by (rule received_protocol) (use s c in \<open>simp_all add: fresh_server_def\<close>)
  have m: "max_server_duration ?s2 = 0"
    using s by (simp add: received_fields fresh_server_def check_sender_has_retransmits_def)
  define s3 where "s3 = (if mode ?s2 \<noteq> RECEIVER \<and> protocol ?s2 = Ptcp \<and> has_tcpinfo_retransmits
               then ?s2\<lparr>sender_has_retransmits := 1\<rparr> else ?s2)"
  have run: "apply_parameters (params k c) s ie = (0, s3, ie)"
    using m by (simp add: apply_parameters_def p received_def [symmetric] s3_def Let_def)
  note s' = s [unfolded fresh_server_def]
  note c' = c(1) [unfolded sendable_def]
  have s1: "settings ?s1 = settings s" "server_affinity ?s1 = server_affinity s" "no_delay ?s1 = no_delay s"
    "udp_counters_64bit ?s1 = udp_counters_64bit s" "repeating_payload ?s1 = repeating_payload s"
    "mptcp ?s1 = mptcp s" "zerocopy ?s1 = zerocopy s" "title ?s1 = title s" "congestion ?s1 = congestion s"
    "protocol ?s1 = protocol c"
    by (simp_all add: check_sender_has_retransmits_def)
  have "same_test c ?s2"
    unfolding same_test_def received_fields received_settings s1
    by (intro conjI impI) (use s' c' in \<open>simp_all split: option.split\<close>)
  then have same: "same_test c s3" by (simp add: s3_def)
  have "mode ?s2 = opposite (mode c)"
    using s c unfolding received_mode
    by (simp add: fresh_server_def mode_ok_def expected_mode_def)
  then have mode: "mode s3 = opposite (mode c)" by (simp add: s3_def)
  have "role s3 = CHR ''s''"
    using s by (simp add: s3_def received_fields fresh_server_def)
  with run same mode show ?thesis by blast
qed

end
