(* ===== verification/Iperf_Reset.thy ===== *)
theory Iperf_Reset
  imports Iperf_Timer_Create Iperf_Params
begin

text \<open>
  iperf_reset_test between two tests of a server: it gives back the descriptors of the streams,
  cancels every timer, and leaves the state in which the parameters of the next client are read.
\<close>

section \<open>The timers\<close>

lemma cancel_timer_ok:
  assumes "timers_inv s as fs" "\<And>a. h = Some a \<Longrightarrow> a \<in> set as"
  obtains s' as' fs' where "cancel_timer h s = Some s'" and "timers_inv s' as' fs'"
    and "set as' = set as - set_option h"
proof (cases h)
  case None
  with assms(1) show thesis by (intro that [of s as fs]) (simp_all add: cancel_timer_def)
next
  case (Some a)
  with assms(2) have a: "a \<in> set as" by simp
  obtain s' where "tmr_cancel a s = Some s'" "timers_inv s' (remove1 a as) (a # fs)"
    using tmr_cancel_ok [OF assms(1) a] by metis
  moreover have "distinct as" using assms(1) by (simp add: timers_inv_def)
  ultimately show thesis using Some by (intro that [of s' "remove1 a as" "a # fs"]) (auto simp: cancel_timer_def)
qed

lemma handles_differ:
  assumes "app_inv (t, w) act" "handle_of p t = Some a" "handle_of q t = Some a"
  shows "p = q"
  using app_inv_handle [OF assms(1,2)] app_inv_handle [OF assms(1,3)] by auto

lemma cancel_timers_ok:
  assumes inv: "timers_inv s as fs" and ci: "app_inv (t, w) (active s as)"
  obtains s' fs' where "cancel_timers t s = Some (t\<lparr>omit_timer := None, timer := None, stats_timer := None,
      reporter_timer := None\<rparr>, s')" and "timers_inv s' [] fs'"
proof -
  let ?h = "\<lambda>p. handle_of p t"
  have h: "omit_timer t = ?h Omit_timer" "timer t = ?h Test_timer" "stats_timer t = ?h Stats_timer"
    "reporter_timer t = ?h Reporter_timer" by (simp_all add: handle_of_def)
  note mem = handle_in_list [OF ci]
  have ne: "?h p \<noteq> Some a" if "?h q = Some a" "p \<noteq> q" for p q a
    using handles_differ [OF ci _ that(1), of p] that(2) by auto
  obtain s1 as1 fs1 where 1: "cancel_timer (?h Omit_timer) s = Some s1" "timers_inv s1 as1 fs1"
    "set as1 = set as - set_option (?h Omit_timer)" using cancel_timer_ok [OF inv mem] .
  obtain s2 as2 fs2 where 2: "cancel_timer (?h Test_timer) s1 = Some s2" "timers_inv s2 as2 fs2"
    "set as2 = set as1 - set_option (?h Test_timer)"
    by (rule cancel_timer_ok [OF 1(2), of "?h Test_timer"]) (use mem ne 1(3) in \<open>auto simp: Option.elem_set\<close>)
  obtain s3 as3 fs3 where 3: "cancel_timer (?h Stats_timer) s2 = Some s3" "timers_inv s3 as3 fs3"
    "set as3 = set as2 - set_option (?h Stats_timer)"
    by (rule cancel_timer_ok [OF 2(2), of "?h Stats_timer"]) (use mem ne 1(3) 2(3) in \<open>auto simp: Option.elem_set\<close>)
  obtain s4 as4 fs4 where 4: "cancel_timer (?h Reporter_timer) s3 = Some s4" "timers_inv s4 as4 fs4"
    "set as4 = set as3 - set_option (?h Reporter_timer)"
    by (rule cancel_timer_ok [OF 3(2), of "?h Reporter_timer"])
      (use mem ne 1(3) 2(3) 3(3) in \<open>auto simp: Option.elem_set\<close>)
  have "as4 = []"
  proof (rule ccontr)
    assume "as4 \<noteq> []"
    then obtain a where a: "a \<in> set as4" by (cases as4) auto
    then have "a \<in> set as" using 1(3) 2(3) 3(3) 4(3) by simp
    from timers_inv_cell [OF inv this] obtain x where "cells s a = Some x" ..
    with \<open>a \<in> set as\<close> obtain p cd us b where "active s as a = Some (p, cd, us, b)"
      using active_cell by blast
    then have "?h p = Some a" by (rule app_inv_active(1) [OF ci])
    with a 1(3) 2(3) 3(3) 4(3) show False by (cases p) auto
  qed
  with 4(2) 1(1) 2(1) 3(1) 4(1) show thesis
    by (intro that [of s4 fs4]) (simp_all add: cancel_timers_def h)
qed

section \<open>The streams\<close>

fun stream_fds :: "iperf_stream list \<Rightarrow> fd set" where
  "stream_fds [] = {}"
| "stream_fds (sp # sps) = insert (buffer_fd sp) ((if diskfile_fd sp \<ge> 0 then {diskfile_fd sp} else {}) \<union> stream_fds sps)"

lemma close_fds: "fds (sys_close f w) = fds w - {f}"
  by (simp add: sys_close_def emit_def fds_def)

lemma free_stream_fds:
  assumes "iperf_free_stream t sp (s, w) = Some (s', w')"
  shows "fds w' = fds w - ({buffer_fd sp} \<union> (if diskfile_fd sp \<ge> 0 then {diskfile_fd sp} else {}))" "later w w'" "quic_fds w' = quic_fds w"
proof -
  let ?w = "if protocol t = Pquic then snd (iperf_quic_stream_cleanup sp w) else w"
  have q: "fds ?w = fds w" "later w ?w" "quic_fds ?w = quic_fds w" by (simp_all add: fds_def later_def quic_fds_def)
  have c: "quic_fds (sys_close f v) = quic_fds v" for f v by (simp add: quic_fds_def sys_close_def emit_def)
  have w': "w' = (if diskfile_fd sp \<ge> 0 then sys_close (diskfile_fd sp) (sys_close (buffer_fd sp) ?w) else sys_close (buffer_fd sp) ?w)"
    using assms by (auto simp: iperf_free_stream_def Let_def Option.bind_eq_Some_conv)
  show "fds w' = fds w - ({buffer_fd sp} \<union> (if diskfile_fd sp \<ge> 0 then {diskfile_fd sp} else {}))" "quic_fds w' = quic_fds w"
    using q unfolding w' by (auto simp: close_fds c)
  have l: "later w (sys_close f v)" if "later w v" for f v by (rule later_trans [OF that sys_close_later(1)])
  show "later w w'" unfolding w' using l [OF l [OF q(2)]] l [OF q(2)] by simp
qed

lemma free_streams_fds:
  "free_streams t sps (s, w) = Some (s', w') \<Longrightarrow> fds w' = fds w - stream_fds sps \<and> later w w' \<and> quic_fds w' = quic_fds w"
proof (induction sps arbitrary: s w)
  case (Cons sp sps)
  then obtain s1 w1 where "iperf_free_stream t sp (s, w) = Some (s1, w1)" "free_streams t sps (s1, w1) = Some (s', w')"
    by (auto simp: Option.bind_eq_Some_conv)
  with Cons.IH [of s1 w1] free_stream_fds [of t sp s w s1 w1] show ?case by (auto intro: later_trans)
qed simp

lemma free_streams_ok: "\<forall>sp\<in>set sps. send_timer sp = None \<Longrightarrow> \<exists>w'. free_streams t sps (s, w) = Some (s, w')"
  by (induction sps arbitrary: w) (auto simp: iperf_free_stream_def cancel_timer_def Let_def)

section \<open>The whole reset\<close>

text \<open>The options of a test that the reset leaves alone but that the next client is not sure to set.\<close>

definition stale_free :: "iperf_test \<Rightarrow> bool" where
  "stale_free t \<longleftrightarrow> flowlabel (settings t) = 0 \<and> repeating_payload t = 0 \<and> mptcp t = 0
     \<and> get_server_output t = 0 \<and> quic_port t = 0"

lemma reset_fields_fresh:
  assumes "{Ptcp, Pudp, Psctp, Pquic} \<subseteq> set (protocols t)" "diskfile_name t = None" "max_server_duration t = 0"
    and "stale_free t"
  shows "fresh_server (reset_fields t)"
  using assms
  by (auto simp: fresh_server_def reset_fields_def stale_free_def set_protocol_def get_protocol_def Let_def
      reset_settings_def check_sender_has_retransmits_def)

lemma iperf_reset_test_ok:
  assumes inv: "timers_inv s as fs" and ci: "app_inv (t, w) (active s as)"
    and st: "\<forall>sp\<in>set (streams t). send_timer sp = None"
  obtains t' s' w' fs' where "iperf_reset_test t (s, w) = Some (t', s', w')"
    and "timers_inv s' [] fs'" and "fds w' = fds w - stream_fds (streams t) - quic_fds w"
    and "t' = reset_fields (t\<lparr>omit_timer := None, timer := None, stats_timer := None, reporter_timer := None\<rparr>)"
proof -
  obtain w1 where w1: "free_streams t (streams t) (s, w) = Some (s, w1)" using free_streams_ok [OF st] by blast
  obtain t2 w2 where w2: "iperf_quic_reset_test t w1 = (t2, w2)" by fastforce
  have "fds w2 = fds w1 - quic_fds w1" using quic_free_test_fds [of t w1] w2 by (simp add: iperf_quic_reset_test_def)
  then have f: "fds w2 = fds w - stream_fds (streams t) - quic_fds w" using free_streams_fds [OF w1] by simp
  obtain s' fs' where s': "cancel_timers t s = Some (t\<lparr>omit_timer := None, timer := None, stats_timer := None,
      reporter_timer := None\<rparr>, s')" "timers_inv s' [] fs'"
    using cancel_timers_ok [OF inv ci] .
  have t2: "t2 = t \<or> t2 = t\<lparr>prot_listener := -1\<rparr>"
    using w2 by (auto simp: iperf_quic_reset_test_def iperf_quic_free_test_def Let_def split: option.splits)
  have "cancel_timers t2 s = Some (t2\<lparr>omit_timer := None, timer := None, stats_timer := None, reporter_timer := None\<rparr>, s')"
    using t2 s'(1) by (auto simp: cancel_timers_def Option.bind_eq_Some_conv)
  moreover have "reset_fields (t2\<lparr>omit_timer := None, timer := None, stats_timer := None, reporter_timer := None\<rparr>)
      = reset_fields (t\<lparr>omit_timer := None, timer := None, stats_timer := None, reporter_timer := None\<rparr>)"
    using t2 by (auto simp: reset_fields_def set_protocol_def get_protocol_def check_sender_has_retransmits_def Let_def split: list.splits if_splits)
  ultimately show thesis using that [OF _ s'(2) f refl] w1 w2 by (simp add: iperf_reset_test_def)
qed

end
