(* ===== verification/Iperf_Results.thy ===== *)
theory Iperf_Results
  imports Iperf_Json Iperf_Config
begin

text \<open>
  The exchange of results at the end of a test in src/iperf_api.c: send_results and get_results.
  Numbers travel as JSON numbers. The value a stream receives from the other side replaces what
  only the other side can know: the receiver's counters on a sender, the sender's on a receiver.
\<close>

section \<open>send_results\<close>

definition bytes_to_report :: "iperf_stream \<Rightarrow> u64" where
  "bytes_to_report sp =
     (if sender sp \<noteq> 0 then bytes_sent (result sp) - bytes_sent_omit (result sp)
      else bytes_received (result sp))"

definition jint :: "int \<Rightarrow> json" where "jint n = JNumber (of_int n)"

definition stream_fields :: "iperf_test \<Rightarrow> iperf_stream \<Rightarrow> (string \<times> json option) list" where
  "stream_fields t sp =
     (let retransmits = (if sender sp \<noteq> 0 \<and> sender_has_retransmits t \<noteq> 0 then to_int (stream_retrans (result sp)) else -1);
          start = snd (iperf_time_diff (start_time (result sp)) (start_time (result sp)));
          stop = snd (iperf_time_diff (start_time (result sp)) (end_time (result sp)))
      in [(''id'', Some (jint (sid sp))),
          (''bytes'', Some (jint (uint (bytes_to_report sp)))),
          (''retransmits'', Some (jint retransmits)),
          (''jitter'', Some (JNumber (jitter sp))),
          (''errors'', Some (jint (cnt_error sp))),
          (''omitted_errors'', Some (jint (omitted_cnt_error sp))),
          (''packets'', Some (jint (packet_count sp))),
          (''omitted_packets'', Some (jint (omitted_packet_count sp))),
          (''start_time'', Some (JNumber (iperf_time_in_secs start))),
          (''end_time'', Some (JNumber (iperf_time_in_secs stop)))])"

definition stream_json :: "iperf_test \<Rightarrow> iperf_stream \<Rightarrow> json" where
  "stream_json t sp = JObject (present (stream_fields t sp))"

text \<open>The server's own output goes along when the client asked for it: json_top, or the lines
  printed so far.\<close>

definition result_fields :: "json \<Rightarrow> iperf_test \<Rightarrow> (string \<times> json option) list" where
  "result_fields json_top t =
     [(''cpu_util_total'', Some (JNumber (cpu_util t ! 0))),
      (''cpu_util_user'', Some (JNumber (cpu_util t ! 1))),
      (''cpu_util_system'', Some (JNumber (cpu_util t ! 2))),
      (''sender_has_retransmits'',
         Some (jint (if mode t = RECEIVER then -1 else sender_has_retransmits t))),
      (''congestion_used'', map_option JString (congestion_used t)),
      (''server_output_json'',
         given (role t = CHR ''s'' \<and> get_server_output t \<noteq> 0 \<and> json_output t \<noteq> 0) json_top),
      (''server_output_text'',
         given (role t = CHR ''s'' \<and> get_server_output t \<noteq> 0 \<and> json_output t = 0)
           (JString (concat (server_output_list t)))),
      (''streams'', Some (JArray (map (stream_json t) (streams t))))]"

definition results_json :: "json \<Rightarrow> iperf_test \<Rightarrow> json" where
  "results_json json_top t = JObject (present (result_fields json_top t))"

definition send_results :: "(json \<Rightarrow> u8 list option) \<Rightarrow> json \<Rightarrow> iperf_test \<Rightarrow> world \<Rightarrow> (int \<times> world) option" where
  "send_results pr json_top t w = do {
     (r, w) \<leftarrow> JSON_write pr (ctrl_sck t) (results_json json_top t) w;
     if r < 0 then Some (-1, w\<lparr>i_errno := IESENDRESULTS\<rparr>) else Some (0, w) }"

section \<open>get_results\<close>

text \<open>The members of one element of the array of streams, as far as they are there.\<close>

record stream_result_msg =
  m_id :: int
  m_bytes :: u64
  m_retransmits :: int
  m_jitter :: real
  m_errors :: int
  m_packets :: int
  m_omitted :: "(int \<times> int) option"
  m_times :: "(real \<times> real) option"

text \<open>None when a member that has to be there is not, or only one of the two omitted counts is.\<close>

definition read_stream :: "json \<Rightarrow> stream_result_msg option" where
  "read_stream j =
     (let n = (\<lambda>k. iperf_cJSON_GetObjectItemType j k cJSON_Number) in
      case (n ''id'', n ''bytes'', n ''retransmits'', n ''jitter'', n ''errors'', n ''packets'') of
        (Some jid, Some jbytes, Some jretr, Some jjit, Some jerr, Some jpkt) \<Rightarrow>
          (case (n ''omitted_errors'', n ''omitted_packets'') of
             (None, Some _) \<Rightarrow> None
           | (Some _, None) \<Rightarrow> None
           | (oe, op) \<Rightarrow>
               Some \<lparr>m_id = to_int (valueint jid), m_bytes = word_of_int (valueint jbytes),
                     m_retransmits = to_int (valueint jretr), m_jitter = valuedouble jjit,
                     m_errors = valueint jerr, m_packets = valueint jpkt,
                     m_omitted = (case (oe, op) of (Some e, Some p) \<Rightarrow> Some (valueint e, valueint p) | _ \<Rightarrow> None),
                     m_times = (case (n ''start_time'', n ''end_time'') of
                                  (Some a, Some b) \<Rightarrow> Some (valuedouble a, valuedouble b) | _ \<Rightarrow> None)\<rparr>)
      | _ \<Rightarrow> None)"

definition span :: "(real \<times> real) option \<Rightarrow> real" where
  "span ts = (case ts of Some (a, b) \<Rightarrow> b - a | None \<Rightarrow> 0)"

text \<open>A local sender takes over what the receiver counted.\<close>

definition merge_sender :: "iperf_test \<Rightarrow> stream_result_msg \<Rightarrow> iperf_stream \<Rightarrow> iperf_stream" where
  "merge_sender t m sp =
     (let sp = sp\<lparr>jitter := m_jitter m, cnt_error := m_errors m, peer_packet_count := m_packets m\<rparr>;
          sp = upd_result (\<lambda>r. r\<lparr>bytes_received := m_bytes m\<rparr>) sp;
          sp = (case m_omitted m of
                  Some (oe, op) \<Rightarrow> sp\<lparr>omitted_cnt_error := oe, peer_omitted_packet_count := op\<rparr>
                | None \<Rightarrow>
                    (let sp = sp\<lparr>peer_omitted_packet_count := omitted_packet_count sp\<rparr> in
                     if peer_omitted_packet_count sp > 0
                     then sp\<lparr>omitted_cnt_error := (if cnt_error sp > 0 then -1 else 0)\<rparr>
                     else sp\<lparr>omitted_cnt_error := cnt_error sp\<rparr>));
          sp = upd_result (\<lambda>r. r\<lparr>receiver_time := span (m_times m)\<rparr>) sp
      in if protocol t = Pquic \<and> role t = CHR ''c''
         then upd_result (\<lambda>r. r\<lparr>bytes_sent := m_bytes m, sender_time := receiver_time r\<rparr>) sp
         else sp)"

text \<open>A local receiver takes over what the sender counted.\<close>

definition merge_receiver :: "stream_result_msg \<Rightarrow> iperf_stream \<Rightarrow> iperf_stream" where
  "merge_receiver m sp =
     (let sp = sp\<lparr>peer_packet_count := m_packets m\<rparr>;
          sp = upd_result (\<lambda>r. r\<lparr>bytes_sent := m_bytes m, stream_retrans := m_retransmits m\<rparr>) sp;
          sp = (case m_omitted m of
                  Some (_, op) \<Rightarrow> sp\<lparr>peer_omitted_packet_count := op\<rparr>
                | None \<Rightarrow> sp\<lparr>peer_omitted_packet_count := peer_packet_count sp\<rparr>)
      in upd_result (\<lambda>r. r\<lparr>sender_time := span (m_times m)\<rparr>) sp)"

definition merge_stream :: "iperf_test \<Rightarrow> stream_result_msg \<Rightarrow> iperf_stream \<Rightarrow> iperf_stream" where
  "merge_stream t m sp = (if sender sp \<noteq> 0 then merge_sender t m sp else merge_receiver m sp)"

text \<open>The first stream with the id is updated.\<close>

fun update_stream :: "int \<Rightarrow> (iperf_stream \<Rightarrow> iperf_stream) \<Rightarrow> iperf_stream list \<Rightarrow> iperf_stream list option" where
  "update_stream i f [] = None"
| "update_stream i f (sp # sps) =
     (if sid sp = i then Some (f sp # sps)
      else (case update_stream i f sps of None \<Rightarrow> None | Some sps \<Rightarrow> Some (sp # sps)))"

text \<open>The loop over the array: an element that cannot be used sets the error and the loop goes on.\<close>

fun apply_streams :: "json list \<Rightarrow> iperf_test \<Rightarrow> int \<Rightarrow> int \<Rightarrow> int \<times> iperf_test \<times> int" where
  "apply_streams [] t r ie = (r, t, ie)"
| "apply_streams (j # js) t r ie =
     (case read_stream j of
        None \<Rightarrow> apply_streams js t (-1) IERECVRESULTS
      | Some m \<Rightarrow>
          (case update_stream (m_id m) (merge_stream t m) (streams t) of
             None \<Rightarrow> apply_streams js t (-1) IESTREAMID
           | Some sps \<Rightarrow> apply_streams js (t\<lparr>streams := sps\<rparr>) r ie))"

definition apply_retransmits :: "int \<Rightarrow> iperf_test \<Rightarrow> iperf_test" where
  "apply_retransmits n t =
     (if mode t = RECEIVER then t\<lparr>sender_has_retransmits := n, other_side_has_retransmits := 0\<rparr>
      else if mode t = BIDIRECTIONAL then t\<lparr>other_side_has_retransmits := n\<rparr>
      else t)"

definition apply_results :: "json \<Rightarrow> iperf_test \<Rightarrow> int \<Rightarrow> int \<times> iperf_test \<times> int" where
  "apply_results j t ie =
     (let n = (\<lambda>k. iperf_cJSON_GetObjectItemType j k cJSON_Number);
          (r, t, ie) =
            (case (n ''cpu_util_total'', n ''cpu_util_user'', n ''cpu_util_system'', n ''sender_has_retransmits'') of
               (Some a, Some b, Some c, Some h) \<Rightarrow>
                 (let t = t\<lparr>remote_cpu_util := [valuedouble a, valuedouble b, valuedouble c]\<rparr>;
                      t = apply_retransmits (to_int (valueint h)) t
                  in case iperf_cJSON_GetObjectItemType j ''streams'' cJSON_Array of
                       None \<Rightarrow> (-1, t, IERECVRESULTS)
                     | Some js \<Rightarrow> apply_streams (elems js) t 0 ie)
             | _ \<Rightarrow> (-1, t, IERECVRESULTS));
          t = (case iperf_cJSON_GetObjectItemType j ''congestion_used'' cJSON_String of
                 None \<Rightarrow> t | Some s \<Rightarrow> t\<lparr>remote_congestion_used := Some (valuestring s)\<rparr>)
      in (r, t, ie))"

definition get_results ::
    "(u8 list \<Rightarrow> json option) \<Rightarrow> iperf_test \<Rightarrow> world \<Rightarrow> (int \<times> iperf_test \<times> world) option" where
  "get_results pa t w = do {
     (j, w) \<leftarrow> JSON_read pa (ctrl_sck t) 0 w;
     case j of
       None \<Rightarrow> Some (-1, t, w\<lparr>i_errno := IERECVRESULTS\<rparr>)
     | Some j \<Rightarrow>
         (case apply_results j t (i_errno w) of (r, t, ie) \<Rightarrow> Some (r, t, w\<lparr>i_errno := ie\<rparr>)) }"

text \<open>The client sends first, the server receives first.\<close>

definition iperf_exchange_results ::
    "(json \<Rightarrow> u8 list option) \<Rightarrow> (u8 list \<Rightarrow> json option) \<Rightarrow> json \<Rightarrow> iperf_test \<Rightarrow> world
      \<Rightarrow> (int \<times> iperf_test \<times> world) option" where
  "iperf_exchange_results pr pa json_top t w =
     (if role t = CHR ''c'' then do {
        (r, w) \<leftarrow> send_results pr json_top t w;
        if r < 0 then Some (-1, t, w) else do {
        (r, t, w) \<leftarrow> get_results pa t w;
        Some (if r < 0 then -1 else 0, t, w) } }
      else do {
        (r, t, w) \<leftarrow> get_results pa t w;
        if r < 0 then Some (-1, t, w) else do {
        (r, w) \<leftarrow> send_results pr json_top t w;
        Some (if r < 0 then -1 else 0, t, w) } })"

end
