(* ===== verification/Iperf_Results_Ok.thy ===== *)
theory Iperf_Results_Ok
  imports Iperf_Results
begin

text \<open>
  The exchange of results works: a message built by results_json is read back by get_results with
  no error, and every local stream is merged with the message of its partner, the remote stream
  with the same id.
\<close>

section \<open>One stream\<close>

text \<open>The message of a stream as the other side sees it.\<close>

definition sent :: "iperf_test \<Rightarrow> iperf_stream \<Rightarrow> stream_result_msg" where
  "sent r sp =
     (let start = snd (iperf_time_diff (start_time (result sp)) (start_time (result sp)));
          stop = snd (iperf_time_diff (start_time (result sp)) (end_time (result sp)))
      in \<lparr>m_id = sid sp, m_bytes = bytes_to_report sp,
          m_retransmits = (if sender sp \<noteq> 0 \<and> sender_has_retransmits r \<noteq> 0 then stream_retrans (result sp) else -1),
          m_jitter = jitter sp, m_errors = cnt_error sp, m_packets = packet_count sp,
          m_omitted = Some (omitted_cnt_error sp, omitted_packet_count sp),
          m_times = Some (iperf_time_in_secs start, iperf_time_in_secs stop)\<rparr>)"

definition is_int :: "int \<Rightarrow> bool" where "is_int n \<longleftrightarrow> -2147483648 \<le> n \<and> n < 2147483648"

definition is_s64 :: "int \<Rightarrow> bool" where "is_s64 n \<longleftrightarrow> s64_min \<le> n \<and> n \<le> s64_max"

text \<open>Counters that fit the C types of their fields, and byte counts that fit a signed number.\<close>

definition reportable :: "iperf_stream \<Rightarrow> bool" where
  "reportable sp \<longleftrightarrow> is_int (sid sp) \<and> is_int (stream_retrans (result sp)) \<and> uint (bytes_to_report sp) \<le> s64_max
     \<and> is_s64 (cnt_error sp) \<and> is_s64 (omitted_cnt_error sp) \<and> is_s64 (packet_count sp)
     \<and> is_s64 (omitted_packet_count sp)"

lemma valueint_jint [simp]: "valueint (jint n) = clamp64 n"
  by (simp add: valueint_def jint_def)

lemma clamp64_id [simp]: "is_s64 n \<Longrightarrow> clamp64 n = n"
  by (simp add: clamp64_def is_s64_def)

lemma is_int_s64 [simp]: "is_int n \<Longrightarrow> is_s64 n"
  by (simp add: is_int_def is_s64_def s64_min_def s64_max_def)

lemma to_int_is_int [simp]: "is_int n \<Longrightarrow> to_int n = n"
  by (simp add: is_int_def to_int_id)

lemma clamp64_uint [simp]: "uint (b::u64) \<le> s64_max \<Longrightarrow> clamp64 (uint b) = uint b"
proof (rule clamp64_id)
  have "s64_min \<le> 0" by (simp add: s64_min_def)
  then show "is_s64 (uint b)" if "uint b \<le> s64_max"
    using that order_trans [OF _ uint_ge_0 [of b]] unfolding is_s64_def by blast
qed

lemma stream_keys: "distinct (folded_keys (stream_fields t sp))"
  unfolding folded_keys_def stream_fields_def Let_def list.map prod.case by code_simp

lemma stream_number:
  assumes "(k, Some (JNumber x)) \<in> set (stream_fields t sp)"
  shows "iperf_cJSON_GetObjectItemType (stream_json t sp) k cJSON_Number = Some (JNumber x)"
  using lookup_present [OF stream_keys assms]
  by (simp add: iperf_cJSON_GetObjectItemType_def cJSON_GetObjectItem_def stream_json_def)

lemma stream_int:
  "(k, Some (jint n)) \<in> set (stream_fields t sp)
    \<Longrightarrow> iperf_cJSON_GetObjectItemType (stream_json t sp) k cJSON_Number = Some (jint n)"
  unfolding jint_def by (rule stream_number)

lemma valuedouble_jint: "valuedouble (jint n) = of_int n"
  by (simp add: jint_def)

lemma read_stream_json:
  assumes "reportable sp"
  shows "read_stream (stream_json t sp) = Some (sent t sp)"
proof -
  let ?n = "\<lambda>k. iperf_cJSON_GetObjectItemType (stream_json t sp) k cJSON_Number"
  let ?retr = "if sender sp \<noteq> 0 \<and> sender_has_retransmits t \<noteq> 0 then to_int (stream_retrans (result sp)) else -1"
  have retr: "is_int ?retr" "is_int (-1)" "is_int (stream_retrans (result sp))"
    using assms by (auto simp: reportable_def is_int_def to_int_id)
  have n: "?n ''id'' = Some (jint (sid sp))" "?n ''bytes'' = Some (jint (uint (bytes_to_report sp)))"
    "?n ''retransmits'' = Some (jint ?retr)"
    "?n ''errors'' = Some (jint (cnt_error sp))" "?n ''omitted_errors'' = Some (jint (omitted_cnt_error sp))"
    "?n ''packets'' = Some (jint (packet_count sp))"
    "?n ''omitted_packets'' = Some (jint (omitted_packet_count sp))"
    by (rule stream_int, simp add: stream_fields_def Let_def)+
  have d: "?n ''jitter'' = Some (JNumber (jitter sp))"
    "?n ''start_time'' = Some (JNumber (iperf_time_in_secs (snd (iperf_time_diff (start_time (result sp)) (start_time (result sp))))))"
    "?n ''end_time'' = Some (JNumber (iperf_time_in_secs (snd (iperf_time_diff (start_time (result sp)) (end_time (result sp))))))"
    by (rule stream_number, simp add: stream_fields_def Let_def)+
  show ?thesis
    using assms retr by (simp add: read_stream_def n d sent_def Let_def reportable_def)
qed

section \<open>All streams\<close>

lemma update_stream_map:
  "distinct (map sid sps) \<Longrightarrow> i \<in> sid ` set sps
    \<Longrightarrow> update_stream i f sps = Some (map (\<lambda>sp. if sid sp = i then f sp else sp) sps)"
proof (induction sps)
  case (Cons sp sps)
  show ?case
  proof (cases "sid sp = i")
    case True
    with Cons.prems(1) have "\<forall>x\<in>set sps. sid x \<noteq> i" by (metis distinct.simps(2) imageI image_set list.map(2))
    then have "map (\<lambda>sp. if sid sp = i then f sp else sp) sps = sps" by (simp add: map_idI)
    with True show ?thesis by simp
  qed (use Cons in auto)
qed simp

text \<open>The stream the other side has under the same id, and what the exchange makes of a stream.\<close>

definition partner :: "iperf_stream list \<Rightarrow> iperf_stream \<Rightarrow> iperf_stream option" where
  "partner rs sp = find (\<lambda>r. sid r = sid sp) rs"

definition merged :: "iperf_test \<Rightarrow> iperf_stream list \<Rightarrow> iperf_test \<Rightarrow> iperf_stream \<Rightarrow> iperf_stream" where
  "merged r rs t sp = (case partner rs sp of None \<Rightarrow> sp | Some q \<Rightarrow> merge_stream t (sent r q) sp)"

lemma merge_sid [simp]: "sid (merge_stream t m sp) = sid sp"
  by (simp add: merge_stream_def merge_sender_def merge_receiver_def upd_result_def Let_def split: option.split)

lemma merge_sender_flag [simp]: "sender (merge_stream t m sp) = sender sp"
  by (simp add: merge_stream_def merge_sender_def merge_receiver_def upd_result_def Let_def split: option.split)

lemma merge_stream_cong: "protocol t = protocol t' \<Longrightarrow> role t = role t' \<Longrightarrow> merge_stream t = merge_stream t'"
  by (rule ext)+ (simp add: merge_stream_def merge_sender_def)

lemma streams_upd: "streams (t\<lparr>streams := sps\<rparr>) = sps"
  by simp

lemma apply_streams_merge:
  assumes "distinct (map sid rs)" "\<forall>q\<in>set rs. reportable q"
    and "distinct (map sid (streams t))" "sid ` set rs \<subseteq> sid ` set (streams t)"
  shows "apply_streams (map (stream_json r) rs) t rc ie = (rc, t\<lparr>streams := map (merged r rs t) (streams t)\<rparr>, ie)"
  using assms
proof (induction rs arbitrary: t)
  case Nil
  show ?case by (simp add: merged_def partner_def)
next
  case (Cons q rs)
  let ?f = "\<lambda>sp. if sid sp = sid q then merge_stream t (sent r q) sp else sp"
  let ?t = "t\<lparr>streams := map ?f (streams t)\<rparr>"
  have ids: "map sid (map ?f (streams t)) = map sid (streams t)" by simp
  have ids': "sid ` ?f ` set (streams t) = sid ` set (streams t)"
    using arg_cong [OF ids, of set] by (simp only: set_map)
  have up: "update_stream (m_id (sent r q)) (merge_stream t (sent r q)) (streams t) = Some (map ?f (streams t))"
    using update_stream_map [of "streams t" "sid q"] Cons.prems by (auto simp: sent_def Let_def)
  have IH: "apply_streams (map (stream_json r) rs) ?t rc ie = (rc, ?t\<lparr>streams := map (merged r rs ?t) (streams ?t)\<rparr>, ie)"
  proof (rule Cons.IH)
    show "distinct (map sid (streams ?t))" unfolding streams_upd ids by (rule Cons.prems(3))
  qed (use Cons.prems ids' in \<open>auto simp: image_image\<close>)
  have none: "partner rs sp = None" if "sid sp = sid q" for sp
    using that Cons.prems(1) by (auto simp: partner_def find_None_iff image_iff)
  have "merged r rs ?t (?f sp) = merged r (q # rs) t sp" for sp
  proof (cases "sid sp = sid q")
    case True
    then show ?thesis using none [of "?f sp"] by (simp add: merged_def) (simp add: partner_def)
  next
    case False
    then have "partner (q # rs) sp = partner rs sp" by (auto simp: partner_def)
    with False merge_stream_cong [of ?t t] show ?thesis by (simp add: merged_def split: option.split)
  qed
  then have map: "map (merged r rs ?t) (map ?f (streams t)) = map (merged r (q # rs) t) (streams t)" by simp
  have "apply_streams (map (stream_json r) (q # rs)) t rc ie = apply_streams (map (stream_json r) rs) ?t rc ie"
    using Cons.prems(2) by (simp add: read_stream_json up)
  also have "\<dots> = (rc, t\<lparr>streams := map (merged r (q # rs) t) (streams t)\<rparr>, ie)"
    unfolding IH using map by simp
  finally show ?case .
qed

section \<open>The whole message\<close>

lemma result_keys: "distinct (folded_keys (result_fields jt r))"
  unfolding folded_keys_def result_fields_def Let_def list.map prod.case by code_simp

lemma result_item:
  assumes "(k, v) \<in> set (result_fields jt r)"
  shows "cJSON_GetObjectItem (results_json jt r) k = v"
  using lookup_present [OF result_keys assms] by (simp add: cJSON_GetObjectItem_def results_json_def)

text \<open>What of the test the message sets besides the streams.\<close>

definition remote_view :: "iperf_test \<Rightarrow> iperf_test \<Rightarrow> iperf_test" where
  "remote_view r t =
     (let t = t\<lparr>remote_cpu_util := cpu_util r\<rparr>;
          t = apply_retransmits (if mode r = RECEIVER then -1 else sender_has_retransmits r) t
      in case congestion_used r of None \<Rightarrow> t | Some c \<Rightarrow> t\<lparr>remote_congestion_used := Some c\<rparr>)"

lemma apply_retransmits_frame:
  "streams (apply_retransmits n t) = streams t" "protocol (apply_retransmits n t) = protocol t"
  "role (apply_retransmits n t) = role t"
  "(apply_retransmits n t)\<lparr>streams := sps\<rparr> = apply_retransmits n (t\<lparr>streams := sps\<rparr>)"
  by (simp_all add: apply_retransmits_def)

lemma merged_cong: "protocol t = protocol t' \<Longrightarrow> role t = role t' \<Longrightarrow> merged r rs t = merged r rs t'"
  using merge_stream_cong [of t t'] by (simp add: merged_def fun_eq_iff split: option.split)

lemma results_agree:
  assumes "distinct (map sid (streams r))" "\<forall>q\<in>set (streams r). reportable q"
    and "distinct (map sid (streams t))" "sid ` set (streams r) \<subseteq> sid ` set (streams t)"
    and "length (cpu_util r) = 3" "is_int (sender_has_retransmits r)"
  shows "apply_results (results_json jt r) t ie
    = (0, (remote_view r t)\<lparr>streams := map (merged r (streams r) t) (streams t)\<rparr>, ie)"
proof -
  let ?h = "if mode r = RECEIVER then -1 else sender_has_retransmits r"
  let ?t = "apply_retransmits ?h (t\<lparr>remote_cpu_util := cpu_util r\<rparr>)"
  obtain a b c where cpu: "cpu_util r = [a, b, c]"
    using assms(5) by (auto simp: numeral_3_eq_3 length_Suc_conv)
  have h: "is_int ?h" using assms(6) by (simp add: is_int_def)
  have items: "cJSON_GetObjectItem (results_json jt r) ''cpu_util_total'' = Some (JNumber a)"
    "cJSON_GetObjectItem (results_json jt r) ''cpu_util_user'' = Some (JNumber b)"
    "cJSON_GetObjectItem (results_json jt r) ''cpu_util_system'' = Some (JNumber c)"
    "cJSON_GetObjectItem (results_json jt r) ''sender_has_retransmits'' = Some (jint ?h)"
    "cJSON_GetObjectItem (results_json jt r) ''streams'' = Some (JArray (map (stream_json r) (streams r)))"
    "cJSON_GetObjectItem (results_json jt r) ''congestion_used'' = map_option JString (congestion_used r)"
    by (rule result_item, simp add: result_fields_def cpu)+
  have num: "iperf_cJSON_GetObjectItemType (results_json jt r) ''sender_has_retransmits'' cJSON_Number = Some (jint ?h)"
    by (simp add: iperf_cJSON_GetObjectItemType_def items(4) jint_def)
  have loop: "apply_streams (map (stream_json r) (streams r)) ?t 0 ie
      = (0, ?t\<lparr>streams := map (merged r (streams r) t) (streams t)\<rparr>, ie)"
    using apply_streams_merge [OF assms(1,2), of ?t r 0 ie] assms(3,4)
      merged_cong [of ?t t r "streams r"]
    by (simp add: apply_retransmits_frame)
  have hv: "to_int (valueint (jint ?h)) = ?h" using h by simp
  have tail: "(case x of (rc, t', ie') \<Rightarrow> (rc, case c of None \<Rightarrow> t' | Some s \<Rightarrow> t'\<lparr>remote_congestion_used := Some s\<rparr>, ie'))
      = (0, (case c of None \<Rightarrow> t2 | Some s \<Rightarrow> t2\<lparr>remote_congestion_used := Some s\<rparr>)\<lparr>streams := sps\<rparr>, ie)"
    if "x = (0, t2\<lparr>streams := sps\<rparr>, ie)" for x and t2 :: iperf_test and sps and c
    using that by (simp split: option.split)
  have "apply_results (results_json jt r) t ie =
     (let (rc, t', ie') = apply_streams (map (stream_json r) (streams r)) ?t 0 ie
      in (rc, case congestion_used r of None \<Rightarrow> t' | Some s \<Rightarrow> t'\<lparr>remote_congestion_used := Some s\<rparr>, ie'))"
    unfolding apply_results_def num Let_def using hv
    by (simp add: iperf_cJSON_GetObjectItemType_def items cpu cong: if_cong split: option.split)
  also have "\<dots> = (0, (remote_view r t)\<lparr>streams := map (merged r (streams r) t) (streams t)\<rparr>, ie)"
    unfolding Let_def remote_view_def
    by (rule tail [OF loop])
  finally show ?thesis .
qed

text \<open>What a merge means for the counters: each end has the other's, and keeps its own.\<close>

lemma merged_counters:
  fixes t r :: iperf_test
  assumes "merge_stream t (sent r q) sp = sp'" "\<not> (protocol t = Pquic \<and> role t = CHR ''c'')"
  shows "sender sp \<noteq> 0 \<Longrightarrow> sender q = 0 \<Longrightarrow>
           bytes_sent (result sp') = bytes_sent (result sp)
         \<and> bytes_received (result sp') = bytes_received (result q)
         \<and> jitter sp' = jitter q \<and> cnt_error sp' = cnt_error q \<and> peer_packet_count sp' = packet_count q"
    and "sender sp = 0 \<Longrightarrow> sender q \<noteq> 0 \<Longrightarrow>
           bytes_received (result sp') = bytes_received (result sp)
         \<and> bytes_sent (result sp') = bytes_sent (result q) - bytes_sent_omit (result q)
         \<and> jitter sp' = jitter sp \<and> cnt_error sp' = cnt_error sp \<and> peer_packet_count sp' = packet_count q
         \<and> stream_retrans (result sp') = (if sender_has_retransmits r \<noteq> 0 then stream_retrans (result q) else -1)"
  using assms
  by (auto simp: merge_stream_def merge_sender_def merge_receiver_def sent_def upd_result_def Let_def
      bytes_to_report_def)

end
