(* ===== verification/Iperf_Units.thy ===== *)
theory Iperf_Units
  imports Iperf_Cstr Iperf_Types
begin

text \<open>
  src/units.c: the readers of numbers with a unit suffix, unit_atof, unit_atof_rate and unit_atoi,
  and the choice of unit and precision in unit_snprintf. A reader returns its value and the error
  it leaves in i_errno (0 for none), as the callers check i_errno after the call.
\<close>

section \<open>Readers\<close>

text \<open>The switch on the suffix: KILO_UNIT to TERA_UNIT are powers of 1024, KILO_RATE_UNIT to
  TERA_RATE_UNIT powers of 1000. None is the default branch.\<close>

definition unit_factor :: "real \<Rightarrow> char \<Rightarrow> real option" where
  "unit_factor kilo suffix =
     (if suffix = CHR ''t'' \<or> suffix = CHR ''T'' then Some (kilo * kilo * kilo * kilo)
      else if suffix = CHR ''g'' \<or> suffix = CHR ''G'' then Some (kilo * kilo * kilo)
      else if suffix = CHR ''m'' \<or> suffix = CHR ''M'' then Some (kilo * kilo)
      else if suffix = CHR ''k'' \<or> suffix = CHR ''K'' then Some kilo
      else if suffix = CHR 0x00 then Some 1
      else None)"

definition unit_atof :: "string \<Rightarrow> real \<times> int" where
  "unit_atof s =
     (case sscanf_lf_c s of
        None \<Rightarrow> (0, IEUNITVAL)
      | Some (n, suffix) \<Rightarrow>
          (case unit_factor 1024 suffix of Some f \<Rightarrow> (n * f, 0) | None \<Rightarrow> (n, IEUNITVAL)))"

definition unit_atof_rate :: "string \<Rightarrow> real \<times> int" where
  "unit_atof_rate s =
     (case sscanf_lf_c s of
        None \<Rightarrow> (0, IEUNITVAL)
      | Some (n, suffix) \<Rightarrow>
          (case unit_factor 1000 suffix of Some f \<Rightarrow> (n * f, 0) | None \<Rightarrow> (n, IEUNITVAL)))"

text \<open>unit_atoi converts to an unsigned 64-bit integer: None for a value out of range, where the
  conversion is undefined.\<close>

definition unit_atoi :: "string \<Rightarrow> (u64 \<times> int) option" where
  "unit_atoi s =
     (case sscanf_lf_c s of
        None \<Rightarrow> Some (0, IEUNITVAL)
      | Some (n, suffix) \<Rightarrow>
          (case unit_factor 1024 suffix of
             Some f \<Rightarrow> do { v \<leftarrow> double_to_u64 (n * f); Some (v, 0) }
           | None \<Rightarrow> Some (0, IEUNITVAL)))"

lemma unit_atoi_error: "unit_atoi s = Some (v, e) \<Longrightarrow> e \<noteq> 0 \<Longrightarrow> v = 0 \<and> e = IEUNITVAL"
  by (auto simp: unit_atoi_def Option.bind_eq_Some_conv split: option.splits prod.splits)

text \<open>The reader of integers is the reader of doubles, truncated.\<close>

lemma unit_atoi_atof:
  "snd (unit_atof s) = 0 \<Longrightarrow> unit_atoi s = do { v \<leftarrow> double_to_u64 (fst (unit_atof s)); Some (v, 0) }"
  by (auto simp: unit_atoi_def unit_atof_def split: option.splits prod.splits)

lemma unit_atoi_atof_error: "snd (unit_atof s) \<noteq> 0 \<Longrightarrow> unit_atoi s = Some (0, snd (unit_atof s))"
  by (auto simp: unit_atoi_def unit_atof_def split: option.splits prod.splits)

section \<open>unit_snprintf\<close>

definition conversion_bytes :: "nat \<Rightarrow> real" where
  "conversion_bytes conv = 1 / 1024 ^ conv"

definition conversion_bits :: "nat \<Rightarrow> real" where
  "conversion_bits conv = 1 / 1000 ^ conv"

definition label_byte :: "string list" where
  "label_byte = [''Byte'', ''KByte'', ''MByte'', ''GByte'', ''TByte'']"

definition label_bit :: "string list" where
  "label_bit = [''bit'', ''Kbit'', ''Mbit'', ''Gbit'', ''Tbit'']"

text \<open>The two loops of the adaptive format, from a value and a unit index up to TERA_CONV = 4.\<close>

fun adapt :: "nat \<Rightarrow> real \<Rightarrow> real \<Rightarrow> nat \<Rightarrow> nat" where
  "adapt 0 base tmpNum conv = conv"
| "adapt (Suc k) base tmpNum conv = (if tmpNum \<ge> base then adapt k base (tmpNum / base) (Suc conv) else conv)"

definition unit_conv :: "char \<Rightarrow> real \<Rightarrow> nat" where
  "unit_conv fmt inNum =
     (let u = toupper fmt in
      if u = CHR ''B'' then 0
      else if u = CHR ''K'' then 1
      else if u = CHR ''M'' then 2
      else if u = CHR ''G'' then 3
      else if u = CHR ''T'' then 4
      else adapt 4 (if isupper fmt then 1024 else 1000) inNum 0)"

text \<open>What unit_snprintf passes to snprintf: the number of decimals of the format, the number and
  the label.\<close>

definition unit_snprintf :: "real \<Rightarrow> char \<Rightarrow> nat \<times> real \<times> string" where
  "unit_snprintf inNum inFormat =
     (let inNum = (if \<not> isupper inFormat then inNum * 8 else inNum);
          conv = unit_conv inFormat inNum;
          (inNum, suffix) =
            (if \<not> isupper inFormat then (inNum * conversion_bits conv, label_bit ! conv)
             else (inNum * conversion_bytes conv, label_byte ! conv))
      in (if inNum < 9995 / 1000 then 2 else if inNum < 9995 / 100 then 1 else 0, inNum, suffix))"

text \<open>The adaptive unit: the number is divided down until it is below the base or the labels run out.\<close>

lemma adapt_spec:
  assumes "0 < base"
  shows "\<exists>m \<le> k. adapt k base x c = c + m \<and> (m < k \<longrightarrow> x < base ^ Suc m) \<and> (0 < m \<longrightarrow> base ^ m \<le> x)"
proof (induction k arbitrary: x c)
  case (Suc k)
  show ?case
  proof (cases "x \<ge> base")
    case True
    from Suc.IH [of "x / base" "Suc c"] obtain m where m: "m \<le> k" "adapt k base (x / base) (Suc c) = Suc c + m"
      "m < k \<longrightarrow> x / base < base ^ Suc m" "0 < m \<longrightarrow> base ^ m \<le> x / base" by blast
    have "base ^ Suc m \<le> x" using m(4) True assms by (cases "m = 0") (auto simp: field_simps)
    moreover have "m < k \<longrightarrow> x < base ^ Suc (Suc m)" using m(3) assms by (auto simp: field_simps)
    ultimately show ?thesis using m(1,2) True by (intro exI [of _ "Suc m"]) auto
  qed auto
qed auto

lemma unit_conv_index: "unit_conv f x \<le> 4"
  using adapt_spec [of 1024 4 x 0] adapt_spec [of 1000 4 x 0] by (auto simp: unit_conv_def Let_def)

text \<open>An adaptive report shows a number below the base of its unit, unless the unit is the largest.\<close>

lemma unit_snprintf_adaptive:
  assumes "toupper f \<notin> {CHR ''B'', CHR ''K'', CHR ''M'', CHR ''G'', CHR ''T''}"
    and "unit_snprintf x f = (prec, y, label)" and "0 \<le> x"
  shows "y < (if isupper f then 1024 else 1000) \<or> label \<in> {''TByte'', ''Tbit''}"
proof -
  define base :: real where "base = (if isupper f then 1024 else 1000)"
  define z where "z = (if isupper f then x else x * 8)"
  have pos: "0 < base" by (simp add: base_def)
  from adapt_spec [OF this, of 4 z 0] obtain m where m: "m \<le> 4" "adapt 4 base z 0 = m"
    "m < 4 \<longrightarrow> z < base ^ Suc m" by auto
  have c: "unit_conv f z = m" using assms(1) m(2) by (simp add: unit_conv_def Let_def base_def)
  have y: "y = z / base ^ m" "label = (if isupper f then label_byte else label_bit) ! m"
    using assms(2) c by (auto simp: unit_snprintf_def Let_def z_def base_def conversion_bits_def conversion_bytes_def)
  show ?thesis
  proof (cases "m = 4")
    case True
    with y show ?thesis by (auto simp: label_byte_def label_bit_def)
  next
    case False
    with m have "z < base * base ^ m" by simp
    with y pos have "y < base" by (simp add: divide_less_eq)
    then show ?thesis by (simp add: base_def)
  qed
qed

end
