(* ===== verification/Iperf_Dscp.thy ===== *)
theory Iperf_Dscp
  imports Iperf_Cstr
begin

text \<open>
  src/dscp.c: the table of DSCP and TOS names, parse_qos and iptos2str.
\<close>

definition ipqos :: "(string \<times> int) list" where
  "ipqos = [(''af11'', 0x28), (''af12'', 0x30), (''af13'', 0x38), (''af21'', 0x48), (''af22'', 0x50),
    (''af23'', 0x58), (''af31'', 0x68), (''af32'', 0x70), (''af33'', 0x78), (''af41'', 0x88),
    (''af42'', 0x90), (''af43'', 0x98), (''cs0'', 0x00), (''cs1'', 0x20), (''cs2'', 0x40),
    (''cs3'', 0x60), (''cs4'', 0x80), (''cs5'', 0xa0), (''cs6'', 0xc0), (''cs7'', 0xe0),
    (''ef'', 0xb8), (''va'', 0xb0), (''lowdelay'', 0x10), (''throughput'', 0x08),
    (''reliability'', 0x04)]"

definition parse_qos :: "string option \<Rightarrow> int" where
  "parse_qos cp =
     (case cp of
        None \<Rightarrow> -1
      | Some s \<Rightarrow>
          (case find (\<lambda>(name, _). strcaseeq s name) ipqos of
             Some (_, v) \<Rightarrow> v
           | None \<Rightarrow>
               (let (val, ep) = strtol s 0 in
                if s = [] \<or> ep \<noteq> [] \<or> val < 0 \<or> val > 63 then -1 else val * 4)))"

text \<open>snprintf of 0x%02x for a value below 256.\<close>

definition hex_digit :: "nat \<Rightarrow> char" where
  "hex_digit n = char_of (if n < 10 then 48 + n else 87 + n)"

definition hex2 :: "int \<Rightarrow> string" where
  "hex2 n = ''0x'' @ [hex_digit (nat n div 16), hex_digit (nat n mod 16)]"

definition iptos2str :: "int \<Rightarrow> string" where
  "iptos2str iptos =
     (let iptos = (if iptos < 0 \<or> iptos > 64 then 0 else iptos) in
      case find (\<lambda>(_, v). v = iptos) ipqos of
        Some (name, _) \<Rightarrow> name
      | None \<Rightarrow> hex2 iptos)"

lemma find_in: "find P xs = Some x \<Longrightarrow> x \<in> set xs \<and> P x"
  by (auto simp: find_Some_iff)

lemma ipqos_range: "(s, v) \<in> set ipqos \<Longrightarrow> 0 \<le> v \<and> v < 256 \<and> v mod 4 = 0"
  by (auto simp: ipqos_def)

lemma parse_qos_cases:
  "parse_qos cp = -1 \<or> (0 \<le> parse_qos cp \<and> parse_qos cp < 256 \<and> parse_qos cp mod 4 = 0)"
proof (cases cp)
  case (Some s)
  show ?thesis
  proof (cases "find (\<lambda>(name, _). strcaseeq s name) ipqos")
    case None
    with Some show ?thesis by (auto simp: parse_qos_def split: prod.splits)
  next
    case (Some p)
    then have "p \<in> set ipqos" by (auto dest: find_in)
    with Some \<open>cp = Some s\<close> ipqos_range [of "fst p" "snd p"] show ?thesis
      by (auto simp: parse_qos_def split: prod.splits)
  qed
qed (simp add: parse_qos_def)

end
