(* ===== verification/Iperf_Args.thy ===== *)
theory Iperf_Args
  imports Iperf_Units Iperf_Dscp Iperf_Config
begin

text \<open>
  iperf_parse_arguments of src/iperf_api.c over the options getopt_long delivers: a list of flags
  with their arguments. The switch is split by groups of options, in its order; each group returns
  None for a flag it has no case for. A case that returns -1 is Failed with the value of i_errno, a
  case that ends the process is Exited, a conversion that C leaves undefined is Undefined. The
  checks after the loop follow in finish_arguments.
\<close>

section \<open>Flags, parser state, environment\<close>

datatype flag = Sh char | Opt nat

abbreviation (input) OPT_SCTP where "OPT_SCTP \<equiv> Opt 1"
abbreviation (input) OPT_LOGFILE where "OPT_LOGFILE \<equiv> Opt 2"
abbreviation (input) OPT_GET_SERVER_OUTPUT where "OPT_GET_SERVER_OUTPUT \<equiv> Opt 3"
abbreviation (input) OPT_UDP_COUNTERS_64BIT where "OPT_UDP_COUNTERS_64BIT \<equiv> Opt 4"
abbreviation (input) OPT_CLIENT_PORT where "OPT_CLIENT_PORT \<equiv> Opt 5"
abbreviation (input) OPT_NUMSTREAMS where "OPT_NUMSTREAMS \<equiv> Opt 6"
abbreviation (input) OPT_FORCEFLUSH where "OPT_FORCEFLUSH \<equiv> Opt 7"
abbreviation (input) OPT_NO_FQ_SOCKET_PACING where "OPT_NO_FQ_SOCKET_PACING \<equiv> Opt 9"
abbreviation (input) OPT_FQ_RATE where "OPT_FQ_RATE \<equiv> Opt 10"
abbreviation (input) OPT_DSCP where "OPT_DSCP \<equiv> Opt 11"
abbreviation (input) OPT_CLIENT_USERNAME where "OPT_CLIENT_USERNAME \<equiv> Opt 12"
abbreviation (input) OPT_CLIENT_RSA_PUBLIC_KEY where "OPT_CLIENT_RSA_PUBLIC_KEY \<equiv> Opt 13"
abbreviation (input) OPT_SERVER_RSA_PRIVATE_KEY where "OPT_SERVER_RSA_PRIVATE_KEY \<equiv> Opt 14"
abbreviation (input) OPT_SERVER_AUTHORIZED_USERS where "OPT_SERVER_AUTHORIZED_USERS \<equiv> Opt 15"
abbreviation (input) OPT_PACING_TIMER where "OPT_PACING_TIMER \<equiv> Opt 16"
abbreviation (input) OPT_CONNECT_TIMEOUT where "OPT_CONNECT_TIMEOUT \<equiv> Opt 17"
abbreviation (input) OPT_REPEATING_PAYLOAD where "OPT_REPEATING_PAYLOAD \<equiv> Opt 18"
abbreviation (input) OPT_EXTRA_DATA where "OPT_EXTRA_DATA \<equiv> Opt 19"
abbreviation (input) OPT_BIDIRECTIONAL where "OPT_BIDIRECTIONAL \<equiv> Opt 20"
abbreviation (input) OPT_SERVER_BITRATE_LIMIT where "OPT_SERVER_BITRATE_LIMIT \<equiv> Opt 21"
abbreviation (input) OPT_TIMESTAMPS where "OPT_TIMESTAMPS \<equiv> Opt 22"
abbreviation (input) OPT_SERVER_SKEW_THRESHOLD where "OPT_SERVER_SKEW_THRESHOLD \<equiv> Opt 23"
abbreviation (input) OPT_BIND_DEV where "OPT_BIND_DEV \<equiv> Opt 24"
abbreviation (input) OPT_IDLE_TIMEOUT where "OPT_IDLE_TIMEOUT \<equiv> Opt 25"
abbreviation (input) OPT_DONT_FRAGMENT where "OPT_DONT_FRAGMENT \<equiv> Opt 26"
abbreviation (input) OPT_RCV_TIMEOUT where "OPT_RCV_TIMEOUT \<equiv> Opt 27"
abbreviation (input) OPT_JSON_STREAM where "OPT_JSON_STREAM \<equiv> Opt 28"
abbreviation (input) OPT_SND_TIMEOUT where "OPT_SND_TIMEOUT \<equiv> Opt 29"
abbreviation (input) OPT_USE_PKCS1_PADDING where "OPT_USE_PKCS1_PADDING \<equiv> Opt 30"
abbreviation (input) OPT_CNTL_KA where "OPT_CNTL_KA \<equiv> Opt 31"
abbreviation (input) OPT_SKIP_RX_COPY where "OPT_SKIP_RX_COPY \<equiv> Opt 32"
abbreviation (input) OPT_JSON_STREAM_FULL_OUTPUT where "OPT_JSON_STREAM_FULL_OUTPUT \<equiv> Opt 33"
abbreviation (input) OPT_SERVER_MAX_DURATION where "OPT_SERVER_MAX_DURATION \<equiv> Opt 34"
abbreviation (input) OPT_QUIC where "OPT_QUIC \<equiv> Opt 35"
abbreviation (input) OPT_QUIC_CERT where "OPT_QUIC_CERT \<equiv> Opt 36"
abbreviation (input) OPT_QUIC_KEY where "OPT_QUIC_KEY \<equiv> Opt 37"
abbreviation (input) OPT_QUIC_KEY_PASSWORD where "OPT_QUIC_KEY_PASSWORD \<equiv> Opt 38"
abbreviation (input) OPT_QUIC_P12 where "OPT_QUIC_P12 \<equiv> Opt 39"
abbreviation (input) OPT_QUIC_P12_PASSWORD where "OPT_QUIC_P12_PASSWORD \<equiv> Opt 40"
abbreviation (input) OPT_QUIC_PORT where "OPT_QUIC_PORT \<equiv> Opt 41"
abbreviation (input) OPT_QUIC_BUF where "OPT_QUIC_BUF \<equiv> Opt 42"

text \<open>The local variables of the parser beside the test.\<close>

record pstate =
  ptest :: iperf_test
  server_flag :: bool
  client_flag :: bool
  rate_flag :: bool
  duration_flag :: bool
  rcv_timeout_flag :: bool
  snd_timeout_flag :: bool
  p_blksize :: int
  p_client_username :: "string option"
  p_client_rsa_public_key :: "string option"
  p_server_rsa_private_key :: "string option"

datatype presult = Parsed pstate | Failed int | Exited int | Undefined

fun pbind :: "presult \<Rightarrow> (pstate \<Rightarrow> presult) \<Rightarrow> presult" where
  "pbind (Parsed s) f = f s"
| "pbind (Failed e) f = Failed e"
| "pbind (Exited n) f = Exited n"
| "pbind Undefined f = Undefined"

text \<open>What the parser asks the system and the libraries for: whether an address is an IPv6
  link-local literal, the size of a file, whether a file opens, the key loaders of OpenSSL, the
  password, and the preparation of the default QUIC certificate. Whether MsQuic is built in is part
  of it.\<close>

record args_env =
  linklocal :: "string \<Rightarrow> bool"
  file_size :: "string \<Rightarrow> u64 option"
  opens :: "string \<Rightarrow> bool"
  load_pubkey :: "string \<Rightarrow> string option"
  load_privkey :: "string \<Rightarrow> string option"
  password :: "string option"
  have_msquic :: bool
  default_p12_ok :: bool

definition upd :: "(iperf_test \<Rightarrow> iperf_test) \<Rightarrow> pstate \<Rightarrow> pstate" where
  "upd f s = s\<lparr>ptest := f (ptest s)\<rparr>"

definition updset :: "(iperf_settings \<Rightarrow> iperf_settings) \<Rightarrow> pstate \<Rightarrow> pstate" where
  "updset f s = s\<lparr>ptest := (ptest s)\<lparr>settings := f (settings (ptest s))\<rparr>\<rparr>"

definition cflag :: "pstate \<Rightarrow> pstate" where "cflag s = s\<lparr>client_flag := True\<rparr>"
definition sflag :: "pstate \<Rightarrow> pstate" where "sflag s = s\<lparr>server_flag := True\<rparr>"

text \<open>unit_atoi with the check of i_errno that follows every call: k gets the value.\<close>

definition with_unit_atoi :: "string \<Rightarrow> (u64 \<Rightarrow> presult) \<Rightarrow> presult" where
  "with_unit_atoi a k =
     (case unit_atoi a of None \<Rightarrow> Undefined | Some (v, e) \<Rightarrow> if e \<noteq> 0 then Failed e else k v)"

text \<open>unit_atof_rate assigned to an iperf_size_t: the assignment comes before the check, so an
  undefined conversion is met first.\<close>

definition with_rate :: "string \<Rightarrow> (u64 \<Rightarrow> presult) \<Rightarrow> presult" where
  "with_rate a k =
     (case unit_atof_rate a of (x, e) \<Rightarrow>
        (case double_to_u64 x of None \<Rightarrow> Undefined | Some v \<Rightarrow> if e \<noteq> 0 then Failed e else k v))"

section \<open>iperf_parse_hostname\<close>

text \<open>strtok with the delimiter %: the first token and the rest after its delimiter.\<close>

definition strtok_percent :: "string \<Rightarrow> (string \<times> string) option" where
  "strtok_percent s =
     (let s = dropWhile (\<lambda>c. c = CHR ''%'') s in
      if s = [] then None
      else Some (takeWhile (\<lambda>c. c \<noteq> CHR ''%'') s, drop 1 (dropWhile (\<lambda>c. c \<noteq> CHR ''%'') s)))"

text \<open>The result, and the two parts when both exist.\<close>

definition iperf_parse_hostname :: "(string \<Rightarrow> bool) \<Rightarrow> string \<Rightarrow> bool \<times> (string \<times> string) option" where
  "iperf_parse_hostname ll spec =
     (case strtok_percent spec of
        None \<Rightarrow> (False, None)
      | Some (p, r) \<Rightarrow>
          (case strtok_percent r of
             None \<Rightarrow> (False, None)
           | Some (p1, _) \<Rightarrow> (\<not> ll p, Some (p, p1))))"

section \<open>The cases of the switch\<close>

definition port_arg :: "string \<Rightarrow> (int \<Rightarrow> presult) \<Rightarrow> presult" where
  "port_arg a k = (let portno = atoi a in if portno < 1 \<or> portno > 65535 then Failed IEBADPORT else k portno)"

definition format_char :: "char \<Rightarrow> bool" where
  "format_char c \<longleftrightarrow> c \<in> set ''kKmMgGtT''"

definition parse_general :: "args_env \<Rightarrow> flag \<Rightarrow> string option \<Rightarrow> pstate \<Rightarrow> presult option" where
  "parse_general env fl optarg s =
     (let a = the optarg; t = ptest s in
      if fl = Sh (CHR ''p'') then Some (port_arg a (\<lambda>n. Parsed (upd (\<lambda>t. t\<lparr>server_port := n\<rparr>) s)))
      else if fl = Sh (CHR ''f'') then
        Some (case optarg of
                None \<Rightarrow> Failed IEBADFORMAT
              | Some a \<Rightarrow>
                  (let c = (case a of [] \<Rightarrow> CHR 0x00 | c # _ \<Rightarrow> c) in
                   if format_char c then Parsed (updset (\<lambda>x. x\<lparr>unit_format := c\<rparr>) s)
                   else Failed IEBADFORMAT))
      else if fl = Sh (CHR ''i'') then
        Some (let x = atof a in
              if (x < MIN_INTERVAL \<or> x > MAX_INTERVAL) \<and> x \<noteq> 0 then Failed IEINTERVAL
              else Parsed (upd (\<lambda>t. t\<lparr>stats_interval := x, reporter_interval := x\<rparr>) s))
      else if fl = Sh (CHR ''D'') then Some (Parsed (sflag (upd (\<lambda>t. t\<lparr>daemon := 1\<rparr>) s)))
      else if fl = Sh (CHR ''1'') then Some (Parsed (sflag (upd (\<lambda>t. t\<lparr>one_off := 1\<rparr>) s)))
      else if fl = Sh (CHR ''V'') then Some (Parsed (upd (\<lambda>t. t\<lparr>verbose := 1\<rparr>) s))
      else if fl = Sh (CHR ''J'') then Some (Parsed (upd (\<lambda>t. t\<lparr>json_output := 1\<rparr>) s))
      else if fl = OPT_JSON_STREAM then
        Some (Parsed (upd (\<lambda>t. t\<lparr>json_output := 1, json_stream := 1\<rparr>) s))
      else if fl = OPT_JSON_STREAM_FULL_OUTPUT then
        Some (Parsed (upd (\<lambda>t. t\<lparr>json_stream_full_output := 1\<rparr>) s))
      else if fl = Sh (CHR ''v'') then Some (Exited 0)
      else if fl = Sh (CHR ''s'') then
        Some (if role t = CHR ''c'' then Failed IESERVCLIENT
              else Parsed (upd (iperf_set_test_role (CHR ''s'')) s))
      else if fl = Sh (CHR ''c'') then
        Some (if role t = CHR ''s'' then Failed IESERVCLIENT
              else
                let s = upd (\<lambda>t. (iperf_set_test_role (CHR ''c'') t)\<lparr>server_hostname := Some a\<rparr>) s in
                (case iperf_parse_hostname (linklocal env) a of
                   (True, Some (p, p1)) \<Rightarrow>
                     Parsed (upd (\<lambda>t. t\<lparr>server_hostname := Some p, bind_dev := Some p1\<rparr>) s)
                 | _ \<Rightarrow> Parsed s))
      else None)"

text \<open>Without MsQuic every QUIC option is refused.\<close>

definition parse_quic :: "args_env \<Rightarrow> flag \<Rightarrow> string option \<Rightarrow> pstate \<Rightarrow> presult option" where
  "parse_quic env fl optarg s =
     (let a = the optarg; pass = (if a = [] then None else Some a) in
      if fl \<notin> {OPT_QUIC, OPT_QUIC_CERT, OPT_QUIC_KEY, OPT_QUIC_KEY_PASSWORD, OPT_QUIC_P12,
                OPT_QUIC_P12_PASSWORD, OPT_QUIC_PORT, OPT_QUIC_BUF} then None
      else if \<not> have_msquic env then Some (Failed IEUNIMP)
      else if fl = OPT_QUIC then Some (Parsed (upd (\<lambda>t. fst (snd (set_protocol Pquic t 0))) s))
      else if fl = OPT_QUIC_CERT then Some (Parsed (sflag (upd (\<lambda>t. t\<lparr>quic_cert_file := Some a\<rparr>) s)))
      else if fl = OPT_QUIC_KEY then Some (Parsed (sflag (upd (\<lambda>t. t\<lparr>quic_key_file := Some a\<rparr>) s)))
      else if fl = OPT_QUIC_KEY_PASSWORD then Some (Parsed (sflag (upd (\<lambda>t. t\<lparr>quic_key_password := pass\<rparr>) s)))
      else if fl = OPT_QUIC_P12 then Some (Parsed (sflag (upd (\<lambda>t. t\<lparr>quic_p12_file := Some a\<rparr>) s)))
      else if fl = OPT_QUIC_P12_PASSWORD then Some (Parsed (sflag (upd (\<lambda>t. t\<lparr>quic_p12_password := pass\<rparr>) s)))
      else if fl = OPT_QUIC_PORT then
        Some (let n = atoi a in
              if n \<le> 0 \<or> n > 65535 then Failed IEBADPORT else Parsed (upd (\<lambda>t. t\<lparr>quic_port := n\<rparr>) s))
      else
        Some (let n = to_uint (fst (strtol a 10)) in
              if n = 0 then Failed IEBUFSIZE else Parsed (upd (\<lambda>t. t\<lparr>quic_buf_size := n\<rparr>) s)))"

text \<open>The case b, which OPT_NUMSTREAMS falls into: burst after a slash, then the rate.\<close>

definition rate_case :: "string \<Rightarrow> pstate \<Rightarrow> presult" where
  "rate_case a s =
     (let (num, slash) = split_at (CHR ''/'') a in
      pbind (case slash of
               None \<Rightarrow> Parsed s
             | Some b \<Rightarrow>
                 (let n = atoi b in
                  if n \<le> 0 \<or> n > MAX_BURST then Failed IEBURST else Parsed (updset (\<lambda>x. x\<lparr>burst := n\<rparr>) s)))
        (\<lambda>s. with_rate num (\<lambda>v. Parsed (cflag (updset (\<lambda>x. x\<lparr>rate := v\<rparr>) s)\<lparr>rate_flag := True\<rparr>))))"

definition limit_case :: "string \<Rightarrow> pstate \<Rightarrow> presult" where
  "limit_case a s =
     (let (num, slash) = split_at (CHR ''/'') a in
      pbind (case slash of
               None \<Rightarrow> Parsed s
             | Some b \<Rightarrow>
                 (let x = atof b in
                  if x \<noteq> 0 \<and> (x < MIN_INTERVAL \<or> x > MAX_INTERVAL) then Failed IETOTALINTERVAL
                  else Parsed (updset (\<lambda>z. z\<lparr>bitrate_limit_interval := x\<rparr>) s)))
        (\<lambda>s. with_rate num (\<lambda>v. Parsed (sflag (updset (\<lambda>x. x\<lparr>bitrate_limit := v\<rparr>) s)))))"

definition parse_load :: "flag \<Rightarrow> string option \<Rightarrow> pstate \<Rightarrow> presult option" where
  "parse_load fl optarg s =
     (let a = the optarg; t = ptest s in
      if fl = Sh (CHR ''u'') then Some (Parsed (cflag (upd (\<lambda>t. fst (snd (set_protocol Pudp t 0))) s)))
      else if fl = OPT_SCTP then Some (Parsed (cflag (upd (\<lambda>t. fst (snd (set_protocol Psctp t 0))) s)))
      else if fl = OPT_NUMSTREAMS then
        Some (with_unit_atoi a (\<lambda>v.
          rate_case a (cflag (updset (\<lambda>x. x\<lparr>num_ostreams := to_int (uint v)\<rparr>) s))))
      else if fl = Sh (CHR ''b'') then Some (rate_case a s)
      else if fl = OPT_SERVER_BITRATE_LIMIT then Some (limit_case a s)
      else if fl = Sh (CHR ''t'') then
        Some (let n = atoi a in
              if n > MAX_TIME \<or> n < 0 then Failed IEDURATION
              else Parsed (cflag (upd (\<lambda>t. t\<lparr>duration := n\<rparr>) s)\<lparr>duration_flag := True\<rparr>))
      else if fl = Sh (CHR ''n'') then
        Some (with_unit_atoi a (\<lambda>v. Parsed (cflag (updset (\<lambda>x. x\<lparr>bytes := v\<rparr>) s))))
      else if fl = Sh (CHR ''k'') then
        Some (with_unit_atoi a (\<lambda>v. Parsed (cflag (updset (\<lambda>x. x\<lparr>blocks := v\<rparr>) s))))
      else if fl = Sh (CHR ''l'') then
        Some (with_unit_atoi a (\<lambda>v. Parsed (cflag s\<lparr>p_blksize := to_int (uint v)\<rparr>)))
      else if fl = Sh (CHR ''P'') then
        Some (let n = atoi a in
              if n > MAX_STREAMS then Failed IENUMSTREAMS
              else Parsed (cflag (upd (\<lambda>t. t\<lparr>num_streams := n\<rparr>) s)))
      else if fl = Sh (CHR ''R'') then
        Some (if bidirectional t \<noteq> 0 then Failed IEREVERSEBIDIR
              else Parsed (cflag (upd (iperf_set_test_reverse 1) s)))
      else if fl = OPT_BIDIRECTIONAL then
        Some (if reverse t \<noteq> 0 then Failed IEREVERSEBIDIR
              else Parsed (cflag (upd (iperf_set_test_bidirectional 1) s)))
      else if fl = Sh (CHR ''w'') then
        Some (case unit_atof a of (farg, e) \<Rightarrow>
                if e \<noteq> 0 then Failed e
                else if farg > of_int MAX_TCP_BUFFER then Failed IEBUFSIZE
                else (case double_to_s64 farg of
                        None \<Rightarrow> Undefined
                      | Some n \<Rightarrow> if n < - 2147483648 then Undefined
                                  else Parsed (cflag (updset (\<lambda>x. x\<lparr>socket_bufsize := n\<rparr>) s))))
      else None)"

definition parse_net :: "args_env \<Rightarrow> flag \<Rightarrow> string option \<Rightarrow> pstate \<Rightarrow> presult option" where
  "parse_net env fl optarg s =
     (let a = the optarg in
      if fl = Sh (CHR ''B'') then
        Some (let s = upd (\<lambda>t. t\<lparr>bind_address := Some a\<rparr>) s in
              case iperf_parse_hostname (linklocal env) a of
                (True, Some (p, p1)) \<Rightarrow> Parsed (upd (\<lambda>t. t\<lparr>bind_address := Some p, bind_dev := Some p1\<rparr>) s)
              | _ \<Rightarrow> Parsed s)
      else if fl = OPT_BIND_DEV then Some (Parsed (upd (\<lambda>t. t\<lparr>bind_dev := Some a\<rparr>) s))
      else if fl = OPT_CLIENT_PORT then Some (port_arg a (\<lambda>n. Parsed (upd (\<lambda>t. t\<lparr>bind_port := n\<rparr>) s)))
      else if fl = Sh (CHR ''M'') then
        Some (let n = atoi a in
              if n > MAX_MSS then Failed IEMSS else Parsed (cflag (updset (\<lambda>x. x\<lparr>mss := n\<rparr>) s)))
      else if fl = Sh (CHR ''N'') then Some (Parsed (cflag (upd (\<lambda>t. t\<lparr>no_delay := 1\<rparr>) s)))
      else if fl = Sh (CHR ''4'') then Some (Parsed (updset (\<lambda>x. x\<lparr>domain := 2\<rparr>) s))
      else if fl = Sh (CHR ''6'') then Some (Parsed (updset (\<lambda>x. x\<lparr>domain := 10\<rparr>) s))
      else if fl = Sh (CHR ''S'') then
        Some (case strtol a 0 of (v, endptr) \<Rightarrow>
                let n = to_int v in
                if endptr = a \<or> n < 0 \<or> n > 255 then Failed IEBADTOS
                else Parsed (cflag (updset (\<lambda>x. x\<lparr>tos := n\<rparr>) s)))
      else if fl = OPT_DSCP then
        Some (let n = parse_qos optarg in
              if n < 0 then Failed IEBADTOS else Parsed (cflag (updset (\<lambda>x. x\<lparr>tos := n\<rparr>) s)))
      else if fl = OPT_EXTRA_DATA then Some (Parsed (cflag (upd (\<lambda>t. t\<lparr>extra_data := Some a\<rparr>) s)))
      else if fl = Sh (CHR ''L'') then
        Some (case strtol a 0 of (v, endptr) \<Rightarrow>
                let n = to_int v in
                if endptr = a \<or> n < 1 \<or> n > 1048575 then Failed IESETFLOW
                else Parsed (cflag (updset (\<lambda>x. x\<lparr>flowlabel := n\<rparr>) s)))
      else if fl = Sh (CHR ''X'') then Some (Parsed (upd (\<lambda>t. t\<lparr>xbind_addrs := xbind_addrs t @ [a]\<rparr>) s))
      else if fl = Sh (CHR ''Z'') then Some (Parsed (cflag (upd (\<lambda>t. t\<lparr>zerocopy := 1\<rparr>) s)))
      else if fl = OPT_REPEATING_PAYLOAD then
        Some (Parsed (cflag (upd (\<lambda>t. t\<lparr>repeating_payload := 1\<rparr>) s)))
      else None)"

text \<open>The argument of --cntl-ka: idle/interval/count, every part optional.\<close>

definition cntl_ka_case :: "string option \<Rightarrow> iperf_settings \<Rightarrow> iperf_settings" where
  "cntl_ka_case optarg x =
     (let x = x\<lparr>cntl_ka := 1\<rparr> in
      case optarg of
        None \<Rightarrow> x
      | Some a \<Rightarrow>
          (let (idle, slash) = split_at (CHR ''/'') a;
               x = (case slash of
                      None \<Rightarrow> x
                    | Some r \<Rightarrow>
                        (let (intv, slash2) = split_at (CHR ''/'') r;
                             x = (case slash2 of
                                    None \<Rightarrow> x
                                  | Some c \<Rightarrow> if length c > 0 then x\<lparr>cntl_ka_count := atoi c\<rparr> else x)
                         in if length intv > 0 then x\<lparr>cntl_ka_interval := atoi intv\<rparr> else x))
           in if length idle > 0 then x\<lparr>cntl_ka_keepidle := atoi idle\<rparr> else x))"

definition parse_time :: "flag \<Rightarrow> string option \<Rightarrow> pstate \<Rightarrow> presult option" where
  "parse_time fl optarg s =
     (let a = the optarg in
      if fl = OPT_TIMESTAMPS then
        Some (Parsed (upd (\<lambda>t. t\<lparr>timestamps := 1,
          timestamp_format := Some (case optarg of Some a \<Rightarrow> a | None \<Rightarrow> ''%c '')\<rparr>) s))
      else if fl = Sh (CHR ''O'') then
        Some (let n = atoi a in
              if n < 0 \<or> n > MAX_OMIT_TIME then Failed IEOMIT
              else Parsed (cflag (upd (\<lambda>t. t\<lparr>omit := n\<rparr>) s)))
      else if fl = Sh (CHR ''F'') then Some (Parsed (upd (\<lambda>t. t\<lparr>diskfile_name := Some a\<rparr>) s))
      else if fl = OPT_IDLE_TIMEOUT then
        Some (let n = atoi a in
              if n < 1 \<or> n > MAX_TIME then Failed IEIDLETIMEOUT
              else Parsed (sflag (updset (\<lambda>x. x\<lparr>idle_timeout := n\<rparr>) s)))
      else if fl = OPT_SERVER_MAX_DURATION then
        Some (let n = atoi a in
              if n < 0 \<or> n > MAX_TIME then Failed IEDURATION
              else Parsed (sflag (upd (\<lambda>t. t\<lparr>max_server_duration := n\<rparr>) s)))
      else if fl = OPT_RCV_TIMEOUT then
        Some (let n = atoi a in
              if n < MIN_NO_MSG_RCVD_TIMEOUT \<or> n > MAX_TIME * SEC_TO_mS then Failed IERCVTIMEOUT
              else Parsed (updset (\<lambda>x. x\<lparr>rcv_timeout := \<lparr>secs = word_of_int (n div SEC_TO_mS),
                     usecs = word_of_int (n mod SEC_TO_mS * mS_TO_US)\<rparr>\<rparr>) s\<lparr>rcv_timeout_flag := True\<rparr>))
      else if fl = OPT_SND_TIMEOUT then
        Some (let n = to_uint (atoi a) in
              if n > MAX_TIME * SEC_TO_mS then Failed IESNDTIMEOUT
              else Parsed (updset (\<lambda>x. x\<lparr>snd_timeout := n\<rparr>) s\<lparr>snd_timeout_flag := True\<rparr>))
      else if fl = OPT_CNTL_KA then
        Some (let s = updset (cntl_ka_case optarg) s; x = settings (ptest s) in
              if cntl_ka_keepidle x \<noteq> 0
                 \<and> cntl_ka_keepidle x \<le> to_int (cntl_ka_count x * cntl_ka_interval x)
              then Failed IECNTLKA else Parsed s)
      else if fl = Sh (CHR ''A'') then
        Some (case strtol a 0 of (v, endptr) \<Rightarrow>
                let n = to_int v in
                if endptr = a \<or> n < 0 \<or> n > 1024 then Failed IEAFFINITY
                else
                  let s = upd (\<lambda>t. t\<lparr>affinity := n\<rparr>) s in
                  (case snd (split_at (CHR '','') a) of
                     None \<Rightarrow> Parsed s
                   | Some b \<Rightarrow>
                       (let m = atoi b in
                        if m < 0 \<or> m > 1024 then Failed IEAFFINITY
                        else Parsed (cflag (upd (\<lambda>t. t\<lparr>server_affinity := m\<rparr>) s)))))
      else None)"

definition parse_rest :: "flag \<Rightarrow> string option \<Rightarrow> pstate \<Rightarrow> presult option" where
  "parse_rest fl optarg s =
     (let a = the optarg in
      if fl = Sh (CHR ''T'') then Some (Parsed (cflag (upd (\<lambda>t. t\<lparr>title := Some a\<rparr>) s)))
      else if fl = Sh (CHR ''C'') then Some (Parsed (cflag (upd (\<lambda>t. t\<lparr>congestion := Some a\<rparr>) s)))
      else if fl = Sh (CHR ''d'') then
        Some (Parsed (upd (\<lambda>t. t\<lparr>debug := 1,
          debug_level := (case optarg of None \<Rightarrow> 4 | Some a \<Rightarrow> to_uint (atoi a))\<rparr>) s))
      else if fl = Sh (CHR ''I'') then Some (Parsed (upd (\<lambda>t. t\<lparr>pidfile := Some a\<rparr>) s))
      else if fl = OPT_LOGFILE then Some (Parsed (upd (\<lambda>t. t\<lparr>logfile := Some a\<rparr>) s))
      else if fl = OPT_FORCEFLUSH then Some (Parsed (upd (\<lambda>t. t\<lparr>forceflush := 1\<rparr>) s))
      else if fl = OPT_GET_SERVER_OUTPUT then Some (Parsed (cflag (upd (\<lambda>t. t\<lparr>get_server_output := 1\<rparr>) s)))
      else if fl = OPT_UDP_COUNTERS_64BIT then Some (Parsed (cflag (upd (\<lambda>t. t\<lparr>udp_counters_64bit := 1\<rparr>) s)))
      else if fl = OPT_NO_FQ_SOCKET_PACING then Some (Parsed (cflag (updset (\<lambda>x. x\<lparr>fqrate := 0\<rparr>) s)))
      else if fl = OPT_FQ_RATE then
        Some (with_rate a (\<lambda>v. Parsed (cflag (updset (\<lambda>x. x\<lparr>fqrate := v\<rparr>) s))))
      else if fl = OPT_DONT_FRAGMENT then Some (Parsed (cflag (updset (\<lambda>x. x\<lparr>dont_fragment := 1\<rparr>) s)))
      else if fl = OPT_CLIENT_USERNAME then Some (Parsed (cflag s\<lparr>p_client_username := Some a\<rparr>))
      else if fl = OPT_CLIENT_RSA_PUBLIC_KEY then Some (Parsed (cflag s\<lparr>p_client_rsa_public_key := Some a\<rparr>))
      else if fl = OPT_SERVER_RSA_PRIVATE_KEY then Some (Parsed (sflag s\<lparr>p_server_rsa_private_key := Some a\<rparr>))
      else if fl = OPT_SERVER_AUTHORIZED_USERS then
        Some (Parsed (upd (\<lambda>t. t\<lparr>server_authorized_users := Some a\<rparr>) s))
      else if fl = OPT_SERVER_SKEW_THRESHOLD then
        Some (let n = atoi a in
              if n \<le> 0 then Failed IESKEWTHRESHOLD
              else Parsed (sflag (upd (\<lambda>t. t\<lparr>server_skew_threshold := n\<rparr>) s)))
      else if fl = OPT_USE_PKCS1_PADDING then Some (Parsed (sflag (upd (\<lambda>t. t\<lparr>use_pkcs1_padding := 1\<rparr>) s)))
      else if fl = OPT_SKIP_RX_COPY then Some (Parsed (cflag (updset (\<lambda>x. x\<lparr>skip_rx_copy := 1\<rparr>) s)))
      else if fl = OPT_PACING_TIMER then
        Some (with_unit_atoi a (\<lambda>v. Parsed (cflag (updset (\<lambda>x. x\<lparr>pacing_timer := to_int (uint v)\<rparr>) s))))
      else if fl = OPT_CONNECT_TIMEOUT then
        Some (with_unit_atoi a (\<lambda>v. Parsed (cflag (updset (\<lambda>x. x\<lparr>connect_timeout := to_int (uint v)\<rparr>) s))))
      else if fl = Sh (CHR ''m'') then
        Some (Parsed (upd (\<lambda>t. (fst (snd (set_protocol Ptcp t 0)))\<lparr>mptcp := 1\<rparr>) s))
      else if fl = Sh (CHR ''h'') then Some (Exited 0)
      else None)"

definition parse_flag :: "args_env \<Rightarrow> flag \<Rightarrow> string option \<Rightarrow> pstate \<Rightarrow> presult" where
  "parse_flag env fl optarg s =
     (case parse_general env fl optarg s of Some r \<Rightarrow> r | None \<Rightarrow>
      case parse_quic env fl optarg s of Some r \<Rightarrow> r | None \<Rightarrow>
      case parse_load fl optarg s of Some r \<Rightarrow> r | None \<Rightarrow>
      case parse_net env fl optarg s of Some r \<Rightarrow> r | None \<Rightarrow>
      case parse_time fl optarg s of Some r \<Rightarrow> r | None \<Rightarrow>
      case parse_rest fl optarg s of Some r \<Rightarrow> r | None \<Rightarrow> Exited 1)"

fun parse_flags :: "args_env \<Rightarrow> (flag \<times> string option) list \<Rightarrow> pstate \<Rightarrow> presult" where
  "parse_flags env [] s = Parsed s"
| "parse_flags env ((fl, a) # args) s = pbind (parse_flag env fl a s) (parse_flags env args)"

section \<open>The checks after the loop\<close>

definition check_roles :: "pstate \<Rightarrow> presult" where
  "check_roles s =
     (if role (ptest s) = CHR ''c'' \<and> server_flag s then Failed IESERVERONLY
      else if role (ptest s) = CHR ''s'' \<and> client_flag s then Failed IECLIENTONLY
      else Parsed s)"

text \<open>A failure to prepare the default certificate returns -1 with the i_errno of that function.\<close>

definition quic_defaults :: "args_env \<Rightarrow> pstate \<Rightarrow> presult" where
  "quic_defaults env s =
     (if protocol (ptest s) \<noteq> Pquic then Parsed s
      else
        let s = (if quic_port (ptest s) = 0
                 then upd (\<lambda>t. let qp = server_port t + 1 in
                   t\<lparr>quic_port := (if qp > 0 \<and> qp \<le> 65535 then qp else server_port t)\<rparr>) s
                 else s);
            t = ptest s
        in if role t = CHR ''s'' \<and> quic_p12_file t = None \<and> quic_cert_file t = None \<and> quic_key_file t = None
           then let s = upd (\<lambda>t. t\<lparr>quic_p12_file := Some ''/tmp/iperf_quic.p12'', quic_p12_password := None\<rparr>) s
                in if default_p12_ok env then Parsed s else Failed IEQUICCERT
           else Parsed s)"

text \<open>The first chain of the HAVE_SSL block: the credentials of a client.\<close>

definition client_auth :: "args_env \<Rightarrow> pstate \<Rightarrow> presult" where
  "client_auth env s =
     (let r = role (ptest s) in
      if r = CHR ''s'' \<and> (p_client_username s \<noteq> None \<or> p_client_rsa_public_key s \<noteq> None)
      then Failed IECLIENTONLY
      else if r = CHR ''c'' then
        (case (p_client_username s, p_client_rsa_public_key s) of
           (None, None) \<Rightarrow> Parsed s
         | (Some u, Some k) \<Rightarrow>
             (case load_pubkey env k of
                None \<Rightarrow> Failed IESETCLIENTAUTH
              | Some key \<Rightarrow>
                  (case password env of
                     None \<Rightarrow> Failed IESETCLIENTAUTH
                   | Some pw \<Rightarrow>
                       Parsed (updset (\<lambda>x. x\<lparr>client_username := Some u, client_password := Some pw,
                         client_rsa_pubkey := Some key\<rparr>) s)))
         | _ \<Rightarrow> Failed IESETCLIENTAUTH)
      else Parsed s)"

text \<open>The second chain and the loading of the server's files.\<close>

definition server_auth :: "args_env \<Rightarrow> pstate \<Rightarrow> presult" where
  "server_auth env s =
     (let t = ptest s; r = role t; priv = p_server_rsa_private_key s; users = server_authorized_users t in
      if r = CHR ''c'' \<and> (priv \<noteq> None \<or> users \<noteq> None) then Failed IESERVERONLY
      else if r = CHR ''c'' \<and> server_skew_threshold t \<noteq> 0 then Failed IESERVERONLY
      else if r = CHR ''c'' \<and> rcv_timeout_flag s \<and> mode t = SENDER then Failed IERVRSONLYRCVTIMEOUT
      else if r = CHR ''s'' \<and> (priv \<noteq> None) \<noteq> (users \<noteq> None) then Failed IESETSERVERAUTH
      else
        pbind (case users of
                 Some u \<Rightarrow> if r = CHR ''s'' \<and> \<not> opens env u then Failed IESERVERAUTHUSERS else Parsed s
               | None \<Rightarrow> Parsed s)
          (\<lambda>s. case priv of
                 Some k \<Rightarrow>
                   if r = CHR ''s'' then
                     (case load_privkey env k of
                        None \<Rightarrow> Failed IESETSERVERAUTH
                      | Some key \<Rightarrow>
                          Parsed (upd (\<lambda>t. t\<lparr>server_rsa_private_key := Some key,
                            server_skew_threshold :=
                              (if server_skew_threshold t = 0 then 10 else server_skew_threshold t)\<rparr>) s))
                   else Parsed s
               | None \<Rightarrow> Parsed s))"

definition check_blksize :: "pstate \<Rightarrow> presult" where
  "check_blksize s =
     (let p = protocol (ptest s);
          b = (if p_blksize s = 0 then
                 (if p = Pudp then 0 else if p = Psctp then DEFAULT_SCTP_BLKSIZE else DEFAULT_TCP_BLKSIZE)
               else p_blksize s)
      in if diskfile_name (ptest s) \<noteq> None \<and> p = Pudp then Failed IEUDPFILETRANSFER
         else if (p \<noteq> Pudp \<and> b \<le> 0) \<or> b > MAX_BLOCKSIZE then Failed IEBLOCKSIZE
         else if p = Pudp \<and> b > 0 \<and> (b < MIN_UDP_BLOCKSIZE \<or> b > MAX_UDP_BLOCKSIZE) then Failed IEUDPBLOCKSIZE
         else Parsed (updset (\<lambda>x. x\<lparr>blksize := b\<rparr>) s))"

text \<open>The end conditions: the default rate, the size of the -F file as byte count, no duration when
  bytes or blocks end the test, and at most one of the three.\<close>

definition default_rate :: "pstate \<Rightarrow> pstate" where
  "default_rate s =
     (if rate_flag s then s
      else updset (\<lambda>x. x\<lparr>rate := (if protocol (ptest s) = Pudp then UDP_RATE else 0)\<rparr>) s)"

definition file_bytes :: "args_env \<Rightarrow> pstate \<Rightarrow> pstate" where
  "file_bytes env s =
     (let x = settings (ptest s) in
      if bytes x = 0 \<and> blocks x = 0 \<and> \<not> duration_flag s \<and> role (ptest s) = CHR ''c''
      then (case Option.bind (diskfile_name (ptest s)) (file_size env) of
              None \<Rightarrow> s
            | Some n \<Rightarrow> updset (\<lambda>x. x\<lparr>bytes := n\<rparr>) s)
      else s)"

definition no_duration :: "pstate \<Rightarrow> pstate" where
  "no_duration s =
     (let x = settings (ptest s) in
      if (bytes x \<noteq> 0 \<or> blocks x \<noteq> 0) \<and> \<not> duration_flag s then upd (\<lambda>t. t\<lparr>duration := 0\<rparr>) s else s)"

definition end_conditions :: "args_env \<Rightarrow> pstate \<Rightarrow> presult" where
  "end_conditions env s =
     (let s = no_duration (file_bytes env (default_rate s)); x = settings (ptest s) in
      if (duration_flag s \<and> bytes x \<noteq> 0) \<or> (duration_flag s \<and> blocks x \<noteq> 0)
         \<or> (bytes x \<noteq> 0 \<and> blocks x \<noteq> 0)
      then Failed IEENDCONDITIONS
      else if role (ptest s) \<noteq> CHR ''c'' \<and> role (ptest s) \<noteq> CHR ''s'' then Failed IENOROLE
      else Parsed s)"

text \<open>round of a quotient of doubles, converted to int: None when the divisor is zero (the quotient
  is an infinity) or the result does not fit.\<close>

definition c_round :: "real \<Rightarrow> int" where
  "c_round x = (if 0 \<le> x then \<lfloor>x + 1/2\<rfloor> else \<lceil>x - 1/2\<rceil>)"

definition limit_periods :: "real \<Rightarrow> real \<Rightarrow> int option" where
  "limit_periods interval stats =
     (if interval \<le> stats then Some 1
      else if stats = 0 then None
      else let n = c_round (interval / stats)
           in if - 2147483648 \<le> n \<and> n < 2147483648 then Some n else None)"

definition limit_interval :: "pstate \<Rightarrow> presult" where
  "limit_interval s =
     (let x = settings (ptest s) in
      if bitrate_limit_interval x \<noteq> 0 then
        (case limit_periods (bitrate_limit_interval x) (stats_interval (ptest s)) of
           None \<Rightarrow> Undefined
         | Some n \<Rightarrow> Parsed (updset (\<lambda>x. x\<lparr>bitrate_limit_stats_per_interval := n\<rparr>) s))
      else Parsed s)"

definition finish_arguments :: "args_env \<Rightarrow> pstate \<Rightarrow> presult" where
  "finish_arguments env s =
     pbind (check_roles s) (\<lambda>s.
     pbind (quic_defaults env s) (\<lambda>s.
     pbind (client_auth env s) (\<lambda>s.
     pbind (server_auth env s) (\<lambda>s.
     pbind (check_blksize s) (\<lambda>s.
     pbind (end_conditions env s) limit_interval)))))"

definition iperf_parse_arguments :: "args_env \<Rightarrow> iperf_test \<Rightarrow> (flag \<times> string option) list \<Rightarrow> presult" where
  "iperf_parse_arguments env t args =
     pbind (parse_flags env args
              \<lparr>ptest = t, server_flag = False, client_flag = False, rate_flag = False,
               duration_flag = False, rcv_timeout_flag = False, snd_timeout_flag = False,
               p_blksize = 0, p_client_username = None, p_client_rsa_public_key = None,
               p_server_rsa_private_key = None\<rparr>)
       (finish_arguments env)"

end
