(* ===== verification/Iperf_Args_Ok.thy ===== *)
theory Iperf_Args_Ok
  imports Iperf_Args
begin

text \<open>
  What a successful iperf_parse_arguments guarantees: limits is the set of bounds every option
  keeps, parsed_ok what holds of the test when the function returns 0.
\<close>

section \<open>Postconditions of the parser\<close>

definition pok :: "(pstate \<Rightarrow> bool) \<Rightarrow> presult \<Rightarrow> bool" where
  "pok P r = (case r of Parsed s \<Rightarrow> P s | _ \<Rightarrow> True)"

definition pok_opt :: "(pstate \<Rightarrow> bool) \<Rightarrow> presult option \<Rightarrow> bool" where
  "pok_opt P r = (case r of None \<Rightarrow> True | Some r \<Rightarrow> pok P r)"

lemma pok_simps [simp]:
  "pok P (Parsed s) = P s" "pok P (Failed e)" "pok P (Exited n)" "pok P Undefined"
  "pok P (pbind r f) = pok (\<lambda>s. pok P (f s)) r"
  "pok P (if b then r else r') = ((b \<longrightarrow> pok P r) \<and> (\<not> b \<longrightarrow> pok P r'))"
  "pok_opt P None" "pok_opt P (Some r) = pok P r"
  "pok_opt P (if b then x else y) = ((b \<longrightarrow> pok_opt P x) \<and> (\<not> b \<longrightarrow> pok_opt P y))"
  by (auto simp: pok_def pok_opt_def split: presult.splits)

lemma pok_mono: "pok P r \<Longrightarrow> (\<And>s. P s \<Longrightarrow> Q s) \<Longrightarrow> pok Q r"
  by (cases r) auto

lemma pok_with [simp]:
  "pok P (with_unit_atoi a k) = (\<forall>v. unit_atoi a = Some (v, 0) \<longrightarrow> pok P (k v))"
  "pok P (with_rate a k) = (\<forall>v. double_to_u64 (fst (unit_atof_rate a)) = Some v \<and> snd (unit_atof_rate a) = 0 \<longrightarrow> pok P (k v))"
  "pok P (port_arg a k2) = (1 \<le> atoi a \<and> atoi a \<le> 65535 \<longrightarrow> pok P (k2 (atoi a)))"
  by (auto simp: with_unit_atoi_def with_rate_def port_arg_def Let_def split: option.splits prod.splits)

lemma pok_option [simp]:
  "pok P (case z of None \<Rightarrow> r | Some x \<Rightarrow> f x) = ((z = None \<longrightarrow> pok P r) \<and> (\<forall>x. z = Some x \<longrightarrow> pok P (f x)))"
  by (cases z) auto

lemma pok_prod [simp]:
  "pok P (case z of (x, y) \<Rightarrow> g x y) = (\<forall>x y. z = (x, y) \<longrightarrow> pok P (g x y))"
  by (cases z) auto

section \<open>The bounds\<close>

definition limits :: "'a test_flags_scheme \<Rightarrow> bool" where
  "limits t \<longleftrightarrow>
     1 \<le> server_port t \<and> server_port t \<le> 65535 \<and> 0 \<le> bind_port t \<and> bind_port t \<le> 65535
     \<and> 0 \<le> quic_port t \<and> quic_port t \<le> 65535
     \<and> 0 \<le> duration t \<and> duration t \<le> MAX_TIME \<and> 0 \<le> max_server_duration t \<and> max_server_duration t \<le> MAX_TIME
     \<and> 0 \<le> omit t \<and> omit t \<le> MAX_OMIT_TIME \<and> num_streams t \<le> MAX_STREAMS
     \<and> (stats_interval t = 0 \<or> MIN_INTERVAL \<le> stats_interval t \<and> stats_interval t \<le> MAX_INTERVAL)
     \<and> reporter_interval t = stats_interval t
     \<and> affinity t \<le> 1024 \<and> server_affinity t \<le> 1024"

definition set_limits :: "iperf_settings \<Rightarrow> bool" where
  "set_limits x \<longleftrightarrow>
     0 \<le> burst x \<and> burst x \<le> MAX_BURST \<and> mss x \<le> MAX_MSS \<and> 0 \<le> tos x \<and> tos x \<le> 255
     \<and> 0 \<le> flowlabel x \<and> flowlabel x \<le> 1048575 \<and> socket_bufsize x \<le> MAX_TCP_BUFFER
     \<and> (bitrate_limit_interval x = 0 \<or> MIN_INTERVAL \<le> bitrate_limit_interval x
          \<and> bitrate_limit_interval x \<le> MAX_INTERVAL)
     \<and> 0 \<le> idle_timeout x \<and> idle_timeout x \<le> MAX_TIME \<and> 0 \<le> snd_timeout x \<and> snd_timeout x \<le> MAX_TIME * SEC_TO_mS
     \<and> wf_time (rcv_timeout x)"

definition direction_ok :: "'a test_flags_scheme \<Rightarrow> bool" where
  "direction_ok t \<longleftrightarrow> role t \<in> {CHR 0x00, CHR ''c'', CHR ''s''} \<and> \<not> (reverse t \<noteq> 0 \<and> bidirectional t \<noteq> 0)
     \<and> (role t \<noteq> CHR 0x00 \<longrightarrow> mode t = expected_mode (role t) (reverse t) (bidirectional t))"

definition cfg :: "pstate \<Rightarrow> bool" where
  "cfg s \<longleftrightarrow> limits (ptest s) \<and> set_limits (settings (ptest s)) \<and> direction_ok (ptest s)"

lemma limits_cong:
  "server_port t' = server_port t \<Longrightarrow> bind_port t' = bind_port t \<Longrightarrow> quic_port t' = quic_port t
    \<Longrightarrow> duration t' = duration t \<Longrightarrow> max_server_duration t' = max_server_duration t \<Longrightarrow> omit t' = omit t
    \<Longrightarrow> num_streams t' = num_streams t \<Longrightarrow> stats_interval t' = stats_interval t
    \<Longrightarrow> reporter_interval t' = reporter_interval t \<Longrightarrow> affinity t' = affinity t
    \<Longrightarrow> server_affinity t' = server_affinity t \<Longrightarrow> limits t' = limits t"
  by (simp add: limits_def)

lemma set_protocol_fields [simp]:
  "limits (fst (snd (set_protocol p t ie))) = limits t"
  "settings (fst (snd (set_protocol p t ie))) = settings t"
  "direction_ok (fst (snd (set_protocol p t ie))) = direction_ok t"
  by (auto simp: set_protocol_def limits_def direction_ok_def check_sender_has_retransmits_def)

lemma set_role_cfg [simp]:
  "limits (iperf_set_test_role r t) = limits t" "settings (iperf_set_test_role r t) = settings t"
  "limits (iperf_set_test_reverse d t) = limits t" "settings (iperf_set_test_reverse d t) = settings t"
  "limits (iperf_set_test_bidirectional d t) = limits t" "settings (iperf_set_test_bidirectional d t) = settings t"
  by (auto simp: iperf_set_test_role_def iperf_set_test_reverse_def iperf_set_test_bidirectional_def
      limits_def check_sender_has_retransmits_def Let_def)

lemma set_role_direction:
  "direction_ok t \<Longrightarrow> r = CHR ''c'' \<or> r = CHR ''s'' \<Longrightarrow> direction_ok (iperf_set_test_role r t)"
  "direction_ok t \<Longrightarrow> bidirectional t = 0 \<Longrightarrow> direction_ok (iperf_set_test_reverse d t)"
  "direction_ok t \<Longrightarrow> reverse t = 0 \<Longrightarrow> direction_ok (iperf_set_test_bidirectional d t)"
  by (auto simp: direction_ok_def iperf_set_test_role_def iperf_set_test_reverse_def
      iperf_set_test_bidirectional_def expected_mode_def check_sender_has_retransmits_def Let_def)

lemmas flag_defs = upd_def updset_def cflag_def sflag_def

lemma pok_opt_if: "pok_opt P x \<Longrightarrow> pok_opt P y \<Longrightarrow> pok_opt P (if b then x else y)"
  by simp

text \<open>An update outside the bounded fields keeps the bounds; inside them the case checked the value.\<close>

lemma cfg_simps:
  "cfg (upd f s) = (limits (f (ptest s)) \<and> set_limits (settings (f (ptest s))) \<and> direction_ok (f (ptest s)))"
  "cfg (updset g s) = (limits (ptest s) \<and> set_limits (g (settings (ptest s))) \<and> direction_ok (ptest s))"
  "cfg (cflag s) = cfg s" "cfg (sflag s) = cfg s" "cfg (s\<lparr>rate_flag := b\<rparr>) = cfg s"
  "cfg (s\<lparr>duration_flag := b\<rparr>) = cfg s" "cfg (s\<lparr>rcv_timeout_flag := b\<rparr>) = cfg s"
  "cfg (s\<lparr>snd_timeout_flag := b\<rparr>) = cfg s" "cfg (s\<lparr>p_blksize := n\<rparr>) = cfg s"
  "cfg (s\<lparr>p_client_username := u\<rparr>) = cfg s" "cfg (s\<lparr>p_client_rsa_public_key := u\<rparr>) = cfg s"
  "cfg (s\<lparr>p_server_rsa_private_key := u\<rparr>) = cfg s"
  by (simp_all add: cfg_def cflag_def sflag_def upd_def updset_def limits_def direction_ok_def)

lemma ptest_flags [simp]:
  "ptest (cflag s) = ptest s" "ptest (sflag s) = ptest s" "ptest (upd f s) = f (ptest s)"
  "ptest (updset g s) = (ptest s)\<lparr>settings := g (settings (ptest s))\<rparr>"
  by (simp_all add: cflag_def sflag_def upd_def updset_def)

lemmas bounds = limits_def set_limits_def direction_ok_def

text \<open>Names and devices are outside the bounds.\<close>

lemma free_fields [simp]:
  "limits (t\<lparr>server_hostname := x\<rparr>) = limits t" "direction_ok (t\<lparr>server_hostname := x\<rparr>) = direction_ok t"
  "limits (t\<lparr>bind_dev := x\<rparr>) = limits t" "direction_ok (t\<lparr>bind_dev := x\<rparr>) = direction_ok t"
  "limits (t\<lparr>bind_address := x\<rparr>) = limits t" "direction_ok (t\<lparr>bind_address := x\<rparr>) = direction_ok t"
  "limits (t\<lparr>mptcp := n\<rparr>) = limits t" "direction_ok (t\<lparr>mptcp := n\<rparr>) = direction_ok t"
  "limits (t\<lparr>settings := y\<rparr>) = limits t" "direction_ok (t\<lparr>settings := y\<rparr>) = direction_ok t"
  "set_limits (z\<lparr>num_ostreams := n\<rparr>) = set_limits z"
  by (simp_all add: limits_def direction_ok_def set_limits_def)

lemmas pok_rules = pok_simps pok_with pok_option pok_prod

lemma parse_general_cfg:
  assumes "limits (ptest s)" "set_limits (settings (ptest s))" "direction_ok (ptest s)"
  shows "pok_opt cfg (parse_general env fl a s)"
  unfolding parse_general_def Let_def
  apply (intro pok_opt_if)
  apply (simp_all only: pok_rules)
  apply (simp_all add: cfg_simps set_role_direction assms split: prod.split option.split bool.split)
  using assms by (simp_all add: bounds)

lemma parse_quic_cfg:
  assumes "limits (ptest s)" "set_limits (settings (ptest s))" "direction_ok (ptest s)"
  shows "pok_opt cfg (parse_quic env fl a s)"
  unfolding parse_quic_def Let_def
  apply (intro pok_opt_if)
  apply (simp_all only: pok_rules)
  apply (simp_all add: cfg_simps assms)
  using assms by (simp_all add: bounds)

lemma rate_case_cfg:
  assumes "limits (ptest s)" "set_limits (settings (ptest s))" "direction_ok (ptest s)"
  shows "pok cfg (rate_case a s)"
  using assms by (simp add: rate_case_def Let_def cfg_simps bounds split: prod.split option.split)

lemma limit_case_cfg:
  assumes "limits (ptest s)" "set_limits (settings (ptest s))" "direction_ok (ptest s)"
  shows "pok cfg (limit_case a s)"
  using assms by (simp add: limit_case_def Let_def cfg_simps bounds split: prod.split option.split)

lemma double_to_s64_le: "double_to_s64 x = Some n \<Longrightarrow> \<not> of_int k < x \<Longrightarrow> 0 \<le> k \<Longrightarrow> n \<le> k"
  by (auto simp: double_to_s64_def Let_def split: if_splits) linarith+

lemma cfgI: "limits (ptest s) \<Longrightarrow> set_limits (settings (ptest s)) \<Longrightarrow> direction_ok (ptest s) \<Longrightarrow> cfg s"
  by (simp add: cfg_def)

lemma parse_load_cfg:
  assumes "limits (ptest s)" "set_limits (settings (ptest s))" "direction_ok (ptest s)"
  shows "pok_opt cfg (parse_load fl a s)"
  unfolding parse_load_def Let_def
  apply (intro pok_opt_if)
  apply (simp_all only: pok_rules)
  apply (simp_all add: cfg_simps assms cfgI set_role_direction rate_case_cfg limit_case_cfg)
  using assms double_to_s64_le [of _ _ 536870912] by (simp_all add: bounds)

lemma parse_net_cfg:
  assumes "limits (ptest s)" "set_limits (settings (ptest s))" "direction_ok (ptest s)"
  shows "pok_opt cfg (parse_net env fl a s)"
proof -
  have q: "parse_qos a \<le> 255" using parse_qos_cases [of a] by auto
  show ?thesis
    unfolding parse_net_def Let_def
    apply (intro pok_opt_if)
    apply (simp_all only: pok_rules)
    apply (simp_all add: cfg_simps assms cfgI split: prod.split option.split bool.split)
    using assms q by (simp_all add: bounds)
qed

lemma wf_rcv: "0 \<le> n \<Longrightarrow> wf_time \<lparr>secs = word_of_int (n div 1000), usecs = word_of_int (n mod 1000 * 1000)\<rparr>"
proof -
  assume "0 \<le> n"
  have m: "0 \<le> n mod 1000 * 1000" "n mod 1000 * 1000 < 1000000" by simp_all
  then have "uint (word_of_int (n mod 1000 * 1000) :: u32) = n mod 1000 * 1000"
    using uint_word_of_int [of "n mod 1000 * 1000", where ?'a = 32] by (simp only:) simp
  with m(2) show ?thesis by (simp add: wf_time_def word_less_def)
qed

lemma cntl_ka_limits [simp]: "set_limits (cntl_ka_case a x) = set_limits x"
  by (simp add: cntl_ka_case_def set_limits_def Let_def split: prod.split option.split)

lemma parse_time_cfg:
  assumes "limits (ptest s)" "set_limits (settings (ptest s))" "direction_ok (ptest s)"
  shows "pok_opt cfg (parse_time fl a s)"
  unfolding parse_time_def Let_def
  apply (intro pok_opt_if)
  apply (simp_all only: pok_rules)
  apply (simp_all add: cfg_simps assms cfgI split: prod.split option.split)
  using assms wf_rcv by (simp_all add: bounds to_uint_def)

lemma parse_rest_cfg:
  assumes "limits (ptest s)" "set_limits (settings (ptest s))" "direction_ok (ptest s)"
  shows "pok_opt cfg (parse_rest fl a s)"
  unfolding parse_rest_def Let_def
  apply (intro pok_opt_if)
  apply (simp_all only: pok_rules)
  apply (simp_all add: cfg_simps assms cfgI)
  using assms by (simp_all add: bounds)

lemma parse_flag_cfg: "cfg s \<Longrightarrow> pok cfg (parse_flag env fl a s)"
proof -
  assume "cfg s"
  then have h: "limits (ptest s)" "set_limits (settings (ptest s))" "direction_ok (ptest s)"
    by (simp_all add: cfg_def)
  show ?thesis
    using parse_general_cfg [OF h, of env fl a] parse_quic_cfg [OF h, of env fl a] parse_load_cfg [OF h, of fl a]
      parse_net_cfg [OF h, of env fl a] parse_time_cfg [OF h, of fl a] parse_rest_cfg [OF h, of fl a]
    by (simp add: parse_flag_def pok_opt_def split: option.splits)
qed

lemma parse_flags_cfg: "cfg s \<Longrightarrow> pok cfg (parse_flags env args s)"
proof (induction args arbitrary: s)
  case (Cons x args)
  obtain fl a where x: "x = (fl, a)" by (cases x)
  from parse_flag_cfg [OF Cons.prems, of env fl a] show ?case
    unfolding x parse_flags.simps pok_simps by (rule pok_mono) (rule Cons.IH)
qed simp

section \<open>The final checks\<close>

definition blksize_ok :: "iperf_test \<Rightarrow> bool" where
  "blksize_ok t \<longleftrightarrow>
     (if protocol t = Pudp then blksize (settings t) = 0
          \<or> MIN_UDP_BLOCKSIZE \<le> blksize (settings t) \<and> blksize (settings t) \<le> MAX_UDP_BLOCKSIZE
          \<or> blksize (settings t) < 0
      else 0 < blksize (settings t) \<and> blksize (settings t) \<le> MAX_BLOCKSIZE)"

definition parsed_ok :: "pstate \<Rightarrow> bool" where
  "parsed_ok s \<longleftrightarrow> cfg s
     \<and> (role (ptest s) = CHR ''c'' \<and> \<not> server_flag s \<or> role (ptest s) = CHR ''s'' \<and> \<not> client_flag s)
     \<and> blksize_ok (ptest s)
     \<and> (diskfile_name (ptest s) = None \<or> protocol (ptest s) \<noteq> Pudp)
     \<and> \<not> (bytes (settings (ptest s)) \<noteq> 0 \<and> blocks (settings (ptest s)) \<noteq> 0)
     \<and> (bytes (settings (ptest s)) \<noteq> 0 \<or> blocks (settings (ptest s)) \<noteq> 0 \<longrightarrow> duration (ptest s) = 0)
     \<and> \<not> (role (ptest s) = CHR ''c'' \<and> mode (ptest s) = SENDER \<and> rcv_timeout_flag s)"

definition stage1 :: "pstate \<Rightarrow> bool" where
  "stage1 s \<longleftrightarrow> cfg s \<and> \<not> (role (ptest s) = CHR ''c'' \<and> server_flag s)
     \<and> \<not> (role (ptest s) = CHR ''s'' \<and> client_flag s)"

lemma free_fields2 [simp]:
  "limits (t\<lparr>quic_p12_file := x\<rparr>) = limits t" "direction_ok (t\<lparr>quic_p12_file := x\<rparr>) = direction_ok t"
  "limits (t\<lparr>quic_p12_password := x\<rparr>) = limits t" "direction_ok (t\<lparr>quic_p12_password := x\<rparr>) = direction_ok t"
  "direction_ok (t\<lparr>quic_port := n\<rparr>) = direction_ok t"
  "limits (t\<lparr>server_rsa_private_key := x\<rparr>) = limits t"
  "direction_ok (t\<lparr>server_rsa_private_key := x\<rparr>) = direction_ok t"
  "limits (t\<lparr>server_skew_threshold := n\<rparr>) = limits t" "direction_ok (t\<lparr>server_skew_threshold := n\<rparr>) = direction_ok t"
  "direction_ok (t\<lparr>duration := n\<rparr>) = direction_ok t"
  "set_limits (z\<lparr>client_username := x\<rparr>) = set_limits z" "set_limits (z\<lparr>client_password := x\<rparr>) = set_limits z"
  "set_limits (z\<lparr>client_rsa_pubkey := x\<rparr>) = set_limits z" "set_limits (z\<lparr>blksize := n\<rparr>) = set_limits z"
  "set_limits (z\<lparr>rate := r\<rparr>) = set_limits z" "set_limits (z\<lparr>bytes := r\<rparr>) = set_limits z"
  "set_limits (z\<lparr>bitrate_limit_stats_per_interval := n\<rparr>) = set_limits z"
  by (simp_all add: limits_def direction_ok_def set_limits_def)

lemma limits_ports: "limits t \<Longrightarrow> 1 \<le> server_port t \<and> server_port t \<le> 65535"
  "limits t \<Longrightarrow> 0 \<le> n \<Longrightarrow> n \<le> 65535 \<Longrightarrow> limits (t\<lparr>quic_port := n\<rparr>)"
  "limits t \<Longrightarrow> limits (t\<lparr>duration := 0\<rparr>)"
  by (simp_all add: limits_def)

lemma check_roles_ok: "cfg s \<Longrightarrow> pok stage1 (check_roles s)"
  by (simp add: check_roles_def stage1_def)

lemma quic_defaults_ok: "stage1 s \<Longrightarrow> pok stage1 (quic_defaults env s)"
  using limits_ports [of "ptest s"] by (auto simp: quic_defaults_def stage1_def cfg_def upd_def Let_def)

lemma client_auth_ok: "stage1 s \<Longrightarrow> pok stage1 (client_auth env s)"
  by (auto simp: client_auth_def stage1_def cfg_def updset_def Let_def split: option.splits)

definition stage2 :: "pstate \<Rightarrow> bool" where
  "stage2 s \<longleftrightarrow> stage1 s \<and> \<not> (role (ptest s) = CHR ''c'' \<and> mode (ptest s) = SENDER \<and> rcv_timeout_flag s)"

lemma server_auth_ok: "stage1 s \<Longrightarrow> pok stage2 (server_auth env s)"
  by (auto simp: server_auth_def stage2_def stage1_def cfg_def upd_def Let_def split: option.splits)

definition stage3 :: "pstate \<Rightarrow> bool" where
  "stage3 s \<longleftrightarrow> stage2 s \<and> blksize_ok (ptest s) \<and> (diskfile_name (ptest s) = None \<or> protocol (ptest s) \<noteq> Pudp)"

lemma check_blksize_ok: "stage2 s \<Longrightarrow> pok stage3 (check_blksize s)"
  by (auto simp: check_blksize_def stage3_def stage2_def stage1_def blksize_ok_def cfg_def updset_def Let_def)

lemma default_rate_ok: "stage3 s \<Longrightarrow> stage3 (default_rate s)"
  by (simp add: default_rate_def stage3_def stage2_def stage1_def cfg_def updset_def blksize_ok_def)

lemma file_bytes_ok: "stage3 s \<Longrightarrow> stage3 (file_bytes env s)"
  by (auto simp: file_bytes_def stage3_def stage2_def stage1_def cfg_def updset_def blksize_ok_def Let_def
      split: option.split)

lemma no_duration_ok:
  assumes "stage3 s"
  shows "stage3 (no_duration s)"
    and "duration_flag (no_duration s) \<or> bytes (settings (ptest (no_duration s))) = 0
        \<and> blocks (settings (ptest (no_duration s))) = 0 \<or> duration (ptest (no_duration s)) = 0"
  using assms limits_ports(3) [of "ptest s"]
  by (auto simp: no_duration_def stage3_def stage2_def stage1_def cfg_def upd_def blksize_ok_def Let_def)

lemma end_conditions_ok: "stage3 s \<Longrightarrow> pok parsed_ok (end_conditions env s)"
proof -
  assume "stage3 s"
  define q where "q = no_duration (file_bytes env (default_rate s))"
  have q: "stage3 q" "duration_flag q \<or> bytes (settings (ptest q)) = 0 \<and> blocks (settings (ptest q)) = 0
      \<or> duration (ptest q) = 0"
    unfolding q_def using no_duration_ok [OF file_bytes_ok [OF default_rate_ok [OF \<open>stage3 s\<close>]]] by auto
  then show ?thesis
    unfolding end_conditions_def Let_def q_def [symmetric]
    by (auto simp: parsed_ok_def stage3_def stage2_def stage1_def)
qed

lemma limit_interval_ok: "parsed_ok s \<Longrightarrow> pok parsed_ok (limit_interval s)"
  by (auto simp: limit_interval_def parsed_ok_def cfg_def updset_def blksize_ok_def Let_def)

lemma finish_ok: "cfg s \<Longrightarrow> pok parsed_ok (finish_arguments env s)"
  unfolding finish_arguments_def pok_simps
  apply (rule pok_mono [OF check_roles_ok], assumption)
  apply (rule pok_mono [OF quic_defaults_ok], assumption)
  apply (rule pok_mono [OF client_auth_ok], assumption)
  apply (rule pok_mono [OF server_auth_ok], assumption)
  apply (rule pok_mono [OF check_blksize_ok], assumption)
  apply (rule pok_mono [OF end_conditions_ok], assumption)
  by (rule limit_interval_ok)

lemma arguments_ok:
  assumes "limits t" "set_limits (settings t)" "direction_ok t"
    and "iperf_parse_arguments env t args = Parsed s"
  shows "parsed_ok s"
proof -
  have "pok parsed_ok (iperf_parse_arguments env t args)"
    unfolding iperf_parse_arguments_def pok_simps
    by (rule pok_mono [OF parse_flags_cfg finish_ok]) (use assms in \<open>simp_all add: cfg_def\<close>)
  with assms(4) show ?thesis by simp
qed

end
