(* ===== verification/Iperf_New.thy ===== *)
theory Iperf_New
  imports Iperf_Config
begin

text \<open>
  iperf_new_test of src/iperf_api.c: the structs as memset leaves them, and the test a program
  starts from, which iperf_defaults then fills.
\<close>

section \<open>Zeroed structs\<close>

definition zero_settings :: iperf_settings where
  "zero_settings = \<lparr>
    domain = 0, socket_bufsize = 0, blksize = 0, rate = 0, bitrate_limit = 0,
    bitrate_limit_interval = 0, bitrate_limit_stats_per_interval = 0, fqrate = 0,
    pacing_timer = 0, burst = 0, mss = 0, ttl = 0, tos = 0, flowlabel = 0, bytes = 0, blocks = 0,
    unit_format = CHR 0x00, num_ostreams = 0, dont_fragment = 0, authtoken = None,
    client_username = None, client_password = None, client_rsa_pubkey = None, skip_rx_copy = 0,
    connect_timeout = 0, idle_timeout = 0, snd_timeout = 0, rcv_timeout = zero_time, cntl_ka = 0,
    cntl_ka_keepidle = 0, cntl_ka_interval = 0, cntl_ka_count = 0\<rparr>"

definition zero_tcp_info :: tcp_info where
  "zero_tcp_info = \<lparr>
    tcpi_total_retrans = 0, tcpi_snd_cwnd = 0, tcpi_snd_mss = 0, tcpi_snd_wnd = 0, tcpi_rtt = 0,
    tcpi_rttvar = 0, tcpi_pmtu = 0, tcpi_reord_seen = 0\<rparr>"

definition zero_result :: iperf_stream_result where
  "zero_result = \<lparr>
    bytes_received = 0, bytes_sent = 0, bytes_received_this_interval = 0,
    bytes_sent_this_interval = 0, bytes_sent_omit = 0, stream_prev_total_retrans = 0,
    stream_retrans = 0, stream_reorder = 0, stream_max_rtt = 0, stream_min_rtt = 0,
    stream_sum_rtt = 0, stream_count_rtt = 0, stream_max_snd_cwnd = 0, stream_max_snd_wnd = 0,
    start_time = zero_time, end_time = zero_time, start_time_fixed = zero_time, sender_time = 0,
    receiver_time = 0, interval_results = []\<rparr>"

definition zero_stream :: iperf_stream where
  "zero_stream = \<lparr>
    thr = 0, thread_created = 0, stream_done = 0, local_port = 0, remote_port = 0, socket = 0, sid = 0,
    sender = 0, result = zero_result, send_timer = None, green_light = 0, buffer_fd = 0,
    buffer = [], pending_size = 0, diskfile_fd = 0, diskfile_left = 0, packet_count = 0,
    peer_packet_count = 0, peer_omitted_packet_count = 0, omitted_packet_count = 0, jitter = 0,
    prev_transit = 0, outoforder_packets = 0, omitted_outoforder_packets = 0, cnt_error = 0,
    omitted_cnt_error = 0, target = 0, snd_fn = Proto_routine, rcv_fn = Proto_routine,
    snd2_fn = None, rcv2_fn = None, stream_ctx = None\<rparr>"

definition zero_test :: iperf_test where
  "zero_test = \<lparr>
    role = CHR 0x00, mode = RECEIVER, sender_has_retransmits = 0, other_side_has_retransmits = 0,
    protocol = 0, protocols = [], server_hostname = None, tmp_template = None,
    bind_address = None, bind_dev = None, xbind_addrs = [], bind_port = 0, server_port = 0,
    quic_port = 0, omit = 0, duration = 0, max_server_duration = 0, diskfile_name = None,
    affinity = 0, server_affinity = 0, title = None, extra_data = None, congestion = None,
    congestion_used = None, remote_congestion_used = None, pidfile = None, logfile = None,
    server_authorized_users = None, server_rsa_private_key = None, server_skew_threshold = 0,
    use_pkcs1_padding = 0, quic_cert_file = None, quic_key_file = None, quic_key_password = None,
    quic_p12_file = None, quic_p12_password = None, quic_buf_size = 0, daemon = 0, one_off = 0,
    no_delay = 0, reverse = 0, bidirectional = 0, verbose = 0, json_output = 0, json_stream = 0,
    json_stream_full_output = 0, zerocopy = 0, debug = 0, debug_level = 0, get_server_output = 0,
    udp_counters_64bit = 0, forceflush = 0, multisend = 0, repeating_payload = 0, timestamps = 0,
    timestamp_format = None, mptcp = 0, num_streams = 0, stats_interval = 0,
    reporter_interval = 0, settings = zero_settings, state = 0, ctrl_sck = 0, mapped_v4 = 0,
    listener = 0, prot_listener = 0, ctrl_sck_mss = 0, summary_printed = 0, max_fd = 0,
    read_set = [], write_set = [], omitting = 0, omit_timer = None, timer = None, test_done = 0,
    stats_timer = None, reporter_timer = None, cpu_util = [0, 0, 0], remote_cpu_util = [0, 0, 0],
    test_bytes_sent = 0, blocks_sent = 0, test_bytes_received = 0, blocks_received = 0,
    bitrate_limit_stats_count = 0, bitrate_limit_intervals_traffic_bytes = [],
    bitrate_limit_last_interval_index = 0, bitrate_limit_exceeded = 0, server_last_run_rc = 0,
    server_forced_idle_restarts_count = 0, server_forced_no_msg_restarts_count = 0,
    server_test_number = 0, cookie = replicate COOKIE_SIZE 0, streams = [], server_output_list = []\<rparr>"

section \<open>iperf_new_test\<close>

text \<open>The flags tell which of the three calls of malloc obtain memory. MAX_INTERVAL intervals fit in
  the ring of the rate limit.\<close>

definition iperf_new_test :: "bool \<Rightarrow> bool \<Rightarrow> bool \<Rightarrow> int \<Rightarrow> iperf_test option \<times> int" where
  "iperf_new_test test_ok settings_ok ring_ok ie =
     (if \<not> test_ok then (None, IENEWTEST)
      else if \<not> settings_ok then (None, IENEWTEST)
      else if \<not> ring_ok then (None, IENEWTEST)
      else (Some (zero_test\<lparr>bitrate_limit_intervals_traffic_bytes := replicate 60 0\<rparr>), ie))"

text \<open>The test after iperf_new_test and iperf_defaults, when no call of malloc fails.\<close>

definition default_test :: iperf_test where
  "default_test = snd (iperf_defaults True True True (Some True)
     (zero_test\<lparr>bitrate_limit_intervals_traffic_bytes := replicate 60 0\<rparr>))"

lemma default_test_new:
  "iperf_new_test True True True ie = (Some t, ie) \<Longrightarrow> snd (iperf_defaults True True True (Some True) t) = default_test"
  by (auto simp: iperf_new_test_def default_test_def)

end
