(* ===== verification/Iperf_Util.thy ===== *)
theory Iperf_Util
  imports Iperf_Net Iperf_Cstr
begin

text \<open>
  Helpers of src/iperf_util.c: random bytes, the cookie that names a test, the repeating payload,
  the times of the CPU utilisation, and the comparison of cookies. Where the program exits because
  it has no randomness, the model has no result.
\<close>

section \<open>Filling buffers\<close>

text \<open>readentropy: fread returns all the bytes, or the program exits.\<close>

definition readentropy :: "nat \<Rightarrow> world \<Rightarrow> (u8 list \<times> world) option" where
  "readentropy n w =
     (if n = 0 then Some ([], w)
      else do {
        (r, w) \<leftarrow> next_reply w;
        case r of
          Fail _ \<Rightarrow> None
        | Ret _ bs \<Rightarrow> if length bs < n then None else Some (take n bs, w) })"

fun pattern_loop :: "nat \<Rightarrow> nat \<Rightarrow> u8 list" where
  "pattern_loop 0 counter = []"
| "pattern_loop (Suc n) counter =
     (48 + word_of_nat counter) # pattern_loop n (if counter \<ge> 9 then 0 else counter + 1)"

definition fill_with_repeating_pattern :: "nat \<Rightarrow> u8 list" where
  "fill_with_repeating_pattern n = pattern_loop n 0"

lemma pattern_loop_nth:
  "c \<le> 9 \<Longrightarrow> i < n \<Longrightarrow> pattern_loop n c ! i = 48 + word_of_nat ((c + i) mod 10)"
proof (induction n c arbitrary: i rule: pattern_loop.induct)
  case (2 n c)
  show ?case
  proof (cases i)
    case 0
    with 2 show ?thesis by simp
  next
    case (Suc j)
    have "(if c \<ge> 9 then 0 else c + 1) + j = (if c \<ge> 9 then j else Suc (c + j))" by simp
    moreover have "c \<ge> 9 \<Longrightarrow> j mod 10 = Suc (c + j) mod 10" using 2(2) by (simp add: mod_simps)
    ultimately show ?thesis using 2 Suc by (cases "c \<ge> 9") simp_all
  qed
qed simp

lemma pattern_length [simp]: "length (pattern_loop n c) = n"
  by (induction n c rule: pattern_loop.induct) auto

section \<open>The cookie\<close>

definition rndchars :: "u8 list" where
  "rndchars = map (\<lambda>c. word_of_nat (code c)) ''abcdefghijklmnopqrstuvwxyz234567''"

definition make_cookie :: "world \<Rightarrow> (u8 list \<times> world) option" where
  "make_cookie w = do {
     (out, w) \<leftarrow> readentropy 37 w;
     Some (map (\<lambda>b. rndchars ! (unat b mod 32)) (take 36 out) @ [0], w) }"

text \<open>strncmp, as far as it tells equal strings: up to n characters, or to a common NUL.\<close>

fun strncmp_eq :: "nat \<Rightarrow> u8 list \<Rightarrow> u8 list \<Rightarrow> bool" where
  "strncmp_eq 0 a b = True"
| "strncmp_eq (Suc n) (x # a) (y # b) = (x = y \<and> (x = 0 \<or> strncmp_eq n a b))"
| "strncmp_eq (Suc n) _ _ = True"

lemma rndchars_len: "length rndchars = 32"
  by (simp add: rndchars_def)

lemma rndchars_nonzero: "b \<in> set rndchars \<Longrightarrow> b \<noteq> 0"
proof -
  have "0 \<notin> set rndchars" unfolding rndchars_def by code_simp
  then show "b \<in> set rndchars \<Longrightarrow> b \<noteq> 0" by metis
qed

definition wf_cookie :: "u8 list \<Rightarrow> bool" where
  "wf_cookie c \<longleftrightarrow> (\<exists>b. c = b @ [0] \<and> length b = 36 \<and> set b \<subseteq> set rndchars)"

lemma make_cookie_wf: "make_cookie w = Some (c, w') \<Longrightarrow> wf_cookie c"
proof -
  assume "make_cookie w = Some (c, w')"
  then obtain out where o: "readentropy 37 w = Some (out, w')"
    "c = map (\<lambda>b. rndchars ! (unat b mod 32)) (take 36 out) @ [0]"
    by (auto simp: make_cookie_def Option.bind_eq_Some_conv)
  have "length out = 37"
    using o(1) by (cases "replies w"; cases "hd (replies w)")
      (auto simp: readentropy_def next_reply_def split: if_splits)
  moreover have "rndchars ! (unat b mod 32) \<in> set rndchars" for b :: u8
    by (rule nth_mem) (simp add: rndchars_len)
  ultimately show "wf_cookie c" unfolding wf_cookie_def using o(2)
    by (intro exI [of _ "map (\<lambda>b. rndchars ! (unat b mod 32)) (take 36 out)"]) auto
qed

lemma wf_cookie_length: "wf_cookie c \<Longrightarrow> length c = 37"
  by (auto simp: wf_cookie_def)

text \<open>On two cookies of full length the comparison is equality.\<close>

lemma strncmp_eq_refl [simp]: "strncmp_eq n a a"
proof (induction n arbitrary: a)
  case (Suc n)
  then show ?case by (cases a) auto
qed simp

lemma strncmp_eq_iff:
  assumes "0 \<notin> set b" "length a = Suc (length b)"
  shows "strncmp_eq (Suc (length b)) (b @ [0]) a \<longleftrightarrow> a = b @ [0]"
  using assms
proof (induction b arbitrary: a)
  case Nil
  then show ?case by (cases a) auto
next
  case (Cons x b)
  then obtain y c where "a = y # c" by (cases a) auto
  with Cons show ?case by auto
qed

lemma cookie_eq_iff: "wf_cookie c \<Longrightarrow> length a = 37 \<Longrightarrow> strncmp_eq 37 c a \<longleftrightarrow> a = c"
proof -
  assume c: "wf_cookie c" "length a = 37"
  then obtain b where b: "c = b @ [0]" "length b = 36" "set b \<subseteq> set rndchars" by (auto simp: wf_cookie_def)
  with rndchars_nonzero have "0 \<notin> set b" by blast
  from strncmp_eq_iff [OF this, of a] b c show "strncmp_eq 37 c a \<longleftrightarrow> a = c" by simp
qed

section \<open>Other helpers\<close>

abbreviation (input) EBADF :: int where "EBADF \<equiv> 9"

text \<open>select fails with EBADF exactly when a descriptor in the set is not open.\<close>

definition select_errno :: "fd list \<Rightarrow> world \<Rightarrow> world" where
  "select_errno S w = w\<lparr>errno := (if \<not> set S \<subseteq> fds w then EBADF else if errno w = EBADF then EINTR else errno w)\<rparr>"

text \<open>select on the descriptor with no time to wait.\<close>

definition is_closed :: "fd \<Rightarrow> world \<Rightarrow> (int \<times> world) option" where
  "is_closed f w = do {
     (r, w) \<leftarrow> sys_select f w;
     let (r, w) = (if f \<notin> fds w \<or> r < 0 then (-1, select_errno [f] w) else (r, w));
     Some (if r < 0 \<and> errno w = EBADF then 1 else 0, w) }"

lemma is_closed_iff: "is_closed f w = Some (r, w') \<Longrightarrow> r = (if f \<in> fds w' then 0 else 1)"
  by (auto simp: is_closed_def select_errno_def fds_def Let_def Option.bind_eq_Some_conv split: if_splits)

text \<open>struct timeval: seconds and microseconds.\<close>

definition timeval_to_double :: "int \<times> int \<Rightarrow> real" where
  "timeval_to_double tv = of_int (fst tv + c_div (snd tv) 1000000)"

definition timeval_equals :: "int \<times> int \<Rightarrow> int \<times> int \<Rightarrow> int" where
  "timeval_equals tv0 tv1 = (if fst tv0 = fst tv1 \<and> snd tv0 = snd tv1 then 1 else 0)"

definition timeval_diff :: "int \<times> int \<Rightarrow> int \<times> int \<Rightarrow> real" where
  "timeval_diff tv0 tv1 =
     (let time1 = of_int (fst tv0) + of_int (snd tv0) / 1000000;
          time2 = of_int (fst tv1) + of_int (snd tv1) / 1000000;
          time1 = time1 - time2
      in if time1 < 0 then - time1 else time1)"

text \<open>What cpu_util keeps between two calls, and the readings it takes: the clock, clock(3) in
  microseconds, and the user and system time of getrusage in microseconds. A division by a time
  difference of zero is infinite or not a number in C; the real quotient is 0.\<close>

record cpu_times =
  c_last :: iperf_time
  c_clock :: int
  c_user :: real
  c_system :: real

definition cpu_util_since :: "cpu_times \<Rightarrow> cpu_times \<Rightarrow> real list" where
  "cpu_util_since before now =
     (let timediff = real (unat (iperf_time_in_usecs (snd (iperf_time_diff (c_last now) (c_last before)))));
          userdiff = c_user now - c_user before;
          systemdiff = c_system now - c_system before
      in [of_int (c_clock now - c_clock before) / timediff * 100, userdiff / timediff * 100,
          systemdiff / timediff * 100])"

text \<open>The text for a protocol state.\<close>

definition state_to_text :: "int \<Rightarrow> string" where
  "state_to_text st =
     (if st = 0 then ''Test reset''
      else if st = 1 then ''TEST_START - starting a new test''
      else if st = 2 then ''TEST_RUNNING''
      else if st = 4 then ''TEST_END''
      else if st = 9 then ''PARAM_EXCHANGE - Client to Server Parameters Exchange''
      else if st = 10 then ''CREATE_STREAMS''
      else if st = 11 then ''SERVER_TERMINATE''
      else if st = 12 then ''CLIENT_TERMINATE''
      else if st = 13 then ''EXCHANGE_RESULTS''
      else if st = 14 then ''DISPLAY_RESULTS''
      else if st = 15 then ''IPERF_START - waiting for a new test''
      else if st = 16 then ''IPERF_DONE''
      else if st = -1 then ''ACCESS_DENIED - Server is busy''
      else if st = -2 then ''SERVER_ERROR''
      else ''Unknown State'')"

end
