(* ===== verification/Iperf_Streams.thy ===== *)
theory Iperf_Streams
  imports Iperf_Util Iperf_New Iperf_Quic
begin

text \<open>
  The streams of a test: iperf_common_sockopts, iperf_init_stream, iperf_add_stream and
  iperf_new_stream of src/iperf_api.c. The lemmas say which ids the streams of a test get, and what
  a new stream holds when the function succeeds and when it fails.
\<close>

section \<open>Options of a data socket\<close>

definition iperf_common_sockopts :: "iperf_test \<Rightarrow> fd \<Rightarrow> world \<Rightarrow> (int \<times> world) option" where
  "iperf_common_sockopts t s w =
     (let opt = tos (settings t) in
      if opt = 0 then Some (0, w)
      else do {
        (d, w) \<leftarrow> getsockdomain s w;
        if d = AF_INET6 then do {
          (r, w) \<leftarrow> sys_ok (EvSetopt s ''IPV6_TCLASS'' opt True) w;
          if r < 0 then Some (-1, w\<lparr>i_errno := IESETCOS\<rparr>)
          else if mapped_v4 t \<noteq> 0 then do {
            (_, w) \<leftarrow> sys_ok (EvSetopt s ''IP_TOS'' opt True) w;
            Some (0, w) }
          else Some (0, w) }
        else do {
          (r, w) \<leftarrow> sys_ok (EvSetopt s ''IP_TOS'' opt True) w;
          if r < 0 then Some (-1, w\<lparr>i_errno := IESETTOS\<rparr>) else Some (0, w) } })"

text \<open>The addresses of the two ends are kept for the output only.\<close>

definition iperf_init_stream :: "iperf_stream \<Rightarrow> iperf_test \<Rightarrow> world \<Rightarrow> (int \<times> world) option" where
  "iperf_init_stream sp t w =
     (if protocol t = Pquic then Some (0, w)
      else do {
        (r, w) \<leftarrow> sys_val [] w;
        if r < 0 then Some (-1, w\<lparr>i_errno := IEINITSTREAM\<rparr>)
        else do {
          (r, w) \<leftarrow> sys_val [] w;
          if r < 0 then Some (-1, w\<lparr>i_errno := IEINITSTREAM\<rparr>)
          else if protocol t = Pudp then do {
            (d, w) \<leftarrow> getsockdomain (socket sp) w;
            if d = AF_INET \<and> dont_fragment (settings t) \<noteq> 0 then do {
              (r, w) \<leftarrow> sys_ok (EvSetopt (socket sp) ''IP_MTU_DISCOVER'' 2 True) w;
              if r < 0 then Some (-1, w\<lparr>i_errno := IESETDONTFRAGMENT\<rparr>) else Some (0, w) }
            else Some (0, w) }
          else Some (0, w) } })"

section \<open>Adding a stream\<close>

text \<open>The counter starts at 2 and is incremented for every stream already there.\<close>

definition iperf_add_stream :: "iperf_test \<Rightarrow> iperf_stream \<Rightarrow> iperf_test \<times> iperf_stream" where
  "iperf_add_stream t sp =
     (let sp = sp\<lparr>sid := (if streams t = [] then 1 else 2 + int (length (streams t)))\<rparr>
      in (t\<lparr>streams := streams t @ [sp]\<rparr>, sp))"

section \<open>A new stream\<close>

text \<open>The results of the two calls of malloc.\<close>

record stream_env =
  stream_mem :: bool
  result_mem :: bool

text \<open>The file behind the buffer: mkstemp, unlink, ftruncate, mmap. A negative length is refused by
  ftruncate, a length of zero by mmap. The descriptor is not closed when a later call fails.\<close>

definition buffer_file :: "int \<Rightarrow> world \<Rightarrow> (fd option \<times> world) option" where
  "buffer_file len w = do {
     (f, w) \<leftarrow> sys_open w;
     if f = -1 then Some (None, w\<lparr>i_errno := IECREATESTREAM\<rparr>)
     else do {
       (r, w) \<leftarrow> sys_val [] w;
       if r < 0 then Some (None, w\<lparr>i_errno := IECREATESTREAM\<rparr>)
       else do {
         (r, w) \<leftarrow> sys_val [] w;
         if r < 0 \<or> len < 0 then Some (None, w\<lparr>i_errno := IECREATESTREAM\<rparr>)
         else do {
           (r, w) \<leftarrow> sys_val [] w;
           if r < 0 \<or> len = 0 then Some (None, w\<lparr>i_errno := IECREATESTREAM\<rparr>)
           else Some (Some f, w) } } } }"

text \<open>The -F file of a stream takes the place of the protocol's routines.\<close>

definition open_diskfile :: "iperf_test \<Rightarrow> iperf_stream \<Rightarrow> world \<Rightarrow> (int \<times> iperf_stream \<times> world) option" where
  "open_diskfile t sp w =
     (if diskfile_name t = None then Some (0, sp\<lparr>diskfile_fd := -1\<rparr>, w)
      else do {
        (f, w) \<leftarrow> sys_open w;
        if f = -1 then Some (-1, sp\<lparr>diskfile_fd := f\<rparr>, w\<lparr>i_errno := IEFILE\<rparr>)
        else Some (0, sp\<lparr>diskfile_fd := f, snd2_fn := Some (snd_fn sp), snd_fn := Diskfile_routine,
                         rcv2_fn := Some (rcv_fn sp), rcv_fn := Diskfile_routine\<rparr>, w) })"

definition fill_buffer :: "iperf_test \<Rightarrow> world \<Rightarrow> (u8 list \<times> world) option" where
  "fill_buffer t w =
     (let n = nat (blksize (settings t)) in
      if repeating_payload t \<noteq> 0 then Some (fill_with_repeating_pattern n, w) else readentropy n w)"

definition iperf_new_stream :: "stream_env \<Rightarrow> iperf_test \<Rightarrow> fd \<Rightarrow> int \<Rightarrow> world
    \<Rightarrow> (iperf_stream option \<times> iperf_test \<times> world) option" where
  "iperf_new_stream env t s snder w =
     (if \<not> stream_mem env then Some (None, t, w\<lparr>i_errno := IECREATESTREAM\<rparr>)
      else if \<not> result_mem env then Some (None, t, w\<lparr>i_errno := IECREATESTREAM\<rparr>)
      else do {
        let sp = zero_stream\<lparr>sender := snder\<rparr>;
        (bf, w) \<leftarrow> buffer_file (blksize (settings t)) w;
        case bf of
          None \<Rightarrow> Some (None, t, w)
        | Some f \<Rightarrow> do {
            let sp = sp\<lparr>buffer_fd := f, pending_size := 0, socket := s, snd_fn := Proto_routine,
                       rcv_fn := Proto_routine\<rparr>;
            (r, sp, w) \<leftarrow> (if protocol t = Pquic then iperf_quic_attach_stream t sp s w else Some (0, sp, w));
            if r < 0 then Some (None, t, sys_close f w)
            else do {
              (r, sp, w) \<leftarrow> open_diskfile t sp w;
              if r < 0 then Some (None, t, w)
              else do {
                (buf, w) \<leftarrow> fill_buffer t w;
                let sp = sp\<lparr>buffer := buf\<rparr>;
                (r, w) \<leftarrow> iperf_init_stream sp t w;
                if r < 0 then Some (None, t, sys_close (buffer_fd sp) w)
                else (case iperf_add_stream t sp of (t, sp) \<Rightarrow> Some (Some sp, t, w)) } } } })"

section \<open>The ids of the streams\<close>

text \<open>The ids run 1, 3, 4, 5 and so on: they depend only on the order of creation, so both ends of a
  test give the same ids to the same number of streams.\<close>

definition nth_sid :: "nat \<Rightarrow> int" where
  "nth_sid n = (if n = 0 then 1 else 2 + int n)"

definition ids_ok :: "iperf_stream list \<Rightarrow> bool" where
  "ids_ok sps \<longleftrightarrow> map sid sps = map nth_sid [0..<length sps]"

lemma nth_sid_inj: "inj nth_sid"
  by (auto simp: inj_def nth_sid_def split: if_splits)

lemma ids_ok_distinct: "ids_ok sps \<Longrightarrow> distinct (map sid sps)"
  using nth_sid_inj by (simp add: ids_ok_def distinct_map inj_on_subset [of _ UNIV])

lemma ids_ok_same: "ids_ok xs \<Longrightarrow> ids_ok ys \<Longrightarrow> length xs = length ys \<Longrightarrow> map sid xs = map sid ys"
  by (simp add: ids_ok_def)

lemma add_stream_ids:
  "ids_ok (streams t) \<Longrightarrow> iperf_add_stream t sp = (t', sp') \<Longrightarrow> ids_ok (streams t') \<and> length (streams t') = Suc (length (streams t))"
  by (auto simp: iperf_add_stream_def ids_ok_def nth_sid_def Let_def split: if_splits)


section \<open>What a new stream holds\<close>

lemma held_ie [simp]: "held v (w\<lparr>i_errno := e\<rparr>) F A = held v w F A"
  by (simp add: held_def later_def fds_def addrs_def)

lemma held_readentropy [vcg]:
  assumes "held v w F A" "\<And>bs w'. held v w' F A \<Longrightarrow> length bs = n \<Longrightarrow> Q (bs, w')"
  shows "post (readentropy n w) Q"
proof (cases "replies w")
  case (Cons r rs)
  have "held v (w\<lparr>replies := rs\<rparr>) F A"
    using assms(1) Cons by (auto simp: held_def later_def fds_def addrs_def)
  with assms Cons show ?thesis
    by (cases r) (auto simp: readentropy_def next_reply_def)
qed (use assms in \<open>simp add: readentropy_def next_reply_def\<close>)

lemma held_buffer_file [vcg]:
  assumes h: "held v w F A"
    and fail: "\<And>w' f. held v w' F A \<or> f \<notin> F \<and> held v w' (insert f F) A \<Longrightarrow> Q (None, w')"
    and ok: "\<And>w' f. held v w' (insert f F) A \<Longrightarrow> 0 \<le> f \<Longrightarrow> f \<notin> F \<Longrightarrow> Q (Some f, w')"
  shows "post (buffer_file n w) Q"
  unfolding buffer_file_def
  by (auto intro!: held_open [OF h] held_val [where v = v and F = "insert f F" and A = A for f] fail ok intro: fail)

lemma held_getsockdomain [vcg]:
  "held v w F A \<Longrightarrow> (\<And>r w'. held v w' F A \<Longrightarrow> Q (r, w')) \<Longrightarrow> post (getsockdomain s w) Q"
  unfolding getsockdomain_def by (rule held_val)

lemma held_common_sockopts [vcg]:
  assumes "held v w F A" "\<And>r w'. held v w' F A \<Longrightarrow> r = 0 \<or> r = -1 \<Longrightarrow> Q (r, w')"
  shows "post (iperf_common_sockopts t s w) Q"
  unfolding iperf_common_sockopts_def Let_def using assms
  by (auto intro!: held_getsockdomain [where v = v and F = F and A = A] held_ok [where v = v and F = F and A = A])

lemma held_init_stream [vcg]:
  assumes "held v w F A" "\<And>r w'. held v w' F A \<Longrightarrow> r = 0 \<or> r = -1 \<Longrightarrow> Q (r, w')"
  shows "post (iperf_init_stream sp t w) Q"
  unfolding iperf_init_stream_def using assms
  by (auto intro!: held_val [where v = v and F = F and A = A] held_getsockdomain [where v = v and F = F and A = A]
      held_ok [where v = v and F = F and A = A])

lemma held_fill_buffer [vcg]:
  assumes "held v w F A" "\<And>bs w'. held v w' F A \<Longrightarrow> length bs = nat (blksize (settings t)) \<Longrightarrow> Q (bs, w')"
  shows "post (fill_buffer t w) Q"
  unfolding fill_buffer_def Let_def using assms
  by (auto intro!: held_readentropy [where v = v and F = F and A = A] simp: fill_with_repeating_pattern_def)

text \<open>The descriptors a stream has of its own, besides its socket.\<close>

definition own_fds :: "iperf_stream \<Rightarrow> fd set" where
  "own_fds sp = insert (buffer_fd sp) (if diskfile_fd sp \<ge> 0 then {diskfile_fd sp} else {})"

text \<open>The stream added by a call that succeeds: the last one of the test, on the socket given, with a
  buffer of the block size and descriptors that were not open before.\<close>

definition stream_added :: "iperf_test \<Rightarrow> fd \<Rightarrow> int \<Rightarrow> fd set \<Rightarrow> iperf_stream \<Rightarrow> iperf_test \<Rightarrow> bool" where
  "stream_added t s snder F sp t' \<longleftrightarrow> t' = t\<lparr>streams := streams t @ [sp]\<rparr> \<and> socket sp = s \<and> sender sp = snder
     \<and> sid sp = nth_sid (length (streams t)) \<and> length (buffer sp) = nat (blksize (settings t))
     \<and> own_fds sp \<inter> F = {} \<and> thread_created sp = 0 \<and> stream_done sp = 0 \<and> result sp = zero_result \<and> send_timer sp = None"

lemma held_open_diskfile [vcg]:
  assumes h: "held v w F A"
    and fail: "\<And>sp' w'. held v w' F A \<Longrightarrow> Q (-1, sp', w')"
    and none: "\<And>w'. held v w' F A \<Longrightarrow> Q (0, sp\<lparr>diskfile_fd := -1\<rparr>, w')"
    and opened: "\<And>f w'. held v w' (insert f F) A \<Longrightarrow> 0 \<le> f \<Longrightarrow> f \<notin> F \<Longrightarrow> Q (0, sp\<lparr>diskfile_fd := f,
        snd2_fn := Some (snd_fn sp), snd_fn := Diskfile_routine, rcv2_fn := Some (rcv_fn sp),
        rcv_fn := Diskfile_routine\<rparr>, w')"
  shows "post (open_diskfile t sp w) Q"
  unfolding open_diskfile_def by (auto intro!: held_open [OF h] h fail none opened)

lemma held_new_stream:
  assumes h: "held v w F A" and np: "protocol t \<noteq> Pquic"
    and fail: "\<And>w' G. held v w' G A \<Longrightarrow> F \<subseteq> G \<Longrightarrow> Q (None, t, w')"
    and ok: "\<And>sp t' w'. held v w' (own_fds sp \<union> F) A \<Longrightarrow> stream_added t s snder F sp t' \<Longrightarrow> Q (Some sp, t', w')"
  shows "post (iperf_new_stream env t s snder w) Q"
proof -
  have fin: "post (do { (buf, w) \<leftarrow> fill_buffer t w1;
        let sp = sp\<lparr>buffer := buf\<rparr>;
        (r, w) \<leftarrow> iperf_init_stream sp t w;
        if r < 0 then Some (None, t, sys_close (buffer_fd sp) w)
        else (case iperf_add_stream t sp of (t, sp) \<Rightarrow> Some (Some sp, t, w)) }) Q"
    if h1: "held v w1 (own_fds sp \<union> F) A" and sp: "own_fds sp \<inter> F = {}" "socket sp = s" "sender sp = snder"
      "thread_created sp = 0" "stream_done sp = 0" "result sp = zero_result" "send_timer sp = None"
    for sp and w1 :: world
  proof -
    have "buffer_fd sp \<notin> F" using sp(1) by (simp add: own_fds_def)
    then have c: "Q (None, t, sys_close (buffer_fd sp) w')" if "held v w' (own_fds sp \<union> F) A" for w'
      using held_close [OF that, of "buffer_fd sp"] by (intro fail) auto
    have o: "own_fds (sp\<lparr>buffer := b, sid := i\<rparr>) = own_fds sp" for b i by (simp add: own_fds_def)
    have a: "Q (Some (sp\<lparr>buffer := buf, sid := nth_sid (length (streams t))\<rparr>),
        t\<lparr>streams := streams t @ [sp\<lparr>buffer := buf, sid := nth_sid (length (streams t))\<rparr>]\<rparr>, w')"
      if "held v w' (own_fds sp \<union> F) A" "length buf = nat (blksize (settings t))" for buf w'
      using that sp by (intro ok) (simp_all add: o stream_added_def)
    have a0: "Q (Some (sp\<lparr>buffer := buf, sid := 1\<rparr>), t\<lparr>streams := [sp\<lparr>buffer := buf, sid := 1\<rparr>]\<rparr>, w')"
      if "streams t = []" "held v w' (own_fds sp \<union> F) A" "length buf = nat (blksize (settings t))" for buf w'
      using a [OF that(2,3)] that(1) by (simp add: nth_sid_def)
    have a1: "Q (Some (sp\<lparr>buffer := buf, sid := 2 + int (length (streams t))\<rparr>),
        t\<lparr>streams := streams t @ [sp\<lparr>buffer := buf, sid := 2 + int (length (streams t))\<rparr>]\<rparr>, w')"
      if "streams t \<noteq> []" "held v w' (own_fds sp \<union> F) A" "length buf = nat (blksize (settings t))" for buf w'
      using a [OF that(2,3)] that(1) by (simp add: nth_sid_def)
    show ?thesis
      by (auto intro!: held_fill_buffer [OF h1] held_init_stream [where v = v and F = "own_fds sp \<union> F" and A = A]
          intro: c a0 a1 simp: iperf_add_stream_def Let_def split: prod.splits)
  qed
  show ?thesis
  proof (cases "stream_mem env \<and> result_mem env")
    case False
    with h show ?thesis by (auto simp: iperf_new_stream_def intro!: fail [of _ F])
  next
    case True
    then have env: "stream_mem env" "result_mem env" by auto
    have leak: "Q (None, t, w')" if "held v w' F A \<or> f \<notin> F \<and> held v w' (insert f F) A" for w' f
      using that fail by blast
    have rest: "post (do { (r, sp, w) \<leftarrow> open_diskfile t sp w1;
          if r < 0 then Some (None, t, w)
          else do { (buf, w) \<leftarrow> fill_buffer t w;
            let sp = sp\<lparr>buffer := buf\<rparr>;
            (r, w) \<leftarrow> iperf_init_stream sp t w;
            if r < 0 then Some (None, t, sys_close (buffer_fd sp) w)
            else (case iperf_add_stream t sp of (t, sp) \<Rightarrow> Some (Some sp, t, w)) } }) Q"
      if h1: "held v w1 (insert f F) A" and f: "f \<notin> F" and sp: "buffer_fd sp = f" "socket sp = s" "sender sp = snder"
        "thread_created sp = 0" "stream_done sp = 0" "result sp = zero_result" "send_timer sp = None"
      for sp f and w1 :: world
      unfolding post_bind
    proof (rule held_open_diskfile [OF h1], goal_cases)
      case (1 sp' w')
      then show ?case by (auto intro: fail)
    next
      case (2 w')
      have o: "own_fds (sp\<lparr>diskfile_fd := -1\<rparr>) = {f}" using sp by (simp add: own_fds_def)
      have "held v w' (own_fds (sp\<lparr>diskfile_fd := -1\<rparr>) \<union> F) A" using 2 by (simp add: o)
      from fin [OF this] o f sp show ?case by (simp only: prod.case) simp
    next
      case (3 g w')
      let ?sp = "sp\<lparr>diskfile_fd := g, snd2_fn := Some (snd_fn sp), snd_fn := Diskfile_routine,
        rcv2_fn := Some (rcv_fn sp), rcv_fn := Diskfile_routine\<rparr>"
      have o: "own_fds ?sp = {f, g}" using 3 sp by (auto simp: own_fds_def)
      have "own_fds ?sp \<union> F = insert g (insert f F)" by (auto simp: o)
      with 3 have "held v w' (own_fds ?sp \<union> F) A" by simp
      from fin [OF this] o f 3 sp show ?case by (simp only: prod.case) simp
    qed
    note start = rest [of _ f "zero_stream\<lparr>sender := snder, buffer_fd := f, pending_size := 0, socket := s,
        snd_fn := Proto_routine, rcv_fn := Proto_routine\<rparr>" for f, simplified zero_stream_def Let_def, simplified]
    show ?thesis
      unfolding iperf_new_stream_def Let_def zero_stream_def using env np
      by (auto intro!: held_buffer_file [OF h] leak intro: start)
  qed
qed
end
