(* ===== verification/Iperf_Connect.thy ===== *)
theory Iperf_Connect
  imports Iperf_Streams
begin

text \<open>
  Listening, accepting and connecting for the data streams: iperf_tcp_accept, iperf_tcp_listen and
  iperf_tcp_connect of src/iperf_tcp.c, and their counterparts of src/iperf_udp.c with
  iperf_udp_buffercheck. Sizes the kernel reports back are replies. The build is Linux with
  SO_MAX_PACING_RATE, TCP_USER_TIMEOUT and flow labels.
\<close>

section \<open>Sets of descriptors and options\<close>

text \<open>Options set one after the other, each with the error code for its failure. The result tells
  whether all were set.\<close>

fun set_opts :: "(event \<times> int) list \<Rightarrow> world \<Rightarrow> (bool \<times> world) option" where
  "set_opts [] w = Some (True, w)"
| "set_opts ((ev, ie) # evs) w = do {
     (r, w) \<leftarrow> sys_ok ev w;
     if r < 0 then Some (False, w\<lparr>i_errno := ie\<rparr>) else set_opts evs w }"

definition opt_if :: "bool \<Rightarrow> fd \<Rightarrow> string \<Rightarrow> int \<Rightarrow> int \<Rightarrow> (event \<times> int) list" where
  "opt_if b s name val ie = (if b then [(EvSetopt s name val True, ie)] else [])"

definition bufsize_opts :: "iperf_test \<Rightarrow> fd \<Rightarrow> (event \<times> int) list" where
  "bufsize_opts t s = (let n = socket_bufsize (settings t) in
     opt_if (n \<noteq> 0) s ''SO_RCVBUF'' n IESETBUF @ opt_if (n \<noteq> 0) s ''SO_SNDBUF'' n IESETBUF)"

definition tcp_opts :: "iperf_test \<Rightarrow> fd \<Rightarrow> (event \<times> int) list" where
  "tcp_opts t s = opt_if (no_delay t \<noteq> 0) s ''TCP_NODELAY'' 1 IESETNODELAY
     @ opt_if (mss (settings t) \<noteq> 0) s ''TCP_MAXSEG'' (mss (settings t)) IESETMSS
     @ bufsize_opts t s"

text \<open>The fair queue pacing of the kernel, in bytes per second; a failure is only warned about.\<close>

definition set_pacing :: "iperf_test \<Rightarrow> fd \<Rightarrow> world \<Rightarrow> world option" where
  "set_pacing t s w =
     (let r = fqrate (settings t) div 8 in
      if fqrate (settings t) \<noteq> 0 \<and> r > 0
      then do { (_, w) \<leftarrow> sys_ok (EvSetopt s ''SO_MAX_PACING_RATE'' (uint r) True) w; Some w }
      else Some w)"

text \<open>Both buffer sizes read back: 0, or the error code.\<close>

definition read_bufs :: "iperf_test \<Rightarrow> world \<Rightarrow> (int \<times> int \<times> int \<times> world) option" where
  "read_bufs t w =
     (let n = socket_bufsize (settings t) in do {
        (sndbuf_actual, w) \<leftarrow> sys_val [] w;
        if sndbuf_actual < 0 then Some (IESETBUF, 0, 0, w)
        else if n \<noteq> 0 \<and> n > sndbuf_actual then Some (IESETBUF2, sndbuf_actual, 0, w)
        else do {
          (rcvbuf_actual, w) \<leftarrow> sys_val [] w;
          if rcvbuf_actual < 0 then Some (IESETBUF, sndbuf_actual, 0, w)
          else if n \<noteq> 0 \<and> n > rcvbuf_actual then Some (IESETBUF2, sndbuf_actual, rcvbuf_actual, w)
          else Some (0, sndbuf_actual, rcvbuf_actual, w) } })"

text \<open>The error path after a size that could not be read back saves errno, the one after a size
  that is too small does not.\<close>

definition close_bufs :: "int \<Rightarrow> fd \<Rightarrow> addrinfo option list \<Rightarrow> world \<Rightarrow> world" where
  "close_bufs ie s as w =
     (if ie = IESETBUF then (close_free s as w)\<lparr>i_errno := ie\<rparr>
      else (fold freeaddrinfo as (sys_close s w))\<lparr>i_errno := ie\<rparr>)"

section \<open>TCP\<close>

abbreviation (input) ACCESS_DENIED_BYTE :: u8 where "ACCESS_DENIED_BYTE \<equiv> 255"

text \<open>The cookie read into a zeroed array. A connection with the wrong cookie is closed, and its
  descriptor is returned all the same.\<close>

definition padded :: "u8 list \<Rightarrow> u8 list" where
  "padded bs = bs @ replicate (37 - length bs) 0"

definition iperf_tcp_accept :: "iperf_test \<Rightarrow> world \<Rightarrow> (int \<times> iperf_test \<times> world) option" where
  "iperf_tcp_accept t w = do {
     (s, w) \<leftarrow> sys_open w;
     if s < 0 then Some (-1, t, w\<lparr>i_errno := IESTREAMCONNECT\<rparr>)
     else do {
       w \<leftarrow> set_pacing t s w;
       (r, got, w) \<leftarrow> Nread s 37 Ptcp w;
       if r < 0 then Some (-1, t, sys_close s (w\<lparr>i_errno := IERECVCOOKIE\<rparr>))
       else if strncmp_eq 37 (cookie t) (padded got) then Some (s, t, w)
       else do {
         (_, w) \<leftarrow> Nwrite s [ACCESS_DENIED_BYTE] 1 Ptcp w;
         Some (s, t, sys_close s w) } } }"

text \<open>A new listening socket with the options of the data streams in place of the old one.\<close>

definition tcp_relisten :: "iperf_test \<Rightarrow> world \<Rightarrow> (int \<times> iperf_test \<times> world) option" where
  "tcp_relisten t w = do {
     let t = t\<lparr>read_set := fd_clr (listener t) (read_set t)\<rparr>;
     let w = sys_close (listener t) w;
     (e, ares, w) \<leftarrow> sys_getaddrinfo w;
     let w = w\<lparr>gerror := e\<rparr>;
     case ares of
       None \<Rightarrow> Some (-1, t, w\<lparr>i_errno := IESTREAMLISTEN\<rparr>)
     | Some res \<Rightarrow> do {
         (s, w) \<leftarrow> sys_open w;
         if s < 0 then Some (-1, t, (freeaddrinfo (Some res) w)\<lparr>i_errno := IESTREAMLISTEN\<rparr>)
         else do {
           let dm = domain (settings t);
           (ok, w) \<leftarrow> set_opts (tcp_opts t s @ [(EvSetopt s ''SO_REUSEADDR'' 1 True, IEREUSEADDR)]
             @ opt_if (ai_family res = AF_INET6 \<and> (dm = AF_UNSPEC \<or> dm = AF_INET)) s ''IPV6_V6ONLY''
                 (if dm = AF_UNSPEC then 0 else 1) IEV6ONLY) w;
           if \<not> ok then Some (-1, t, close_free s [Some res] w)
           else do {
             (r, w) \<leftarrow> sys_ok (EvBind s) w;
             if r < 0 then Some (-1, t, (close_free s [Some res] w)\<lparr>i_errno := IESTREAMLISTEN\<rparr>)
             else do {
               let w = freeaddrinfo (Some res) w;
               (r, w) \<leftarrow> sys_ok (EvListen s) w;
               if r < 0 then Some (-1, t, sys_close s (w\<lparr>i_errno := IESTREAMLISTEN\<rparr>))
               else Some (s, t\<lparr>listener := s\<rparr>, w) } } } } }"

definition iperf_tcp_listen :: "iperf_test \<Rightarrow> world \<Rightarrow> (int \<times> iperf_test \<times> world) option" where
  "iperf_tcp_listen t w = do {
     (s, t, w) \<leftarrow> (if no_delay t \<noteq> 0 \<or> mptcp t \<noteq> 0 \<or> mss (settings t) \<noteq> 0 \<or> socket_bufsize (settings t) \<noteq> 0
                   then tcp_relisten t w else Some (listener t, t, w));
     if s = -1 then Some (-1, t, w)
     else do {
       (ie, _, _, w) \<leftarrow> read_bufs t w;
       if ie \<noteq> 0 then Some (-1, t, close_bufs ie s [] w) else Some (s, t, w) } }"

text \<open>The flow label asks for an IPv6 address.\<close>

definition flow_opts :: "iperf_test \<Rightarrow> fd \<Rightarrow> (event \<times> int) list" where
  "flow_opts t s =
     opt_if (flowlabel (settings t) \<noteq> 0) s ''IPV6_FLOWLABEL_MGR'' (flowlabel (settings t)) IESETFLOW
     @ opt_if (flowlabel (settings t) \<noteq> 0) s ''IPV6_FLOWINFO_SEND'' 1 IESETFLOW"

text \<open>From the connected socket on: the cookie of the test goes first.\<close>

definition tcp_send_cookie :: "iperf_test \<Rightarrow> fd \<Rightarrow> addrinfo \<Rightarrow> world \<Rightarrow> (int \<times> world) option" where
  "tcp_send_cookie t s res w = do {
     w \<leftarrow> set_pacing t s w;
     (_, w) \<leftarrow> iperf_common_sockopts t s w;
     (r, w) \<leftarrow> sys_ok (EvConnect s) w;
     if r < 0 \<and> errno w \<noteq> EINPROGRESS then Some (-1, (close_free s [Some res] w)\<lparr>i_errno := IESTREAMCONNECT\<rparr>)
     else do {
       let w = freeaddrinfo (Some res) w;
       (r, w) \<leftarrow> Nwrite s (cookie t) 37 Ptcp w;
       if r < 0 then Some (-1, (close_free s [] w)\<lparr>i_errno := IESENDCOOKIE\<rparr>) else Some (s, w) } }"

definition iperf_tcp_connect :: "iperf_test \<Rightarrow> world \<Rightarrow> (int \<times> iperf_test \<times> world) option" where
  "iperf_tcp_connect t w = do {
     (s, sres, w) \<leftarrow> create_socket (domain (settings t)) SOCK_STREAM 0 (bind_address t) (bind_dev t)
        (bind_port t) (the (server_hostname t)) (server_port t) w;
     case sres of
       None \<Rightarrow> Some (-1, t, w\<lparr>i_errno := IESTREAMCONNECT\<rparr>)
     | Some res \<Rightarrow>
       if s < 0 then Some (-1, t, w\<lparr>i_errno := IESTREAMCONNECT\<rparr>)
       else do {
         (ok, w) \<leftarrow> set_opts (tcp_opts t s @ opt_if (snd_timeout (settings t) \<noteq> 0) s ''TCP_USER_TIMEOUT''
           (snd_timeout (settings t)) IESETUSERTIMEOUT) w;
         if \<not> ok then Some (-1, t, close_free s [Some res] w)
         else do {
           (ie, _, _, w) \<leftarrow> read_bufs t w;
           if ie \<noteq> 0 then Some (-1, t, close_bufs ie s [Some res] w)
           else if flowlabel (settings t) \<noteq> 0 \<and> ai_family res \<noteq> AF_INET6
           then Some (-1, t, (close_free s [Some res] w)\<lparr>i_errno := IESETFLOW\<rparr>)
           else do {
             (ok, w) \<leftarrow> set_opts (flow_opts t s) w;
             if \<not> ok then Some (-1, t, close_free s [Some res] w)
             else do {
               (s, w) \<leftarrow> tcp_send_cookie t s res w;
               Some (s, t, w) } } } } }"

section \<open>UDP\<close>

abbreviation (input) UDP_BUFFER_EXTRA :: int where "UDP_BUFFER_EXTRA \<equiv> 1024"
abbreviation (input) MAX_REVERSE_OUT_OF_ORDER_PACKETS :: int where "MAX_REVERSE_OUT_OF_ORDER_PACKETS \<equiv> 2"

text \<open>The messages of the handshake as the four bytes a little-endian machine sends.\<close>

definition udp_connect_msg :: "u8 list" where "udp_connect_msg = [0x39, 0x38, 0x37, 0x36]"
definition udp_connect_reply :: "u8 list" where "udp_connect_reply = [0x36, 0x37, 0x38, 0x39]"
definition legacy_udp_connect_reply :: "u8 list" where "legacy_udp_connect_reply = [0xB1, 0x68, 0xDE, 0x3A]"

definition iperf_udp_buffercheck :: "iperf_test \<Rightarrow> fd \<Rightarrow> world \<Rightarrow> (int \<times> world) option" where
  "iperf_udp_buffercheck t s w = do {
     (ok, w) \<leftarrow> set_opts (bufsize_opts t s) w;
     if \<not> ok then Some (-1, w)
     else do {
       (ie, sndbuf_actual, rcvbuf_actual, w) \<leftarrow> read_bufs t w;
       if ie \<noteq> 0 then Some (-1, w\<lparr>i_errno := ie\<rparr>)
       else Some (if blksize (settings t) > sndbuf_actual \<or> blksize (settings t) > rcvbuf_actual then 1 else 0, w) } }"

text \<open>A default buffer that is too small is made larger once.\<close>

definition udp_buffers :: "iperf_test \<Rightarrow> fd \<Rightarrow> world \<Rightarrow> (int \<times> iperf_test \<times> world) option" where
  "udp_buffers t s w = do {
     (rc, w) \<leftarrow> iperf_udp_buffercheck t s w;
     if rc < 0 then Some (rc, t, w)
     else if rc > 0 \<and> socket_bufsize (settings t) = 0 then do {
       let t = upd_settings (\<lambda>x. x\<lparr>socket_bufsize := blksize (settings t) + UDP_BUFFER_EXTRA\<rparr>) t;
       (rc, w) \<leftarrow> iperf_udp_buffercheck t s w;
       Some (min rc 0, t, w) }
     else Some (0, t, w) }"

definition iperf_udp_accept :: "iperf_test \<Rightarrow> world \<Rightarrow> (int \<times> iperf_test \<times> world) option" where
  "iperf_udp_accept t w = do {
     let s = prot_listener t;
     (sz, _, w) \<leftarrow> sys_recv s 4 0 w;
     if sz < 0 then Some (-1, t, w\<lparr>i_errno := IESTREAMACCEPT\<rparr>)
     else do {
       (r, w) \<leftarrow> sys_ok (EvConnect s) w;
       if r < 0 then Some (-1, t, w\<lparr>i_errno := IESTREAMACCEPT\<rparr>)
       else do {
         (rc, t, w) \<leftarrow> udp_buffers t s w;
         if rc < 0 then Some (rc, t, w)
         else do {
           w \<leftarrow> set_pacing t s w;
           let t = t\<lparr>read_set := fd_clr (prot_listener t) (read_set t)\<rparr>;
           (l, w) \<leftarrow> netannounce (domain (settings t)) SOCK_DGRAM (bind_address t) (bind_dev t) (server_port t) w;
           let t = t\<lparr>prot_listener := l\<rparr>;
           if l < 0 then Some (-1, t, w\<lparr>i_errno := IESTREAMLISTEN\<rparr>)
           else do {
             let t = t\<lparr>read_set := fd_set l (read_set t), max_fd := max (max_fd t) l\<rparr>;
             (r, w) \<leftarrow> sys_write s udp_connect_reply w;
             if r < 0 then Some (-1, t, w\<lparr>i_errno := IESTREAMWRITE\<rparr>) else Some (s, t, w) } } } } }"

definition iperf_udp_listen :: "iperf_test \<Rightarrow> world \<Rightarrow> (int \<times> iperf_test \<times> world) option" where
  "iperf_udp_listen t w = do {
     (s, w) \<leftarrow> netannounce (domain (settings t)) SOCK_DGRAM (bind_address t) (bind_dev t) (server_port t) w;
     if s < 0 then Some (-1, t, w\<lparr>i_errno := IESTREAMLISTEN\<rparr>) else Some (s, t, w) }"

text \<open>The wait for the reply: a datagram overwrites the start of the four bytes. The datagrams that
  arrive first in a reverse test count against the length to wait for.\<close>

definition is_reply :: "u8 list \<Rightarrow> bool" where
  "is_reply buf \<longleftrightarrow> buf = udp_connect_reply \<or> buf = legacy_udp_connect_reply"

function udp_wait_reply :: "fd \<Rightarrow> u8 list \<Rightarrow> int \<Rightarrow> int \<Rightarrow> world \<Rightarrow> (int \<times> u8 list \<times> world) option" where
  "udp_wait_reply s buf i limit w =
     (case sys_recv s 4 0 w of
        None \<Rightarrow> None
      | Some (sz, got, w) \<Rightarrow>
          if sz < 0 then Some (-1, buf, w)
          else (let buf = got @ drop (length got) buf; i = i + sz in
            if \<not> is_reply buf \<and> i < limit then udp_wait_reply s buf i limit w else Some (0, buf, w)))"
  by pat_completeness auto
termination
  by (relation "measure (\<lambda>(s, b, i, l, w). length (replies w))") (auto dest!: sys_recv_Some simp: shorter_def)

declare udp_wait_reply.simps [simp del]

definition iperf_udp_connect :: "iperf_test \<Rightarrow> world \<Rightarrow> (int \<times> iperf_test \<times> world) option" where
  "iperf_udp_connect t w = do {
     (s, w) \<leftarrow> netdial (domain (settings t)) SOCK_DGRAM (bind_address t) (bind_dev t) (bind_port t)
        (the (server_hostname t)) (server_port t) (-1) w;
     if s < 0 then Some (-1, t, w\<lparr>i_errno := IESTREAMCONNECT\<rparr>)
     else do {
       (rc, t, w) \<leftarrow> udp_buffers t s w;
       if rc < 0 then Some (rc, t, w)
       else do {
         w \<leftarrow> set_pacing t s w;
         (_, w) \<leftarrow> iperf_common_sockopts t s w;
         (_, w) \<leftarrow> sys_ok (EvSetopt s ''SO_RCVTIMEO'' 30 True) w;
         (r, w) \<leftarrow> sys_write s udp_connect_msg w;
         if r < 0 then Some (-1, t, w\<lparr>i_errno := IESTREAMWRITE\<rparr>)
         else do {
           let limit = 4 + (if reverse t \<noteq> 0 then MAX_REVERSE_OUT_OF_ORDER_PACKETS * blksize (settings t) else 0);
           (r, buf, w) \<leftarrow> udp_wait_reply s udp_connect_msg 0 limit w;
           if r < 0 then Some (-1, t, w\<lparr>i_errno := IESTREAMREAD\<rparr>)
           else if \<not> is_reply buf then Some (-1, t, w\<lparr>i_errno := IESTREAMREAD\<rparr>)
           else Some (s, t, w) } } } }"

section \<open>SCTP\<close>

definition iperf_sctp_accept :: "iperf_test \<Rightarrow> world \<Rightarrow> (int \<times> iperf_test \<times> world) option" where
  "iperf_sctp_accept t w = do {
     (s, w) \<leftarrow> sys_open w;
     if s < 0 then Some (-1, t, w\<lparr>i_errno := IESTREAMCONNECT\<rparr>)
     else do {
       (r, got, w) \<leftarrow> Nread s 37 Psctp w;
       if r < 0 then Some (-1, t, sys_close s (w\<lparr>i_errno := IERECVCOOKIE\<rparr>))
       else if strncmp_eq 37 (cookie t) got then Some (s, t, w)
       else do {
         (r, w) \<leftarrow> Nwrite s [ACCESS_DENIED_BYTE] 1 Psctp w;
         if r < 0 then Some (-1, t, sys_close s (w\<lparr>i_errno := IESENDMESSAGE\<rparr>))
         else Some (s, t, sys_close s w) } } }"

text \<open>The addresses of -X, each resolved into a list of its own; the first failure ends the loop.\<close>

fun resolve_xbind :: "string list \<Rightarrow> addrinfo list \<Rightarrow> world \<Rightarrow> (bool \<times> addrinfo list \<times> world) option" where
  "resolve_xbind [] ais w = Some (True, ais, w)"
| "resolve_xbind (n # ns) ais w = do {
     (e, a, w) \<leftarrow> sys_getaddrinfo w;
     let w = w\<lparr>gerror := e\<rparr>;
     case a of
       None \<Rightarrow> Some (False, ais, w\<lparr>i_errno := IESETSCTPBINDX\<rparr>)
     | Some ai \<Rightarrow> resolve_xbind ns (ais @ [ai]) w }"

text \<open>Both passes and the call of sctp_bindx. The descriptor is closed when that call fails.\<close>

definition bindx_all :: "bool \<Rightarrow> fd \<Rightarrow> string list \<Rightarrow> addrinfo list \<Rightarrow> world \<Rightarrow> (int \<times> world) option" where
  "bindx_all mem s names ais w = do {
     (ok, ais, w) \<leftarrow> resolve_xbind names ais w;
     let free_all = fold (\<lambda>a. freeaddrinfo (Some a)) ais;
     if \<not> ok then Some (-1, free_all w)
     else if \<not> mem then Some (-1, free_all (w\<lparr>i_errno := IESETSCTPBINDX\<rparr>))
     else do {
       (r, w) \<leftarrow> sys_ok (EvBind s) w;
       if r < 0 then Some (-1, free_all ((close_free s [] w)\<lparr>i_errno := IESETSCTPBINDX\<rparr>))
       else Some (0, free_all w) } }"

definition iperf_sctp_bindx :: "bool \<Rightarrow> iperf_test \<Rightarrow> fd \<Rightarrow> bool \<Rightarrow> world \<Rightarrow> (int \<times> world) option" where
  "iperf_sctp_bindx mem t s is_server w =
     (case xbind_addrs t of
        [] \<Rightarrow> Some (0, w)
      | x0 # xs \<Rightarrow>
          if is_server then bindx_all mem s (x0 # xs) [] w
          else do {
            (e, a, w) \<leftarrow> sys_getaddrinfo w;
            let w = w\<lparr>gerror := e\<rparr>;
            case a of
              None \<Rightarrow> Some (-1, w\<lparr>i_errno := IESETSCTPBINDX\<rparr>)
            | Some ai \<Rightarrow>
                let bad = (\<lambda>w. Some (-1, (freeaddrinfo (Some ai) w)\<lparr>i_errno := IESETSCTPBINDX\<rparr>)) in
                if domain (settings t) \<noteq> AF_UNSPEC \<and> domain (settings t) \<noteq> ai_family ai then bad w
                else do {
                  (r, w) \<leftarrow> sys_ok (EvBind s) w;
                  if r < 0 then bad w
                  else if xs = [] then Some (0, freeaddrinfo (Some ai) w)
                  else if ai_family ai \<noteq> AF_INET \<and> ai_family ai \<noteq> AF_INET6 then bad w
                  else bindx_all mem s xs [ai] w } })"

definition sctp_listen_bind :: "bool \<Rightarrow> iperf_test \<Rightarrow> fd \<Rightarrow> addrinfo \<Rightarrow> world \<Rightarrow> (int \<times> world) option" where
  "sctp_listen_bind mem t s res w =
     (if xbind_addrs t \<noteq> [] then do {
        (r, w) \<leftarrow> iperf_sctp_bindx mem t s True w;
        if r \<noteq> 0 then Some (-1, freeaddrinfo (Some res) (sys_close s w)) else Some (0, w) }
      else do {
        (r, w) \<leftarrow> sys_ok (EvBind s) w;
        if r < 0 then Some (-1, (close_free s [Some res] w)\<lparr>i_errno := IESTREAMLISTEN\<rparr>) else Some (0, w) })"

definition iperf_sctp_listen :: "bool \<Rightarrow> iperf_test \<Rightarrow> world \<Rightarrow> (int \<times> iperf_test \<times> world) option" where
  "iperf_sctp_listen mem t w = do {
     let w = sys_close (listener t) w;
     let t = t\<lparr>listener := -1\<rparr>;
     (e, ares, w) \<leftarrow> sys_getaddrinfo w;
     let w = w\<lparr>gerror := e\<rparr>;
     case ares of
       None \<Rightarrow> Some (-1, t, w\<lparr>i_errno := IESTREAMLISTEN\<rparr>)
     | Some res \<Rightarrow> do {
         (s, w) \<leftarrow> sys_open w;
         if s < 0 then Some (-1, t, (freeaddrinfo (Some res) w)\<lparr>i_errno := IESTREAMLISTEN\<rparr>)
         else do {
           let dm = domain (settings t);
           (ok, w) \<leftarrow> set_opts (bufsize_opts t s @ opt_if (bind_dev t \<noteq> None) s ''SO_BINDTODEVICE'' 0 IEBINDDEV
             @ opt_if (ai_family res = AF_INET6 \<and> (dm = AF_UNSPEC \<or> dm = AF_INET6)) s ''IPV6_V6ONLY''
                 (if dm = AF_UNSPEC then 0 else 1) IEPROTOCOL
             @ [(EvSetopt s ''SO_REUSEADDR'' 1 True, IEREUSEADDR)]) w;
           if \<not> ok then Some (-1, t, close_free s [Some res] w)
           else do {
             (r, w) \<leftarrow> sctp_listen_bind mem t s res w;
             if r < 0 then Some (-1, t, w)
             else do {
               let w = freeaddrinfo (Some res) w;
               (r, w) \<leftarrow> sys_ok (EvListen s) w;
               if r < 0 then Some (-1, t, w\<lparr>i_errno := IESTREAMLISTEN\<rparr>)
               else Some (s, t\<lparr>listener := s\<rparr>, w) } } } } }"

text \<open>The local end of a connection: the address of -B, or only the port of --cport. The address list
  of -B is given back after the bind.\<close>

definition sctp_bind_local :: "iperf_test \<Rightarrow> fd \<Rightarrow> addrinfo option \<Rightarrow> addrinfo \<Rightarrow> world \<Rightarrow> (int \<times> world) option" where
  "sctp_bind_local t s lres res w =
     (case lres of
        Some l \<Rightarrow> do {
          (r, w) \<leftarrow> sys_ok (EvBind s) w;
          if r < 0 then Some (-1, (close_free s [Some l, Some res] w)\<lparr>i_errno := IESTREAMCONNECT\<rparr>)
          else Some (0, freeaddrinfo (Some l) w) }
      | None \<Rightarrow>
          if bind_port t = 0 then Some (0, w)
          else if ai_family res \<noteq> AF_INET \<and> ai_family res \<noteq> AF_INET6
          then Some (-1, (close_free s [Some res] w)\<lparr>i_errno := IEPROTOCOL\<rparr>)
          else do {
            (r, w) \<leftarrow> sys_ok (EvBind s) w;
            if r < 0 then Some (-1, (close_free s [Some res] w)\<lparr>i_errno := IESTREAMCONNECT\<rparr>) else Some (0, w) })"

abbreviation (input) ENOPROTOOPT :: int where "ENOPROTOOPT \<equiv> 92"

definition sctp_send_cookie :: "iperf_test \<Rightarrow> fd \<Rightarrow> addrinfo \<Rightarrow> world \<Rightarrow> (int \<times> world) option" where
  "sctp_send_cookie t s res w = do {
     (r, w) \<leftarrow> sys_ok (EvConnect s) w;
     if r < 0 \<and> errno w \<noteq> EINPROGRESS then Some (-1, (close_free s [Some res] w)\<lparr>i_errno := IESTREAMCONNECT\<rparr>)
     else do {
       (r, w) \<leftarrow> Nwrite s (cookie t) 37 Psctp w;
       if r < 0 then Some (-1, (close_free s [Some res] w)\<lparr>i_errno := IESENDCOOKIE\<rparr>)
       else do {
         (r, w) \<leftarrow> sys_ok (EvSetopt s ''SCTP_DISABLE_FRAGMENTS'' 0 True) w;
         if r < 0 \<and> errno w \<noteq> ENOPROTOOPT
         then Some (-1, (close_free s [Some res] w)\<lparr>i_errno := IESETSCTPDISABLEFRAG\<rparr>)
         else Some (s, freeaddrinfo (Some res) w) } } }"

definition sctp_options :: "iperf_test \<Rightarrow> fd \<Rightarrow> (event \<times> int) list" where
  "sctp_options t s =
     opt_if (no_delay t \<noteq> 0) s ''SCTP_NODELAY'' 1 IESETNODELAY
     @ opt_if (mss (settings t) \<ge> 512 \<and> mss (settings t) \<le> 131072) s ''SCTP_MAXSEG'' (mss (settings t)) IESETMSS
     @ opt_if (num_ostreams (settings t) > 0) s ''SCTP_INITMSG'' (num_ostreams (settings t)) IESETSCTPNSTREAM"

text \<open>The error paths up to the device do not all give back the local address list.\<close>

definition sctp_setup :: "bool \<Rightarrow> iperf_test \<Rightarrow> fd \<Rightarrow> addrinfo option \<Rightarrow> addrinfo \<Rightarrow> world \<Rightarrow> (int \<times> world) option" where
  "sctp_setup mem t s lres res w = do {
     (ok, w) \<leftarrow> set_opts (bufsize_opts t s) w;
     if \<not> ok then Some (-1, close_free s [Some res] w)
     else do {
       (ok, w) \<leftarrow> set_opts (opt_if (bind_dev t \<noteq> None) s ''SO_BINDTODEVICE'' 0 IEBINDDEV) w;
       if \<not> ok then Some (-1, close_free s [lres, Some res] w)
       else do {
         (r, w) \<leftarrow> sctp_bind_local t s lres res w;
         if r < 0 then Some (-1, w)
         else do {
           (ok, w) \<leftarrow> set_opts (sctp_options t s) w;
           if \<not> ok then Some (-1, close_free s [Some res] w)
           else do {
             (r, w) \<leftarrow> (if xbind_addrs t \<noteq> [] then iperf_sctp_bindx mem t s False w else Some (0, w));
             if r \<noteq> 0 then Some (-1, sys_close s (freeaddrinfo (Some res) w))
             else sctp_send_cookie t s res w } } } } }"

definition iperf_sctp_connect :: "bool \<Rightarrow> iperf_test \<Rightarrow> world \<Rightarrow> (int \<times> iperf_test \<times> world) option" where
  "iperf_sctp_connect mem t w = do {
     (e, lres, w) \<leftarrow> (case bind_address t of None \<Rightarrow> Some (0, None, w)
                     | Some _ \<Rightarrow> do { (e, a, w) \<leftarrow> sys_getaddrinfo w; Some (e, a, w\<lparr>gerror := e\<rparr>) });
     if e \<noteq> 0 then Some (-1, t, w\<lparr>i_errno := IESTREAMCONNECT\<rparr>)
     else do {
       (e, sres, w) \<leftarrow> sys_getaddrinfo w;
       let w = w\<lparr>gerror := e\<rparr>;
       case sres of
         None \<Rightarrow> Some (-1, t, (freeaddrinfo lres w)\<lparr>i_errno := IESTREAMCONNECT\<rparr>)
       | Some res \<Rightarrow> do {
           (s, w) \<leftarrow> sys_open w;
           if s < 0 then Some (-1, t, (freeaddrinfo (Some res) (freeaddrinfo lres w))\<lparr>i_errno := IESTREAMCONNECT\<rparr>)
           else do {
             (s, w) \<leftarrow> sctp_setup mem t s lres res w;
             Some (s, t, w) } } } }"

section \<open>The transports of a test\<close>

text \<open>struct protocol: the routine for the protocol of the test.\<close>

type_synonym conn_op = "iperf_test \<Rightarrow> world \<Rightarrow> (int \<times> iperf_test \<times> world) option"

record conn_env =
  bindx_mem :: bool
  quic_library :: quic_lib

definition proto_listen :: "conn_env \<Rightarrow> conn_op" where
  "proto_listen env t =
     (if protocol t = Ptcp then iperf_tcp_listen t
      else if protocol t = Pudp then iperf_udp_listen t
      else if protocol t = Psctp then iperf_sctp_listen (bindx_mem env) t
      else iperf_quic_listen (quic_library env) t)"

definition proto_accept :: "conn_env \<Rightarrow> conn_op" where
  "proto_accept env t =
     (if protocol t = Ptcp then iperf_tcp_accept t
      else if protocol t = Pudp then iperf_udp_accept t
      else if protocol t = Psctp then iperf_sctp_accept t
      else iperf_quic_accept t)"

definition proto_connect :: "conn_env \<Rightarrow> conn_op" where
  "proto_connect env t =
     (if protocol t = Ptcp then iperf_tcp_connect t
      else if protocol t = Pudp then iperf_udp_connect t
      else if protocol t = Psctp then iperf_sctp_connect (bindx_mem env) t
      else iperf_quic_connect (quic_library env) t)"

end
