(* ===== verification/Iperf_Decimal.thy ===== *)
theory Iperf_Decimal
  imports Iperf_Cstr
begin

text \<open>
  Characters and bytes, and decimal integers as the printf conversion %d writes them; strtol and
  the loop over digits read them back.
\<close>

lemma byte_char: "of_char (char_of (unat x)) = x" for x :: u8
proof -
  have "(of_char (char_of (unat x)) :: u8) = of_nat (of_char (char_of (unat x)))" by (simp only: of_nat_of_char)
  also have "\<dots> = of_nat (unat x mod 256)" by simp
  also have "\<dots> = x" using unsigned_less [of x, where 'a = nat] by simp
  finally show ?thesis .
qed

lemma char_byte: "char_of (unat (of_char c :: u8)) = c"
proof -
  have "unat (of_nat (of_char c) :: u8) = of_char c" by (simp add: unsigned_of_nat take_bit_eq_mod)
  then have "unat (of_char c :: u8) = of_char c" by (simp only: of_nat_of_char)
  then show ?thesis by simp
qed

definition digit :: "nat \<Rightarrow> char" where
  "digit d = char_of (48 + d)"

fun show_nat :: "nat \<Rightarrow> string" where
  "show_nat n = (if n < 10 then [digit n] else show_nat (n div 10) @ [digit (n mod 10)])"

declare show_nat.simps [simp del]

definition show_int :: "int \<Rightarrow> string" where
  "show_int n = (if n < 0 then CHR ''-'' # show_nat (nat (- n)) else show_nat (nat n))"

lemma code_digit [simp]: "d < 10 \<Longrightarrow> code (digit d) = 48 + d"
  by (simp add: code_def digit_def)

lemma digit_props [simp]: "d < 10 \<Longrightarrow> isdigit (digit d)" "d < 10 \<Longrightarrow> digit_value (digit d) = Some d"
  "d < 10 \<Longrightarrow> \<not> isspace (digit d)" "d < 10 \<Longrightarrow> digit d \<noteq> CHR ''-''" "d < 10 \<Longrightarrow> digit d \<noteq> CHR ''+''"
  by (auto simp: isdigit_def digit_value_def isspace_def dest!: arg_cong [where f = code]) (simp_all add: code_def)

lemma show_nat_digits: "set (show_nat n) \<subseteq> digit ` {..<10}"
  by (induction n rule: show_nat.induct) (subst show_nat.simps, auto)

lemma show_nat_isdigit: "c \<in> set (show_nat n) \<Longrightarrow> isdigit c"
  using show_nat_digits [of n] by auto

lemma show_nat_hd: obtains d cs where "show_nat n = digit d # cs" "d < 10"
proof -
  have "show_nat n \<noteq> []" by (subst show_nat.simps) simp
  then obtain c cs where c: "show_nat n = c # cs" by (cases "show_nat n") auto
  with show_nat_digits [of n] obtain d where "c = digit d" "d < 10" by auto
  with c that show thesis by blast
qed

lemma read_show_nat:
  "read_digits 10 v k (show_nat n @ r) = read_digits 10 (v * 10 ^ length (show_nat n) + n) (k + length (show_nat n)) r"
proof (induction n arbitrary: v k r rule: show_nat.induct)
  case (1 n)
  show ?case
  proof (cases "n < 10")
    case True
    then show ?thesis by (simp add: show_nat.simps [of n])
  next
    case False
    have s: "show_nat n = show_nat (n div 10) @ [digit (n mod 10)]" using False by (simp add: show_nat.simps [of n])
    show ?thesis using 1 [OF False, of v k "digit (n mod 10) # r"] unfolding s by (simp add: algebra_simps)
  qed
qed

definition no_digit :: "string \<Rightarrow> bool" where
  "no_digit r \<longleftrightarrow> (case r of [] \<Rightarrow> True | c # _ \<Rightarrow> \<not> isdigit c)"

lemma digit_value_10: "\<not> isdigit c \<Longrightarrow> (case digit_value c of None \<Rightarrow> True | Some d \<Rightarrow> \<not> d < 10)"
  by (auto simp: digit_value_def isdigit_def isupper_def)

lemma read_no_digit: "no_digit r \<Longrightarrow> read_digits 10 v k r = (v, k, r)"
  by (cases r) (auto simp: no_digit_def dest: digit_value_10 split: option.splits)

theorem strtol_show_int:
  assumes "no_digit r" "s64_min \<le> n" "n \<le> s64_max"
  shows "strtol (show_int n @ r) 10 = (n, r)"
proof -
  obtain d cs where h: "show_nat (nat (abs n)) = digit d # cs" "d < 10" by (rule show_nat_hd)
  let ?m = "nat (abs n)"
  have rd: "read_digits 10 0 0 (show_nat ?m @ r) = (?m, length (show_nat ?m), r)"
    using read_show_nat [of 0 0 ?m r] read_no_digit [OF assms(1)] by simp
  have len: "length (show_nat ?m) \<noteq> 0" using h by simp
  have cl: "clamp64 n = n" using assms(2,3) by (simp add: clamp64_def)
  show ?thesis
  proof (cases "n < 0")
    case True
    have sp: "\<not> isspace CHR ''-''" by (simp add: isspace_def code_def)
    have "show_int n @ r = CHR ''-'' # show_nat ?m @ r" using True by (simp add: show_int_def)
    then show ?thesis using True rd len cl sp by (simp add: strtol_def)
  next
    case False
    have e: "show_int n @ r = show_nat ?m @ r" using False by (simp add: show_int_def)
    have "dropWhile isspace (show_nat ?m @ r) = show_nat ?m @ r" "read_sign (show_nat ?m @ r) = (False, show_nat ?m @ r)"
      using h by simp_all
    then show ?thesis unfolding e using False rd len cl by (simp add: strtol_def)
  qed
qed

lemma show_int_isspace: "c \<in> set (show_int n) \<Longrightarrow> \<not> isspace c"
  using show_nat_isdigit by (fastforce simp: show_int_def isdigit_def isspace_def code_def split: if_splits)

end
