(* ===== verification/Iperf_Auth.thy ===== *)
theory Iperf_Auth
  imports Iperf_Decimal
begin

text \<open>
  iperf_auth.c: the token a client sends for its user name and password, what the server reads from
  it, and the file of the authorized users. OpenSSL is a parameter (crypto): the encryption and
  decryption with a key and a padding, which yield no bytes when they fail, base64 and SHA-256. The
  clock is one, and so is the content of the file.
\<close>

section \<open>The token\<close>

record crypto =
  rsa_encrypt :: "string \<Rightarrow> int \<Rightarrow> string \<Rightarrow> u8 list"
  rsa_decrypt :: "string \<Rightarrow> int \<Rightarrow> u8 list \<Rightarrow> string"
  Base64Encode :: "u8 list \<Rightarrow> string"
  Base64Decode :: "string \<Rightarrow> u8 list"
  SHA256 :: "string \<Rightarrow> u8 list"

text \<open>The digest in hexadecimal.\<close>

definition hex_digit :: "nat \<Rightarrow> char" where
  "hex_digit d = char_of (if d < 10 then 48 + d else 87 + d)"

definition sha256 :: "crypto \<Rightarrow> string \<Rightarrow> string" where
  "sha256 c s = concat (map (\<lambda>b. [hex_digit (unat b div 16), hex_digit (unat b mod 16)]) (SHA256 c s))"

definition auth_text :: "string \<Rightarrow> string \<Rightarrow> int \<Rightarrow> string" where
  "auth_text user password ts =
     ''user: '' @ user @ [CHR 0x0A] @ ''pwd:  '' @ password @ [CHR 0x0A] @ ''ts:   '' @ show_int ts"

definition encode_auth_setting :: "crypto \<Rightarrow> int \<Rightarrow> string \<Rightarrow> string \<Rightarrow> string \<Rightarrow> int \<Rightarrow> string option" where
  "encode_auth_setting c now user password public_key padding =
     Some (Base64Encode c (rsa_encrypt c public_key padding (auth_text user password now)))"

text \<open>The conversions of sscanf that the format of the token uses. White space in the format stands for
  any amount of it.\<close>

definition scan_lit :: "string \<Rightarrow> string \<Rightarrow> string option" where
  "scan_lit l s = (if take (length l) s = l then Some (drop (length l) s) else None)"

definition scan_word :: "string \<Rightarrow> (string \<times> string) option" where
  "scan_word s =
     (let t = dropWhile isspace s; x = takeWhile (\<lambda>c. \<not> isspace c) t
      in if x = [] then None else Some (x, drop (length x) t))"

definition scan_number :: "string \<Rightarrow> (int \<times> string) option" where
  "scan_number s =
     (let t = dropWhile isspace s; (n, r) = strtol t 10 in if r = t then None else Some (n, r))"

definition scan_auth :: "string \<Rightarrow> (string \<times> string \<times> int) option" where
  "scan_auth s = do {
     s \<leftarrow> scan_lit ''user:'' s;
     (user, s) \<leftarrow> scan_word s;
     s \<leftarrow> scan_lit ''pwd:'' (dropWhile isspace s);
     (password, s) \<leftarrow> scan_word s;
     s \<leftarrow> scan_lit ''ts:'' (dropWhile isspace s);
     (ts, _) \<leftarrow> scan_number s;
     Some (user, password, ts) }"

definition c_string :: "string \<Rightarrow> string" where
  "c_string = takeWhile (\<lambda>c. c \<noteq> CHR 0x00)"

definition decode_auth_setting :: "crypto \<Rightarrow> string \<Rightarrow> string \<Rightarrow> int \<Rightarrow> (string \<times> string \<times> int) option" where
  "decode_auth_setting c token private_key padding =
     (let plaintext = rsa_decrypt c private_key padding (Base64Decode c token)
      in if plaintext = [] then None else scan_auth (c_string plaintext))"

section \<open>The users\<close>

text \<open>fgets with a buffer of 1024 bytes.\<close>

definition fgets_line :: "string \<Rightarrow> string" where
  "fgets_line s = (let x = takeWhile (\<lambda>c. c \<noteq> CHR 0x0A) s
     in take 1023 (if length x < length s then x @ [CHR 0x0A] else x))"

lemma fgets_line_pos: "s \<noteq> [] \<Longrightarrow> 0 < length (fgets_line s)"
  by (cases s) (auto simp: fgets_line_def Let_def)

function fgets_lines :: "string \<Rightarrow> string list" where
  "fgets_lines s = (if s = [] then [] else fgets_line s # fgets_lines (drop (length (fgets_line s)) s))"
  by auto
termination
  by (relation "measure length") (use fgets_line_pos in auto)

declare fgets_lines.simps [simp del]

definition strip_line :: "string \<Rightarrow> string" where
  "strip_line s = takeWhile (\<lambda>c. c \<noteq> CHR 0x0A \<and> c \<noteq> CHR 0x0D) (c_string s)"

text \<open>strtok at commas: the token, if there is one, and what is left.\<close>

definition strtok_comma :: "string \<Rightarrow> string option \<times> string" where
  "strtok_comma s =
     (let t = dropWhile (\<lambda>c. c = CHR '','') s; x = takeWhile (\<lambda>c. c \<noteq> CHR '','') t
      in if t = [] then (None, []) else (Some x, drop (Suc (length x)) t))"

definition skipped :: "string \<Rightarrow> bool" where
  "skipped s \<longleftrightarrow> s = [] \<or> CHR '','' \<notin> set s \<or> hd s = CHR ''#''"

text \<open>strcmp with NULL is undefined, here None.\<close>

definition entry_matches :: "string \<Rightarrow> string \<Rightarrow> string \<Rightarrow> bool option" where
  "entry_matches user hash buf =
     (let (s_username, r) = strtok_comma buf; (s_password, _) = strtok_comma r
      in do {
        u \<leftarrow> s_username;
        if u \<noteq> user then Some False
        else do { p \<leftarrow> s_password; Some (p = hash) } })"

fun find_user :: "string \<Rightarrow> string \<Rightarrow> string list \<Rightarrow> int option" where
  "find_user user hash [] = Some 3"
| "find_user user hash (l # ls) =
     (if skipped (strip_line l) then find_user user hash ls
      else do {
        found \<leftarrow> entry_matches user hash (strip_line l);
        if found then Some 0 else find_user user hash ls })"

definition check_authentication :: "crypto \<Rightarrow> int \<Rightarrow> string option \<Rightarrow> string \<Rightarrow> string \<Rightarrow> int \<Rightarrow> int \<Rightarrow> int option" where
  "check_authentication c now users user password ts skew_threshold =
     (if now - ts > skew_threshold \<or> now - ts < - skew_threshold then Some 1
      else
        (let passwordHash = sha256 c (CHR ''{'' # user @ CHR ''}'' # password) in
         case users of
           None \<Rightarrow> Some 2
         | Some text \<Rightarrow> find_user user passwordHash (fgets_lines text)))"

section \<open>The server reads what the client wrote\<close>

definition one_word :: "string \<Rightarrow> bool" where
  "one_word s \<longleftrightarrow> s \<noteq> [] \<and> (\<forall>c\<in>set s. \<not> isspace c \<and> c \<noteq> CHR 0x00)"

lemma takeWhile_word: "one_word x \<Longrightarrow> takeWhile (\<lambda>c. \<not> isspace c) (x @ CHR 0x0A # r) = x"
proof -
  have "isspace CHR 0x0A" by (simp add: isspace_def code_def)
  then show "one_word x \<Longrightarrow> ?thesis" by (simp add: one_word_def takeWhile_append)
qed

lemma dropWhile_word: "one_word x \<Longrightarrow> dropWhile isspace (x @ r) = x @ r"
  by (cases x) (auto simp: one_word_def)

lemma scan_word_text: "one_word x \<Longrightarrow> isspace c \<Longrightarrow> scan_word (c # x @ CHR 0x0A # r) = Some (x, CHR 0x0A # r)"
  by (simp add: scan_word_def Let_def dropWhile_word takeWhile_word) (simp add: one_word_def)

lemma scan_auth_text:
  assumes "one_word user" "one_word password" "s64_min \<le> ts" "ts \<le> s64_max"
  shows "scan_auth (auth_text user password ts) = Some (user, password, ts)"
proof -
  have sp: "isspace CHR 0x0A" "isspace CHR '' ''" "\<not> isspace CHR ''p''" "\<not> isspace CHR ''t''"
    by (simp_all add: isspace_def code_def)
  have w2: "scan_word (CHR '' '' # CHR '' '' # password @ CHR 0x0A # r) = Some (password, CHR 0x0A # r)" for r
    using scan_word_text [OF assms(2) sp(2), of r] sp(2) by (simp add: scan_word_def)
  have d: "dropWhile isspace (show_int ts) = show_int ts"
  proof (cases "show_int ts")
    case (Cons c cs)
    then have "\<not> isspace c" using show_int_isspace [of c ts] by simp
    with Cons show ?thesis by simp
  qed simp
  have st: "strtol (show_int ts) 10 = (ts, [])" using strtol_show_int [of "[]" ts] assms(3,4) by (simp add: no_digit_def)
  have ne: "show_int ts \<noteq> []" using show_nat_hd [of "nat (- ts)"] show_nat_hd [of "nat ts"] by (metis show_int_def list.distinct(1))
  have n: "scan_number (CHR '' '' # CHR '' '' # CHR '' '' # show_int ts) = Some (ts, [])"
    using d st ne sp(2) by (simp add: scan_number_def)
  show ?thesis
    unfolding auth_text_def scan_auth_def
    using scan_word_text [OF assms(1) sp(2)] w2 n sp by (simp add: scan_lit_def)
qed

theorem decode_encode:
  assumes "one_word user" "one_word password" "s64_min \<le> now" "now \<le> s64_max"
    and "\<And>x. Base64Decode c (Base64Encode c x) = x"
    and "rsa_decrypt c private_key padding (rsa_encrypt c public_key padding (auth_text user password now)) = auth_text user password now"
  shows "\<exists>token. encode_auth_setting c now user password public_key padding = Some token
    \<and> decode_auth_setting c token private_key padding = Some (user, password, now)"
proof -
  have z: "\<forall>x\<in>set (auth_text user password now). x \<noteq> CHR 0x00"
    using assms(1,2) show_int_isspace show_nat_isdigit
    by (fastforce simp: auth_text_def one_word_def show_int_def isdigit_def code_def split: if_splits)
  then have "c_string (auth_text user password now) = auth_text user password now"
    by (simp add: c_string_def)
  moreover have "auth_text user password now \<noteq> []" by (simp add: auth_text_def)
  ultimately show ?thesis
    using assms scan_auth_text [OF assms(1-4)]
    by (simp add: encode_auth_setting_def decode_auth_setting_def)
qed

section \<open>The file as a table\<close>

text \<open>A file of one line for every entry, as the manual describes it.\<close>

definition users_text :: "(string \<times> string) list \<Rightarrow> string" where
  "users_text es = concat (map (\<lambda>(u, h). u @ CHR '','' # h @ [CHR 0x0A]) es)"

definition field :: "string \<Rightarrow> bool" where
  "field s \<longleftrightarrow> s \<noteq> [] \<and> (\<forall>c\<in>set s. c \<noteq> CHR '','' \<and> c \<noteq> CHR 0x0A \<and> c \<noteq> CHR 0x0D \<and> c \<noteq> CHR 0x00)"

definition entry :: "string \<times> string \<Rightarrow> bool" where
  "entry = (\<lambda>(u, h). field u \<and> field h \<and> hd u \<noteq> CHR ''#'' \<and> length u + length h < 1022)"

lemma takeWhile_stop: "(\<forall>x\<in>set xs. P x) \<Longrightarrow> \<not> P y \<Longrightarrow> takeWhile P (xs @ y # ys) = xs"
  by (simp add: takeWhile_append)

lemma fgets_line_entry:
  assumes "\<forall>c\<in>set l. c \<noteq> CHR 0x0A" "length l < 1023"
  shows "fgets_line (l @ CHR 0x0A # r) = l @ [CHR 0x0A]"
  using assms by (simp add: fgets_line_def takeWhile_stop)

lemma fgets_lines_entry:
  assumes "\<forall>c\<in>set l. c \<noteq> CHR 0x0A" "length l < 1023"
  shows "fgets_lines (l @ CHR 0x0A # r) = (l @ [CHR 0x0A]) # fgets_lines r"
proof -
  let ?s = "l @ CHR 0x0A # r"
  have "fgets_lines ?s = fgets_line ?s # fgets_lines (drop (length (fgets_line ?s)) ?s)"
    using fgets_lines.simps [of ?s] by simp
  moreover have "drop (length (l @ [CHR 0x0A])) ?s = r" by simp
  ultimately show ?thesis unfolding fgets_line_entry [OF assms] by simp
qed

lemma strip_entry:
  assumes "\<forall>c\<in>set l. c \<noteq> CHR 0x0A \<and> c \<noteq> CHR 0x0D \<and> c \<noteq> CHR 0x00"
  shows "strip_line (l @ [CHR 0x0A]) = l"
proof -
  have "c_string (l @ [CHR 0x0A]) = l @ [CHR 0x0A]" using assms by (simp add: c_string_def takeWhile_append)
  then show ?thesis using assms by (simp add: strip_line_def takeWhile_stop)
qed

lemma strtok_entry: "field u \<Longrightarrow> strtok_comma (u @ CHR '','' # r) = (Some u, r)"
  "field u \<Longrightarrow> strtok_comma u = (Some u, [])"
proof -
  assume f: "field u"
  have d: "dropWhile (\<lambda>c. c = CHR '','') (u @ x) = u @ x" for x using f by (cases u) (simp_all add: field_def)
  have n: "u \<noteq> []" "\<forall>c\<in>set u. c \<noteq> CHR '',''" using f by (simp_all add: field_def)
  have t: "takeWhile (\<lambda>c. c \<noteq> CHR '','') u = u" using n(2) by (simp add: takeWhile_eq_all_conv)
  show "strtok_comma (u @ CHR '','' # r) = (Some u, r)"
    using n takeWhile_stop [OF n(2), of "CHR '',''" r] by (simp add: strtok_comma_def d)
  show "strtok_comma u = (Some u, [])"
    using n(1) d [of "[]"] by (simp add: strtok_comma_def t Let_def)
qed

lemma find_user_table:
  "\<forall>e\<in>set es. entry e \<Longrightarrow> find_user user hash (fgets_lines (users_text es)) = Some (if (user, hash) \<in> set es then 0 else 3)"
proof (induction es)
  case Nil
  show ?case by (simp add: users_text_def fgets_lines.simps)
next
  case (Cons e es)
  obtain u h where e: "e = (u, h)" by (cases e)
  with Cons.prems have f: "field u" "field h" "hd u \<noteq> CHR ''#''" "length u + length h < 1022" by (auto simp: entry_def)
  let ?l = "u @ CHR '','' # h"
  have l: "\<forall>c\<in>set ?l. c \<noteq> CHR 0x0A \<and> c \<noteq> CHR 0x0D \<and> c \<noteq> CHR 0x00" using f by (auto simp: field_def)
  have ls: "fgets_lines (users_text (e # es)) = (?l @ [CHR 0x0A]) # fgets_lines (users_text es)"
    using fgets_lines_entry [of ?l "users_text es"] l f(4) by (simp add: users_text_def e)
  have sk: "\<not> skipped ?l" using f by (cases u) (auto simp: skipped_def field_def)
  have m: "entry_matches user hash ?l = Some (u = user \<and> h = hash)"
    using strtok_entry(1) [OF f(1)] strtok_entry(2) [OF f(2)] by (simp add: entry_matches_def)
  show ?case unfolding ls using Cons sk m strip_entry [OF l] by (auto simp: e)
qed

text \<open>The check as a lookup in the table.\<close>

lemma check_authentication_table:
  assumes "\<forall>e\<in>set es. entry e" "0 \<le> skew"
  shows "check_authentication c now (Some (users_text es)) user password ts skew =
    Some (if \<bar>now - ts\<bar> > skew then 1
          else if (user, sha256 c (CHR ''{'' # user @ CHR ''}'' # password)) \<in> set es then 0 else 3)"
  using assms by (auto simp: check_authentication_def Let_def find_user_table)

end
