(* ===== verification/Iperf_Control.thy ===== *)
theory Iperf_Control
  imports Iperf_Connect Iperf_Params Iperf_Results Iperf_Transfer Iperf_Timer_Procs Iperf_Auth
begin

text \<open>
  The control connection: iperf_set_send_state, test_is_authorized, iperf_exchange_parameters,
  iperf_set_control_keepalive and iperf_on_connect of src/iperf_api.c, which both ends use. A state
  is one signed byte. What is outside the program, or calls a library that is, is in the record
  host: OpenSSL, the clock and the files of users, the printer and the
  parser of JSON, what malloc returns (for a stream by the number of streams there are), and the
  results of calls that only succeed or fail.
\<close>

record host =
  conn :: conn_env
  strm :: "nat \<Rightarrow> stream_env"
  print_json :: "json \<Rightarrow> u8 list option"
  parse_json :: "u8 list \<Rightarrow> json option"
  top_json :: json
  openssl :: crypto
  utc :: int
  users_file :: "string \<Rightarrow> string option"
  sched_setaffinity :: "int \<Rightarrow> int"
  log_open :: int
  json_start :: int
  json_finish :: int
  procs :: proc_env
  mallocs_for :: mallocs

section \<open>Messages\<close>

definition state_byte :: "int \<Rightarrow> u8" where
  "state_byte st = word_of_int st"

definition byte_state :: "u8 \<Rightarrow> int" where
  "byte_state b = sint b"

definition iperf_set_send_state :: "iperf_test \<Rightarrow> int \<Rightarrow> world \<Rightarrow> (int \<times> iperf_test \<times> world) option" where
  "iperf_set_send_state t st w =
     (if ctrl_sck t \<ge> 0 then do {
        let t = t\<lparr>state := st\<rparr>;
        (r, w) \<leftarrow> Nwrite (ctrl_sck t) [state_byte st] 1 Ptcp w;
        if r < 0 then Some (-1, t, w\<lparr>i_errno := IESENDMESSAGE\<rparr>) else Some (0, t, w) }
      else Some (0, t, w))"

text \<open>The report of an error to the client: the state SERVER_ERROR, then i_errno and errno in network
  order. The error code given takes effect after the state was sent. The caller fails in any case.\<close>

definition send_server_error :: "int option \<Rightarrow> iperf_test \<Rightarrow> world \<Rightarrow> (int \<times> iperf_test \<times> world) option" where
  "send_server_error ie t w = do {
     (r, t, w) \<leftarrow> iperf_set_send_state t SERVER_ERROR w;
     if r \<noteq> 0 then Some (-1, t, w)
     else do {
       let w = (case ie of None \<Rightarrow> w | Some c \<Rightarrow> w\<lparr>i_errno := c\<rparr>);
       (r, w) \<leftarrow> Nwrite (ctrl_sck t) (be32 (word_of_int (i_errno w))) 4 Ptcp w;
       if r < 0 then Some (-1, t, w\<lparr>i_errno := IECTRLWRITE\<rparr>)
       else do {
         (r, w) \<leftarrow> Nwrite (ctrl_sck t) (be32 (word_of_int (errno w))) 4 Ptcp w;
         if r < 0 then Some (-1, t, w\<lparr>i_errno := IECTRLWRITE\<rparr>) else Some (-1, t, w) } } }"

section \<open>The exchange of parameters\<close>

definition test_is_authorized :: "host \<Rightarrow> iperf_test \<Rightarrow> int option" where
  "test_is_authorized h t =
     (case (server_rsa_private_key t, server_authorized_users t) of
        (Some key, Some users) \<Rightarrow>
          (case authtoken (settings t) of
             None \<Rightarrow> Some (-1)
           | Some token \<Rightarrow>
               (case decode_auth_setting (openssl h) token key (use_pkcs1_padding t) of
                  None \<Rightarrow> Some (-1)
                | Some (username, password, ts) \<Rightarrow> do {
                    r \<leftarrow> check_authentication (openssl h) (utc h) (users_file h users) username password ts
                      (server_skew_threshold t);
                    Some (if r = 0 then 0 else -1) }))
      | _ \<Rightarrow> Some 0)"

definition iperf_exchange_parameters :: "host \<Rightarrow> iperf_test \<Rightarrow> world \<Rightarrow> (int \<times> iperf_test \<times> world) option" where
  "iperf_exchange_parameters h t w =
     (if role t = CHR ''c'' then do {
        (r, t, w) \<leftarrow> send_parameters (encode_auth_setting (openssl h) (utc h)) (print_json h) t w;
        Some (if r < 0 then -1 else 0, t, w) }
      else do {
        (r, t, w) \<leftarrow> get_parameters (parse_json h) t w;
        if r < 0 then send_server_error None t w
        else do {
          authorized \<leftarrow> test_is_authorized h t;
          if authorized < 0 then send_server_error (Some IEAUTHTEST) t w
          else do {
            (s, t, w) \<leftarrow> proto_listen (conn h) t w;
            if s < 0 then send_server_error None t w
            else do {
              let t = t\<lparr>read_set := fd_set s (read_set t), max_fd := max s (max_fd t), prot_listener := s\<rparr>;
              (r, t, w) \<leftarrow> iperf_set_send_state t CREATE_STREAMS w;
              Some (if r \<noteq> 0 then -1 else 0, t, w) } } } })"

section \<open>Options of the control connection\<close>

text \<open>A value that was not given is asked from the kernel. The error code of the first of the three
  is the one of the second.\<close>

definition keepalive_value :: "int \<Rightarrow> int \<Rightarrow> world \<Rightarrow> (int option \<times> world) option" where
  "keepalive_value n ie w =
     (if n \<noteq> 0 then Some (Some n, w)
      else do {
        (v, w) \<leftarrow> sys_val [] w;
        Some (if v < 0 then (None, w\<lparr>i_errno := ie\<rparr>) else (Some v, w)) })"

definition iperf_set_control_keepalive :: "iperf_test \<Rightarrow> world \<Rightarrow> (int \<times> world) option" where
  "iperf_set_control_keepalive t w =
     (let s = settings t; f = ctrl_sck t in
      if cntl_ka s = 0 then Some (0, w)
      else do {
        (ok, w) \<leftarrow> set_opts [(EvSetopt f ''SO_KEEPALIVE'' 1 True, IESETCNTLKA)] w;
        if \<not> ok then Some (-1, w)
        else do {
          (kaidle, w) \<leftarrow> keepalive_value (cntl_ka_keepidle s) IESETCNTLKAINTERVAL w;
          if kaidle = None then Some (-1, w)
          else do {
            (kainterval, w) \<leftarrow> keepalive_value (cntl_ka_interval s) IESETCNTLKAINTERVAL w;
            if kainterval = None then Some (-1, w)
            else do {
              (kacount, w) \<leftarrow> keepalive_value (cntl_ka_count s) IESETCNTLKACOUNT w;
              if kacount = None then Some (-1, w)
              else if cntl_ka_keepidle s \<noteq> 0 \<and> cntl_ka_keepidle s \<le> the kainterval * the kacount
              then Some (-1, w\<lparr>i_errno := IECNTLKA\<rparr>)
              else do {
                (ok, w) \<leftarrow> set_opts (opt_if (cntl_ka_keepidle s \<noteq> 0) f ''TCP_KEEPIDLE'' (cntl_ka_keepidle s) IESETCNTLKAKEEPIDLE
                  @ opt_if (cntl_ka_interval s \<noteq> 0) f ''TCP_KEEPINTVL'' (cntl_ka_interval s) IESETCNTLKAINTERVAL
                  @ opt_if (cntl_ka_count s \<noteq> 0) f ''TCP_KEEPCNT'' (cntl_ka_count s) IESETCNTLKACOUNT) w;
                Some (if ok then 0 else -1, w) } } } } })"

text \<open>The server notes whether the address of the client is an IPv4 address mapped into IPv6, which a
  reply of 1 stands for here; the rest is printed.\<close>

definition iperf_on_connect :: "iperf_test \<Rightarrow> world \<Rightarrow> (iperf_test \<times> world) option" where
  "iperf_on_connect t w =
     (if role t = CHR ''c'' then Some (t, w)
      else do {
        (peer, w) \<leftarrow> sys_val [] w;
        (_, w) \<leftarrow> getsockdomain (ctrl_sck t) w;
        Some (if peer = 1 then t\<lparr>mapped_v4 := 1\<rparr> else t, w) })"

definition iperf_setaffinity :: "host \<Rightarrow> int \<Rightarrow> world \<Rightarrow> int \<times> world" where
  "iperf_setaffinity h cpu w =
     (if sched_setaffinity h cpu \<noteq> 0 then (-1, w\<lparr>i_errno := IEAFFINITY\<rparr>) else (0, w))"

text \<open>The mask of all processors again.\<close>

definition iperf_clearaffinity :: "host \<Rightarrow> world \<Rightarrow> int \<times> world" where
  "iperf_clearaffinity h w =
     (if sched_setaffinity h (-1) \<noteq> 0 then (-1, w\<lparr>i_errno := IEAFFINITY\<rparr>) else (0, w))"

section \<open>Interrupts\<close>

text \<open>What a signal does before the process ends: the statistics so far are reported, and the other end
  is told.\<close>

definition iperf_got_sigend :: "host \<Rightarrow> iperf_test \<Rightarrow> world \<Rightarrow> (iperf_test \<times> world) option" where
  "iperf_got_sigend h t w = do {
     t \<leftarrow> (if role t = CHR ''c'' \<or> role t = CHR ''s'' \<and> state t = TEST_RUNNING then do {
             t \<leftarrow> iperf_stats_callback (stats_rd (procs h)) (t\<lparr>test_done := 1, cpu_util := cpu_now (procs h)\<rparr>);
             Some (iperf_reporter_callback (t\<lparr>state := DISPLAY_RESULTS\<rparr>)) }
           else Some t);
     (t, w) \<leftarrow> (if ctrl_sck t \<ge> 0 then do {
                  let t = t\<lparr>state := (if role t = CHR ''c'' then CLIENT_TERMINATE else SERVER_TERMINATE)\<rparr>;
                  (_, w) \<leftarrow> Nwrite (ctrl_sck t) [state_byte (state t)] 1 Ptcp w;
                  Some (t, w) }
                else Some (t, w));
     Some (t, w\<lparr>i_errno := (if role t = CHR ''c'' then IECLIENTTERM else IESERVERTERM)\<rparr>) }"

section \<open>Facts\<close>

lemma state_roundtrip: "-128 \<le> st \<Longrightarrow> st < 128 \<Longrightarrow> byte_state (state_byte st) = st"
  by (simp add: byte_state_def state_byte_def sint_sbintrunc' signed_take_bit_int_eq_self)

lemma send_state_cases:
  assumes "iperf_set_send_state t st w = Some (r, t', w')"
  shows "t' = (if ctrl_sck t \<ge> 0 then t\<lparr>state := st\<rparr> else t) \<and> (r = 0 \<or> r = -1 \<and> i_errno w' = IESENDMESSAGE)"
  using assms by (auto simp: iperf_set_send_state_def Option.bind_eq_Some_conv Let_def split: if_splits)

lemma server_error_fails: "send_server_error ie t w = Some (r, t', w') \<Longrightarrow> r = -1"
  by (auto simp: send_server_error_def Option.bind_eq_Some_conv Let_def split: if_splits)

end
