(* ===== verification/Iperf_Quic_Transfer.thy ===== *)
theory Iperf_Quic_Transfer
  imports Iperf_Quic Iperf_Transfer
begin

text \<open>
  One block over QUIC: iperf_quic_send and iperf_quic_recv of src/iperf_quic.c. The buffers msquic
  delivered wait in the queue of the stream's context; a block is taken from its front. As in the
  other transports a round is atomic with respect to the main thread, which alone sets done of the
  stream and of the test, so that a wait ends by an event of msquic only.
\<close>

definition QUIC_MAX_PENDING_SENDS :: int where
  "QUIC_MAX_PENDING_SENDS = 32"

definition sc_of :: "nat \<Rightarrow> world \<Rightarrow> quic_stream_ctx option" where
  "sc_of a w = stream_ctxs (quic_mem w) a"

definition quic_over :: "iperf_test \<Rightarrow> iperf_stream \<Rightarrow> quic_stream_ctx \<Rightarrow> bool" where
  "quic_over t sp sc \<longleftrightarrow> fin_seen sc \<noteq> 0 \<or> stream_done sp \<noteq> 0 \<or> test_done t \<noteq> 0"

text \<open>The loop that waits while the context satisfies busy, at most 100 ms at a time. Only an event
  can end it.\<close>

fun quic_wait :: "(quic_stream_ctx \<Rightarrow> bool) \<Rightarrow> nat \<Rightarrow> quic_event list list \<Rightarrow> world \<Rightarrow> world option" where
  "quic_wait busy a bs w = (case sc_of a w of
     None \<Rightarrow> None
   | Some sc \<Rightarrow> if \<not> busy sc then Some (upd_quic (\<lambda>q. q\<lparr>coming_events := bs\<rparr>) w)
       else (case bs of
           [] \<Rightarrow> None
         | b # bs \<Rightarrow> do {
             ((s, ns), w) \<leftarrow> clock_plus 100 w;
             w \<leftarrow> deliver b (quic_call (Timed_wait s ns) w);
             quic_wait busy a bs w }))"

declare quic_wait.simps [simp del]

definition quic_await :: "(quic_stream_ctx \<Rightarrow> bool) \<Rightarrow> nat \<Rightarrow> world \<Rightarrow> world option" where
  "quic_await busy a w = do {
     w \<leftarrow> quic_lock w;
     quic_wait busy a (coming_events (quic_mem w)) w }"

section \<open>Sending\<close>

text \<open>The cancellation of the thread is switched off on entry and on again before the returns, except
  those for a lack of memory and a failed send.\<close>

definition iperf_quic_send :: stream_op where
  "iperf_quic_send t sp w =
     (case (stream_ctx sp, quic_ctx (quic_mem w)) of
        (Some a, Some c) \<Rightarrow> do {
          let w = quic_call (Set_cancel False) w;
          w \<leftarrow> quic_await (\<lambda>sc. pending_sends sc \<ge> QUIC_MAX_PENDING_SENDS \<and> \<not> quic_over t sp sc) a w;
          sc \<leftarrow> sc_of a w;
          if quic_over t sp sc then Some (0, sp, t, quic_call (Set_cancel True) w)
          else do {
            let w = set_sc a (sc\<lparr>pending_sends := pending_sends sc + 1\<rparr>) w;
            let sp = (if pending_size sp = 0 then sp\<lparr>pending_size := blksize (settings t)\<rparr> else sp);
            len \<leftarrow> sized (pending_size sp) (buffer sp);
            (ok, w) \<leftarrow> alloc w;
            if \<not> ok then Some (NET_HARDERROR, sp, t, w)
            else do {
              h \<leftarrow> hquic sc;
              (ok, w) \<leftarrow> quic_status w;
              if \<not> ok then Some (NET_HARDERROR, sp, t, w)
              else Some (int len, count_sent (int len) (sp\<lparr>pending_size := 0\<rparr>), t,
                     quic_call (Set_cancel True) (quic_call (Stream_send h (take len (buffer sp))) w)) } } }
      | _ \<Rightarrow> Some (NET_HARDERROR, sp, t, w))"

section \<open>Receiving\<close>

text \<open>The loop over the chunks: the bytes taken and the chunks left. A chunk that was used up goes.\<close>

fun take_chunks :: "nat \<Rightarrow> recv_chunk list \<Rightarrow> u8 list \<times> recv_chunk list" where
  "take_chunks want [] = ([], [])"
| "take_chunks want (c # cs) =
     (if want = 0 then ([], c # cs)
      else
        (let k = min want (length (chunk_data c) - chunk_off c);
             bs = take k (drop (chunk_off c) (chunk_data c));
             c' = c\<lparr>chunk_off := chunk_off c + k\<rparr>
         in if chunk_off c' = length (chunk_data c)
            then (case take_chunks (want - k) cs of (bs', cs') \<Rightarrow> (bs @ bs', cs'))
            else (bs, c' # cs)))"

definition take_block :: "nat \<Rightarrow> quic_stream_ctx \<Rightarrow> u8 list \<times> quic_stream_ctx" where
  "take_block blk sc =
     (case take_chunks (min blk (queued_bytes sc)) (recv_queue sc) of
        (bs, cs) \<Rightarrow> (bs, sc\<lparr>recv_queue := cs, queued_bytes := queued_bytes sc - length bs\<rparr>))"

definition iperf_quic_recv :: stream_op where
  "iperf_quic_recv t sp w =
     (case stream_ctx sp of
        None \<Rightarrow> Some (NET_HARDERROR, sp, t, w)
      | Some a \<Rightarrow> do {
          w \<leftarrow> quic_await (\<lambda>sc. queued_bytes sc = 0 \<and> \<not> quic_over t sp sc) a (quic_call (Set_cancel False) w);
          sc \<leftarrow> sc_of a w;
          if queued_bytes sc = 0 then Some (0, sp, t, quic_call (Set_cancel True) w)
          else do {
            blk \<leftarrow> sized (blksize (settings t)) (buffer sp);
            let (bs, sc) = take_block blk sc;
            buf \<leftarrow> store 0 bs (buffer sp);
            let sp = sp\<lparr>buffer := buf\<rparr>;
            let w = quic_call (Set_cancel True) (set_sc a sc w);
            Some (int (length bs), if state t = TEST_RUNNING then count_received (int (length bs)) sp else sp, t, w) } })"

section \<open>The queue of a stream\<close>

text \<open>A context stands for the bytes that were received and not yet taken.\<close>

definition chunk_rest :: "recv_chunk \<Rightarrow> u8 list" where
  "chunk_rest c = drop (chunk_off c) (chunk_data c)"

definition unread :: "quic_stream_ctx \<Rightarrow> u8 list" where
  "unread sc = concat (map chunk_rest (recv_queue sc))"

definition sc_ok :: "quic_stream_ctx \<Rightarrow> bool" where
  "sc_ok sc \<longleftrightarrow> queued_bytes sc = length (unread sc) \<and> (\<forall>c\<in>set (recv_queue sc). chunk_off c \<le> length (chunk_data c))"

lemma take_chunks_ok:
  assumes "take_chunks want cs = (bs, cs')" "\<forall>c\<in>set cs. chunk_off c \<le> length (chunk_data c)"
  shows "bs = take want (concat (map chunk_rest cs)) \<and> concat (map chunk_rest cs') = drop want (concat (map chunk_rest cs))
    \<and> (\<forall>c\<in>set cs'. chunk_off c \<le> length (chunk_data c))"
  using assms
proof (induction cs arbitrary: want bs cs')
  case (Cons c cs)
  show ?case
  proof (cases "want \<ge> length (chunk_rest c)")
    case True
    show ?thesis
    proof (cases "want = 0")
      case w0: True
      with Cons.prems True show ?thesis by (auto simp: chunk_rest_def)
    next
      case False
      let ?n = "length (chunk_data c) - chunk_off c"
      obtain bs1 where r: "take_chunks (want - ?n) cs = (bs1, cs')" "bs = chunk_rest c @ bs1"
        using Cons.prems True False by (auto simp: Let_def chunk_rest_def min_def split: prod.splits if_splits)
      from Cons.IH [OF r(1)] Cons.prems(2) show ?thesis using True r(2) by (simp add: chunk_rest_def)
    qed
  next
    case False
    then have l: "want < length (chunk_data c) - chunk_off c" by (simp add: chunk_rest_def)
    show ?thesis
    proof (cases "want = 0")
      case w0: True
      with Cons.prems show ?thesis by auto
    next
      case w1: False
      with l Cons.prems have "bs = take want (chunk_rest c)" "cs' = c\<lparr>chunk_off := chunk_off c + want\<rparr> # cs"
        by (auto simp: Let_def chunk_rest_def min_def split: if_splits)
      with l Cons.prems(2) show ?thesis by (auto simp: chunk_rest_def add.commute)
    qed
  qed
qed simp

lemma take_block_ok:
  assumes "take_block blk sc = (bs, sc')" "sc_ok sc"
  shows "bs = take blk (unread sc)" "unread sc' = drop blk (unread sc)" "sc_ok sc'"
    "hquic sc' = hquic sc" "pending_sends sc' = pending_sends sc" "fin_seen sc' = fin_seen sc"
proof -
  obtain cs where t: "take_chunks (min blk (length (unread sc))) (recv_queue sc) = (bs, cs)"
    and sc': "sc' = sc\<lparr>recv_queue := cs, queued_bytes := queued_bytes sc - length bs\<rparr>"
    using assms by (auto simp: take_block_def sc_ok_def split: prod.splits)
  have c: "bs = take (min blk (length (unread sc))) (unread sc)" "concat (map chunk_rest cs) = drop (min blk (length (unread sc))) (unread sc)"
    "\<forall>c\<in>set cs. chunk_off c \<le> length (chunk_data c)"
    using take_chunks_ok [OF t] assms(2) by (simp_all add: unread_def sc_ok_def)
  show "bs = take blk (unread sc)" using c(1) by (simp add: min_def)
  show "unread sc' = drop blk (unread sc)" using c(2) by (simp add: sc' unread_def min_def)
  show "sc_ok sc'" using assms(2) c by (simp add: sc_ok_def sc' unread_def)
  show "hquic sc' = hquic sc" "pending_sends sc' = pending_sends sc" "fin_seen sc' = fin_seen sc" by (simp_all add: sc')
qed

end
