(* ===== verification/Iperf_Workers.thy ===== *)
theory Iperf_Workers
  imports Iperf_Control Iperf_Quic_Transfer
begin

text \<open>
  What the main loops of the client and of the server share: the threads that run the streams
  (iperf_client_worker_run of src/iperf_client_api.c and iperf_server_worker_run of
  src/iperf_server_api.c, which are the same), how they are created and stopped, select on sets of
  descriptors, and the time select waits while data is expected. A worker does one round of
  iperf_send_mt or iperf_recv_mt at a time; rounds are atomic, and a thread is cancelled between two
  of its rounds.
\<close>

type_synonym sys = "app \<times> timer_name tstore"

section \<open>Threads\<close>

abbreviation (input) ESRCH :: int where "ESRCH \<equiv> 3"

text \<open>A call of the thread library returns its error code.\<close>

definition sys_rc :: "event list \<Rightarrow> world \<Rightarrow> (int \<times> world) option" where
  "sys_rc evs w = do {
     (r, w) \<leftarrow> next_reply w;
     case r of
       Fail e \<Rightarrow> Some (if e = 0 then EINVAL else e, w)
     | Ret _ _ \<Rightarrow> Some (0, w\<lparr>trace := trace w @ evs\<rparr>) }"

definition new_thread :: "world \<Rightarrow> nat" where
  "new_thread w = Suc (foldr (\<lambda>e m. case e of EvSpawn n \<Rightarrow> max n m | _ \<Rightarrow> m) (trace w) 0)"

definition pthread_create :: "iperf_stream \<Rightarrow> world \<Rightarrow> (int \<times> iperf_stream \<times> world) option" where
  "pthread_create sp w = do {
     (rc, w') \<leftarrow> sys_rc [EvSpawn (new_thread w)] w;
     Some (rc, if rc = 0 then sp\<lparr>thr := new_thread w\<rparr> else sp, w') }"

text \<open>The loop that starts the threads of all streams: a failure leaves it.\<close>

fun create_workers :: "iperf_stream list \<Rightarrow> world \<Rightarrow> (int \<times> iperf_stream list \<times> world) option" where
  "create_workers [] w = Some (0, [], w)"
| "create_workers (sp # sps) w = do {
     (rc, sp, w) \<leftarrow> pthread_create sp w;
     if rc \<noteq> 0 then Some (-1, sp # sps, w\<lparr>i_errno := IEPTHREADCREATE\<rparr>)
     else do {
       (r, sps, w) \<leftarrow> create_workers sps w;
       Some (r, sp\<lparr>thread_created := 1\<rparr> # sps, w) } }"

definition thread_bad :: "int \<Rightarrow> bool" where
  "thread_bad rc \<longleftrightarrow> rc \<noteq> 0 \<and> rc \<noteq> ESRCH"

text \<open>A thread is cancelled, then joined. On the regular way an error ends the function; on the way
  out it is only noted.\<close>

definition stop_worker :: "iperf_stream \<Rightarrow> world \<Rightarrow> (int \<times> iperf_stream \<times> world) option" where
  "stop_worker sp w =
     (let sp = sp\<lparr>stream_done := 1\<rparr> in
      if thread_created sp \<noteq> 1 then Some (0, sp, w)
      else do {
        (rc, w) \<leftarrow> sys_rc [EvCancel (thr sp)] w;
        if thread_bad rc then Some (-1, sp, w\<lparr>i_errno := IEPTHREADCANCEL, errno := rc\<rparr>)
        else do {
          (rc, w) \<leftarrow> sys_rc [EvJoin (thr sp)] w;
          if thread_bad rc then Some (-1, sp, w\<lparr>i_errno := IEPTHREADJOIN, errno := rc\<rparr>)
          else Some (0, sp\<lparr>thread_created := 0\<rparr>, w) } })"

definition drop_worker :: "iperf_stream \<Rightarrow> world \<Rightarrow> (iperf_stream \<times> world) option" where
  "drop_worker sp w =
     (let sp = sp\<lparr>stream_done := 1\<rparr> in
      if thread_created sp \<noteq> 1 then Some (sp, w)
      else do {
        (rc, w) \<leftarrow> sys_rc [EvCancel (thr sp)] w;
        let w = (if thread_bad rc then w\<lparr>i_errno := IEPTHREADCANCEL, errno := rc\<rparr> else w);
        (rc, w) \<leftarrow> sys_rc [EvJoin (thr sp)] w;
        let w = (if thread_bad rc then w\<lparr>i_errno := IEPTHREADJOIN, errno := rc\<rparr> else w);
        Some (sp\<lparr>thread_created := 0\<rparr>, w) })"

text \<open>The loops over the streams: over those the predicate selects, up to the first failure; and over
  all of them.\<close>

fun stop_workers :: "(iperf_stream \<Rightarrow> bool) \<Rightarrow> iperf_stream list \<Rightarrow> world
    \<Rightarrow> (int \<times> iperf_stream list \<times> world) option" where
  "stop_workers P [] w = Some (0, [], w)"
| "stop_workers P (sp # sps) w =
     (if \<not> P sp then do { (r, sps, w) \<leftarrow> stop_workers P sps w; Some (r, sp # sps, w) }
      else do {
        (r, sp, w) \<leftarrow> stop_worker sp w;
        if r < 0 then Some (-1, sp # sps, w)
        else do { (r, sps, w) \<leftarrow> stop_workers P sps w; Some (r, sp # sps, w) } })"

fun drop_workers :: "(iperf_stream \<Rightarrow> bool) \<Rightarrow> iperf_stream list \<Rightarrow> world
    \<Rightarrow> (iperf_stream list \<times> world) option" where
  "drop_workers P [] w = Some ([], w)"
| "drop_workers P (sp # sps) w = do {
     (sp, w) \<leftarrow> (if P sp then drop_worker sp w else Some (sp, w));
     (sps, w) \<leftarrow> drop_workers P sps w;
     Some (sp # sps, w) }"

text \<open>One round of the thread of the stream at an index. A thread that failed, or found the test or
  the stream done, has returned; the list of those that have is kept beside the test.\<close>

definition worker_round :: "host \<Rightarrow> nat \<Rightarrow> nat list \<times> iperf_test \<times> world
    \<Rightarrow> (nat list \<times> iperf_test \<times> world) option" where
  "worker_round h i = (\<lambda>(gone, t, w).
     if i \<ge> length (streams t) \<or> i \<in> set gone \<or> thread_created (streams t ! i) = 0 then Some (gone, t, w)
     else
       (let sp = streams t ! i in
        if test_done t \<noteq> 0 \<or> stream_done sp \<noteq> 0 then Some (i # gone, t, w)
        else do {
          (r, sp, t, w) \<leftarrow> (if sender sp \<noteq> 0 then iperf_send_mt (stream_send iperf_quic_send) t sp w
                          else iperf_recv_mt (stream_recv iperf_quic_recv) t sp w);
          Some (if r < 0 then i # gone else gone, t\<lparr>streams := (streams t)[i := sp]\<rparr>, w) }))"

fun worker_rounds :: "host \<Rightarrow> nat list \<Rightarrow> nat list \<times> iperf_test \<times> world
    \<Rightarrow> (nat list \<times> iperf_test \<times> world) option" where
  "worker_rounds h [] a = Some a"
| "worker_rounds h (i # is) a = do { a \<leftarrow> worker_round h i a; worker_rounds h is a }"

section \<open>select\<close>

text \<open>The descriptors of a set that are ready, by the bits of the reply.\<close>

definition ready :: "int \<Rightarrow> fd list \<Rightarrow> fd list" where
  "ready v S = map snd (filter (\<lambda>(i, _). bit v i) (enumerate 0 S))"

text \<open>select fails with EBADF exactly when a descriptor of a set is not open. Without a timeout it
  does not return as long as nothing is ready. Linux writes back how much of the timeout is left;
  only whether anything is left is used: nothing is when nothing was ready, and a reply with data
  says so too. The result is the number of ready descriptors, both sets, and whether the timeout
  is there and used up.\<close>

definition select_sets :: "fd list \<Rightarrow> fd list \<Rightarrow> (int \<times> int) option \<Rightarrow> world
    \<Rightarrow> (int \<times> fd list \<times> fd list \<times> bool \<times> world) option" where
  "select_sets rs ws timeout w = do {
     (r, w) \<leftarrow> next_reply w;
     let w = emit EvSelect w;
     if \<not> set (rs @ ws) \<subseteq> fds w then Some (-1, rs, ws, timeout = Some (0, 0), w\<lparr>errno := EBADF\<rparr>)
     else (case r of
       Fail e \<Rightarrow> Some (-1, rs, ws, timeout = Some (0, 0), w\<lparr>errno := (if e = EBADF then EINTR else e)\<rparr>)
     | Ret v bs \<Rightarrow>
         (let rs' = ready v rs; ws' = ready (v div 2 ^ length rs) ws; n = int (length rs' + length ws') in
          if n = 0 \<and> timeout = None then None
          else Some (n, rs', ws', timeout \<noteq> None \<and> (n = 0 \<or> bs \<noteq> [] \<or> timeout = Some (0, 0)), w))) }"

text \<open>FD_ISSET of a descriptor that is negative is undefined.\<close>

definition fd_isset :: "fd \<Rightarrow> fd list \<Rightarrow> bool option" where
  "fd_isset f S = (if f < 0 then None else Some (f \<in> set S))"

section \<open>Waiting for data\<close>

definition rcv_timeout_usecs :: "iperf_settings \<Rightarrow> int" where
  "rcv_timeout_usecs s = uint (secs (rcv_timeout s)) * 1000000 + uint (usecs (rcv_timeout s))"

text \<open>The timeout of select when data is expected. The cap at one second is applied to timeout_us
  only, which is compared and not used.\<close>

definition receive_timeout :: "iperf_settings \<Rightarrow> (int \<times> int) option \<Rightarrow> int \<times> int" where
  "receive_timeout s timeout =
     (let rcv_timeout_us = rcv_timeout_usecs s;
          timeout_us = (case timeout of None \<Rightarrow> -1 | Some (tv_sec, tv_usec) \<Rightarrow> tv_sec * 1000000 + tv_usec);
          timeout_us = (if timeout_us > 1000000 then 1000000 else timeout_us);
          own = (uint (secs (rcv_timeout s)), uint (usecs (rcv_timeout s)))
      in if timeout_us < 0 \<or> timeout_us > rcv_timeout_us then own
         else (case timeout of None \<Rightarrow> own | Some tv \<Rightarrow> tv))"

text \<open>Whether nothing came in for longer than that, with the clock read now.\<close>

definition idle_usecs :: "iperf_time \<Rightarrow> iperf_time \<Rightarrow> int option" where
  "idle_usecs now last_receive_time =
     (case iperf_time_diff now last_receive_time of
        (past, diff) \<Rightarrow> if past = 0 then Some (sint (iperf_time_in_usecs diff)) else None)"

text \<open>The local variables of a main loop that outlive a turn, and the threads that have returned.\<close>

record loop_vars =
  now_time :: iperf_time
  last_receive_time :: iperf_time
  last_receive_blocks :: u64
  gone :: "nat list"

definition note_progress :: "iperf_test \<Rightarrow> 'a loop_vars_scheme \<Rightarrow> 'a loop_vars_scheme" where
  "note_progress t v =
     (if blocks_received t > last_receive_blocks v
      then v\<lparr>last_receive_blocks := blocks_received t, last_receive_time := now_time v\<rparr> else v)"

definition run_workers :: "host \<Rightarrow> nat list \<Rightarrow> 'a loop_vars_scheme \<Rightarrow> sys \<Rightarrow> ('a loop_vars_scheme \<times> sys) option" where
  "run_workers h is v = (\<lambda>((t, w), s). do {
     (g, t, w) \<leftarrow> worker_rounds h is (gone v, t, w);
     Some (v\<lparr>gone := g\<rparr>, ((t, w), s)) })"

end
