(* ===== verification/Iperf_Client.thy ===== *)
theory Iperf_Client
  imports Iperf_Workers
begin

text \<open>
  The client: src/iperf_client_api.c without the timers, which are in Iperf_Timer_Procs. The state
  of a run is the test, the world and the timers. iperf_run_client is a function of a schedule: for
  every turn of its loop the environment of that turn and the rounds the workers get before it; a
  schedule that ends before the loop does gives None.
\<close>

section \<open>The data streams\<close>

text \<open>The congestion control of a TCP stream: set when it was asked for, then read back. The name
  the kernel reports is text the model does not follow: an empty reply stands for a failure.\<close>

definition congestion_name :: "u8 list \<Rightarrow> string" where
  "congestion_name bs = map (\<lambda>b. char_of (unat b)) (takeWhile (\<lambda>b. b \<noteq> 0) (take 16 bs))"

definition sys_getname :: "world \<Rightarrow> (string option \<times> world) option" where
  "sys_getname w = do {
     (r, w) \<leftarrow> next_reply w;
     case r of
       Fail e \<Rightarrow> Some (None, w\<lparr>errno := e\<rparr>)
     | Ret _ bs \<Rightarrow> Some (Some (congestion_name bs), w) }"

definition close_keeping_errno :: "fd \<Rightarrow> world \<Rightarrow> world" where
  "close_keeping_errno s w = (sys_close s w)\<lparr>errno := errno w\<rparr>"

definition client_congestion :: "iperf_test \<Rightarrow> fd \<Rightarrow> world \<Rightarrow> (int \<times> iperf_test \<times> world) option" where
  "client_congestion t s w =
     (if protocol t \<noteq> Ptcp then Some (0, t, w)
      else do {
        (r, w) \<leftarrow> (if congestion t \<noteq> None then sys_ok (EvSetopt s ''TCP_CONGESTION'' 0 True) w else Some (0, w));
        if r < 0 then Some (-1, t, (close_keeping_errno s w)\<lparr>i_errno := IESETCONGESTION\<rparr>)
        else do {
          (ca, w) \<leftarrow> sys_getname w;
          if ca = None \<and> congestion t \<noteq> None
          then Some (-1, t, (close_keeping_errno s w)\<lparr>i_errno := IESETCONGESTION\<rparr>)
          else Some (0, t\<lparr>congestion_used := Some (case ca of None \<Rightarrow> ''unknown'' | Some n \<Rightarrow> n)\<rparr>, w) } })"

text \<open>The local port of the stream with index i.\<close>

definition stream_bind_port :: "iperf_test \<Rightarrow> int \<Rightarrow> int \<Rightarrow> int" where
  "stream_bind_port t snder i =
     (if bind_port t = 0 then 0
      else bind_port t + i + (if snder = 0 \<and> mode t = BIDIRECTIONAL then num_streams t else 0))"

definition create_stream :: "host \<Rightarrow> int \<Rightarrow> int \<Rightarrow> iperf_test \<Rightarrow> world \<Rightarrow> (int \<times> iperf_test \<times> world) option" where
  "create_stream h snder i t w = do {
     let orig_bind_port = bind_port t;
     (s, t, w) \<leftarrow> proto_connect (conn h) (t\<lparr>bind_port := stream_bind_port t snder i\<rparr>) w;
     let t = t\<lparr>bind_port := orig_bind_port\<rparr>;
     if s < 0 then Some (-1, t, w)
     else do {
       (r, t, w) \<leftarrow> client_congestion t s w;
       if r < 0 then Some (-1, t, w)
       else do {
         (sp, t, w) \<leftarrow> iperf_new_stream (strm h (length (streams t))) t s snder w;
         Some (if sp = None then -1 else 0, t, w) } } }"

text \<open>The loop, by the streams left.\<close>

fun create_streams :: "host \<Rightarrow> int \<Rightarrow> nat \<Rightarrow> int \<Rightarrow> iperf_test \<Rightarrow> world \<Rightarrow> (int \<times> iperf_test \<times> world) option" where
  "create_streams h snder 0 i t w = Some (0, t, w)"
| "create_streams h snder (Suc n) i t w = do {
     (r, t, w) \<leftarrow> create_stream h snder i t w;
     if r < 0 then Some (-1, t, w) else create_streams h snder n (i + 1) t w }"

definition iperf_create_streams :: "host \<Rightarrow> iperf_test \<Rightarrow> int \<Rightarrow> world \<Rightarrow> (int \<times> iperf_test \<times> world) option" where
  "iperf_create_streams h t snder w = create_streams h snder (nat (num_streams t)) 0 t w"

text \<open>The streams the mode asks for; the enum iperf_mode is the flag itself for the first two.\<close>

definition create_all_streams :: "host \<Rightarrow> iperf_test \<Rightarrow> world \<Rightarrow> (int \<times> iperf_test \<times> world) option" where
  "create_all_streams h t w =
     (case mode t of
        SENDER \<Rightarrow> iperf_create_streams h t 1 w
      | RECEIVER \<Rightarrow> iperf_create_streams h t 0 w
      | BIDIRECTIONAL \<Rightarrow> do {
          (r, t, w) \<leftarrow> iperf_create_streams h t 1 w;
          if r < 0 then Some (-1, t, w) else iperf_create_streams h t 0 w })"

section \<open>The end of the client\<close>

fun close_all :: "fd list \<Rightarrow> world \<Rightarrow> world" where
  "close_all [] w = w"
| "close_all (f # fs) w = close_all fs (sys_close f w)"

definition iperf_client_end :: "iperf_test \<Rightarrow> world \<Rightarrow> (int \<times> iperf_test \<times> world) option" where
  "iperf_client_end t w = do {
     let (t, w) = (if protocol t \<noteq> Pquic then (t, close_all (map socket (streams t)) w) else iperf_quic_reset_test t w);
     let t = iperf_reporter_callback t;
     (r, t, w) \<leftarrow> (if state t > 0 then iperf_set_send_state t IPERF_DONE w else Some (0, t, w));
     if r \<noteq> 0 then Some (-1, t, w)
     else Some (0, t, if ctrl_sck t \<ge> 0 then sys_close (ctrl_sck t) w else w) }"

section \<open>The messages of the server\<close>

text \<open>The report of an error by the server: two integers in network order. A short read leaves the
  rest of the variable as it was.\<close>

definition rd_err :: "u8 list \<Rightarrow> u8 list \<Rightarrow> u8 list" where
  "rd_err got old = got @ drop (length got) old"

definition read_server_error :: "iperf_test \<Rightarrow> world \<Rightarrow> (int \<times> iperf_test \<times> world) option" where
  "read_server_error t w = do {
     (r, got, w) \<leftarrow> Nread (ctrl_sck t) 4 Ptcp w;
     if r < 0 then Some (-1, t, w\<lparr>i_errno := IECTRLREAD\<rparr>)
     else do {
       let err = rd_err got (replicate 4 0);
       let w = w\<lparr>i_errno := sint (rd32 err)\<rparr>;
       (r, got, w) \<leftarrow> Nread (ctrl_sck t) 4 Ptcp w;
       if r < 0 then Some (-1, t, w\<lparr>i_errno := IECTRLREAD\<rparr>)
       else Some (-1, t, w\<lparr>errno := sint (rd32 (rd_err got err))\<rparr>) } }"

definition on_sys :: "timer_name tstore \<Rightarrow> (int \<times> iperf_test \<times> world) option \<Rightarrow> (int \<times> sys) option" where
  "on_sys s m = do { (r, t, w) \<leftarrow> m; Some (r, ((t, w), s)) }"

text \<open>TEST_START: the clocks of the streams, the timers, and the senders' green lights.\<close>

definition client_test_start :: "host \<Rightarrow> sys \<Rightarrow> (int \<times> sys) option" where
  "client_test_start h = (\<lambda>((t, w), s). do {
     (r, t, w) \<leftarrow> iperf_init_test (iperf_quic_init t) t w;
     if r < 0 then Some (-1, ((t, w), s))
     else do {
       (r, a, s) \<leftarrow> create_client_timers (mallocs_for h) ((t, w), s);
       if r < 0 then Some (-1, (a, s))
       else do {
         (r, (t, w), s) \<leftarrow> create_omit_timer (mallocs_for h) (a, s);
         if r < 0 then Some (-1, ((t, w), s))
         else Some (0, ((if mode t = RECEIVER then t else iperf_create_send_timers t, w), s)) } } })"

definition client_message :: "host \<Rightarrow> sys \<Rightarrow> (int \<times> sys) option" where
  "client_message h = (\<lambda>((t, w), s).
     if state t = PARAM_EXCHANGE then do {
       (r, t, w) \<leftarrow> iperf_exchange_parameters h t w;
       if r < 0 then Some (-1, ((t, w), s))
       else do { (t, w) \<leftarrow> iperf_on_connect t w; Some (0, ((t, w), s)) } }
     else if state t = CREATE_STREAMS then on_sys s (create_all_streams h t w)
     else if state t = TEST_START then client_test_start h ((t, w), s)
     else if state t = TEST_RUNNING then Some (0, ((t, w), s))
     else if state t = EXCHANGE_RESULTS then
       on_sys s (iperf_exchange_results (print_json h) (parse_json h) (top_json h) t w)
     else if state t = DISPLAY_RESULTS then do {
       (_, t, w) \<leftarrow> iperf_client_end t w;
       Some (0, ((t, w), s)) }
     else if state t = IPERF_DONE then Some (0, ((t, w), s))
     else if state t = SERVER_TERMINATE then
       (let oldstate = state t; w = w\<lparr>i_errno := IESERVERTERM\<rparr>;
            t = iperf_reporter_callback (t\<lparr>cpu_util := cpu_now (procs h), state := DISPLAY_RESULTS\<rparr>)
        in Some (-1, ((t\<lparr>state := oldstate\<rparr>, w), s)))
     else if state t = ACCESS_DENIED then Some (-1, ((t, w\<lparr>i_errno := IEACCESSDENIED\<rparr>), s))
     else if state t = SERVER_ERROR then on_sys s (read_server_error t w)
     else Some (-1, ((t, w\<lparr>i_errno := IEMESSAGE\<rparr>), s)))"

text \<open>The state byte is read with read(2) into the state of the test.\<close>

definition iperf_handle_message_client :: "host \<Rightarrow> sys \<Rightarrow> (int \<times> sys) option" where
  "iperf_handle_message_client h = (\<lambda>((t, w), s). do {
     (rval, got, w) \<leftarrow> sys_read (ctrl_sck t) 1 w;
     case got of
       [] \<Rightarrow> Some (-1, ((t, w\<lparr>i_errno := (if rval = 0 then IECTRLCLOSE else IERECVMESSAGE)\<rparr>), s))
     | b # _ \<Rightarrow> client_message h ((t\<lparr>state := byte_state b\<rparr>, w), s) })"

section \<open>Connecting\<close>

text \<open>The MSS the control connection reports, if it makes sense, picks the block size of a UDP test.\<close>

definition choose_mss :: "int \<Rightarrow> int" where
  "choose_mss opt = (if 0 < opt \<and> opt \<le> MAX_UDP_BLOCKSIZE then opt else 0)"

definition choose_blksize :: "iperf_test \<Rightarrow> iperf_test" where
  "choose_blksize t =
     (if protocol t = Pudp \<and> blksize (settings t) = 0
      then upd_settings (\<lambda>s. s\<lparr>blksize := (if ctrl_sck_mss t \<noteq> 0 then ctrl_sck_mss t else DEFAULT_UDP_BLKSIZE)\<rparr>) t
      else t)"

definition iperf_connect :: "iperf_test \<Rightarrow> world \<Rightarrow> (int \<times> iperf_test \<times> world) option" where
  "iperf_connect t w = do {
     (ck, w) \<leftarrow> make_cookie w;
     let t = t\<lparr>read_set := [], write_set := [], cookie := ck\<rparr>;
     (f, w) \<leftarrow> (if ctrl_sck t < 0
       then netdial (domain (settings t)) SOCK_STREAM (bind_address t) (bind_dev t) 0 (the (server_hostname t))
              (server_port t) (connect_timeout (settings t)) w
       else Some (ctrl_sck t, w));
     let t = t\<lparr>ctrl_sck := f\<rparr>;
     if f < 0 then Some (-1, t, w\<lparr>i_errno := IECONNECT\<rparr>)
     else do {
       (ok, w) \<leftarrow> set_opts [(EvSetopt f ''TCP_NODELAY'' 1 True, IESETNODELAY)] w;
       if \<not> ok then Some (-1, t, w)
       else do {
         (r, w) \<leftarrow> iperf_set_control_keepalive t w;
         if r < 0 then Some (-1, t, w)
         else do {
           (ok, w) \<leftarrow> set_opts (opt_if (snd_timeout (settings t) \<noteq> 0) f ''TCP_USER_TIMEOUT'' (snd_timeout (settings t)) IESETUSERTIMEOUT) w;
           if \<not> ok then Some (-1, t, w)
           else do {
             (r, w) \<leftarrow> Nwrite f (cookie t) COOKIE_SIZE Ptcp w;
             if r < 0 then Some (-1, t, w\<lparr>i_errno := IESENDCOOKIE\<rparr>)
             else do {
               let t = t\<lparr>read_set := fd_set f (read_set t), max_fd := max f (max_fd t)\<rparr>;
               (opt, w) \<leftarrow> sys_val [] w;
               Some (0, choose_blksize (t\<lparr>ctrl_sck_mss := choose_mss opt\<rparr>), w) } } } } } }"

section \<open>iperf_run_client\<close>

record run_vars = loop_vars +
  startup :: bool

text \<open>How a turn goes on: the next turn, or cleanup_and_fail.\<close>

datatype next_step = Go_on | Clean_up

definition starts_workers :: "iperf_test \<Rightarrow> world \<Rightarrow> (int \<times> iperf_test \<times> world) option" where
  "starts_workers t w = do {
     (rc, w) \<leftarrow> sys_rc [] w;
     if rc \<noteq> 0 then Some (-1, t, w\<lparr>i_errno := IEPTHREADATTRINIT\<rparr>)
     else do {
       (r, sps, w) \<leftarrow> create_workers (streams t) w;
       let t = t\<lparr>streams := sps\<rparr>;
       if r < 0 then Some (-1, t, w)
       else do {
         (rc, w) \<leftarrow> sys_rc [] w;
         if rc \<noteq> 0 then Some (-1, t, w\<lparr>i_errno := IEPTHREADATTRDESTROY\<rparr>) else Some (0, t, w) } } }"

text \<open>One of the criteria for the end is met: by time, by bytes or by blocks, sent or received.\<close>

definition end_reached :: "iperf_test \<Rightarrow> bool" where
  "end_reached t \<longleftrightarrow> omitting t = 0
     \<and> (test_done t \<noteq> 0
        \<or> bytes (settings t) \<noteq> 0 \<and> (test_bytes_sent t \<ge> bytes (settings t) \<or> test_bytes_received t \<ge> bytes (settings t))
        \<or> blocks (settings t) \<noteq> 0 \<and> (blocks_sent t \<ge> blocks (settings t) \<or> blocks_received t \<ge> blocks (settings t)))"

definition finish_test :: "host \<Rightarrow> iperf_test \<Rightarrow> world \<Rightarrow> (next_step \<times> iperf_test \<times> world) option" where
  "finish_test h t w = do {
     (r, sps, w) \<leftarrow> stop_workers (\<lambda>sp. sender sp \<noteq> 0) (streams t) w;
     let t = t\<lparr>streams := sps\<rparr>;
     if r < 0 then Some (Clean_up, t, w)
     else do {
       t \<leftarrow> iperf_stats_callback (stats_rd (procs h)) (t\<lparr>test_done := 1, cpu_util := cpu_now (procs h)\<rparr>);
       (r, t, w) \<leftarrow> iperf_set_send_state t TEST_END w;
       Some (if r \<noteq> 0 then Clean_up else Go_on, t, w) } }"

text \<open>The part of a turn that runs while the test runs.\<close>

definition client_running :: "host \<Rightarrow> run_vars \<Rightarrow> sys \<Rightarrow> (next_step \<times> run_vars \<times> sys) option" where
  "client_running h v = (\<lambda>((t, w), s). do {
     (r, t, w) \<leftarrow> (if startup v then starts_workers t w else Some (0, t, w));
     let v = v\<lparr>startup := False\<rparr>;
     if r < 0 then Some (Clean_up, v, ((t, w), s))
     else do {
       (_, now, w) \<leftarrow> iperf_time_now (now_time v) w;
       let v = v\<lparr>now_time := now\<rparr>;
       ((t, w), s) \<leftarrow> tmr_run (client_timer_proc (procs h)) (Some now) now ((t, w), s);
       if end_reached t then do {
         (k, t, w) \<leftarrow> finish_test h t w;
         Some (k, v, ((t, w), s)) }
       else Some (Go_on, v, ((t, w), s)) } })"

text \<open>Nothing was received for too long, when select gave nothing.\<close>

definition client_idle :: "run_vars \<Rightarrow> iperf_test \<Rightarrow> int \<Rightarrow> world \<Rightarrow> (bool \<times> run_vars \<times> world) option" where
  "client_idle v t rcv_timeout_us w = do {
     (_, now, w) \<leftarrow> iperf_time_now (now_time v) w;
     let v = v\<lparr>now_time := now\<rparr>;
     let idle = (case idle_usecs now (last_receive_time v) of None \<Rightarrow> False
                 | Some t_usecs \<Rightarrow> t_usecs > rcv_timeout_us \<and> blocks_received t = last_receive_blocks v);
     Some (idle, v, if idle then w\<lparr>i_errno := IENOMSG\<rparr> else w) }"

text \<open>One turn of the loop, for a receive timeout of rcv_timeout_us.\<close>

definition client_turn :: "host \<Rightarrow> int \<Rightarrow> run_vars \<Rightarrow> sys \<Rightarrow> (next_step \<times> run_vars \<times> sys) option" where
  "client_turn h rcv_timeout_us v = (\<lambda>((t, w), s). do {
     (_, now, w) \<leftarrow> iperf_time_now (now_time v) w;
     let v = v\<lparr>now_time := now\<rparr>;
     timeout \<leftarrow> tmr_timeout (Some now) now s;
     let watched = (state t = TEST_RUNNING \<and> rcv_timeout_us > 0);
     (n, rs, _, _, w) \<leftarrow> select_sets (read_set t) (write_set t)
        (if watched then Some (receive_timeout (settings t) timeout) else timeout) w;
     if n < 0 \<and> errno w \<noteq> EINTR then Some (Clean_up, v, ((t, w\<lparr>i_errno := IESELECT\<rparr>), s))
     else do {
       (idle, v, w) \<leftarrow> (if n = 0 \<and> watched then client_idle v t rcv_timeout_us w else Some (False, v, w));
       if idle then Some (Clean_up, v, ((t, w), s))
       else do {
         let v = note_progress t v;
         on \<leftarrow> (if n > 0 then fd_isset (ctrl_sck t) rs else Some False);
         (r, ((t, w), s)) \<leftarrow> (if on then iperf_handle_message_client h ((t, w), s) else Some (0, ((t, w), s)));
         if r < 0 then Some (Clean_up, v, ((t, w), s))
         else if state t = TEST_RUNNING then client_running h v ((t, w), s)
         else Some (Go_on, v, ((t, w), s)) } } })"

text \<open>The workers' rounds come first; the loop ends when the state is IPERF_DONE.\<close>

type_synonym schedule = "(host \<times> nat list) list"

fun client_loop :: "int \<Rightarrow> schedule \<Rightarrow> run_vars \<Rightarrow> sys \<Rightarrow> (next_step \<times> run_vars \<times> sys) option" where
  "client_loop rt [] v a = (if state (fst (fst a)) = IPERF_DONE then Some (Go_on, v, a) else None)"
| "client_loop rt ((h, is) # sched) v a =
     (if state (fst (fst a)) = IPERF_DONE then Some (Go_on, v, a)
      else do {
        (v, a) \<leftarrow> run_workers h is v a;
        (k, v, a) \<leftarrow> client_turn h rt v a;
        if k = Go_on then client_loop rt sched v a else Some (k, v, a) })"

text \<open>The label cleanup_and_fail: streams that are done already are left out.\<close>

definition client_cleanup :: "sys \<Rightarrow> (int \<times> sys) option" where
  "client_cleanup = (\<lambda>((t, w), s). do {
     let i_errno_save = i_errno w;
     (sps, w) \<leftarrow> drop_workers (\<lambda>sp. stream_done sp = 0) (streams t) w;
     (_, t, w) \<leftarrow> iperf_client_end (t\<lparr>streams := sps\<rparr>) (w\<lparr>i_errno := i_errno_save\<rparr>);
     Some (-1, ((t, w), s)) })"

text \<open>After the loop the threads of the receivers are stopped.\<close>

definition client_finish :: "host \<Rightarrow> sys \<Rightarrow> (int \<times> sys) option" where
  "client_finish h = (\<lambda>((t, w), s). do {
     (r, sps, w) \<leftarrow> stop_workers (\<lambda>sp. sender sp = 0) (streams t) w;
     let t = t\<lparr>streams := sps\<rparr>;
     if r < 0 then client_cleanup ((t, w), s)
     else Some (if json_output t \<noteq> 0 \<and> json_finish h < 0 then -1 else 0, ((t, w), s)) })"

definition client_begin :: "host \<Rightarrow> iperf_test \<Rightarrow> world \<Rightarrow> int \<times> world" where
  "client_begin h t w =
     (if logfile t \<noteq> None \<and> log_open h < 0 then (-1, w)
      else
        let (r, w) = (if affinity t \<noteq> -1 then iperf_setaffinity h (affinity t) w else (0, w)) in
        if r \<noteq> 0 then (-1, w)
        else if json_output t \<noteq> 0 \<and> json_start h < 0 then (-1, w) else (0, w))"

definition iperf_run_client :: "host \<Rightarrow> schedule \<Rightarrow> sys \<Rightarrow> (int \<times> sys) option" where
  "iperf_run_client h sched = (\<lambda>((t, w), s). do {
     let (r, w) = client_begin h t w;
     if r < 0 then Some (-1, ((t, w), s))
     else do {
       (r, t, w) \<leftarrow> iperf_connect t w;
       if r < 0 then client_cleanup ((t, w), s)
       else do {
         let rt = (if mode t \<noteq> SENDER then rcv_timeout_usecs (settings t) else 0);
         (_, last, w) \<leftarrow> iperf_time_now zero_time w;
         let v = \<lparr>now_time = zero_time, last_receive_time = last, last_receive_blocks = 0, gone = [], startup = True\<rparr>;
         (k, v, a) \<leftarrow> client_loop rt sched v ((t, w), s);
         if k = Go_on then client_finish h a else client_cleanup a } } })"

end
