(* ===== verification/Iperf_Server.thy ===== *)
theory Iperf_Server
  imports Iperf_Client
begin

text \<open>
  The server: src/iperf_server_api.c without the timers, which are in Iperf_Timer_Procs.
  iperf_run_server runs one test, as a function of a schedule like iperf_run_client. The process
  exit of the one-off mode ends the run like a return.
\<close>

section \<open>Listening\<close>

text \<open>A second try with IPv4 when the system does not know IPv6; after it the family is AF_INET, so
  there is no third.\<close>

definition announce_control :: "iperf_test \<Rightarrow> world \<Rightarrow> (int \<times> world) option" where
  "announce_control t w =
     netannounce (domain (settings t)) SOCK_STREAM (bind_address t) (bind_dev t) (server_port t) w"

definition iperf_server_listen :: "iperf_test \<Rightarrow> world \<Rightarrow> (int \<times> iperf_test \<times> world) option" where
  "iperf_server_listen t w = do {
     (l, w) \<leftarrow> announce_control t w;
     (l, t, w) \<leftarrow> (if l < 0 \<and> errno w = EAFNOSUPPORT
                      \<and> (domain (settings t) = AF_INET6 \<or> domain (settings t) = AF_UNSPEC)
                   then do {
                     let t = upd_settings (\<lambda>s. s\<lparr>domain := AF_INET\<rparr>) t;
                     (l, w) \<leftarrow> announce_control t w;
                     Some (l, t, w) }
                   else Some (l, t, w));
     let t = t\<lparr>listener := l\<rparr>;
     if l < 0 then Some (-1, t, w\<lparr>i_errno := IELISTEN\<rparr>)
     else do {
       let t = (if json_output t = 0 \<and> server_last_run_rc t \<noteq> 2
                then t\<lparr>server_test_number := server_test_number t + 1\<rparr> else t);
       Some (0, t\<lparr>read_set := fd_set l [], write_set := [], max_fd := max l (max_fd t)\<rparr>, w) } }"

section \<open>A client arrives\<close>

text \<open>The handshake with the client that gets the test. A failure of the keepalive options returns
  without closing the connection.\<close>

definition accept_client :: "host \<Rightarrow> fd \<Rightarrow> iperf_test \<Rightarrow> world \<Rightarrow> (int \<times> iperf_test \<times> world) option" where
  "accept_client h s t w = do {
     let t = t\<lparr>ctrl_sck := s\<rparr>;
     (ok, w) \<leftarrow> set_opts ((EvSetopt s ''TCP_NODELAY'' 1 True, IESETNODELAY)
        # opt_if (snd_timeout (settings t) \<noteq> 0) s ''TCP_USER_TIMEOUT'' (snd_timeout (settings t)) IESETUSERTIMEOUT) w;
     if \<not> ok then Some (-1, t, sys_close s w)
     else do {
       (r, w) \<leftarrow> iperf_set_control_keepalive t w;
       if r < 0 then Some (-1, t, w)
       else do {
         (r, got, w) \<leftarrow> Nread s 37 Ptcp w;
         let t = t\<lparr>cookie := got @ drop (length got) (cookie t)\<rparr>;
         if r \<noteq> 37 then Some (-1, t, sys_close s (w\<lparr>i_errno := IERECVCOOKIE\<rparr>))
         else do {
           let t = t\<lparr>read_set := fd_set s (read_set t), max_fd := max s (max_fd t)\<rparr>;
           (r, t, w) \<leftarrow> iperf_set_send_state t PARAM_EXCHANGE w;
           if r \<noteq> 0 then Some (-1, t, sys_close s w)
           else do {
             (r, t, w) \<leftarrow> iperf_exchange_parameters h t w;
             if r < 0 then Some (-1, t, sys_close s w)
             else do {
               let (r, w) = (if server_affinity t \<noteq> -1 then iperf_setaffinity h (server_affinity t) w else (0, w));
               if r \<noteq> 0 then Some (-1, t, sys_close s w)
               else do {
                 (t, w) \<leftarrow> iperf_on_connect t w;
                 Some (0, t, w) } } } } } } }"

definition deny_client :: "fd \<Rightarrow> world \<Rightarrow> world option" where
  "deny_client s w = do {
     (_, w) \<leftarrow> Nwrite s [state_byte ACCESS_DENIED] 1 Ptcp w;
     Some (sys_close s w) }"

definition iperf_accept :: "host \<Rightarrow> iperf_test \<Rightarrow> world \<Rightarrow> (int \<times> iperf_test \<times> world) option" where
  "iperf_accept h t w = do {
     (s, w) \<leftarrow> sys_open w;
     if s < 0 then Some (-1, t, w\<lparr>i_errno := IEACCEPT\<rparr>)
     else if ctrl_sck t = -1 then accept_client h s t w
     else do { w \<leftarrow> deny_client s w; Some (0, t, w) } }"

section \<open>The messages of the client\<close>

definition close_streams :: "iperf_test \<Rightarrow> world \<Rightarrow> iperf_test \<times> world" where
  "close_streams t w =
     (if protocol t = Pquic then (t, w)
      else (t\<lparr>read_set := fold fd_clr (map socket (streams t)) (read_set t),
              write_set := fold fd_clr (map socket (streams t)) (write_set t)\<rparr>,
            close_all (map socket (streams t)) w))"

text \<open>TEST_END: the last statistics, the results both ways, the summary.\<close>

definition server_test_end :: "host \<Rightarrow> iperf_test \<Rightarrow> world \<Rightarrow> (int \<times> iperf_test \<times> world) option" where
  "server_test_end h t w = do {
     t \<leftarrow> iperf_stats_callback (stats_rd (procs h)) (t\<lparr>test_done := 1, cpu_util := cpu_now (procs h)\<rparr>);
     let (t, w) = close_streams t w;
     (r, t, w) \<leftarrow> iperf_set_send_state t EXCHANGE_RESULTS w;
     if r \<noteq> 0 \<and> protocol t \<noteq> Pquic then Some (-1, t, w)
     else do {
       (r, t, w) \<leftarrow> (if r = 0 then iperf_exchange_results (print_json h) (parse_json h) (top_json h) t w
                     else Some (0, t, w));
       if r < 0 \<and> protocol t \<noteq> Pquic then Some (-1, t, w)
       else do {
         let t = iperf_print_results (t\<lparr>summary_printed := 1\<rparr>);
         (r, t, w) \<leftarrow> iperf_set_send_state t DISPLAY_RESULTS w;
         if r \<noteq> 0 \<and> protocol t \<noteq> Pquic then Some (-1, t, w)
         else Some (0, if protocol t = Pquic \<and> one_off t \<noteq> 0 then t\<lparr>state := IPERF_DONE\<rparr> else t, w) } } }"

definition server_message :: "host \<Rightarrow> iperf_test \<Rightarrow> world \<Rightarrow> (int \<times> iperf_test \<times> world) option" where
  "server_message h t w =
     (if state t = TEST_START then Some (0, t, w)
      else if state t = TEST_END then server_test_end h t w
      else if state t = IPERF_DONE then Some (0, t, w)
      else if state t = CLIENT_TERMINATE then
        (let t = iperf_reporter_callback (t\<lparr>cpu_util := cpu_now (procs h), state := DISPLAY_RESULTS\<rparr>);
             (t, w) = close_streams (t\<lparr>state := CLIENT_TERMINATE\<rparr>) (w\<lparr>i_errno := IECLIENTTERM\<rparr>)
         in Some (0, t\<lparr>state := IPERF_DONE\<rparr>, w))
      else Some (-1, t, w\<lparr>i_errno := IEMESSAGE\<rparr>))"

definition iperf_handle_message_server :: "host \<Rightarrow> iperf_test \<Rightarrow> world \<Rightarrow> (int \<times> iperf_test \<times> world) option" where
  "iperf_handle_message_server h t w = do {
     (rval, got, w) \<leftarrow> Nread (ctrl_sck t) 1 Ptcp w;
     case got of
       [] \<Rightarrow> if rval = 0 then Some (0, t\<lparr>state := IPERF_DONE\<rparr>, w\<lparr>i_errno := IECTRLCLOSE\<rparr>)
             else Some (-1, t, w\<lparr>i_errno := IERECVMESSAGE\<rparr>)
     | b # _ \<Rightarrow> server_message h (t\<lparr>state := byte_state b\<rparr>) w }"

section \<open>cleanup_server\<close>

definition close_fd :: "fd \<Rightarrow> world \<Rightarrow> world" where
  "close_fd f w = (if f > -1 then sys_close f w else w)"

text \<open>The sockets of the streams, each closed unless it is marked closed.\<close>

fun cleanup_streams :: "iperf_stream list \<Rightarrow> world \<Rightarrow> iperf_stream list \<times> world" where
  "cleanup_streams [] w = ([], w)"
| "cleanup_streams (sp # sps) w =
     (case cleanup_streams sps (close_fd (socket sp) w) of
        (sps, w) \<Rightarrow> ((if socket sp > -1 then sp\<lparr>socket := -1\<rparr> else sp) # sps, w))"

definition cleanup_sockets :: "iperf_test \<Rightarrow> world \<Rightarrow> iperf_test \<times> world" where
  "cleanup_sockets t w =
     (if protocol t \<noteq> Pquic then
        (let open_sockets = filter (\<lambda>f. f > -1) (map socket (streams t));
             (sps, w) = cleanup_streams (streams t) w;
             w = close_fd (prot_listener t) (close_fd (listener t) (close_fd (ctrl_sck t) w))
         in (t\<lparr>streams := sps, read_set := fold fd_clr open_sockets (read_set t),
               write_set := fold fd_clr open_sockets (write_set t), ctrl_sck := min (ctrl_sck t) (-1),
               listener := min (listener t) (-1), prot_listener := min (prot_listener t) (-1)\<rparr>, w))
      else
        (let gone = filter (\<lambda>f. f > -1) [listener t, prot_listener t];
             w = close_fd (listener t) (close_fd (ctrl_sck t) w)
         in iperf_quic_reset_test (t\<lparr>read_set := fold fd_clr gone (read_set t), write_set := fold fd_clr gone (write_set t),
               ctrl_sck := min (ctrl_sck t) (-1), listener := min (listener t) (-1)\<rparr>) w))"

text \<open>A summary that was not printed although data was transferred.\<close>

definition late_summary :: "host \<Rightarrow> iperf_test \<Rightarrow> iperf_test option" where
  "late_summary h t =
     (if summary_printed t = 0
         \<and> (test_bytes_received t > 0 \<or> test_bytes_sent t > 0 \<or> blocks_received t > 0 \<or> blocks_sent t > 0)
      then do {
        t \<leftarrow> iperf_stats_callback (stats_rd (procs h)) (t\<lparr>cpu_util := cpu_now (procs h)\<rparr>);
        Some (iperf_print_results (t\<lparr>summary_printed := 1\<rparr>)) }
      else Some t)"

definition cancel_handle :: "timer_name \<Rightarrow> iperf_test \<times> timer_name tstore \<Rightarrow> (iperf_test \<times> timer_name tstore) option" where
  "cancel_handle p = (\<lambda>(t, s).
     (case handle_of p t of
        None \<Rightarrow> Some (t, s)
      | Some a \<Rightarrow> do { s \<leftarrow> tmr_cancel a s; Some (set_handle p None t, s) }))"

fun cancel_handles :: "timer_name list \<Rightarrow> iperf_test \<times> timer_name tstore \<Rightarrow> (iperf_test \<times> timer_name tstore) option" where
  "cancel_handles [] c = Some c"
| "cancel_handles (p # ps) c = do { c \<leftarrow> cancel_handle p c; cancel_handles ps c }"

definition cleanup_server :: "host \<Rightarrow> sys \<Rightarrow> sys option" where
  "cleanup_server e = (\<lambda>((t, w), s). do {
     let i_errno_save = i_errno w;
     (sps, w) \<leftarrow> drop_workers (\<lambda>_. True) (streams t) w;
     let w = w\<lparr>i_errno := i_errno_save\<rparr>;
     t \<leftarrow> late_summary e (t\<lparr>streams := sps\<rparr>);
     let (t, w) = cleanup_sockets t w;
     (t, s) \<leftarrow> cancel_handles [Stats_timer, Reporter_timer, Omit_timer, Test_timer] (t, s);
     Some ((t\<lparr>congestion_used := None\<rparr>, w), s) })"

section \<open>The streams of a test\<close>

record server_vars = loop_vars +
  send_streams_accepted :: int
  rec_streams_accepted :: int
  streams_to_send :: int
  streams_to_rec :: int
  flag :: "int option"

text \<open>How a turn goes on: the next turn, a return, or the exit of the process.\<close>

datatype server_step = Next | Returns int | Exits

type_synonym server_turn = "(server_step \<times> server_vars \<times> sys) option"

text \<open>Every failure cleans up first. Some set the error after that.\<close>

definition server_fails :: "host \<Rightarrow> server_vars \<Rightarrow> sys \<Rightarrow> server_turn" where
  "server_fails e v a = do { a \<leftarrow> cleanup_server e a; Some (Returns (-1), v, a) }"

definition server_fails_with :: "host \<Rightarrow> server_vars \<Rightarrow> int \<Rightarrow> sys \<Rightarrow> server_turn" where
  "server_fails_with e v ie a = do {
     ((t, w), s) \<leftarrow> cleanup_server e a;
     Some (Returns (-1), v, ((t, w\<lparr>i_errno := ie\<rparr>), s)) }"

definition set_stream_counts :: "iperf_test \<Rightarrow> server_vars \<Rightarrow> server_vars" where
  "set_stream_counts t v =
     (case mode t of
        BIDIRECTIONAL \<Rightarrow> v\<lparr>streams_to_send := num_streams t, streams_to_rec := num_streams t\<rparr>
      | RECEIVER \<Rightarrow> v\<lparr>streams_to_send := 0, streams_to_rec := num_streams t\<rparr>
      | SENDER \<Rightarrow> v\<lparr>streams_to_send := num_streams t, streams_to_rec := 0\<rparr>)"

text \<open>Which direction the next stream has. When all are there the flag keeps its value.\<close>

definition next_flag :: "server_vars \<Rightarrow> server_vars" where
  "next_flag v =
     (if rec_streams_accepted v \<noteq> streams_to_rec v
      then v\<lparr>flag := Some 0, rec_streams_accepted := rec_streams_accepted v + 1\<rparr>
      else if send_streams_accepted v \<noteq> streams_to_send v
      then v\<lparr>flag := Some 1, send_streams_accepted := send_streams_accepted v + 1\<rparr>
      else v)"

definition all_accepted :: "server_vars \<Rightarrow> bool" where
  "all_accepted v \<longleftrightarrow> rec_streams_accepted v = streams_to_rec v \<and> send_streams_accepted v = streams_to_send v"

text \<open>The options of an accepted TCP stream: 0, or the error code.\<close>

abbreviation (input) ENOENT :: int where "ENOENT \<equiv> 2"

definition server_stream_opts :: "iperf_test \<Rightarrow> fd \<Rightarrow> world \<Rightarrow> (int \<times> iperf_test \<times> world) option" where
  "server_stream_opts t s w =
     (if protocol t \<noteq> Ptcp then Some (0, t, w)
      else do {
        (r, w) \<leftarrow> (if snd_timeout (settings t) \<noteq> 0
                  then sys_ok (EvSetopt s ''TCP_USER_TIMEOUT'' (snd_timeout (settings t)) True) w else Some (0, w));
        if r < 0 then Some (IESETUSERTIMEOUT, t, w)
        else do {
          (r, w) \<leftarrow> (if congestion t \<noteq> None then sys_ok (EvSetopt s ''TCP_CONGESTION'' 0 True) w else Some (0, w));
          if r < 0 \<and> errno w \<noteq> ENOENT then Some (IESETCONGESTION, t, w)
          else do {
            (ca, w) \<leftarrow> sys_getname w;
            if ca = None \<and> congestion t \<noteq> None then Some (IESETCONGESTION, t, w)
            else Some (0, t\<lparr>congestion_used := Some (case ca of None \<Rightarrow> ''unknown'' | Some n \<Rightarrow> n)\<rparr>, w) } } })"

text \<open>A stream set up on the socket s, unless all are there. The flag is undefined before the first.\<close>

definition add_server_stream :: "host \<Rightarrow> server_vars \<Rightarrow> fd \<Rightarrow> sys \<Rightarrow> server_turn" where
  "add_server_stream e v s = (\<lambda>((t, w), st). do {
     let v = next_flag v;
     f \<leftarrow> flag v;
     if f = -1 then Some (Next, v, ((t, w), st))
     else do {
       (sp, t, w) \<leftarrow> iperf_new_stream (strm e (length (streams t))) t s f w;
       if sp = None then server_fails e v ((t, w), st)
       else Some (Next, v\<lparr>flag := Some (-1)\<rparr>, ((t\<lparr>max_fd := max s (max_fd t)\<rparr>, w), st)) } })"

definition accept_stream :: "host \<Rightarrow> server_vars \<Rightarrow> sys \<Rightarrow> server_turn" where
  "accept_stream e v = (\<lambda>((t, w), st). do {
     (s, t, w) \<leftarrow> proto_accept (conn e) t w;
     if s < 0 then server_fails e v ((t, w), st)
     else do {
       (r, w) \<leftarrow> iperf_common_sockopts t s w;
       if r < 0 then server_fails e v ((t, w), st)
       else do {
         (closed, w) \<leftarrow> is_closed s w;
         if closed \<noteq> 0 then Some (Next, v, ((t, w), st))
         else do {
           (ie, t, w) \<leftarrow> server_stream_opts t s w;
           if ie \<noteq> 0 then do {
             let saved_errno = errno w;
             (k, v, ((t, w), st)) \<leftarrow> server_fails_with e v ie ((t, sys_close s w), st);
             Some (k, v, ((t, w\<lparr>errno := saved_errno\<rparr>), st)) }
           else add_server_stream e v s ((t, w), st) } } } })"

text \<open>QUIC delivers its streams in one go: the loop goes on to the last one queued or needed. The
  number left bounds it.\<close>

fun drain_quic :: "host \<Rightarrow> nat \<Rightarrow> server_vars \<Rightarrow> sys \<Rightarrow> server_turn" where
  "drain_quic e 0 v a = None"
| "drain_quic e (Suc n) v ((t, w), st) = do {
     (s, t, w) \<leftarrow> proto_accept (conn e) t w;
     if s < 0 then Some (Next, v, ((t, w), st))
     else if all_accepted v then Some (Next, v, ((t, w), st))
     else do {
       let v = next_flag v;
       (sp, t, w) \<leftarrow> iperf_new_stream (strm e (length (streams t))) t s (the (flag v)) w;
       if sp = None then server_fails e v ((t, w), st)
       else (let v = v\<lparr>flag := Some (-1)\<rparr> in
         if all_accepted v then Some (Next, v, ((t, w), st)) else drain_quic e n v ((t, w), st)) } }"

definition streams_left :: "server_vars \<Rightarrow> nat" where
  "streams_left v = nat (streams_to_rec v - rec_streams_accepted v) + nat (streams_to_send v - send_streams_accepted v)"

definition accept_streams :: "host \<Rightarrow> server_vars \<Rightarrow> sys \<Rightarrow> server_turn" where
  "accept_streams e v a =
     (if protocol (fst (fst a)) = Pquic then drain_quic e (Suc (streams_left v)) v a else accept_stream e v a)"

section \<open>The start of the test\<close>

text \<open>The listening sockets once all streams are there: 0, or -1 when the control port cannot be
  listened on again.\<close>

definition reopen_listener :: "iperf_test \<Rightarrow> world \<Rightarrow> (int \<times> iperf_test \<times> world) option" where
  "reopen_listener t w =
     (if protocol t = Pquic then
        (case iperf_quic_close_listener t w of (t, w) \<Rightarrow> Some (0, t\<lparr>prot_listener := -1\<rparr>, w))
      else if protocol t \<noteq> Ptcp then
        Some (0, t\<lparr>read_set := fd_clr (prot_listener t) (read_set t), prot_listener := -1\<rparr>, sys_close (prot_listener t) w)
      else if no_delay t = 0 \<and> mss (settings t) = 0 \<and> socket_bufsize (settings t) = 0
      then Some (0, t\<lparr>prot_listener := -1\<rparr>, w)
      else do {
        let w = sys_close (listener t) w;
        let t = t\<lparr>read_set := fd_clr (listener t) (read_set t), listener := -1\<rparr>;
        (s, w) \<leftarrow> announce_control t w;
        if s < 0 then Some (-1, t, w)
        else Some (0, t\<lparr>listener := s, read_set := fd_set s (read_set t), max_fd := max s (max_fd t),
                      prot_listener := -1\<rparr>, w) })"

text \<open>What the client asks for in total, in 64 bits.\<close>

definition total_requested_rate :: "iperf_test \<Rightarrow> u64" where
  "total_requested_rate t =
     word_of_int (num_streams t) * rate (settings t) * (if mode t = BIDIRECTIONAL then 2 else 1)"

definition rate_too_high :: "iperf_test \<Rightarrow> bool" where
  "rate_too_high t \<longleftrightarrow> bitrate_limit (settings t) > 0 \<and> total_requested_rate t > bitrate_limit (settings t)"

text \<open>The messages TEST_START and TEST_RUNNING with the preparations between them.\<close>

definition server_test_start :: "host \<Rightarrow> sys \<Rightarrow> (int \<times> sys) option" where
  "server_test_start h = (\<lambda>((t, w), s). do {
     (r, t, w) \<leftarrow> iperf_set_send_state t TEST_START w;
     if r \<noteq> 0 then Some (-1, ((t, w), s))
     else do {
       (r, t, w) \<leftarrow> iperf_init_test (iperf_quic_init t) t w;
       if r < 0 then Some (-1, ((t, w), s))
       else do {
         (r, a, s) \<leftarrow> create_server_timers (mallocs_for h) ((t, w), s);
         if r < 0 then Some (-1, (a, s))
         else do {
           (r, (t, w), s) \<leftarrow> create_omit_timer (mallocs_for h) (a, s);
           if r < 0 then Some (-1, ((t, w), s))
           else do {
             let t = (if mode t = RECEIVER then t else iperf_create_send_timers t);
             (r, t, w) \<leftarrow> iperf_set_send_state t TEST_RUNNING w;
             Some (if r \<noteq> 0 then -1 else 0, ((t, w), s)) } } } } })"

text \<open>The threads. A failure of the attribute object cleans up and goes on all the same.\<close>

definition cleanup_if :: "bool \<Rightarrow> host \<Rightarrow> int \<Rightarrow> sys \<Rightarrow> sys option" where
  "cleanup_if b e ie = (\<lambda>((t, w), s).
     if b then cleanup_server e ((t, w\<lparr>i_errno := ie\<rparr>), s) else Some ((t, w), s))"

definition server_workers :: "host \<Rightarrow> server_vars \<Rightarrow> sys \<Rightarrow> server_turn" where
  "server_workers e v = (\<lambda>((t, w), s). do {
     (rc, w) \<leftarrow> sys_rc [] w;
     ((t, w), s) \<leftarrow> cleanup_if (rc \<noteq> 0) e IEPTHREADATTRINIT ((t, w), s);
     (r, sps, w) \<leftarrow> create_workers (streams t) w;
     let t = t\<lparr>streams := sps\<rparr>;
     if r < 0 then server_fails e v ((t, w), s)
     else do {
       (rc, w) \<leftarrow> sys_rc [] w;
       ((t, w), s) \<leftarrow> cleanup_if (rc \<noteq> 0) e IEPTHREADATTRDESTROY ((t, w), s);
       (_, now, w) \<leftarrow> iperf_time_now (last_receive_time v) w;
       Some (Next, v\<lparr>last_receive_blocks := blocks_received t, last_receive_time := now\<rparr>, ((t, w), s)) } })"

definition begin_test :: "host \<Rightarrow> server_vars \<Rightarrow> sys \<Rightarrow> server_turn" where
  "begin_test e v = (\<lambda>((t, w), s). do {
     (r, t, w) \<leftarrow> reopen_listener t w;
     if r < 0 then server_fails_with e v IELISTEN ((t, w), s)
     else if rate_too_high t then server_fails_with e v IETOTALRATE ((t, w), s)
     else do {
       (r, a) \<leftarrow> server_test_start e ((t, w), s);
       if r < 0 then server_fails e v a else server_workers e v a } })"

section \<open>iperf_run_server\<close>

text \<open>Nothing came in for the time of the state: select gave nothing.\<close>

definition server_idle :: "host \<Rightarrow> int \<Rightarrow> server_vars \<Rightarrow> sys \<Rightarrow> server_turn" where
  "server_idle e rcv_timeout_us v = (\<lambda>((t, w), s). do {
     (_, now, w) \<leftarrow> iperf_time_now (now_time v) w;
     let v = v\<lparr>now_time := now\<rparr>;
     (case idle_usecs now (last_receive_time v) of
        None \<Rightarrow> Some (Next, v, ((t, w), s))
      | Some t_usecs \<Rightarrow>
          if state t = IPERF_START then
            (if idle_timeout (settings t) > 0 \<and> t_usecs \<ge> idle_timeout (settings t) * 1000000 then do {
               a \<leftarrow> cleanup_server e
                 ((t\<lparr>server_forced_idle_restarts_count := server_forced_idle_restarts_count t + 1\<rparr>, w), s);
               Some (if one_off t \<noteq> 0 then Exits else Returns 2, v, a) }
             else Some (Next, v, ((t, w), s)))
          else if mode t \<noteq> SENDER \<and> t_usecs > rcv_timeout_us \<and> blocks_received t = last_receive_blocks v
          then server_fails e v ((t\<lparr>server_forced_no_msg_restarts_count := server_forced_no_msg_restarts_count t + 1\<rparr>,
                 w\<lparr>i_errno := IENOMSG\<rparr>), s)
          else Some (Next, v, ((t, w), s))) })"

text \<open>The three sources of a ready descriptor in turn: a new client, the client of the test, a
  stream.\<close>

definition server_listener :: "host \<Rightarrow> server_vars \<Rightarrow> fd list \<Rightarrow> sys
    \<Rightarrow> (server_step \<times> server_vars \<times> fd list \<times> sys) option" where
  "server_listener e v rs = (\<lambda>((t, w), s). do {
     on \<leftarrow> fd_isset (listener t) rs;
     if on \<and> state t \<noteq> CREATE_STREAMS then do {
       (r, t, w) \<leftarrow> iperf_accept e t w;
       if r < 0 then do { (k, v, a) \<leftarrow> server_fails e v ((t, w), s); Some (k, v, rs, a) }
       else Some (Next, set_stream_counts t v, fd_clr (listener t) rs, ((t, w), s)) }
     else Some (Next, v, rs, ((t, w), s)) })"

definition server_streams :: "host \<Rightarrow> server_vars \<Rightarrow> fd list \<Rightarrow> sys \<Rightarrow> server_turn" where
  "server_streams e v rs = (\<lambda>((t, w), s).
     if state t \<noteq> CREATE_STREAMS then Some (Next, v, ((t, w), s))
     else do {
       on \<leftarrow> fd_isset (prot_listener t) rs;
       (k, v, a) \<leftarrow> (if on then accept_streams e v ((t, w), s) else Some (Next, v, ((t, w), s)));
       if k \<noteq> Next then Some (k, v, a)
       else if all_accepted v then begin_test e v a
       else Some (Next, v, a) })"

definition server_ready :: "host \<Rightarrow> server_vars \<Rightarrow> fd list \<Rightarrow> sys \<Rightarrow> server_turn" where
  "server_ready e v rs a = do {
     (k, v, rs, ((t, w), s)) \<leftarrow> server_listener e v rs a;
     if k \<noteq> Next then Some (k, v, ((t, w), s))
     else do {
       on \<leftarrow> fd_isset (ctrl_sck t) rs;
       (r, t, w) \<leftarrow> (if on then iperf_handle_message_server e t w else Some (0, t, w));
       if r < 0 then server_fails e v ((t, w), s)
       else server_streams e v (if on then fd_clr (ctrl_sck t) rs else rs) ((t, w), s) } }"

text \<open>The timeout of select: in the idle state one that lets the server start anew, and while data is
  expected one that notices that none comes.\<close>

definition server_timeout :: "iperf_test \<Rightarrow> (int \<times> int) option \<Rightarrow> (int \<times> int) option" where
  "server_timeout t timeout =
     (if state t = IPERF_START then
        (if timeout = None \<and> idle_timeout (settings t) > 0 then Some (idle_timeout (settings t), 0) else timeout)
      else if mode t \<noteq> SENDER then Some (receive_timeout (settings t) timeout)
      else timeout)"

definition run_timers :: "host \<Rightarrow> server_vars \<Rightarrow> sys \<Rightarrow> server_turn" where
  "run_timers e v = (\<lambda>((t, w), s). do {
     (_, now, w) \<leftarrow> iperf_time_now (now_time v) w;
     a \<leftarrow> tmr_run (server_timer_proc (procs e)) (Some now) now ((t, w), s);
     Some (Next, v\<lparr>now_time := now\<rparr>, a) })"

definition server_turn :: "host \<Rightarrow> int \<Rightarrow> server_vars \<Rightarrow> sys \<Rightarrow> server_turn" where
  "server_turn e rcv_timeout_us v = (\<lambda>((t, w), s).
     if bitrate_limit_exceeded t \<noteq> 0 then server_fails_with e v IETOTALRATE ((t, w), s)
     else do {
       (_, now, w) \<leftarrow> iperf_time_now (now_time v) w;
       let v = v\<lparr>now_time := now\<rparr>;
       timeout \<leftarrow> tmr_timeout (Some now) now s;
       (n, rs, _, spent, w) \<leftarrow> select_sets (read_set t) (write_set t) (server_timeout t timeout) w;
       if n < 0 \<and> errno w \<noteq> EINTR then server_fails_with e v IESELECT ((t, w), s)
       else do {
         (k, v, a) \<leftarrow> (if n = 0 then server_idle e rcv_timeout_us v ((t, w), s) else Some (Next, v, ((t, w), s)));
         if k \<noteq> Next then Some (k, v, a)
         else do {
           let v = note_progress (fst (fst a)) v;
           (k, v, a) \<leftarrow> (if n > 0 then server_ready e v rs a else Some (Next, v, a));
           if k \<noteq> Next then Some (k, v, a)
           else if n = 0 \<or> spent then run_timers e v a
           else Some (Next, v, a) } } })"

type_synonym server_schedule = "(host \<times> nat list) list"

fun server_loop :: "int \<Rightarrow> server_schedule \<Rightarrow> server_vars \<Rightarrow> sys \<Rightarrow> server_turn" where
  "server_loop rt [] v a = (if state (fst (fst a)) = IPERF_DONE then Some (Next, v, a) else None)"
| "server_loop rt ((e, is) # sched) v a =
     (if state (fst (fst a)) = IPERF_DONE then Some (Next, v, a)
      else do {
        (v, a) \<leftarrow> run_workers e is v a;
        (k, v, a) \<leftarrow> server_turn e rt v a;
        if k = Next then server_loop rt sched v a else Some (k, v, a) })"

text \<open>What is left of an earlier test is summed up first.\<close>

definition early_summary :: "host \<Rightarrow> iperf_test \<Rightarrow> iperf_test option" where
  "early_summary h t =
     (if summary_printed t = 0 \<and> list_ex (\<lambda>sp. interval_results (result sp) \<noteq> []) (streams t)
      then do {
        t \<leftarrow> iperf_stats_callback (stats_rd (procs h)) (t\<lparr>cpu_util := cpu_now (procs h)\<rparr>);
        Some (iperf_print_results (t\<lparr>summary_printed := 1\<rparr>)) }
      else Some t)"

definition returns :: "int \<Rightarrow> sys option \<Rightarrow> (server_step \<times> sys) option" where
  "returns r m = do { a \<leftarrow> m; Some (Returns r, a) }"

text \<open>After the loop.\<close>

definition server_finish :: "host \<Rightarrow> sys \<Rightarrow> (server_step \<times> sys) option" where
  "server_finish e = (\<lambda>((t, w), s).
     if json_output t \<noteq> 0 \<and> json_finish e < 0 then Some (Returns (-1), ((t, w), s))
     else do {
       ((t, w), s) \<leftarrow> cleanup_server e ((t, w), s);
       let (r, w) = (if server_affinity t \<noteq> -1 then iperf_clearaffinity e w else (0, w));
       Some (Returns (if r \<noteq> 0 then -1 else 0), ((t, w), s)) })"

definition iperf_run_server :: "host \<Rightarrow> server_schedule \<Rightarrow> sys \<Rightarrow> (server_step \<times> sys) option" where
  "iperf_run_server e sched = (\<lambda>((t, w), s).
     if logfile t \<noteq> None \<and> log_open e < 0 then Some (Returns (-2), ((t, w), s))
     else
       (let (r, w) = (if affinity t \<noteq> -1 then iperf_setaffinity e (affinity t) w else (0, w)) in
        if r \<noteq> 0 then returns (-2) (cleanup_server e ((t, w), s))
        else do {
          t \<leftarrow> early_summary e t;
          if json_output t \<noteq> 0 \<and> json_start e < 0 then returns (-2) (cleanup_server e ((t, w), s))
          else do {
            (r, t, w) \<leftarrow> iperf_server_listen t w;
            if r < 0 then returns (-2) (cleanup_server e ((t, w), s))
            else do {
              (_, last, w) \<leftarrow> iperf_time_now zero_time w;
              let t = t\<lparr>state := IPERF_START\<rparr>;
              let v = \<lparr>now_time = zero_time, last_receive_time = last, last_receive_blocks = 0, gone = [],
                       send_streams_accepted = 0, rec_streams_accepted = 0, streams_to_send = 0, streams_to_rec = 0,
                       flag = None\<rparr>;
              (k, v, a) \<leftarrow> server_loop (rcv_timeout_usecs (settings t)) sched v ((t, w), s);
              if k = Next then server_finish e a else Some (k, a) } } }))"

end
