(* ===== verification/Iperf_Connect_Ok.thy ===== *)
theory Iperf_Connect_Ok
  imports Iperf_Connect
begin

text \<open>
  What the functions of Iperf_Connect hold when they return: the descriptors and address lists, the
  cookie that is sent and the cookie that is asked for.
\<close>

section \<open>Reads and writes hold nothing\<close>

definition silent :: "world \<Rightarrow> world \<Rightarrow> bool" where
  "silent w w' \<longleftrightarrow> later w w' \<and> list_all plain (events w w')"

lemma silent_refl [simp]: "silent w w"
  by (simp add: silent_def)

lemma silent_trans: "silent w w1 \<Longrightarrow> silent w1 w2 \<Longrightarrow> silent w w2"
  using events_append [of w w1 w2] later_trans [of w w1 w2] by (simp add: silent_def)

lemma silent_held: "held v w F A \<Longrightarrow> silent w w' \<Longrightarrow> held v w' F A"
  using held_events by (auto simp: silent_def)

lemma silent_upd [simp]: "silent w (w'\<lparr>i_errno := e\<rparr>) = silent w w'" "silent w (w'\<lparr>errno := e\<rparr>) = silent w w'"
  by (simp_all add: silent_def later_def events_def)

lemma silent_write: "sys_write f b w = Some (r, w') \<Longrightarrow> silent w w'"
  by (drule sys_write_Some) (auto simp: silent_def)

lemma silent_recv_or_read: "recv_or_read f n so w = Some (r, bs, w') \<Longrightarrow> silent w w'"
  by (drule recv_or_read_Some) (auto simp: silent_def)

lemma silent_recv: "sys_recv f n so w = Some (r, bs, w') \<Longrightarrow> silent w w'"
  by (drule sys_recv_Some) (auto simp: silent_def)

definition only_writes :: "fd \<Rightarrow> world \<Rightarrow> world \<Rightarrow> bool" where
  "only_writes f w w' \<longleftrightarrow> later w w' \<and> list_all (\<lambda>e. \<exists>b. e = EvWrite f b) (events w w')"

lemma only_writes_trans: "only_writes f w w1 \<Longrightarrow> only_writes f w1 w2 \<Longrightarrow> only_writes f w w2"
  using events_append [of w w1 w2] later_trans [of w w1 w2] by (simp add: only_writes_def)

lemma only_writes_silent: "only_writes f w w' \<Longrightarrow> silent w w'"
  by (auto simp: only_writes_def silent_def list_all_iff)

lemma only_writes_no_read: "only_writes f w w' \<Longrightarrow> bytes_read g (events w w') = []"
proof -
  have "list_all (\<lambda>e. \<exists>b. e = EvWrite f b) es \<Longrightarrow> bytes_read g es = []" for es
    by (induction es) auto
  then show "only_writes f w w' \<Longrightarrow> ?thesis" by (simp add: only_writes_def)
qed

lemma nwrite_loop_writes: "nwrite_loop f buf count nleft w = Some (r, w') \<Longrightarrow> only_writes f w w'"
proof (induction f buf count nleft w rule: nwrite_loop.induct)
  case (1 f buf count nleft w)
  show ?case
  proof (cases "nleft = 0")
    case True
    with 1(2) show ?thesis by (simp add: nwrite_loop.simps [of f buf count 0] only_writes_def)
  next
    case False
    with 1(2) obtain r1 w1 where wr: "sys_write f (take nleft buf) w = Some (r1, w1)"
      by (subst (asm) nwrite_loop.simps) (auto split: option.splits)
    have s1: "only_writes f w w1" using sys_write_Some [OF wr] by (auto simp: only_writes_def)
    show ?thesis
    proof (cases "r1 \<le> 0")
      case True
      with False wr s1 1(2) show ?thesis
        by (subst (asm) nwrite_loop.simps) (auto split: if_splits)
    next
      case pos: False
      with False wr 1(2) have "nwrite_loop f (drop (nat r1) buf) count (nleft - nat r1) w1 = Some (r, w')"
        by (subst (asm) nwrite_loop.simps) simp
      from 1(1) [OF False wr refl _ _ this] pos s1 show ?thesis by (auto intro: only_writes_trans)
    qed
  qed
qed

lemma Nwrite_writes: "Nwrite f buf count prot w = Some (r, w') \<Longrightarrow> only_writes f w w'"
  unfolding Nwrite_def by (rule nwrite_loop_writes)

lemma silent_select: "sys_select f w = Some (r, w') \<Longrightarrow> silent w w'"
  by (drule sys_select_Some) (auto simp: silent_def)

lemma silent_time: "iperf_time_now t w = Some (r, t', w') \<Longrightarrow> silent w w'"
  by (drule time_now_Some) (auto simp: silent_def)

lemma silent_nrecv_wait: "nrecv_wait f ft w = Some (stop, ft', w') \<Longrightarrow> silent w w'"
proof -
  assume "nrecv_wait f ft w = Some (stop, ft', w')"
  then obtain r now w1 where "iperf_time_now \<lparr>secs = 0, usecs = 0\<rparr> w = Some (r, now, w1)"
    "w1 = w' \<or> (\<exists>r. sys_select f w1 = Some (r, w'))"
    by (auto simp: nrecv_wait_def Option.bind_eq_Some_conv Let_def split: if_splits)
  then show ?thesis using silent_time silent_select silent_trans by blast
qed

lemma silent_nrecv_loop: "nrecv_loop f count so nleft buf ft w = Some (r, got, w') \<Longrightarrow> silent w w'"
proof (induction f count so nleft buf ft w rule: nrecv_loop.induct)
  case (1 f count so nleft buf ft w)
  show ?case
  proof (cases "nleft = 0")
    case True
    with 1(2) show ?thesis by (simp add: nrecv_loop.simps [of f count so 0])
  next
    case False
    with 1(2) obtain r1 bs w1 where rd: "recv_or_read f nleft so w = Some (r1, bs, w1)"
      by (subst (asm) nrecv_loop.simps) (auto split: option.splits prod.splits)
    note s1 = silent_recv_or_read [OF rd]
    let ?n = "nleft - bytes_copied r1 nleft so"
    show ?thesis
    proof (cases "r1 \<le> 0 \<or> ?n = 0")
      case True
      with False rd s1 1(2) show ?thesis
        by (subst (asm) nrecv_loop.simps) (auto simp: Let_def split: if_splits)
    next
      case go: False
      with False rd 1(2) obtain stop ft1 w2 where wt: "nrecv_wait f ft w1 = Some (stop, ft1, w2)"
        by (subst (asm) nrecv_loop.simps) (auto simp: Let_def split: option.splits prod.splits)
      note s2 = silent_trans [OF s1 silent_nrecv_wait [OF wt]]
      show ?thesis
      proof (cases stop)
        case (Some res)
        with go False rd wt s2 1(2) show ?thesis
          by (subst (asm) nrecv_loop.simps) (auto simp: Let_def)
      next
        case None
        with go False rd wt 1(2) have "nrecv_loop f count so ?n (buf @ bs) ft1 w2 = Some (r, got, w')"
          by (subst (asm) nrecv_loop.simps) (auto simp: Let_def)
        from 1(1) [OF False rd refl refl _ _ refl refl _ wt refl _ refl this] go None s2 show ?thesis
          by (auto intro: silent_trans)
      qed
    qed
  qed
qed

lemma silent_Nwrite: "Nwrite f buf count prot w = Some (r, w') \<Longrightarrow> silent w w'"
  using Nwrite_writes only_writes_silent by blast

lemma silent_Nread: "Nread f count prot w = Some (r, got, w') \<Longrightarrow> silent w w'"
  by (auto simp: Nread_def Nrecv_def Option.bind_eq_Some_conv split: if_splits
      dest!: silent_select silent_nrecv_loop intro: silent_trans)

lemma held_silent2:
  "held v w F A \<Longrightarrow> (\<And>r w'. m w = Some (r, w') \<Longrightarrow> silent w w') \<Longrightarrow> (\<And>r w'. held v w' F A \<Longrightarrow> Q (r, w'))
    \<Longrightarrow> post (m w) Q"
  by (rule post_2I) (blast intro: silent_held)

lemma held_silent3:
  "held v w F A \<Longrightarrow> (\<And>r x w'. m w = Some (r, x, w') \<Longrightarrow> silent w w') \<Longrightarrow> (\<And>r x w'. held v w' F A \<Longrightarrow> Q (r, x, w'))
    \<Longrightarrow> post (m w) Q"
  by (rule post_3I) (blast intro: silent_held)

lemmas held_Nwrite = held_silent2 [where m = "Nwrite f b n p" for f b n p, OF _ silent_Nwrite]
lemmas held_Nread = held_silent3 [where m = "Nread f n p" for f n p, OF _ silent_Nread]
lemmas held_write = held_silent2 [where m = "sys_write f b" for f b, OF _ silent_write]
lemmas held_recv = held_silent3 [where m = "sys_recv f n so" for f n so, OF _ silent_recv]


section \<open>Options\<close>

lemma held_set_opts:
  "held v w F A \<Longrightarrow> list_all (\<lambda>(e, _). plain e) evs \<Longrightarrow> (\<And>ok w'. held v w' F A \<Longrightarrow> Q (ok, w'))
    \<Longrightarrow> post (set_opts evs w) Q"
proof (induction evs arbitrary: w)
  case (Cons a evs)
  obtain e i where a: "a = (e, i)" by (cases a)
  with Cons show ?case by (auto intro!: held_ok [OF Cons.prems(1)])
qed simp

lemma plain_opts [simp]:
  "list_all (\<lambda>(e, _). plain e) (opt_if b s n x ie)"
  "list_all (\<lambda>(e, _). plain e) (bufsize_opts t s)" "list_all (\<lambda>(e, _). plain e) (tcp_opts t s)"
  "list_all (\<lambda>(e, _). plain e) (flow_opts t s)" "list_all (\<lambda>(e, _). plain e) (sctp_options t s)"
  by (simp_all add: opt_if_def bufsize_opts_def tcp_opts_def flow_opts_def sctp_options_def Let_def)

lemma held_set_pacing:
  "held v w F A \<Longrightarrow> (\<And>w'. held v w' F A \<Longrightarrow> Q w') \<Longrightarrow> post (set_pacing t s w) Q"
  unfolding set_pacing_def Let_def by (auto intro!: held_ok)

lemma held_read_bufs:
  "held v w F A \<Longrightarrow> (\<And>ie a b w'. held v w' F A \<Longrightarrow> Q (ie, a, b, w')) \<Longrightarrow> post (read_bufs t w) Q"
  unfolding read_bufs_def Let_def by (auto intro!: held_val [where v = v and F = F and A = A])

lemma held_close_bufs:
  "held v w F A \<Longrightarrow> held v (close_bufs ie s as w) (F - {s}) (A - (\<Union>a\<in>set as. ai_id ` set_option a))"
proof -
  assume h: "held v w F A"
  have fl: "held v x G B \<Longrightarrow> held v (fold freeaddrinfo as x) G (B - (\<Union>a\<in>set as. ai_id ` set_option a))" for x G B
  proof (induction as arbitrary: x B)
    case (Cons a as)
    from Cons.IH [OF held_free [OF Cons.prems, of a]] show ?case by (simp add: Diff_eq Int_assoc)
  qed simp
  show ?thesis
    using held_close_free [OF h] fl [OF held_close [OF h]] by (simp add: close_bufs_def)
qed

section \<open>TCP\<close>

lemma held_tcp_send_cookie:
  assumes h: "held v w (insert s F) (insert (ai_id a) A)" and n: "0 \<le> s" "s \<notin> F" "ai_id a \<notin> A"
    and fail: "\<And>w'. held v w' F A \<Longrightarrow> Q (-1, w')"
    and ok: "\<And>w'. held v w' (insert s F) A \<Longrightarrow> Q (s, w')"
  shows "post (tcp_send_cookie t s a w) Q"
proof -
  have cl: "held v x (insert s F) (insert (ai_id a) A) \<Longrightarrow> Q (-1, (close_free s [Some a] x)\<lparr>i_errno := e\<rparr>)" for x e
    using n by (intro fail) (auto intro!: held_eq [OF held_close_free])
  have cl0: "held v x (insert s F) A \<Longrightarrow> Q (-1, (close_free s [] x)\<lparr>i_errno := e\<rparr>)" for x e
    using n by (intro fail) (auto intro!: held_eq [OF held_close_free])
  have fr: "held v x (insert s F) (insert (ai_id a) A) \<Longrightarrow> held v (freeaddrinfo (Some a) x) (insert s F) A" for x
    using n by (intro held_eq [OF held_free]) auto
  show ?thesis
    unfolding tcp_send_cookie_def Let_def
    by (auto intro!: held_set_pacing [OF h] held_common_sockopts [where v = v and F = "insert s F" and A = "insert (ai_id a) A"]
        held_ok [where v = v and F = "insert s F" and A = "insert (ai_id a) A"] held_Nwrite [OF fr] cl cl0 ok)
qed

lemma held_tcp_connect:
  assumes h: "held v w F A" and fail: "\<And>w'. held v w' F A \<Longrightarrow> Q (-1, t, w')"
    and ok: "\<And>s w'. held v w' (insert s F) A \<Longrightarrow> 0 \<le> s \<Longrightarrow> s \<notin> F \<Longrightarrow> Q (s, t, w')"
  shows "post (iperf_tcp_connect t w) Q"
  unfolding iperf_tcp_connect_def post_bind
proof (rule held_create_socket [OF h], goal_cases)
  case (2 s a w1)
  note n = 2(2-4)
  have cl: "held v x (insert s F) (insert (ai_id a) A) \<Longrightarrow> Q (-1, t, (close_free s [Some a] x))" for x
    using n by (intro fail) (auto intro!: held_eq [OF held_close_free])
  have cli: "held v x (insert s F) (insert (ai_id a) A) \<Longrightarrow> Q (-1, t, (close_free s [Some a] x)\<lparr>i_errno := e\<rparr>)" for x e
    using n by (intro fail) (auto intro!: held_eq [OF held_close_free])
  have clb: "held v x (insert s F) (insert (ai_id a) A) \<Longrightarrow> Q (-1, t, (close_bufs e s [Some a] x))" for x e
    using n by (intro fail) (auto intro!: held_eq [OF held_close_bufs])
  have fin: "held v x (insert s F) A \<Longrightarrow> Q (s, t, x)" for x using n by (intro ok)
  show ?case
    using n(1) by (auto intro!: held_set_opts [OF 2(1)] held_set_opts [where v = v and F = "insert s F" and A = "insert (ai_id a) A"]
        held_read_bufs [where v = v and F = "insert s F" and A = "insert (ai_id a) A"]
        held_tcp_send_cookie [where v = v and F = F and A = A] cl cli clb n intro: fail fin)
qed (auto intro: fail)


lemma held_tcp_accept:
  assumes h: "held v w F A" and fail: "\<And>w'. held v w' F A \<Longrightarrow> Q (-1, t, w')"
    and ok: "\<And>s w'. held v w' (insert s F) A \<Longrightarrow> 0 \<le> s \<Longrightarrow> s \<notin> F \<Longrightarrow> Q (s, t, w')"
    and closed: "\<And>s w'. held v w' F A \<Longrightarrow> 0 \<le> s \<Longrightarrow> s \<notin> F \<Longrightarrow> Q (s, t, w')"
  shows "post (iperf_tcp_accept t w) Q"
  unfolding iperf_tcp_accept_def post_bind
proof (rule held_open [OF h], goal_cases)
  case (2 s w1)
  have cl: "held v x (insert s F) A \<Longrightarrow> held v (sys_close s x) F A" for x
    using 2 by (auto intro!: held_eq [OF held_close])
  have cli: "held v x (insert s F) A \<Longrightarrow> held v (sys_close s (x\<lparr>i_errno := e\<rparr>)) F A" for x e
    using cl [of "x\<lparr>i_errno := e\<rparr>"] by simp
  have fin: "held v x (insert s F) A \<Longrightarrow> Q (s, t, x)" "held v x (insert s F) A \<Longrightarrow> Q (s, t, sys_close s x)" for x
    using 2 cl by (auto intro: ok closed)
  show ?case
    using 2(2) by (auto intro!: held_set_pacing [OF 2(1)] held_Nread [where v = v and F = "insert s F" and A = A]
        held_Nwrite [where v = v and F = "insert s F" and A = A] intro: fail cli fin)
qed (auto intro: fail)

lemma held_tcp_relisten:
  assumes h: "held v w F A"
    and fail: "\<And>t' w'. held v w' (F - {listener t}) A \<Longrightarrow> t' = t\<lparr>read_set := fd_clr (listener t) (read_set t)\<rparr> \<Longrightarrow> Q (-1, t', w')"
    and ok: "\<And>s t' w'. held v w' (insert s (F - {listener t})) A \<Longrightarrow> 0 \<le> s \<Longrightarrow> s \<notin> F - {listener t}
      \<Longrightarrow> t' = t\<lparr>read_set := fd_clr (listener t) (read_set t), listener := s\<rparr> \<Longrightarrow> Q (s, t', w')"
  shows "post (tcp_relisten t w) Q"
proof -
  define G where G: "G = F - {listener t}"
  note fail = fail [folded G] and ok = ok [folded G]
  have h1: "held v (sys_close (listener (t\<lparr>read_set := fd_clr (listener t) (read_set t)\<rparr>)) w) G A"
    using held_close [OF h, of "listener t"] by (simp add: G)
  show ?thesis
    unfolding tcp_relisten_def Let_def post_bind
  proof (rule held_getaddrinfo [OF h1], goal_cases)
    case (2 a w1)
    have fr: "held v x G (insert (ai_id a) A) \<Longrightarrow> held v (freeaddrinfo (Some a) x) G A" for x
      using 2 by (intro held_eq [OF held_free]) auto
    have cl: "s \<notin> G \<Longrightarrow> held v x (insert s G) (insert (ai_id a) A) \<Longrightarrow> held v (close_free s [Some a] x) G A" for s x
      using \<open>ai_id a \<notin> A\<close> by (auto intro!: held_eq [OF held_close_free])
    have cl0: "s \<notin> G \<Longrightarrow> held v x (insert s G) A \<Longrightarrow> held v (sys_close s (x\<lparr>i_errno := e\<rparr>)) G A" for s x e
      by (auto intro!: held_eq [OF held_close])
    have fr2: "held v x (insert s G) (insert (ai_id a) A) \<Longrightarrow> held v (freeaddrinfo (Some a) x) (insert s G) A" for s x
      using \<open>ai_id a \<notin> A\<close> by (intro held_eq [OF held_free]) auto
    have failS: "held v x G A \<Longrightarrow> Q (-1, t\<lparr>read_set := fd_clr (listener t) (read_set t)\<rparr>, x)" for x
      by (rule fail) auto
    have okS: "held v x (insert s G) A \<Longrightarrow> 0 \<le> s \<Longrightarrow> s \<notin> G
        \<Longrightarrow> Q (s, t\<lparr>read_set := fd_clr (listener t) (read_set t), listener := s\<rparr>, x)" for s x
      by (rule ok) auto
    show ?case
      using 2 by (auto intro!: held_open [where v = v and F = G and A = "insert (ai_id a) A"] held_set_opts [where v = v and F = "insert s G" and A = "insert (ai_id a) A" for s]
          held_ok [where e = "EvBind s" and v = v and F = "insert s G" and A = "insert (ai_id a) A" for s]
          held_ok [where e = "EvListen s" and v = v and F = "insert s G" and A = A for s] cl cl0 fr fr2 failS intro: okS)
  qed (auto intro: fail)
qed

text \<open>A listener for the streams: the control listener itself, or a new one in its place. A failure
  leaves neither.\<close>

lemma held_tcp_listen:
  assumes h: "held v w F A" and l: "0 \<le> listener t"
    and fail: "\<And>t' w'. held v w' (F - {listener t}) A \<Longrightarrow> Q (-1, t', w')"
    and same: "\<And>w'. held v w' F A \<Longrightarrow> Q (listener t, t, w')"
    and ok: "\<And>s t' w'. held v w' (insert s (F - {listener t})) A \<Longrightarrow> 0 \<le> s \<Longrightarrow> s \<notin> F - {listener t}
      \<Longrightarrow> t' = t\<lparr>read_set := fd_clr (listener t) (read_set t), listener := s\<rparr> \<Longrightarrow> Q (s, t', w')"
  shows "post (iperf_tcp_listen t w) Q"
proof (cases "no_delay t \<noteq> 0 \<or> mptcp t \<noteq> 0 \<or> mss (settings t) \<noteq> 0 \<or> socket_bufsize (settings t) \<noteq> 0")
  case False
  have cl: "held v x F A \<Longrightarrow> Q (-1, t, close_bufs e (listener t) [] x)" for x e
    using held_close_bufs [of v x F A e "listener t" "[]"] by (intro fail) simp
  show ?thesis
    unfolding iperf_tcp_listen_def using False l by (auto intro!: held_read_bufs [OF h] cl same)
next
  case True
  define G where G: "G = F - {listener t}"
  note fail = fail [folded G] and ok = ok [folded G]
  have cl: "s \<notin> G \<Longrightarrow> held v x (insert s G) A \<Longrightarrow> Q (-1, t', close_bufs e s [] x)" for x e s t'
    using held_close_bufs [of v x "insert s G" A e s "[]"] by (intro fail) simp
  show ?thesis
    unfolding iperf_tcp_listen_def if_P [OF True] post_bind
  proof (rule held_tcp_relisten [OF h, of t, folded G], goal_cases)
    case (1 t' w')
    then show ?case by (auto intro: fail)
  next
    case (2 s t' w')
    then show ?case by (auto intro!: held_read_bufs [OF 2(1)] cl intro: ok)
  qed
qed

section \<open>UDP\<close>

lemma held_udp_buffercheck:
  "held v w F A \<Longrightarrow> (\<And>r w'. held v w' F A \<Longrightarrow> Q (r, w')) \<Longrightarrow> post (iperf_udp_buffercheck t s w) Q"
  unfolding iperf_udp_buffercheck_def
  by (auto intro!: held_set_opts [where v = v and F = F and A = A] held_read_bufs [where v = v and F = F and A = A])

lemma held_udp_buffers:
  assumes "held v w F A"
    and "\<And>r n w'. held v w' F A \<Longrightarrow> Q (r, upd_settings (\<lambda>x. x\<lparr>socket_bufsize := n\<rparr>) t, w')"
  shows "post (udp_buffers t s w) Q"
proof -
  have same: "upd_settings (\<lambda>x. x\<lparr>socket_bufsize := socket_bufsize (settings t)\<rparr>) t = t"
    by (simp add: upd_settings_def)
  have "held v w' F A \<Longrightarrow> Q (r, t, w')" for r w'
    using assms(2) [of w' r "socket_bufsize (settings t)"] unfolding same .
  then show ?thesis
    unfolding udp_buffers_def Let_def
    by (auto intro!: held_udp_buffercheck [where v = v and F = F and A = A] assms)
qed

text \<open>A stream takes over the listening socket, and a new one takes its place. When it cannot be made,
  no field of the test names the old one any more.\<close>

lemma held_udp_accept:
  assumes h: "held v w F A"
    and fail: "\<And>r n w'. held v w' F A \<Longrightarrow> r < 0 \<Longrightarrow> Q (r, upd_settings (\<lambda>x. x\<lparr>socket_bufsize := n\<rparr>) t, w')"
    and fail_listen: "\<And>n w'. held v w' F A \<Longrightarrow> Q (-1, (upd_settings (\<lambda>x. x\<lparr>socket_bufsize := n\<rparr>) t)
        \<lparr>read_set := fd_clr (prot_listener t) (read_set t), prot_listener := -1\<rparr>, w')"
    and new: "\<And>r n l w'. held v w' (insert l F) A \<Longrightarrow> 0 \<le> l \<Longrightarrow> l \<notin> F \<Longrightarrow> r = -1 \<or> r = prot_listener t \<Longrightarrow>
        Q (r, (upd_settings (\<lambda>x. x\<lparr>socket_bufsize := n\<rparr>) t)\<lparr>
          prot_listener := l, read_set := fd_set l (fd_clr (prot_listener t) (read_set t)), max_fd := max (max_fd t) l\<rparr>, w')"
  shows "post (iperf_udp_accept t w) Q"
proof -
  have same: "upd_settings (\<lambda>x. x\<lparr>socket_bufsize := socket_bufsize (settings t)\<rparr>) t = t"
    by (simp add: upd_settings_def)
  have f0: "held v w' F A \<Longrightarrow> Q (-1, t, w')" for w'
    using fail [of w' "-1" "socket_bufsize (settings t)"] unfolding same by simp
  let ?t = "\<lambda>n. upd_settings (\<lambda>x. x\<lparr>socket_bufsize := n\<rparr>) t"
  have p: "prot_listener (?t n) = prot_listener t" "read_set (?t n) = read_set t" "max_fd (?t n) = max_fd t" for n
    by (simp_all add: upd_settings_def)
  let ?u = "\<lambda>n l. (?t n)\<lparr>prot_listener := l, read_set := fd_set l (fd_clr (prot_listener t) (read_set t)),
        max_fd := max (max_fd t) l\<rparr>"
  have n1: "held v x (insert l F) A \<Longrightarrow> \<not> l < 0 \<Longrightarrow> l \<notin> F \<Longrightarrow> Q (prot_listener t, ?u n l, x)" for x l n
    by (rule new) auto
  have n2: "held v x (insert l F) A \<Longrightarrow> \<not> l < 0 \<Longrightarrow> l \<notin> F \<Longrightarrow> Q (-1, ?u n l, x\<lparr>i_errno := e\<rparr>)" for x l n e
    by (rule new) auto
  show ?thesis
    unfolding iperf_udp_accept_def Let_def
    by (auto intro!: held_recv [OF h] held_ok [where v = v and F = F and A = A] held_udp_buffers [where v = v and F = F and A = A]
        held_set_pacing [where v = v and F = F and A = A] held_netannounce [where v = v and F = F and A = A]
        held_write [where v = v and F = "insert l F" and A = A for l] fail f0 fail_listen intro: n1 n2 simp: p)
qed

lemma held_udp_listen:
  assumes h: "held v w F A" and fail: "\<And>w'. held v w' F A \<Longrightarrow> Q (-1, t, w')"
    and ok: "\<And>s w'. held v w' (insert s F) A \<Longrightarrow> 0 \<le> s \<Longrightarrow> s \<notin> F \<Longrightarrow> Q (s, t, w')"
  shows "post (iperf_udp_listen t w) Q"
  unfolding iperf_udp_listen_def post_bind
  by (rule held_netannounce [OF h]) (auto intro: fail ok)


section \<open>Cookies on the wire\<close>

text \<open>mute w w': on the way nothing was read or written.\<close>

fun moves_bytes :: "event \<Rightarrow> bool" where
  "moves_bytes (EvRead _ _) = True"
| "moves_bytes (EvWrite _ _) = True"
| "moves_bytes _ = False"

definition mute :: "world \<Rightarrow> world \<Rightarrow> bool" where
  "mute w w' \<longleftrightarrow> later w w' \<and> list_all (\<lambda>e. \<not> moves_bytes e) (events w w')"

lemma mute_refl [simp]: "mute w w"
  by (simp add: mute_def)

lemma mute_trans: "mute w w1 \<Longrightarrow> mute w1 w2 \<Longrightarrow> mute w w2"
  using events_append [of w w1 w2] later_trans [of w w1 w2] by (simp add: mute_def)

lemma mute_upd [simp]: "mute w (w'\<lparr>i_errno := e\<rparr>) = mute w w'" "mute w (w'\<lparr>errno := e\<rparr>) = mute w w'"
  "mute w (w'\<lparr>gerror := e\<rparr>) = mute w w'"
  by (simp_all add: mute_def later_def events_def)

lemma mute_emit: "\<not> moves_bytes e \<Longrightarrow> mute w w' \<Longrightarrow> mute w (emit e w')"
  by (auto simp: mute_def later_def events_def emit_def)

lemma mute_no_bytes: "mute w w' \<Longrightarrow> bytes_written f (events w w') = [] \<and> bytes_read f (events w w') = []"
proof -
  have "list_all (\<lambda>e. \<not> moves_bytes e) es \<Longrightarrow> bytes_written f es = [] \<and> bytes_read f es = []" for es
  proof (induction es)
    case (Cons e es)
    then show ?case by (cases e) auto
  qed simp
  then show "mute w w' \<Longrightarrow> ?thesis" by (simp add: mute_def)
qed

lemma mute_step: "mute v w \<Longrightarrow> later w w' \<Longrightarrow> list_all (\<lambda>e. \<not> moves_bytes e) (events w w') \<Longrightarrow> mute v w'"
  using mute_trans [of v w w'] by (simp add: mute_def)

lemma mute_ok:
  assumes "mute v w" "\<not> moves_bytes e" "\<And>r w'. mute v w' \<Longrightarrow> Q (r, w')"
  shows "post (sys_ok e w) Q"
  using assms mute_step [of v w] by (intro post_2I) (auto dest!: sys_ok_Some)

lemma mute_val:
  assumes "mute v w" "\<And>r w'. mute v w' \<Longrightarrow> Q (r, w')"
  shows "post (sys_val [] w) Q"
  using assms mute_step [of v w] by (intro post_2I) (auto dest!: sys_val_Some)

lemma mute_open:
  assumes "mute v w" "\<And>r w'. mute v w' \<Longrightarrow> Q (r, w')"
  shows "post (sys_open w) Q"
  using assms mute_step [of v w] by (intro post_2I) (auto dest!: sys_open_Some)

lemma mute_getaddrinfo:
  assumes "mute v w" "\<And>e a w'. mute v w' \<Longrightarrow> Q (e, a, w')" shows "post (sys_getaddrinfo w) Q"
proof (cases "replies w")
  case (Cons r rs)
  have "mute v (w\<lparr>replies := rs\<rparr>)" using assms(1) Cons by (auto simp: mute_def later_def events_def)
  with assms(2) Cons show ?thesis
    by (cases r) (auto simp: sys_getaddrinfo_def next_reply_def intro!: assms(2) mute_emit)
qed (simp add: sys_getaddrinfo_def next_reply_def)

lemma mute_free: "mute v w \<Longrightarrow> mute v (freeaddrinfo a w)"
  by (auto simp: freeaddrinfo_def intro!: mute_emit split: option.split)

lemma mute_close: "mute v w \<Longrightarrow> mute v (sys_close s w)"
  by (auto simp: sys_close_def intro!: mute_emit)

lemma mute_close_free: "mute v w \<Longrightarrow> mute v (close_free s as w)"
proof -
  have "mute v x \<Longrightarrow> mute v (fold freeaddrinfo as x)" for x
    by (induction as arbitrary: x) (auto intro: mute_free)
  then show "mute v w \<Longrightarrow> ?thesis" by (simp add: close_free_def mute_close)
qed

lemma mute_set_opts:
  "mute v w \<Longrightarrow> list_all (\<lambda>(e, _). \<not> moves_bytes e) evs \<Longrightarrow> (\<And>ok w'. mute v w' \<Longrightarrow> Q (ok, w'))
    \<Longrightarrow> post (set_opts evs w) Q"
proof (induction evs arbitrary: w)
  case (Cons a evs)
  obtain e i where a: "a = (e, i)" by (cases a)
  with Cons show ?case by (auto intro!: mute_ok [OF Cons.prems(1)])
qed simp

lemma quiet_opts [simp]:
  "list_all (\<lambda>(e, _). \<not> moves_bytes e) (opt_if b s n x ie)"
  "list_all (\<lambda>(e, _). \<not> moves_bytes e) (tcp_opts t s)" "list_all (\<lambda>(e, _). \<not> moves_bytes e) (flow_opts t s)"
  by (simp_all add: opt_if_def bufsize_opts_def tcp_opts_def flow_opts_def Let_def)

lemma mute_read_bufs: "mute v w \<Longrightarrow> (\<And>ie a b w'. mute v w' \<Longrightarrow> Q (ie, a, b, w')) \<Longrightarrow> post (read_bufs t w) Q"
  unfolding read_bufs_def Let_def by (auto intro!: mute_val [where v = v])

lemma mute_set_pacing: "mute v w \<Longrightarrow> (\<And>w'. mute v w' \<Longrightarrow> Q w') \<Longrightarrow> post (set_pacing t s w) Q"
  unfolding set_pacing_def Let_def by (auto intro!: mute_ok)

lemma mute_common_sockopts: "mute v w \<Longrightarrow> (\<And>r w'. mute v w' \<Longrightarrow> Q (r, w')) \<Longrightarrow> post (iperf_common_sockopts t s w) Q"
  unfolding iperf_common_sockopts_def getsockdomain_def Let_def
  by (auto intro!: mute_val [where v = v] mute_ok [where v = v])

lemma mute_create_socket:
  assumes "mute v w" "\<And>s a w'. mute v w' \<Longrightarrow> Q (s, a, w')"
  shows "post (create_socket dm k p la bd lp sv po w) Q"
  unfolding create_socket_def create_bind_def bind_device_def Let_def
  by (auto intro!: mute_getaddrinfo [where v = v] mute_open [where v = v] mute_ok [where v = v]
      mute_free mute_close mute_close_free assms split: option.split)

lemma wire_Nwrite:
  assumes "mute v w" "n \<le> length b"
    "\<And>r k w'. later v w' \<Longrightarrow> k \<le> n \<Longrightarrow> bytes_written s (events v w') = take k b \<Longrightarrow> Q (r, w')"
  shows "post (Nwrite s b n p w) Q"
proof (rule post_2I)
  fix r w' assume run: "Nwrite s b n p w = Some (r, w')"
  then have "\<exists>k \<le> n. bytes_written s (events w w') = take k b \<and> later w w'"
    using nwrite_loop_inv [of s b n n w r w'] assms(2) by (auto simp: Nwrite_def)
  then obtain k where k: "k \<le> n" "bytes_written s (events w w') = take k b" "later w w'" by blast
  have v: "later v w" using assms(1) by (simp add: mute_def)
  have "bytes_written s (events v w') = take k b"
    using events_append [OF v k(3)] k(2) mute_no_bytes [OF assms(1), of s] by simp
  with assms(3) k later_trans [OF v k(3)] show "Q (r, w')" by blast
qed

lemma tcp_connect_cookie:
  assumes "length (cookie t) = 37"
  shows "post (iperf_tcp_connect t w) (\<lambda>(s, t', w'). 0 \<le> s \<longrightarrow>
    (\<exists>k \<le> 37. bytes_written s (events w w') = take k (cookie t)))"
proof -
  have c: "post (tcp_send_cookie t s a x) (\<lambda>(s', w'). 0 \<le> s' \<longrightarrow>
      s' = s \<and> (\<exists>k \<le> 37. bytes_written s (events w w') = take k (cookie t)))" if "mute w x" for s a x
    unfolding tcp_send_cookie_def Let_def using assms
    by (auto intro!: mute_set_pacing [OF that] mute_common_sockopts [where v = w] mute_ok [where v = w]
        wire_Nwrite [where v = w] mute_free)
  have c2: "post (tcp_send_cookie t s a x) (\<lambda>y. \<forall>s' w'. y = (s', w') \<longrightarrow> 0 \<le> s' \<longrightarrow>
      (\<exists>k \<le> 37. bytes_written s' (events w w') = take k (cookie t)))" if "mute w x" for s a x
    by (rule post_mono [OF c [OF that]]) auto
  show ?thesis
    unfolding iperf_tcp_connect_def
    by (auto intro!: mute_create_socket [where v = w] mute_set_opts [where v = w] mute_read_bufs [where v = w] c2)
qed


lemma padded_cookie: "wf_cookie c \<Longrightarrow> length got \<le> 37 \<Longrightarrow> strncmp_eq 37 c (padded got) \<longleftrightarrow> padded got = c"
  by (rule cookie_eq_iff) (auto simp: padded_def)

text \<open>A connection is kept exactly when the bytes it sent are the cookie of the test.\<close>

lemma tcp_accept_cookie:
  assumes c: "wf_cookie (cookie t)"
  shows "post (iperf_tcp_accept t w) (\<lambda>(s, t', w'). t' = t \<and> (0 \<le> s \<longrightarrow> s \<notin> fds w
    \<and> fds w' = (if padded (bytes_read s (events w w')) = cookie t then insert s (fds w) else fds w)))"
proof (rule post_3I)
  fix s t' w' assume run: "iperf_tcp_accept t w = Some (s, t', w')"
  have t: "t' = t"
    using run by (auto simp: iperf_tcp_accept_def Option.bind_eq_Some_conv split: if_splits)
  have "s \<notin> fds w \<and> fds w' = (if padded (bytes_read s (events w w')) = cookie t then insert s (fds w) else fds w)"
    if "0 \<le> s"
  proof -
    note def = iperf_tcp_accept_def
    obtain s0 w1 where 1: "sys_open w = Some (s0, w1)"
      using run by (auto simp: def Option.bind_eq_Some_conv)
    with run that have n0: "\<not> s0 < 0" by (auto simp: def)
    obtain w2 where 2: "set_pacing t s0 w1 = Some w2"
      using run 1 n0 by (auto simp: def Option.bind_eq_Some_conv)
    obtain r got w3 where 3: "Nread s0 37 Ptcp w2 = Some (r, got, w3)"
      using run 1 2 n0 by (auto simp: def Option.bind_eq_Some_conv)
    with run 1 2 n0 that have n3: "\<not> r < 0" by (auto simp: def)
    have s: "s0 = s"
      using run 1 2 3 n0 n3 by (auto simp: def Option.bind_eq_Some_conv split: if_splits)
    note steps = 1 [unfolded s] 2 [unfolded s] 3 [unfolded s]
    have fin: "if strncmp_eq 37 (cookie t) (padded got) then w' = w3
        else \<exists>r4 w4. Nwrite s [ACCESS_DENIED_BYTE] 1 Ptcp w3 = Some (r4, w4) \<and> w' = sys_close s w4"
      using run 1 2 3 n0 n3 s by (auto simp: def Option.bind_eq_Some_conv split: if_splits)
    note o = sys_open_Some [OF steps(1)]
    have h: "held w w1 (insert s (fds w)) (addrs w)"
      using postD [OF held_open [OF held_start, of w "\<lambda>(s', w'). 0 \<le> s' \<longrightarrow> held w w' (insert s' (fds w)) (addrs w)"] steps(1)] that
      by auto
    have m: "mute w w2"
      using postD [OF mute_set_pacing [of w w1 "mute w"] steps(2)] o by (auto simp: mute_def)
    have h2: "held w w2 (insert s (fds w)) (addrs w)"
      using postD [OF held_set_pacing [OF h, of "\<lambda>w'. held w w' (insert s (fds w)) (addrs w)"] steps(2)] by auto
    note rd = Nrecv_result [OF steps(3) [unfolded Nread_def]]
    have h3: "held w w3 (insert s (fds w)) (addrs w)" using silent_held [OF h2 silent_Nread [OF steps(3)]] .
    have l2: "later w w2" using m by (simp add: mute_def)
    have b3: "bytes_read s (events w w3) = got"
      using events_append [OF l2 rd(1)] mute_no_bytes [OF m, of s] rd(2) by simp
    show ?thesis
    proof (cases "padded got = cookie t")
      case True
      with fin padded_cookie [OF c rd(3)] have "w' = w3" by simp
      with h3 b3 True o that show ?thesis by (auto simp: held_def)
    next
      case False
      with fin padded_cookie [OF c rd(3)] obtain r4 w4 where w4: "Nwrite s [ACCESS_DENIED_BYTE] 1 Ptcp w3 = Some (r4, w4)"
        "w' = sys_close s w4" by auto
      note h4 = held_close [OF silent_held [OF h3 silent_Nwrite [OF w4(1)]], of s]
      have l3: "later w w3" "later w3 w4" "later w4 w'"
        using h3 Nwrite_writes [OF w4(1)] w4(2) by (auto simp: held_def only_writes_def)
      have "bytes_read s (events w w') = got"
        using events_append [OF l3(1) later_trans [OF l3(2,3)]] events_append [OF l3(2,3)] b3 w4(2)
          only_writes_no_read [OF Nwrite_writes [OF w4(1)], of s] by simp
      with h4 w4(2) False o that show ?thesis by (auto simp: held_def)
    qed
  qed
  with t show "case (s, t', w') of (s, t', w') \<Rightarrow> t' = t \<and> (0 \<le> s \<longrightarrow> s \<notin> fds w
    \<and> fds w' = (if padded (bytes_read s (events w w')) = cookie t then insert s (fds w) else fds w))" by simp
qed

end
