(* ===== verification/Iperf_Server_Ok.thy ===== *)
theory Iperf_Server_Ok
  imports Iperf_Server Iperf_Timer_Create Iperf_Connect_Ok
begin

text \<open>
  The ways out of the server: a second client is turned away without touching the test, and
  cleanup_server, which every way out goes through, stops the threads, closes the sockets and
  cancels the timers.
\<close>

section \<open>A busy server\<close>

text \<open>The whole exchange with an unsolicited client: a new descriptor, at most the one byte
  ACCESS_DENIED on it, and the close.\<close>

definition turned_away :: "world \<Rightarrow> world \<Rightarrow> bool" where
  "turned_away w w' \<longleftrightarrow> (\<exists>s es k. s \<notin> fds w \<and> events w w' = EvOpen s # es @ [EvClose s]
     \<and> list_all (\<lambda>e. \<exists>b. e = EvWrite s b) es \<and> bytes_written s es = take k [255])"

lemma written_on_other: "list_all (\<lambda>e. \<exists>b. e = EvWrite s b) es \<Longrightarrow> f \<noteq> s \<Longrightarrow> bytes_written f es = []"
  by (induction es) auto

lemma Nwrite_prefix:
  "Nwrite s b n p w = Some (r, w') \<Longrightarrow> n \<le> length b \<Longrightarrow> \<exists>k \<le> n. bytes_written s (events w w') = take k b"
  using nwrite_loop_inv [of s b n n w r w'] by (auto simp: Nwrite_def)

lemma state_byte_denied: "state_byte ACCESS_DENIED = 255"
  by (simp add: state_byte_def)

lemma deny_client_away:
  assumes "sys_open w = Some (s, w1)" "\<not> s < 0" "deny_client s w1 = Some w'"
  shows "turned_away w w'" "later w w'"
proof -
  note o = sys_open_Some [OF assms(1)]
  with assms(2) have o2: "s \<notin> fds w" "events w w1 = [EvOpen s]" "later w w1" by auto
  obtain r w2 where n: "Nwrite s [255] 1 Ptcp w1 = Some (r, w2)" "w' = sys_close s w2"
    using assms(3) by (auto simp: deny_client_def Option.bind_eq_Some_conv state_byte_denied)
  note ow = Nwrite_writes [OF n(1)]
  obtain k where k: "bytes_written s (events w1 w2) = take k [255]" using Nwrite_prefix [OF n(1)] by auto
  have l: "later w1 w2" "later w2 w'" using ow n(2) by (simp_all add: only_writes_def)
  show "later w w'" using o2(3) l later_trans by blast
  have "events w w' = EvOpen s # events w1 w2 @ [EvClose s]"
    using events_append [OF o2(3) later_trans [OF l]] events_append [OF l] o2(2) n(2) by simp
  with o2(1) k ow show "turned_away w w'" by (auto simp: turned_away_def only_writes_def)
qed

lemma turned_away_held: "turned_away w w' \<Longrightarrow> later w w' \<Longrightarrow> held w w' (fds w) (addrs w)"
proof -
  have k: "list_all (\<lambda>e. \<exists>b. e = EvWrite s b) es \<Longrightarrow> open_fds S es = S \<and> held_addrs A es = A" for es s S A
    by (induction es) auto
  assume a: "turned_away w w'" "later w w'"
  then obtain s es where s: "s \<notin> fds w" "events w w' = EvOpen s # es @ [EvClose s]"
    "list_all (\<lambda>e. \<exists>b. e = EvWrite s b) es" by (auto simp: turned_away_def)
  from trace_later [OF a(2)] s k [OF s(3)] show ?thesis
    using a(2) by (auto simp: held_def fds_def addrs_def)
qed

lemma accept_busy:
  assumes "ctrl_sck t \<noteq> -1" "iperf_accept h t w = Some (r, t', w')"
  shows "t' = t \<and> (r = 0 \<and> turned_away w w' \<and> held w w' (fds w) (addrs w) \<or> r = -1 \<and> events w w' = [])"
proof -
  obtain s w1 where s: "sys_open w = Some (s, w1)" using assms by (auto simp: iperf_accept_def Option.bind_eq_Some_conv)
  show ?thesis
  proof (cases "s < 0")
    case True
    with s assms sys_open_Some [OF s] show ?thesis by (auto simp: iperf_accept_def events_def)
  next
    case False
    with s assms obtain w2 where "deny_client s w1 = Some w2" "t' = t" "r = 0" "w' = w2"
      by (auto simp: iperf_accept_def Option.bind_eq_Some_conv)
    with deny_client_away [OF s False] turned_away_held show ?thesis by blast
  qed
qed

section \<open>Threads stopped\<close>

definition dropped :: "iperf_stream \<Rightarrow> iperf_stream" where
  "dropped sp = sp\<lparr>stream_done := 1, thread_created := (if thread_created sp = 1 then 0 else thread_created sp)\<rparr>"

lemma sys_rc_Some: "sys_rc evs w = Some (rc, w') \<Longrightarrow> later w w' \<and> i_errno w' = i_errno w
    \<and> length (replies w') + 1 = length (replies w) \<and> (events w w' = evs \<or> events w w' = [])"
  by (cases "replies w"; cases "hd (replies w)")
    (auto simp: sys_rc_def next_reply_def later_def events_def split: if_splits)

lemma sys_rc_silent: "sys_rc evs w = Some (rc, w') \<Longrightarrow> list_all plain evs \<Longrightarrow> silent w w'"
  by (drule sys_rc_Some) (auto simp: silent_def)

lemma sys_rc_total: "replies w \<noteq> [] \<Longrightarrow> \<exists>rc w'. sys_rc evs w = Some (rc, w')"
  by (cases "replies w") (auto simp: sys_rc_def next_reply_def split: reply.split)

lemma silent_bad [simp]: "silent v (if b then w\<lparr>i_errno := e, errno := n\<rparr> else w) = silent v w"
  "replies (if b then w\<lparr>i_errno := e, errno := n\<rparr> else w) = replies w"
  by (simp_all add: silent_def later_def events_def)

lemma silent_from_bad: "silent (if b then w\<lparr>i_errno := e, errno := n\<rparr> else w) v = silent w v"
  by (simp add: silent_def later_def events_def)

lemma drop_worker_Some:
  assumes run: "drop_worker sp w = Some (sp', w')"
  shows "sp' = dropped sp \<and> silent w w' \<and> length (replies w) \<le> length (replies w') + 2"
proof (cases "thread_created sp = 1")
  case False
  with run show ?thesis by (cases sp) (auto simp: drop_worker_def dropped_def)
next
  case True
  then obtain rc w1 where 1: "sys_rc [EvCancel (thr (sp\<lparr>stream_done := 1\<rparr>))] w = Some (rc, w1)"
    using run by (auto simp: drop_worker_def Let_def Option.bind_eq_Some_conv)
  define v where "v = (if thread_bad rc then w1\<lparr>i_errno := IEPTHREADCANCEL, errno := rc\<rparr> else w1)"
  obtain rc2 w2 where 2: "sys_rc [EvJoin (thr (sp\<lparr>stream_done := 1\<rparr>))] v = Some (rc2, w2)"
    using run True 1 by (auto simp: drop_worker_def Let_def v_def Option.bind_eq_Some_conv)
  have fin: "sp' = sp\<lparr>stream_done := 1, thread_created := 0\<rparr>"
    "w' = (if thread_bad rc2 then w2\<lparr>i_errno := IEPTHREADJOIN, errno := rc2\<rparr> else w2)"
    using run True 1 2 by (auto simp: drop_worker_def Let_def v_def)
  have "silent w w1" "silent v w2" using sys_rc_silent [OF 1] sys_rc_silent [OF 2] by simp_all
  then have "silent w w'" unfolding fin(2) silent_bad v_def silent_from_bad by (rule silent_trans)
  moreover have "length (replies w) \<le> length (replies w') + 2"
    using sys_rc_Some [OF 1] sys_rc_Some [OF 2] by (simp add: fin(2) v_def)
  ultimately show ?thesis using fin(1) True by (simp add: dropped_def)
qed

lemma drop_worker_total: "2 \<le> length (replies w) \<Longrightarrow> \<exists>sp' w'. drop_worker sp w = Some (sp', w')"
proof -
  assume n: "2 \<le> length (replies w)"
  then have "replies w \<noteq> []" by auto
  from sys_rc_total [OF this] obtain rc w1 where 1: "sys_rc [EvCancel (thr (sp\<lparr>stream_done := 1\<rparr>))] w = Some (rc, w1)" by blast
  from sys_rc_Some [OF this] n have ne: "replies w1 \<noteq> []" by auto
  obtain rc2 w2 where "sys_rc [EvJoin (thr (sp\<lparr>stream_done := 1\<rparr>))]
      (if thread_bad rc then w1\<lparr>i_errno := IEPTHREADCANCEL, errno := rc\<rparr> else w1) = Some (rc2, w2)"
    using sys_rc_total [of "if thread_bad rc then w1\<lparr>i_errno := IEPTHREADCANCEL, errno := rc\<rparr> else w1"] ne by fastforce
  with 1 show ?thesis by (simp add: drop_worker_def Let_def)
qed

lemma drop_workers_Some:
  "drop_workers P sps w = Some (sps', w') \<Longrightarrow> sps' = map (\<lambda>sp. if P sp then dropped sp else sp) sps \<and> silent w w'"
proof (induction sps arbitrary: w sps')
  case (Cons sp sps)
  from Cons.prems obtain sp1 w1 sps1 where
    1: "(if P sp then drop_worker sp w else Some (sp, w)) = Some (sp1, w1)" and
    2: "drop_workers P sps w1 = Some (sps1, w')" and e: "sps' = sp1 # sps1"
    by (auto simp: Option.bind_eq_Some_conv)
  from 1 have "sp1 = (if P sp then dropped sp else sp)" "silent w w1"
    using drop_worker_Some [of sp w sp1 w1] by (auto split: if_splits)
  with Cons.IH [OF 2] e show ?case by (auto intro: silent_trans)
qed simp

lemma drop_workers_total: "2 * length sps \<le> length (replies w) \<Longrightarrow> \<exists>sps' w'. drop_workers P sps w = Some (sps', w')"
proof (induction sps arbitrary: w)
  case (Cons sp sps)
  show ?case
  proof (cases "P sp")
    case True
    with Cons.prems drop_worker_total [of w sp] obtain sp1 w1 where 1: "drop_worker sp w = Some (sp1, w1)" by auto
    from drop_worker_Some [OF 1] Cons.prems have "2 * length sps \<le> length (replies w1)" by auto
    from Cons.IH [OF this] 1 True show ?thesis by auto
  next
    case False
    have "2 * length sps \<le> length (replies w)" using Cons.prems by simp
    from Cons.IH [OF this] False show ?thesis by auto
  qed
qed simp

section \<open>Sockets closed\<close>

lemma fds_close_fd [simp]: "fds (close_fd f w) = fds w - {g. g = f \<and> g > -1}" "addrs (close_fd f w) = addrs w"
  "later v w \<Longrightarrow> later v (close_fd f w)" "i_errno (close_fd f w) = i_errno w"
  by (auto simp: close_fd_def sys_close_def fds_def addrs_def emit_def later_def)

lemma cleanup_streams_eq:
  "cleanup_streams sps w = (map (\<lambda>sp. sp\<lparr>socket := min (socket sp) (-1)\<rparr>) sps, fold close_fd (map socket sps) w)"
proof (induction sps arbitrary: w)
  case (Cons sp sps)
  then show ?case by (cases sp) (auto simp: min_def)
qed simp

lemma fold_close_fd [simp]:
  "fds (fold close_fd fs w) = fds w - {g \<in> set fs. g > -1}" "addrs (fold close_fd fs w) = addrs w"
  "later v w \<Longrightarrow> later v (fold close_fd fs w)" "i_errno (fold close_fd fs w) = i_errno w"
  by (induction fs arbitrary: w) auto

text \<open>The descriptors a test names.\<close>

definition named_fds :: "iperf_test \<Rightarrow> fd set" where
  "named_fds t = {f \<in> socket ` set (streams t) \<union> {ctrl_sck t, listener t, prot_listener t}. f > -1}"

lemma cleanup_sockets_closes:
  assumes "protocol t \<noteq> Pquic" "cleanup_sockets t w = (t', w')"
  shows "fds w' = fds w - named_fds t" "addrs w' = addrs w" "later w w'" "i_errno w' = i_errno w"
    "named_fds t' = {}" "streams t' = map (\<lambda>sp. sp\<lparr>socket := min (socket sp) (-1)\<rparr>) (streams t)"
    "ctrl_sck t' \<le> -1" "listener t' \<le> -1" "prot_listener t' \<le> -1" "handle_of p t' = handle_of p t"
    "rate_ok t' = rate_ok t" "protocol t' = protocol t"
  using assms
  by (auto simp: cleanup_sockets_def cleanup_streams_eq Let_def named_fds_def handle_of_def rate_ok_def split: timer_name.split)

section \<open>Timers cancelled\<close>

lemma handle_set_handle: "handle_of q (set_handle p h t) = (if q = p then h else handle_of q t)"
  by (simp add: handle_of_def set_handle_def split: timer_name.split)

lemma rate_ok_set_handle: "rate_ok (set_handle p h t) = rate_ok t"
  by (simp add: rate_ok_def set_handle_def split: timer_name.split)

lemma app_inv_removed:
  assumes "app_inv (t, w) act" "handle_of p t = Some a"
  shows "app_inv (set_handle p None t, w') (act(a := None))"
proof -
  have r: "rate_ok (set_handle p None t)" using assms by (simp add: rate_ok_set_handle app_inv_def)
  obtain cd us where act: "act a = Some (p, cd, us, p = Stats_timer \<or> p = Reporter_timer)"
    using assms by (auto simp: app_inv_def)
  have "handle_of q (set_handle p None t) = Some b \<longleftrightarrow>
      (\<exists>cd us. (act(a := None)) b = Some (q, cd, us, q = Stats_timer \<or> q = Reporter_timer))" for q b
  proof (cases "q = p")
    case True
    moreover have "b = a" if "act b = Some (p, cd, us, per)" for cd us per
    proof -
      have "handle_of p t = Some b" using that assms(1) by (auto simp: app_inv_def)
      with assms(2) show ?thesis by simp
    qed
    ultimately show ?thesis by (auto simp: handle_set_handle)
  next
    case False
    have e: "handle_of q t = Some b \<longleftrightarrow> (\<exists>cd us. act b = Some (q, cd, us, q = Stats_timer \<or> q = Reporter_timer))"
      using assms(1) by (simp add: app_inv_def)
    show ?thesis
    proof (cases "b = a")
      case True
      with e act False show ?thesis by (simp add: handle_set_handle)
    next
      case neq: False
      with e False show ?thesis by (simp add: handle_set_handle)
    qed
  qed
  moreover have "\<forall>b q cd us pr. (act(a := None)) b = Some (q, cd, us, pr) \<longrightarrow> pr = (q = Stats_timer \<or> q = Reporter_timer)"
    using assms(1) by (simp add: app_inv_def)
  ultimately show ?thesis using r unfolding app_inv_def prod.case by blast
qed

lemma cancel_handle_ok:
  assumes ok: "timers_ok (t, w) s"
  obtains t' s' where "cancel_handle p (t, s) = Some (t', s')" "timers_ok (t', w) s'" "t' = set_handle p None t"
proof (cases "handle_of p t")
  case None
  then have "set_handle p None t = t"
    by (cases t; cases p) (simp_all add: handle_of_def set_handle_def)
  with None ok show thesis by (intro that [of t s]) (auto simp: cancel_handle_def)
next
  case (Some a)
  obtain as fs where inv: "timers_inv s as fs" and ci: "app_inv (t, w) (active s as)"
    using ok by (auto simp: timers_ok_def)
  have a: "a \<in> set as" by (rule handle_in_list [OF ci]) (use Some in simp)
  obtain s' where c: "tmr_cancel a s = Some s'" "timers_inv s' (remove1 a as) (a # fs)" "same_pay (cells s) (cells s')"
    using tmr_cancel_ok [OF inv a] .
  have "distinct as" using inv by (simp add: timers_inv_def)
  then have "active s' (remove1 a as) = (active s as)(a := None)"
    using c(3) by (auto simp: active_def restrict_map_def fun_eq_iff same_pay_tpay)
  with app_inv_removed [OF ci Some] c(2) have "timers_ok (set_handle p None t, w) s'"
    unfolding timers_ok_def by metis
  with c(1) Some show thesis by (intro that [of "set_handle p None t" s']) (auto simp: cancel_handle_def)
qed

lemma cancel_handles_ok:
  assumes "timers_ok (t, w) s"
  obtains t' s' where "cancel_handles ps (t, s) = Some (t', s')" "timers_ok (t', w) s'"
    "t' = fold (\<lambda>p. set_handle p None) ps t"
proof -
  have "\<exists>s'. cancel_handles ps (t, s) = Some (fold (\<lambda>p. set_handle p None) ps t, s')
      \<and> timers_ok (fold (\<lambda>p. set_handle p None) ps t, w) s'"
    using assms
  proof (induction ps arbitrary: t s)
    case (Cons p ps)
    obtain t1 s1 where "cancel_handle p (t, s) = Some (t1, s1)" "timers_ok (t1, w) s1" "t1 = set_handle p None t"
      using cancel_handle_ok [OF Cons.prems] .
    with Cons.IH [OF this(2)] show ?case by simp
  qed simp
  with that show thesis by blast
qed

lemma no_handles: "timers_ok (t, w) s \<Longrightarrow> (\<And>p. handle_of p t = None) \<Longrightarrow> timers s = None"
proof -
  assume "timers_ok (t, w) s" and n: "\<And>p. handle_of p t = None"
  then obtain as fs where inv: "timers_inv s as fs" and ci: "app_inv (t, w) (active s as)"
    by (auto simp: timers_ok_def)
  have "as = []"
  proof (rule ccontr)
    assume "as \<noteq> []"
    then obtain a where a: "a \<in> set as" by (cases as) auto
    with timers_inv_cell [OF inv] obtain x where x: "cells s a = Some x" by blast
    then have act: "active s as a = Some (timer_proc x, client_data x, period_usecs x, periodic x)"
      using a by (simp add: active_def tpay_def)
    with ci have "handle_of (timer_proc x) t = Some a" by (auto simp: app_inv_def)
    with n show False by simp
  qed
  with timers_inv_head [OF inv] show "timers s = None" by simp
qed

section \<open>What the reports leave alone\<close>

text \<open>A report changes results and counters: the streams are the same otherwise, and so are the
  descriptors, the handles and the state of the test.\<close>

definition core :: "iperf_stream \<Rightarrow> iperf_stream" where
  "core sp = sp\<lparr>result := zero_result\<rparr>"

definition reported :: "iperf_test \<Rightarrow> iperf_test \<Rightarrow> bool" where
  "reported t t' \<longleftrightarrow> map core (streams t') = map core (streams t) \<and> (\<forall>p. handle_of p t' = handle_of p t)
     \<and> ctrl_sck t' = ctrl_sck t \<and> listener t' = listener t \<and> prot_listener t' = prot_listener t
     \<and> protocol t' = protocol t \<and> state t' = state t \<and> read_set t' = read_set t \<and> write_set t' = write_set t
     \<and> mode t' = mode t \<and> test_done t' = test_done t \<and> rate_ok t' = rate_ok t"

lemma reported_refl [simp]: "reported t t"
  by (simp add: reported_def)

lemma reported_trans: "reported t t1 \<Longrightarrow> reported t1 t2 \<Longrightarrow> reported t t2"
  by (simp add: reported_def)

lemma stats_streams_core: "map core (stats_streams rd t temp sps) = map core sps"
  by (induction rd t temp sps rule: stats_streams.induct) (simp_all add: stats_stream_stages core_def split: prod.split)

lemma check_total_rate_only: "iperf_check_total_rate t x = Some t' \<Longrightarrow> \<exists>i ring c e. t' = t\<lparr>bitrate_limit_last_interval_index := i,
    bitrate_limit_intervals_traffic_bytes := ring, bitrate_limit_stats_count := c, bitrate_limit_exceeded := e\<rparr>
    \<and> length ring = length (bitrate_limit_intervals_traffic_bytes t)"
  by (cases t) (auto simp: iperf_check_total_rate_def Let_def Option.bind_eq_Some_conv split: if_splits)

lemma reported_stats: "iperf_stats_callback rd t = Some t' \<Longrightarrow> reported t t'"
proof -
  assume r: "iperf_stats_callback rd t = Some t'"
  define t1 where "t1 = t\<lparr>streams := stats_streams rd t ((junk rd)\<lparr>omitted := omitting t, rtt := 0, rttvar := 0, pmtu := 0\<rparr>) (streams t)\<rparr>"
  have 1: "reported t t1" by (simp add: reported_def t1_def stats_streams_core)
  have "t' = t1 \<or> iperf_check_total_rate t1 (interval_bytes (streams t)) = Some t'"
    using r by (auto simp: iperf_stats_callback_def t1_def Let_def split: if_splits)
  then have "t' = t1 \<or> rate_only t1 t'"
    using check_total_rate_only [of t1 "interval_bytes (streams t)" t'] unfolding rate_only_def by blast
  then have "reported t1 t'"
    by (auto simp: reported_def rate_only_def rate_ok_def handle_of_def split: timer_name.split)
  with 1 show "reported t t'" by (rule reported_trans)
qed

lemma reported_print: "reported t (iperf_print_results t)"
  by (cases "streams t")
    (auto simp: reported_def iperf_print_results_def handle_of_def rate_ok_def settle_times_def core_def upd_result_def
      Let_def split: timer_name.split)

lemma reported_callback: "reported t (iperf_reporter_callback t)"
  by (simp add: iperf_reporter_callback_def reported_print)

lemma reported_fields [simp]: "reported (t\<lparr>cpu_util := c\<rparr>) t' = reported t t'"
  "reported t (t'\<lparr>cpu_util := c\<rparr>) = reported t t'"
  "reported (t\<lparr>summary_printed := n\<rparr>) t' = reported t t'" "reported t (t'\<lparr>summary_printed := n\<rparr>) = reported t t'"
  by (auto simp: reported_def handle_of_def rate_ok_def split: timer_name.split)

lemma reported_summary:
  assumes "iperf_stats_callback rd (t\<lparr>cpu_util := c\<rparr>) = Some t1"
  shows "reported t (iperf_print_results (t1\<lparr>summary_printed := 1\<rparr>))"
proof -
  have "reported t t1" using reported_stats [OF assms] by simp
  moreover have "reported t1 (iperf_print_results (t1\<lparr>summary_printed := 1\<rparr>))"
    using reported_print [of "t1\<lparr>summary_printed := 1\<rparr>"] by simp
  ultimately show ?thesis by (rule reported_trans)
qed

lemma late_summary_reported: "late_summary h t = Some t' \<Longrightarrow> reported t t'"
  by (auto simp: late_summary_def Option.bind_eq_Some_conv reported_summary split: if_splits)

lemma late_summary_ok: "rate_ok t \<Longrightarrow> \<exists>t'. late_summary h t = Some t'"
  using stats_callback_total [of "t\<lparr>cpu_util := cpu_now (procs h)\<rparr>" "stats_rd (procs h)"] by (auto simp: late_summary_def)

lemma core_sockets: "map core sps = map core sps' \<Longrightarrow> map socket sps = map socket sps'
    \<and> map stream_done sps = map stream_done sps' \<and> map thread_created sps = map thread_created sps' \<and> map sid sps = map sid sps'
    \<and> map sender sps = map sender sps'"
proof (induction sps arbitrary: sps')
  case (Cons sp sps)
  then obtain sp' qs where q: "sps' = sp' # qs" "core sp = core sp'" "map core sps = map core qs" by (cases sps') auto
  have "socket sp = socket sp' \<and> stream_done sp = stream_done sp' \<and> thread_created sp = thread_created sp'
      \<and> sid sp = sid sp' \<and> sender sp = sender sp'"
    using q(2) by (cases sp; cases sp') (simp add: core_def)
  with q Cons.IH [OF q(3)] show ?case by simp
qed simp

section \<open>cleanup_server\<close>

text \<open>What every way out leaves: no timer, no open descriptor the test names, all streams done.\<close>

definition stopped :: "iperf_stream \<Rightarrow> bool" where
  "stopped sp \<longleftrightarrow> stream_done sp = 1 \<and> thread_created sp \<noteq> 1"

definition cleaned :: "sys \<Rightarrow> bool" where
  "cleaned = (\<lambda>((t, w), s). (protocol t \<noteq> Pquic \<longrightarrow> named_fds t = {})
     \<and> (protocol t = Pquic \<longrightarrow> ctrl_sck t < 0 \<and> listener t < 0 \<and> quic_ctx (quic_mem w) = None)
     \<and> (\<forall>p. handle_of p t = None) \<and> list_all stopped (streams t))"

lemma stopped_dropped: "list_all stopped (map dropped sps)"
  by (auto simp: list_all_iff stopped_def dropped_def)

lemma named_reported: "reported t t' \<Longrightarrow> named_fds t' = named_fds t"
proof -
  assume r: "reported t t'"
  then have "map socket (streams t') = map socket (streams t)" using core_sockets [of "streams t'" "streams t"] by (simp add: reported_def)
  then have "socket ` set (streams t') = socket ` set (streams t)" by (metis set_map)
  with r show ?thesis by (simp add: named_fds_def reported_def)
qed

lemma list_all_stopped_cong:
  "map stream_done sps' = map stream_done sps \<Longrightarrow> map thread_created sps' = map thread_created sps
    \<Longrightarrow> list_all stopped sps' = list_all stopped sps"
proof (induction sps arbitrary: sps')
  case (Cons sp sps)
  then obtain sp' qs where q: "sps' = sp' # qs" by (cases sps') auto
  with Cons.prems have "stopped sp' = stopped sp" by (simp add: stopped_def)
  with q Cons.prems Cons.IH [of qs] show ?case by simp
qed simp

lemma fold_set_handle:
  "handle_of q (fold (\<lambda>p. set_handle p None) ps t) = (if q \<in> set ps then None else handle_of q t)"
  "streams (fold (\<lambda>p. set_handle p None) ps t) = streams t" "named_fds (fold (\<lambda>p. set_handle p None) ps t) = named_fds t"
proof -
  have f: "streams (set_handle p None t) = streams t" "ctrl_sck (set_handle p None t) = ctrl_sck t"
    "listener (set_handle p None t) = listener t" "prot_listener (set_handle p None t) = prot_listener t" for p t
    by (cases p; simp add: set_handle_def)+
  have s: "named_fds (set_handle p None t) = named_fds t" for p t
    by (simp only: named_fds_def f)
  show "handle_of q (fold (\<lambda>p. set_handle p None) ps t) = (if q \<in> set ps then None else handle_of q t)"
    by (induction ps arbitrary: t) (simp_all add: handle_set_handle)
  show "streams (fold (\<lambda>p. set_handle p None) ps t) = streams t" "named_fds (fold (\<lambda>p. set_handle p None) ps t) = named_fds t"
    by (induction ps arbitrary: t) (simp_all add: f s)
qed

lemma cleanup_server_ok:
  assumes ok: "timers_ok (t, w) s" and np: "protocol t \<noteq> Pquic" and n: "2 * length (streams t) \<le> length (replies w)"
  obtains t' w' s' where "cleanup_server e ((t, w), s) = Some ((t', w'), s')" and "cleaned ((t', w'), s')"
    and "timers s' = None" and "held w w' (fds w - named_fds t) (addrs w)" and "i_errno w' = i_errno w"
    and "protocol t' = protocol t"
proof -
  obtain sps w1 where 1: "drop_workers (\<lambda>_. True) (streams t) w = Some (sps, w1)"
    using drop_workers_total [OF n] by blast
  note d = drop_workers_Some [OF 1, simplified]
  let ?t = "t\<lparr>streams := sps\<rparr>" and ?w = "w1\<lparr>i_errno := i_errno w\<rparr>"
  have "rate_ok ?t" using ok by (auto simp: timers_ok_def app_inv_def)
  from late_summary_ok [OF this] obtain t2 where 2: "late_summary e ?t = Some t2" "reported ?t t2"
    using late_summary_reported by blast
  obtain t3 w3 where 3: "cleanup_sockets t2 ?w = (t3, w3)" by fastforce
  have p2: "protocol t2 \<noteq> Pquic" using 2(2) np by (simp add: reported_def)
  note c = cleanup_sockets_closes [OF p2 3]
  have h3: "handle_of p t3 = handle_of p t" for p using c(10) 2(2) by (simp add: reported_def)
  have "timers_ok (t3, w3) s"
    by (rule timers_ok_frames [OF ok]) (use c(11) 2(2) h3 \<open>rate_ok ?t\<close> in \<open>simp_all add: reported_def\<close>)
  from cancel_handles_ok [OF this, of "[Stats_timer, Reporter_timer, Omit_timer, Test_timer]"]
  obtain t4 s4 where 4: "cancel_handles [Stats_timer, Reporter_timer, Omit_timer, Test_timer] (t3, s) = Some (t4, s4)"
    "timers_ok (t4, w3) s4" and t4: "t4 = fold (\<lambda>p. set_handle p None) [Stats_timer, Reporter_timer, Omit_timer, Test_timer] t3" .
  have p4: "protocol t4 = protocol t3"
  proof -
    have f: "protocol (set_handle p None u) = protocol u" for p u by (cases p; simp add: set_handle_def)
    show ?thesis by (simp add: t4 f)
  qed
  have p3: "protocol t3 \<noteq> Pquic" using c(12) p2 by simp
  have none: "handle_of p t4 = None" for p unfolding t4 fold_set_handle(1) by (cases p) simp_all
  have run: "cleanup_server e ((t, w), s) = Some ((t4\<lparr>congestion_used := None\<rparr>, w3), s4)"
    using 1 2(1) 3 4(1) by (simp add: cleanup_server_def del: cancel_handles.simps)
  have "map socket sps = map socket (streams t)" using d by (simp add: dropped_def)
  then have "socket ` set sps = socket ` set (streams t)" by (metis set_map)
  then have nf: "named_fds t2 = named_fds t" using named_reported [OF 2(2)] by (simp add: named_fds_def)
  have "held w ?w (fds w) (addrs w)" using silent_held [OF held_start, of w w1] d by simp
  then have hw: "held w w3 (fds w - named_fds t) (addrs w)"
    using c(1-3) nf by (auto simp: held_def intro: later_trans)
  have "map stream_done (streams t2) = map stream_done sps" "map thread_created (streams t2) = map thread_created sps"
    using 2(2) core_sockets [of "streams t2" sps] by (simp_all add: reported_def)
  moreover have "map stream_done (streams t3) = map stream_done (streams t2)"
    "map thread_created (streams t3) = map thread_created (streams t2)" by (simp_all add: c(6))
  ultimately have "list_all stopped (streams t3)"
    using list_all_stopped_cong [of "streams t3" sps] stopped_dropped [of "streams t"] d by simp
  moreover have "named_fds (t4\<lparr>congestion_used := None\<rparr>) = {}" "handle_of p (t4\<lparr>congestion_used := None\<rparr>) = None" for p
    using none [of p] c(5) fold_set_handle(3) [of "[Stats_timer, Reporter_timer, Omit_timer, Test_timer]" t3]
    by (auto simp: t4 named_fds_def handle_of_def split: timer_name.splits)
  ultimately have "cleaned ((t4\<lparr>congestion_used := None\<rparr>, w3), s4)"
    using fold_set_handle(2) [of "[Stats_timer, Reporter_timer, Omit_timer, Test_timer]" t3] p3 p4 by (simp add: cleaned_def t4)
  moreover note p4
  ultimately show thesis using run no_handles [OF 4(2) none] hw c(4,12) 2(2)
    by (intro that [of "t4\<lparr>congestion_used := None\<rparr>" w3 s4]) (simp_all add: reported_def)
qed

section \<open>Every way out\<close>

text \<open>QUIC's part of the cleanup works on the QUIC context of the test alone.\<close>

lemma quic_reset_keeps:
  "streams (fst (iperf_quic_reset_test t w)) = streams t" "protocol (fst (iperf_quic_reset_test t w)) = protocol t"
  "ctrl_sck (fst (iperf_quic_reset_test t w)) = ctrl_sck t" "listener (fst (iperf_quic_reset_test t w)) = listener t"
  "quic_ctx (quic_mem (snd (iperf_quic_reset_test t w))) = None"
  by (simp_all add: iperf_quic_reset_test_def iperf_quic_free_test_def upd_quic_def Let_def split: option.split)

lemma cancel_handles_Some: "cancel_handles ps (t, s) = Some (t', s') \<Longrightarrow> t' = fold (\<lambda>p. set_handle p None) ps t"
proof (induction ps arbitrary: t s)
  case (Cons p ps)
  then obtain t1 s1 where 1: "cancel_handle p (t, s) = Some (t1, s1)" "cancel_handles ps (t1, s1) = Some (t', s')"
    by (auto simp: Option.bind_eq_Some_conv)
  have "t1 = set_handle p None t"
    using 1(1) by (cases t; cases p) (auto simp: cancel_handle_def handle_of_def set_handle_def Option.bind_eq_Some_conv split: option.splits)
  with Cons.IH [OF 1(2)] show ?case by simp
qed simp

lemma cleanup_sockets_streams:
  assumes run: "cleanup_sockets t w = (t', w')"
  shows "list_all stopped (streams t') = list_all stopped (streams t)" "protocol t' = protocol t"
    "protocol t \<noteq> Pquic \<Longrightarrow> named_fds t' = {}"
    "protocol t = Pquic \<Longrightarrow> ctrl_sck t' < 0 \<and> listener t' < 0 \<and> quic_ctx (quic_mem w') = None"
proof -
  show "protocol t \<noteq> Pquic \<Longrightarrow> named_fds t' = {}" using cleanup_sockets_closes(5) [OF _ run] .
  show "ctrl_sck t' < 0 \<and> listener t' < 0 \<and> quic_ctx (quic_mem w') = None" if q: "protocol t = Pquic"
  proof -
    obtain u v where uv: "(t', w') = iperf_quic_reset_test u v" "ctrl_sck u < 0" "listener u < 0"
      using run q that [OF sym] by (auto simp: cleanup_sockets_def Let_def)
    then have "t' = fst (iperf_quic_reset_test u v)" "w' = snd (iperf_quic_reset_test u v)" by (metis fst_conv, metis snd_conv)
    with uv(2,3) show ?thesis by (simp add: quic_reset_keeps)
  qed
  show "list_all stopped (streams t') = list_all stopped (streams t)" "protocol t' = protocol t"
  proof (atomize (full), cases "protocol t = Pquic")
    case True
    obtain u v where uv: "(t', w') = iperf_quic_reset_test u v" "streams u = streams t" "protocol u = protocol t"
      using run True that [OF sym] by (auto simp: cleanup_sockets_def Let_def)
    then have "t' = fst (iperf_quic_reset_test u v)" by (metis fst_conv)
    with uv(2,3) show "list_all stopped (streams t') = list_all stopped (streams t) \<and> protocol t' = protocol t"
      by (simp add: quic_reset_keeps)
  next
    case False
    have "list_all stopped (streams t') = list_all stopped (streams t)"
      unfolding cleanup_sockets_closes(6) [OF False run] by (rule list_all_stopped_cong) simp_all
    with cleanup_sockets_closes(12) [OF False run]
    show "list_all stopped (streams t') = list_all stopped (streams t) \<and> protocol t' = protocol t" by simp
  qed
qed

lemma cleanup_server_cleaned:
  assumes run: "cleanup_server e a = Some a'"
  shows "cleaned a'"
proof -
  obtain t w s where a: "a = ((t, w), s)" by (metis surj_pair)
  let ?ps = "[Stats_timer, Reporter_timer, Omit_timer, Test_timer]"
  obtain sps w1 where 1: "drop_workers (\<lambda>_. True) (streams t) w = Some (sps, w1)"
    using run by (auto simp: a cleanup_server_def Option.bind_eq_Some_conv)
  obtain t2 where 2: "late_summary e (t\<lparr>streams := sps\<rparr>) = Some t2"
    using run 1 by (auto simp: a cleanup_server_def Option.bind_eq_Some_conv)
  obtain t3 w3 where 3: "cleanup_sockets t2 (w1\<lparr>i_errno := i_errno w\<rparr>) = (t3, w3)" by fastforce
  obtain t4 s4 where 4: "cancel_handles ?ps (t3, s) = Some (t4, s4)"
    using run 1 2 3 by (auto simp: a cleanup_server_def Option.bind_eq_Some_conv simp del: cancel_handles.simps)
  have a': "a' = ((t4\<lparr>congestion_used := None\<rparr>, w3), s4)"
    using run 1 2 3 4 by (auto simp: a cleanup_server_def simp del: cancel_handles.simps)
  note t4 = cancel_handles_Some [OF 4]
  have f: "streams (set_handle p None t) = streams t" "protocol (set_handle p None t) = protocol t" for p t
    by (cases p; simp add: set_handle_def)+
  have f': "ctrl_sck (set_handle p None t) = ctrl_sck t" "listener (set_handle p None t) = listener t" for p t
    by (cases p; simp add: set_handle_def)+
  have p4: "protocol t4 = protocol t3" "streams t4 = streams t3" "ctrl_sck t4 = ctrl_sck t3" "listener t4 = listener t3"
    by (simp_all add: t4 f f')
  have "list_all stopped sps" using drop_workers_Some [OF 1] stopped_dropped by simp
  moreover have "map stream_done (streams t2) = map stream_done sps" "map thread_created (streams t2) = map thread_created sps"
    using late_summary_reported [OF 2] core_sockets [of "streams t2" sps] by (simp_all add: reported_def)
  ultimately have "list_all stopped (streams t2)" using list_all_stopped_cong by metis
  with cleanup_sockets_streams(1) [OF 3] have st: "list_all stopped (streams t4)" by (simp add: p4)
  have "handle_of p t4 = None" for p unfolding t4 fold_set_handle(1) by (cases p) simp_all
  moreover have "named_fds t4 = {}" if "protocol t4 \<noteq> Pquic"
    using that cleanup_sockets_streams(2,3) [OF 3] p4 fold_set_handle(3) [of ?ps t3] by (simp only: t4)
  moreover have "named_fds (t4\<lparr>congestion_used := None\<rparr>) = named_fds t4"
    "handle_of p (t4\<lparr>congestion_used := None\<rparr>) = handle_of p t4" for p
    by (simp_all add: named_fds_def handle_of_def split: timer_name.split)
  moreover have "protocol t4 = Pquic \<longrightarrow> ctrl_sck t4 < 0 \<and> listener t4 < 0 \<and> quic_ctx (quic_mem w3) = None"
    using cleanup_sockets_streams(2,4) [OF 3] p4 by simp
  ultimately show ?thesis using st by (simp add: a' cleaned_def)
qed

text \<open>A step of the loop that does not go on has cleaned up.\<close>

definition leaves_clean :: "server_step \<times> server_vars \<times> sys \<Rightarrow> bool" where
  "leaves_clean = (\<lambda>(k, v, a). k \<noteq> Next \<longrightarrow> cleaned a)"

lemma leaves_clean_Next [simp]: "leaves_clean (Next, v, a)" "leaves_clean (k, v, a) = (k \<noteq> Next \<longrightarrow> cleaned a)"
  by (simp_all add: leaves_clean_def)

lemma cleaned_frames [simp]: "cleaned ((t, w\<lparr>i_errno := e\<rparr>), s) = cleaned ((t, w), s)"
  "cleaned ((t, w\<lparr>errno := e\<rparr>), s) = cleaned ((t, w), s)"
  by (simp_all add: cleaned_def)

text \<open>Any call whose result is of no concern.\<close>

lemmas any_call = post_any [where m = "iperf_new_stream h t s f w" for h t s f w]
  post_any [where m = "proto_accept c t w" for c t w] post_any [where m = "iperf_common_sockopts t s w" for t s w]
  post_any [where m = "is_closed s w" for s w] post_any [where m = "server_stream_opts t s w" for t s w]
  post_any [where m = "flag v" for v] post_any [where m = "reopen_listener t w" for e t w]
  post_any [where m = "server_test_start h a" for h a] post_any [where m = "sys_rc ev w" for ev w]
  post_any [where m = "cleanup_if b e ie a" for b e ie a] post_any [where m = "create_workers sps w" for sps w]
  post_any [where m = "iperf_time_now t w" for t w] post_any [where m = "fd_isset f S" for f S]
  post_any [where m = "iperf_accept h t w" for h t w] post_any [where m = "iperf_handle_message_server h t w" for h t w]
  post_any [where m = "tmr_run p t n c" for p t n c] post_any [where m = "tmr_timeout t n s" for t n s]
  post_any [where m = "select_sets r x t w" for r x t w] post_any [where m = "run_workers h i v a" for h i v a]

lemma clean_fails:
  assumes "\<And>a. cleaned a \<Longrightarrow> Q (Returns (-1), v, a)"
  shows "post (server_fails e v a) Q"
proof (rule postI)
  fix x assume "server_fails e v a = Some x"
  then obtain a' where "cleanup_server e a = Some a'" "x = (Returns (-1), v, a')"
    by (auto simp: server_fails_def Option.bind_eq_Some_conv)
  with assms cleanup_server_cleaned show "Q x" by blast
qed

lemma clean_fails_with:
  assumes "\<And>a. cleaned a \<Longrightarrow> Q (Returns (-1), v, a)"
  shows "post (server_fails_with e v ie a) Q"
proof -
  have "Q (Returns (-1), v, ((t, w\<lparr>i_errno := ie\<rparr>), s))" if "cleanup_server e a = Some ((t, w), s)" for t w s
    by (rule assms) (use cleanup_server_cleaned [OF that] in simp)
  then show ?thesis by (auto simp: server_fails_with_def post_def Option.bind_eq_Some_conv)
qed

lemma clean_new_stream: "post (add_server_stream e v s a) leaves_clean"
  by (cases a) (auto simp: add_server_stream_def Let_def intro!: clean_fails any_call)

lemma clean_accept_stream: "post (accept_stream e v a) leaves_clean"
  by (cases a) (auto simp: accept_stream_def Let_def intro!: clean_fails clean_fails_with clean_new_stream any_call)

lemma clean_drain_quic: "post (drain_quic e n v a) leaves_clean"
proof (induction n arbitrary: v a)
  case (Suc n)
  then show ?case by (cases a) (auto simp: Let_def intro!: clean_fails any_call)
qed simp

lemma clean_accept_streams: "post (accept_streams e v a) leaves_clean"
  by (simp add: accept_streams_def clean_drain_quic clean_accept_stream del: drain_quic.simps)

lemma clean_workers: "post (server_workers e v a) leaves_clean"
  by (cases a) (auto simp: server_workers_def Let_def intro!: clean_fails any_call)

lemma clean_begin_test: "post (begin_test e v a) leaves_clean"
  by (cases a) (auto simp: begin_test_def intro!: clean_fails clean_fails_with clean_workers any_call)

lemma clean_up: "(\<And>a. cleaned a \<Longrightarrow> Q a) \<Longrightarrow> post (cleanup_server e a) Q"
  by (rule postI) (blast intro: cleanup_server_cleaned)

lemma clean_idle: "post (server_idle e rt v a) leaves_clean"
  by (cases a) (auto simp: server_idle_def Let_def intro!: clean_fails clean_up any_call)

lemma clean_streams: "post (server_streams e v rs a) leaves_clean"
  by (cases a) (auto simp: server_streams_def intro!: any_call
      post_mono [OF clean_accept_streams] clean_begin_test)

lemma clean_listener: "post (server_listener e v rs a) (\<lambda>(k, v, rs, a). k \<noteq> Next \<longrightarrow> cleaned a)"
  by (cases a) (auto simp: server_listener_def intro!: any_call clean_fails)

lemma clean_ready: "post (server_ready e v rs a) leaves_clean"
  unfolding server_ready_def post_bind
  by (rule post_mono [OF clean_listener]) (auto intro!: any_call clean_fails clean_streams)

lemma clean_timers: "post (run_timers e v a) leaves_clean"
  by (cases a) (auto simp: run_timers_def Let_def intro!: any_call)

lemma clean_turn: "post (server_turn e rt v a) leaves_clean"
  by (cases a) (auto simp: server_turn_def Let_def intro!: any_call clean_fails_with clean_timers
      post_mono [OF clean_idle] post_mono [OF clean_ready])

lemma clean_loop:
  "post (server_loop rt sched v a) leaves_clean"
proof (induction sched arbitrary: v a)
  case (Cons x sched)
  obtain e i where x: "x = (e, i)" by (cases x)
  from Cons show ?case by (auto simp: x intro!: any_call post_mono [OF clean_turn])
qed auto

text \<open>Every return and the exit of the process come after the cleanup, from the moment the logfile is
  open; but a run whose JSON output cannot be finished returns as it is.\<close>

lemma clean_run:
  assumes log: "logfile t = None \<or> 0 \<le> log_open e" and js: "0 \<le> json_finish e"
  shows "post (iperf_run_server e sched ((t, w), s)) (\<lambda>(k, a). k \<noteq> Next \<and> cleaned a)"
proof -
  have fin: "post (server_finish e a) (\<lambda>(k, a). k \<noteq> Next \<and> cleaned a)" for a
    using js by (cases a) (auto simp: server_finish_def Let_def iperf_clearaffinity_def intro!: clean_up split: prod.split)
  have ret: "post (returns r (cleanup_server e a)) (\<lambda>(k, a). k \<noteq> Next \<and> cleaned a)" for r a
    by (auto simp: returns_def intro!: clean_up)
  show ?thesis
    using log by (auto simp: iperf_run_server_def Let_def returns_def intro!: fin clean_up any_call
        post_mono [OF clean_loop] post_any [where m = "early_summary h t" for h t]
        post_any [where m = "iperf_server_listen t w" for t w] split: prod.split)
qed

end
