(* ===== verification/Iperf_Phase.thy ===== *)
theory Iperf_Phase
  imports Iperf_Server_Ok
begin

text \<open>
  What leaves the control connection and the protocol state of a test alone (keeps_phase): the
  operations of the transports, reading the parameters and the results, the timers of a test that
  starts, new streams, and the rounds of the worker threads.
\<close>

section \<open>Keeping the phase\<close>

definition keeps_phase :: "iperf_test \<Rightarrow> iperf_test \<Rightarrow> bool" where
  "keeps_phase t t' \<longleftrightarrow> ctrl_sck t' = ctrl_sck t \<and> state t' = state t"

lemma keeps_refl [simp]: "keeps_phase t t"
  by (simp add: keeps_phase_def)

lemma keeps_trans: "keeps_phase t t1 \<Longrightarrow> keeps_phase t1 t2 \<Longrightarrow> keeps_phase t t2"
  by (simp add: keeps_phase_def)

lemma keeps_reported: "reported t t' \<Longrightarrow> keeps_phase t t'"
  by (simp add: reported_def keeps_phase_def)

text \<open>The operations of the transports keep it.\<close>

definition phase_op :: "(iperf_test \<Rightarrow> world \<Rightarrow> (int \<times> iperf_test \<times> world) option) \<Rightarrow> bool" where
  "phase_op f \<longleftrightarrow> (\<forall>t w r t' w'. f t w = Some (r, t', w') \<longrightarrow> keeps_phase t t')"

lemma upd_settings_phase [simp]: "keeps_phase t (upd_settings f t)"
  by (simp add: keeps_phase_def upd_settings_def)

lemma phase_frames [simp]: "keeps_phase t (t'\<lparr>listener := f\<rparr>) = keeps_phase t t'"
  "keeps_phase t (t'\<lparr>prot_listener := f\<rparr>) = keeps_phase t t'" "keeps_phase t (t'\<lparr>read_set := S\<rparr>) = keeps_phase t t'"
  "keeps_phase t (t'\<lparr>max_fd := f\<rparr>) = keeps_phase t t'" "keeps_phase t (t'\<lparr>streams := sps\<rparr>) = keeps_phase t t'"
  "keeps_phase t (t'\<lparr>write_set := S\<rparr>) = keeps_phase t t'"
  by (simp_all add: keeps_phase_def)

lemma phase_opI: "(\<And>t w. post (f t w) (\<lambda>(r, t', w'). keeps_phase t t')) \<Longrightarrow> phase_op f"
  unfolding phase_op_def post_def by blast

lemma phase_opD: "phase_op f \<Longrightarrow> (\<And>r t' w'. keeps_phase t t' \<Longrightarrow> Q (r, t', w')) \<Longrightarrow> post (f t w) Q"
  unfolding phase_op_def by (rule post_3I) blast

lemma phase_udp_buffers: "(\<And>r t' w'. keeps_phase t t' \<Longrightarrow> Q (r, t', w')) \<Longrightarrow> post (udp_buffers t s w) Q"
  unfolding udp_buffers_def Let_def
  by (rule post_3I) (auto simp: Option.bind_eq_Some_conv split: if_splits)

lemma phase_tcp_relisten: "(\<And>r t' w'. keeps_phase t t' \<Longrightarrow> Q (r, t', w')) \<Longrightarrow> post (tcp_relisten t w) Q"
  unfolding tcp_relisten_def
  by (simp add: Let_def, (rule post_any | intro allI impI conjI | simp)+)

lemma phase_ops:
  "phase_op iperf_tcp_listen" "phase_op iperf_tcp_accept" "phase_op iperf_tcp_connect"
  "phase_op iperf_udp_listen" "phase_op iperf_udp_accept" "phase_op iperf_udp_connect"
  "phase_op (iperf_sctp_listen m)" "phase_op iperf_sctp_accept" "phase_op (iperf_sctp_connect m)"
  by (rule phase_opI, simp add: iperf_tcp_listen_def iperf_tcp_accept_def iperf_tcp_connect_def iperf_udp_listen_def
      iperf_udp_accept_def iperf_udp_connect_def iperf_sctp_listen_def iperf_sctp_accept_def iperf_sctp_connect_def Let_def,
      ((rule phase_udp_buffers phase_tcp_relisten | rule post_any | intro allI impI conjI | simp)+)?)+

lemma phase_quic [simp]: "keeps_phase t (fst (iperf_quic_free_test t w))" "keeps_phase t (fst (iperf_quic_close_listener t w))"
  by (simp_all add: iperf_quic_free_test_def iperf_quic_close_listener_def Let_def split: option.split)

lemma phase_quic_init:
  assumes Q: "\<And>r t' w'. keeps_phase t t' \<Longrightarrow> Q (r, t', w')"
  shows "post (quic_ctx_init lib b t w) Q"
proof -
  have f: "Q (- 1, iperf_quic_free_test t v)" for v
    using Q [OF phase_quic(1), of "- 1" v "snd (iperf_quic_free_test t v)"] by simp
  show ?thesis
    unfolding quic_ctx_init_def Let_def by (simp, (rule post_any | intro allI impI conjI | simp add: f Q)+)
qed

lemma phase_quic_ops: "phase_op (iperf_quic_listen lib)" "phase_op iperf_quic_accept" "phase_op (iperf_quic_connect lib)"
proof -
  show "phase_op (iperf_quic_listen lib)"
    unfolding iperf_quic_listen_def quic_fails_def
    by (rule phase_opI, simp add: Let_def) (rule phase_quic_init, simp, (rule post_any | intro allI impI conjI | simp)+)
  show "phase_op iperf_quic_accept"
    unfolding iperf_quic_accept_def quic_fails_def
    by (rule phase_opI, simp add: Let_def) (intro allI impI conjI, (rule post_any | intro allI impI conjI | simp)+)
  show "phase_op (iperf_quic_connect lib)"
    unfolding iperf_quic_connect_def quic_fails_def open_stream_def
    by (rule phase_opI, simp add: Let_def) (rule phase_quic_init, simp, (rule post_any | intro allI impI conjI | simp)+)
qed

lemma phase_proto: "phase_op (proto_listen c)" "phase_op (proto_accept c)" "phase_op (proto_connect c)"
  using phase_ops phase_quic_ops unfolding phase_op_def
  by (auto simp: proto_listen_def proto_accept_def proto_connect_def split: if_splits)

text \<open>So does reading the parameters and the results.\<close>

lemma phase_item:
  "(\<And>v t. ctrl_sck (f v t) = ctrl_sck t) \<Longrightarrow> ctrl_sck (item j k ty f t) = ctrl_sck t"
  "(\<And>v t. ctrl_sck (g v t) = ctrl_sck t) \<Longrightarrow> ctrl_sck (int_item j k g t) = ctrl_sck t"
  "(\<And>v t. ctrl_sck (g v t) = ctrl_sck t) \<Longrightarrow> ctrl_sck (untyped_item j k g t) = ctrl_sck t"
  "(\<And>v t. state (f v t) = state t) \<Longrightarrow> state (item j k ty f t) = state t"
  "(\<And>v t. state (g v t) = state t) \<Longrightarrow> state (int_item j k g t) = state t"
  "(\<And>v t. state (g v t) = state t) \<Longrightarrow> state (untyped_item j k g t) = state t"
  by (simp_all add: item_def int_item_def untyped_item_def split: option.split)

lemma phase_settings:
  "ctrl_sck (upd_settings f t) = ctrl_sck t" "state (upd_settings f t) = state t"
  "ctrl_sck (iperf_set_test_reverse r t) = ctrl_sck t" "state (iperf_set_test_reverse r t) = state t"
  "ctrl_sck (iperf_set_test_bidirectional r t) = ctrl_sck t" "state (iperf_set_test_bidirectional r t) = state t"
  by (simp_all add: upd_settings_def iperf_set_test_reverse_def iperf_set_test_bidirectional_def
      check_sender_has_retransmits_def Let_def)

lemma phase_members: "keeps_phase t (apply_numbers j t)" "keeps_phase t (apply_direction j t)"
  "keeps_phase t (apply_settings j t)" "keeps_phase t (apply_strings j t)"
  unfolding apply_numbers_def apply_direction_def apply_settings_def apply_strings_def Let_def keeps_phase_def
  by (simp_all add: phase_item phase_settings)

lemma phase_set_protocol:
  "ctrl_sck (fst (snd (set_protocol n t ie))) = ctrl_sck t" "state (fst (snd (set_protocol n t ie))) = state t"
  by (simp_all add: set_protocol_def check_sender_has_retransmits_def Let_def)

lemma phase_protocol: "keeps_phase t (fst (snd (apply_protocol j t ie)))"
  by (simp add: apply_protocol_def Let_def case_prod_unfold keeps_phase_def phase_set_protocol)

lemma phase_parameters: "keeps_phase t (fst (snd (apply_parameters j t ie)))"
proof -
  let ?t = "fst (snd (apply_protocol j t ie))"
  let ?u = "apply_strings j (apply_settings j (apply_direction j (apply_numbers j ?t)))"
  have "keeps_phase t ?u" using phase_protocol phase_members keeps_trans by metis
  then show ?thesis
    by (simp add: apply_parameters_def Let_def case_prod_unfold keeps_phase_def)
qed

lemma phase_get_parameters:
  "(\<And>r t' w'. keeps_phase t t' \<Longrightarrow> Q (r, t', w')) \<Longrightarrow> post (get_parameters pa t w) Q"
proof -
  assume Q: "\<And>r t' w'. keeps_phase t t' \<Longrightarrow> Q (r, t', w')"
  have "keeps_phase t t'" if "apply_parameters j t ie = (r, t', ie')" for j ie r t' ie'
    using phase_parameters [of t j ie] that by simp
  with Q show ?thesis
    unfolding get_parameters_def
    by (simp, intro post_any allI impI conjI) (auto split: prod.split)
qed

lemma phase_streams: "apply_streams js t r ie = (r', t', ie') \<Longrightarrow> keeps_phase t t'"
  by (induction js t r ie rule: apply_streams.induct) (auto split: option.splits simp: keeps_phase_def)

lemma phase_results: "apply_results j t ie = (r, t', ie') \<Longrightarrow> keeps_phase t t'"
proof -
  have k: "ctrl_sck (apply_retransmits n t) = ctrl_sck t" "state (apply_retransmits n t) = state t" for n t
    by (simp_all add: apply_retransmits_def)
  assume "apply_results j t ie = (r, t', ie')"
  then show ?thesis
    by (auto simp: apply_results_def Let_def k keeps_phase_def split: option.splits prod.splits
        dest!: phase_streams)
qed

lemma phase_exchange_results:
  "(\<And>r t' w'. keeps_phase t t' \<Longrightarrow> Q (r, t', w')) \<Longrightarrow> post (iperf_exchange_results pr pa jt t w) Q"
proof -
  assume Q: "\<And>r t' w'. keeps_phase t t' \<Longrightarrow> Q (r, t', w')"
  have g: "post (get_results pa t w) (\<lambda>(r, t', w'). keeps_phase t t')" for w
    unfolding get_results_def
    by (simp, intro post_any allI impI conjI) (auto split: prod.split dest: phase_results)
  show ?thesis
    unfolding iperf_exchange_results_def
    by (auto intro!: post_any [where m = "send_results pr jt t w" for t w] post_mono [OF g] Q)
qed

section \<open>Sending a state\<close>

text \<open>A state is sent, if there is a connection.\<close>

lemma phase_send_state:
  assumes "\<And>r t' w'. t' = (if ctrl_sck t \<ge> 0 then t\<lparr>state := st\<rparr> else t) \<Longrightarrow> Q (r, t', w')"
  shows "post (iperf_set_send_state t st w) Q"
  using assms by (intro post_3I) (auto dest!: send_state_cases)

lemma phase_exchange_parameters:
  assumes Q: "\<And>r t' w'. 0 \<le> r \<longrightarrow> keeps_phase t t' \<or> ctrl_sck t' = ctrl_sck t \<and> state t' = CREATE_STREAMS \<Longrightarrow> Q (r, t', w')"
  shows "post (iperf_exchange_parameters h t w) Q"
proof -
  have se: "post (send_server_error ie u w) Q" for ie u w
    by (rule post_3I) (auto dest!: server_error_fails intro: Q)
  have sp: "post (send_parameters en pr t w) (\<lambda>(r, t', w'). keeps_phase t t')" for en pr w
    by (rule post_3I) (auto simp: send_parameters_def Let_def Option.bind_eq_Some_conv split: if_splits option.splits)
  have l: "post (proto_listen (conn h) u w) (\<lambda>(r, u', w'). keeps_phase u u')" for u w
    by (rule phase_opD [OF phase_proto(1)]) simp
  show ?thesis
    unfolding iperf_exchange_parameters_def
    by (auto simp: Let_def keeps_phase_def intro!: post_mono [OF sp] phase_get_parameters se post_mono [OF l] phase_send_state Q
      post_any [where m = "test_is_authorized h t" for t])
qed

lemma phase_on_connect: "(\<And>t' w'. keeps_phase t t' \<Longrightarrow> Q (t', w')) \<Longrightarrow> post (iperf_on_connect t w) Q"
  unfolding iperf_on_connect_def by (simp, intro post_any allI impI conjI) (auto simp: keeps_phase_def)

section \<open>Streams and timers\<close>

lemma phase_new_stream:
  assumes "\<And>sp t' w'. keeps_phase t t' \<Longrightarrow> Q (sp, t', w')"
  shows "post (iperf_new_stream env t s f w) Q"
  unfolding iperf_new_stream_def iperf_add_stream_def Let_def
  by (auto intro!: assms post_any [where m = "buffer_file n w" for n w] post_any [where m = "iperf_quic_attach_stream t sp s w" for t sp s w]
      post_any [where m = "open_diskfile t sp w" for t sp w] post_any [where m = "fill_buffer t w" for t w]
      post_any [where m = "iperf_init_stream sp t w" for sp t w])

lemma phase_init_test: "(\<And>r t' w'. keeps_phase t t' \<Longrightarrow> Q (r, t', w')) \<Longrightarrow> post (iperf_init_test i t w) Q"
  unfolding iperf_init_test_def by (auto intro!: post_any [where m = "iperf_time_now t w" for t w])

lemma phase_create_one:
  "create_one p us rep mal now ((t, w), s) = Some (r, (t', w'), s') \<Longrightarrow> keeps_phase t t'"
  by (cases p) (auto simp: create_one_def set_handle_def Let_def keeps_phase_def Option.bind_eq_Some_conv split: if_splits)

lemma phase_create_timers:
  "(\<And>r t' w' s'. keeps_phase t t' \<Longrightarrow> Q (r, (t', w'), s')) \<Longrightarrow> post (create_server_timers mal ((t, w), s)) Q"
  "(\<And>r t' w' s'. keeps_phase t t' \<Longrightarrow> Q (r, (t', w'), s')) \<Longrightarrow> post (create_client_timers mal ((t, w), s)) Q"
proof -
  have tt: "keeps_phase t t'" if "create_test_timer g mal now ((t, w), s) = Some (r, (t', w'), s')" for g now t w s r t' w' s'
    using that phase_create_one [of Test_timer _ _ _ _ "t\<lparr>test_done := 0\<rparr>"]
    by (auto simp: create_test_timer_def Option.bind_eq_Some_conv keeps_phase_def split: if_splits)
  have it: "keeps_phase t t'" if "create_interval_timer p i mal now ((t, w), s) = Some (r, (t', w'), s')" for p i now t w s r t' w' s'
    using that by (auto simp: create_interval_timer_def Option.bind_eq_Some_conv split: if_splits dest: phase_create_one)
  have "keeps_phase t t'" if run: "create_timers g mal ((t, w), s) = Some (r, (t', w'), s')" for g r t' w' s'
  proof -
    define u where "u = t\<lparr>timer := None, stats_timer := None, reporter_timer := None\<rparr>"
    have u: "keeps_phase t u" by (simp add: keeps_phase_def u_def)
    from run show ?thesis
      unfolding create_timers_def
      by (auto simp: Option.bind_eq_Some_conv u_def [symmetric] Let_def split: if_splits dest!: tt it intro: keeps_trans keeps_trans [OF u])
  qed
  then show "(\<And>r t' w' s'. keeps_phase t t' \<Longrightarrow> Q (r, (t', w'), s')) \<Longrightarrow> post (create_server_timers mal ((t, w), s)) Q"
    "(\<And>r t' w' s'. keeps_phase t t' \<Longrightarrow> Q (r, (t', w'), s')) \<Longrightarrow> post (create_client_timers mal ((t, w), s)) Q"
    unfolding create_server_timers_def create_client_timers_def by (auto simp: post_def)
qed

lemma phase_omit_timer:
  "(\<And>r t' w' s'. keeps_phase t t' \<Longrightarrow> Q (r, (t', w'), s')) \<Longrightarrow> post (create_omit_timer mal ((t, w), s)) Q"
proof -
  assume Q: "\<And>r t' w' s'. keeps_phase t t' \<Longrightarrow> Q (r, (t', w'), s')"
  have "keeps_phase t t'" if "create_omit_timer mal ((t, w), s) = Some (r, (t', w'), s')" for r t' w' s'
    using that phase_create_one [of Omit_timer _ _ _ _ "t\<lparr>omitting := 1\<rparr>"]
    by (auto simp: create_omit_timer_def Option.bind_eq_Some_conv keeps_phase_def split: if_splits)
  with Q show ?thesis by (auto simp: post_def)
qed

lemma set_handles_phase: "keeps_phase t (fold (\<lambda>p. set_handle p None) ps t)"
proof (induction ps arbitrary: t)
  case (Cons p ps)
  have "keeps_phase t (set_handle p None t)" by (cases p) (simp_all add: set_handle_def keeps_phase_def)
  with Cons show ?case by (simp add: keeps_trans)
qed simp

text \<open>What every callback keeps, tmr_run keeps.\<close>

definition cb_keeps :: "('s \<Rightarrow> bool) \<Rightarrow> ('p, 's) callback \<Rightarrow> bool" where
  "cb_keeps P cb \<longleftrightarrow> (\<forall>p cd now c s c' s'. cb p cd now (c, s) = Some (c', s') \<longrightarrow> P c \<longrightarrow> P c')"

lemma tmr_fire_keeps: "cb_keeps P cb \<Longrightarrow> tmr_fire cb now t x w = Some w' \<Longrightarrow> P (fst w) \<Longrightarrow> P (fst w')"
proof -
  assume k: "cb_keeps P cb" "P (fst w)" and run: "tmr_fire cb now t x w = Some w'"
  obtain c s where w: "w = (c, s)" by (cases w)
  obtain c1 s1 where cb: "cb (timer_proc x) (client_data x) now (c, s) = Some (c1, s1)"
    using run by (auto simp: w tmr_fire_def Option.bind_eq_Some_conv)
  with run have "fst w' = c1" by (auto simp: w tmr_fire_def Option.bind_eq_Some_conv)
  with k cb show "P (fst w')" unfolding cb_keeps_def w by (metis fst_conv)
qed

lemma tmr_run_from_keeps:
  assumes "tmr_run_from cb now cur w = Some w'" "cb_keeps P cb" "P (fst w)"
  shows "P (fst w')"
proof -
  have "cb_keeps P cb \<longrightarrow> P (fst w) \<longrightarrow> P (fst w')"
  proof (rule tmr_run_from.raw_induct [where P = "\<lambda>cb now cur w y. cb_keeps P cb \<longrightarrow> P (fst w) \<longrightarrow> P (fst y)", OF _ assms(1)])
    fix f cb now cur w y
    assume IH: "\<And>cb now cur w y. f cb now cur w = Some y \<Longrightarrow> cb_keeps P cb \<longrightarrow> P (fst w) \<longrightarrow> P (fst y)"
      and run: "(case cur of None \<Rightarrow> Some w | Some t \<Rightarrow> do {
          x \<leftarrow> cells (snd w) t;
          if iperf_time_compare (time x) now > 0 then Some w
          else do { w \<leftarrow> tmr_fire cb now t x w; f cb now (nxt x) w } }) = Some y"
    show "cb_keeps P cb \<longrightarrow> P (fst w) \<longrightarrow> P (fst y)"
    proof (intro impI)
      assume k: "cb_keeps P cb" "P (fst w)"
      show "P (fst y)"
      proof (cases cur)
        case None
        with run k show ?thesis by simp
      next
        case (Some t)
        with run obtain x where x: "cells (snd w) t = Some x" by (auto simp: Option.bind_eq_Some_conv)
        show ?thesis
        proof (cases "iperf_time_compare (time x) now > 0")
          case True
          with run k Some x show ?thesis by simp
        next
          case False
          with run Some x obtain w1 where w1: "tmr_fire cb now t x w = Some w1" "f cb now (nxt x) w1 = Some y"
            by (auto simp: Option.bind_eq_Some_conv)
          with IH tmr_fire_keeps [OF k(1) w1(1) k(2)] k show ?thesis by blast
        qed
      qed
    qed
  qed
  with assms show ?thesis by blast
qed

lemma tmr_run_keeps:
  assumes "cb_keeps P cb" "P c" "\<And>c' s'. P c' \<Longrightarrow> Q (c', s')"
  shows "post (tmr_run cb n clock (c, s)) Q"
proof (rule post_2I)
  fix c' s' assume "tmr_run cb n clock (c, s) = Some (c', s')"
  from tmr_run_from_keeps [OF this [unfolded tmr_run_def] assms(1)] assms(2,3) show "Q (c', s')" by simp
qed

section \<open>The workers\<close>

definition phase_stream_op :: "stream_op \<Rightarrow> bool" where
  "phase_stream_op f \<longleftrightarrow> (\<forall>t sp w. post (f t sp w) (\<lambda>(r, sp', t', w'). keeps_phase t t'))"

lemma stream_opD: "phase_stream_op f \<Longrightarrow> (\<And>r sp' t' w'. keeps_phase t t' \<Longrightarrow> Q (r, sp', t', w')) \<Longrightarrow> post (f t sp w) Q"
  unfolding phase_stream_op_def by (rule post_mono, blast) auto

lemma phase_counts [simp]: "keeps_phase t (t'\<lparr>test_done := d\<rparr>) = keeps_phase t t'"
  "keeps_phase t (t'\<lparr>test_bytes_received := x, blocks_received := y\<rparr>) = keeps_phase t t'"
  "keeps_phase t (count_block r sp t') = keeps_phase t t'"
  by (simp_all add: keeps_phase_def count_block_def Let_def)

lemma phase_sends:
  "phase_stream_op iperf_tcp_send" "phase_stream_op iperf_sctp_send" "phase_stream_op iperf_udp_send"
  "phase_stream_op iperf_tcp_recv" "phase_stream_op iperf_sctp_recv" "phase_stream_op iperf_udp_recv"
  unfolding phase_stream_op_def post_def
  by (auto simp: iperf_tcp_send_def iperf_sctp_send_def iperf_udp_send_def iperf_tcp_recv_def iperf_sctp_recv_def
      iperf_udp_recv_def Let_def Option.bind_eq_Some_conv split: if_splits)

lemma phase_quic_streams: "phase_stream_op iperf_quic_send" "phase_stream_op iperf_quic_recv"
  unfolding phase_stream_op_def iperf_quic_send_def iperf_quic_recv_def
  by (auto simp: Let_def split: option.split intro!: post_any [where m = "quic_await a b c" for a b c] post_any [where m = "sc_of a b" for a b]
      post_any [where m = "sized a b" for a b] post_any [where m = "alloc a" for a] post_any [where m = "hquic a" for a]
      post_any [where m = "quic_status a" for a] post_any [where m = "store a b c" for a b c])

lemma phase_proto_ops:
  "phase_stream_op q \<Longrightarrow> phase_stream_op (proto_send q)" "phase_stream_op q \<Longrightarrow> phase_stream_op (proto_recv q)"
  using phase_sends unfolding phase_stream_op_def by (simp_all add: proto_send_def proto_recv_def)

lemma phase_disk_fill: "(\<And>r sp' t' w'. keeps_phase t t' \<Longrightarrow> Q (r, sp', t', w')) \<Longrightarrow> post (disk_fill t sp w) Q"
  unfolding disk_fill_def Let_def by (simp, (rule post_any | intro allI impI conjI | simp)+)

lemma phase_stream_ops:
  assumes "phase_stream_op q"
  shows "phase_stream_op (stream_send q)" "phase_stream_op (stream_recv q)"
proof -
  have ds: "phase_stream_op (diskfile_send f)" if "phase_stream_op f" for f
    unfolding phase_stream_op_def diskfile_send_def
    by (auto intro!: phase_disk_fill stream_opD [OF that] post_any [where m = "disk_slide a b" for a b] intro: keeps_trans)
  have dr: "phase_stream_op (diskfile_recv f)" if "phase_stream_op f" for f
    unfolding phase_stream_op_def diskfile_recv_def
    by (auto intro!: stream_opD [OF that] post_any [where m = "sized a b" for a b] post_any [where m = "sys_write a b c" for a b c])
  show "phase_stream_op (stream_send q)" "phase_stream_op (stream_recv q)"
    using phase_proto_ops [OF assms] ds [OF phase_proto_ops(1) [OF assms]] dr [OF phase_proto_ops(2) [OF assms]]
    by (auto simp: phase_stream_op_def stream_send_def stream_recv_def split: handler.split)
qed

lemma phase_send_blocks: "phase_stream_op f \<Longrightarrow> keeps_phase t0 t \<Longrightarrow> (\<And>r m sp' t' w'. keeps_phase t0 t' \<Longrightarrow> Q (r, m, sp', t', w'))
    \<Longrightarrow> post (send_blocks f pm n ms now t sp w) Q"
proof (induction n arbitrary: ms now t sp w)
  case (Suc n)
  show ?case
    using Suc.prems
    by (auto simp: Let_def intro!: stream_opD [OF Suc.prems(1)] Suc.IH Suc.prems(3) post_any [where m = "throttle_block a b c d e f" for a b c d e f]
      dest: keeps_trans [OF Suc.prems(2)])
qed simp

lemma phase_rounds:
  assumes "phase_stream_op f"
  shows "phase_stream_op (iperf_send_mt f)" "phase_stream_op (iperf_recv_mt f)"
  unfolding phase_stream_op_def iperf_send_mt_def iperf_recv_mt_def
  by (auto simp: Let_def intro!: phase_send_blocks [OF assms] stream_opD [OF assms] post_any [where m = "iperf_time_now a b" for a b]
      post_any [where m = "iperf_check_throttle a b c d" for a b c d])

lemma phase_workers: "keeps_phase t0 t \<Longrightarrow> (\<And>g t' w'. keeps_phase t0 t' \<Longrightarrow> Q (g, t', w'))
    \<Longrightarrow> post (worker_rounds h is (g, t, w)) Q"
proof (induction "is" arbitrary: g t w)
  case (Cons i "is")
  have "phase_stream_op (stream_send iperf_quic_send)" "phase_stream_op (stream_recv iperf_quic_recv)"
    using phase_stream_ops phase_quic_streams by simp_all
  note ops = phase_rounds(1) [OF this(1)] phase_rounds(2) [OF this(2)]
  have one: "post (worker_round h i (g, t, w)) Q" if "\<And>g t' w'. keeps_phase t t' \<Longrightarrow> Q (g, t', w')" for Q
    unfolding worker_round_def using that
    by (auto simp: Let_def intro!: stream_opD [OF ops(1)] stream_opD [OF ops(2)])
  show ?case
    using Cons.prems by (auto intro!: one Cons.IH Cons.prems(2) intro: keeps_trans)
qed simp

end
