(* ===== verification/Iperf_Server_Turn.thy ===== *)
theory Iperf_Server_Turn
  imports Iperf_Phase
begin

text \<open>
  A turn of the server's main loop as a step on the phase of the server, that is whether it has a
  client, and the protocol state. The steps are the acceptance of a client (accept_next), a message
  of the client (message_next), the start of a test (start_next) and the timers (timer_next), at most
  once each and in this order (turn_next).
\<close>

section \<open>The steps\<close>

type_synonym phase = "bool \<times> int"

definition phase_of :: "iperf_test \<Rightarrow> phase" where
  "phase_of t = (ctrl_sck t \<noteq> -1, state t)"

definition accept_next :: "phase \<Rightarrow> phase list" where
  "accept_next = (\<lambda>(b, st). (b, st) #
     (if b \<or> st = CREATE_STREAMS then [] else [(True, PARAM_EXCHANGE), (True, CREATE_STREAMS)]))"

definition message_next :: "phase \<Rightarrow> phase list" where
  "message_next = (\<lambda>(b, st). (b, st) # (if b then [(True, TEST_START), (True, DISPLAY_RESULTS), (True, IPERF_DONE)] else []))"

definition start_next :: "phase \<Rightarrow> phase list" where
  "start_next = (\<lambda>(b, st). (b, st) #
     (if b \<and> st = CREATE_STREAMS then [(True, TEST_RUNNING), (False, TEST_RUNNING)] else []))"

definition timer_next :: "phase \<Rightarrow> phase list" where
  "timer_next = (\<lambda>(b, st). [(b, st), (False, st)])"

definition ready_next :: "phase \<Rightarrow> phase list" where
  "ready_next p = concat (map start_next (concat (map message_next (accept_next p))))"

definition turn_next :: "phase \<Rightarrow> phase list" where
  "turn_next p = concat (map timer_next (ready_next p))"

lemma phase_keeps: "keeps_phase t t' \<Longrightarrow> phase_of t' = phase_of t"
  by (simp add: keeps_phase_def phase_of_def)

lemma nexts_refl [simp]: "p \<in> set (accept_next p)" "p \<in> set (message_next p)" "p \<in> set (start_next p)" "p \<in> set (timer_next p)"
  by (cases p; simp add: accept_next_def message_next_def start_next_def timer_next_def)+

lemma ready_nextI: "p1 \<in> set (accept_next p) \<Longrightarrow> p2 \<in> set (message_next p1) \<Longrightarrow> q \<in> set (start_next p2)
    \<Longrightarrow> q \<in> set (ready_next p)"
  unfolding ready_next_def set_concat set_map by blast

lemma turn_nextI: "p1 \<in> set (ready_next p) \<Longrightarrow> q \<in> set (timer_next p1) \<Longrightarrow> q \<in> set (turn_next p)"
  unfolding turn_next_def set_concat set_map by blast

lemma ready_refl [simp]: "p \<in> set (ready_next p)"
  by (rule ready_nextI [OF nexts_refl(1,2,3)])

text \<open>What a step of the loop that goes on did to the phase.\<close>

definition moved :: "(phase \<Rightarrow> phase list) \<Rightarrow> iperf_test \<Rightarrow> server_step \<times> server_vars \<times> sys \<Rightarrow> bool" where
  "moved nx t = (\<lambda>(k, v, a). k = Next \<longrightarrow> phase_of (fst (fst a)) \<in> set (nx (phase_of t)))"

lemma moved_simp [simp]: "moved nx t (k, v, a) \<longleftrightarrow> (k = Next \<longrightarrow> phase_of (fst (fst a)) \<in> set (nx (phase_of t)))"
  by (simp add: moved_def)

lemma fails_post:
  "(\<And>v a. Q (Returns (-1), v, a)) \<Longrightarrow> post (server_fails e v a) Q"
  "(\<And>v a. Q (Returns (-1), v, a)) \<Longrightarrow> post (server_fails_with e v ie a) Q"
  by (auto simp: server_fails_def server_fails_with_def intro!: post_any [where m = "cleanup_server e a" for e a])

section \<open>Accepting a client\<close>

lemma server_accepts:
  assumes c: "ctrl_sck t = -1" and s: "0 \<le> s" and st: "state t \<noteq> CREATE_STREAMS"
  shows "post (accept_client h s t w) (\<lambda>(r, t', w'). 0 \<le> r \<longrightarrow> phase_of t' \<in> set (accept_next (phase_of t)))"
  unfolding accept_client_def using s c st
  by (auto simp: Let_def phase_of_def accept_next_def keeps_phase_def split: prod.split
      intro!: phase_send_state phase_exchange_parameters phase_on_connect
        post_any [where m = "set_opts e w" for e w] post_any [where m = "iperf_set_control_keepalive t w" for t w]
        post_any [where m = "Nread f n p w" for f n p w] post_any [where m = "sys_ok e w" for e w])

lemma server_accept_moves:
  assumes "state t \<noteq> CREATE_STREAMS"
  shows "post (iperf_accept h t w) (\<lambda>(r, t', w'). 0 \<le> r \<longrightarrow> phase_of t' \<in> set (accept_next (phase_of t)))"
  unfolding iperf_accept_def using assms
  by (auto intro!: post_any [where m = "sys_open w" for w] server_accepts post_any [where m = "deny_client s w" for s w])

section \<open>A message of the client\<close>

text \<open>The state a message leaves behind, on a control connection that is open.\<close>

definition answers :: "iperf_test \<Rightarrow> iperf_test \<Rightarrow> bool" where
  "answers t t' \<longleftrightarrow> ctrl_sck t' = ctrl_sck t \<and> state t' \<in> {TEST_START, DISPLAY_RESULTS, IPERF_DONE}"

lemma server_message_moves:
  assumes c: "0 \<le> ctrl_sck t"
  shows "post (server_message h (t\<lparr>state := m\<rparr>) w) (\<lambda>(r, t', w'). 0 \<le> r \<longrightarrow> answers t t')"
proof -
  have cs: "ctrl_sck (fst (close_streams t w)) = ctrl_sck t" "state (fst (close_streams t w)) = state t" for t w
    by (simp_all add: close_streams_def)
  have st: "post (iperf_stats_callback rd t) Q" if "\<And>t'. keeps_phase t t' \<Longrightarrow> Q t'" for rd t Q
    using that by (intro postI) (auto dest: reported_stats keeps_reported)
  have pr: "ctrl_sck (iperf_print_results t) = ctrl_sck t" "state (iperf_print_results t) = state t"
    "ctrl_sck (iperf_reporter_callback t) = ctrl_sck t" for t
    using keeps_reported [OF reported_print, of t] keeps_reported [OF reported_callback, of t] by (simp_all add: keeps_phase_def)
  have te: "post (server_test_end h u w) (\<lambda>x. 0 \<le> fst x \<longrightarrow> answers t (fst (snd x)))"
    if "ctrl_sck u = ctrl_sck t" for u w
    unfolding server_test_end_def Let_def case_prod_unfold using that c
    by (auto simp: keeps_phase_def answers_def cs pr case_prod_unfold intro!: st phase_send_state phase_exchange_results)
  show ?thesis
    unfolding server_message_def
    by (auto simp: Let_def answers_def cs pr case_prod_unfold intro!: post_mono [OF te])
qed

lemma answers_next: "0 \<le> ctrl_sck t \<Longrightarrow> answers t t' \<Longrightarrow> phase_of t' \<in> set (message_next (phase_of t))"
  by (auto simp: answers_def phase_of_def message_next_def)

lemma handle_server_moves:
  assumes "0 \<le> ctrl_sck t"
  shows "post (iperf_handle_message_server h t w) (\<lambda>(r, t', w'). 0 \<le> r \<longrightarrow> answers t t')"
proof -
  have "answers t (t\<lparr>state := IPERF_DONE\<rparr>)" by (simp add: answers_def)
  with assms show ?thesis
    unfolding iperf_handle_message_server_def
    by (auto intro!: post_any [where m = "Nread f n p w" for f n p w] server_message_moves split: list.split)
qed

section \<open>The cleanup\<close>

lemma cleanup_sockets_phase:
  "ctrl_sck (fst (cleanup_sockets t w)) = min (ctrl_sck t) (-1)" "state (fst (cleanup_sockets t w)) = state t"
proof -
  have q: "ctrl_sck (fst (iperf_quic_reset_test t w)) = ctrl_sck t" "state (fst (iperf_quic_reset_test t w)) = state t" for t w
    using phase_quic(1) [of t w] by (simp_all add: iperf_quic_reset_test_def keeps_phase_def)
  show "ctrl_sck (fst (cleanup_sockets t w)) = min (ctrl_sck t) (-1)" "state (fst (cleanup_sockets t w)) = state t"
    by (simp_all add: cleanup_sockets_def q Let_def case_prod_unfold)
qed

text \<open>The cleanup gives the client up.\<close>

definition gave_up :: "iperf_test \<Rightarrow> iperf_test \<Rightarrow> bool" where
  "gave_up t t' \<longleftrightarrow> ctrl_sck t' = min (ctrl_sck t) (-1) \<and> state t' = state t"

lemma cleanup_moves:
  assumes Q: "\<And>t' w' s'. gave_up t t' \<Longrightarrow> Q ((t', w'), s')"
  shows "post (cleanup_server e ((t, w), s)) Q"
proof (rule postI)
  let ?ps = "[Stats_timer, Reporter_timer, Omit_timer, Test_timer]"
  fix a assume run: "cleanup_server e ((t, w), s) = Some a"
  obtain sps w1 where 1: "drop_workers (\<lambda>_. True) (streams t) w = Some (sps, w1)"
    using run by (auto simp: cleanup_server_def Option.bind_eq_Some_conv)
  obtain t2 where 2: "late_summary e (t\<lparr>streams := sps\<rparr>) = Some t2"
    using run 1 by (auto simp: cleanup_server_def Option.bind_eq_Some_conv)
  obtain t3 w3 where 3: "cleanup_sockets t2 (w1\<lparr>i_errno := i_errno w\<rparr>) = (t3, w3)" by fastforce
  obtain t4 s4 where 4: "cancel_handles ?ps (t3, s) = Some (t4, s4)"
    using run 1 2 3 by (auto simp: cleanup_server_def Option.bind_eq_Some_conv simp del: cancel_handles.simps)
  have a: "a = ((t4\<lparr>congestion_used := None\<rparr>, w3), s4)"
    using run 1 2 3 4 by (auto simp: cleanup_server_def simp del: cancel_handles.simps)
  have "keeps_phase (t\<lparr>streams := sps\<rparr>) t2" by (rule keeps_reported [OF late_summary_reported [OF 2]])
  then have "keeps_phase t t2" by (simp add: keeps_phase_def)
  moreover have "keeps_phase t3 t4" using set_handles_phase [of t3 ?ps] cancel_handles_Some [OF 4] by simp
  moreover have "ctrl_sck t3 = min (ctrl_sck t2) (-1)" "state t3 = state t2"
    using cleanup_sockets_phase [of t2 "w1\<lparr>i_errno := i_errno w\<rparr>"] 3 by simp_all
  ultimately have "gave_up t (t4\<lparr>congestion_used := None\<rparr>)"
    by (simp add: gave_up_def keeps_phase_def)
  with Q show "Q a" unfolding a .
qed

section \<open>The timers\<close>

lemma server_timers_keep:
  "cb_keeps (\<lambda>c. phase_of (fst c) \<in> set (timer_next p0)) (server_timer_proc env)"
proof -
  have g: "phase_of t \<in> set (timer_next p0)" if "phase_of u \<in> set (timer_next p0)" "keeps_phase u t" for t u
    using that phase_keeps by metis
  have w: "phase_of (t\<lparr>ctrl_sck := -1\<rparr>) \<in> set (timer_next p0)" if "phase_of t \<in> set (timer_next p0)" for t
    using that by (auto simp: phase_of_def timer_next_def split: prod.splits)
  have fired: "phase_of t' \<in> set (timer_next p0)"
    if run: "server_timer_fired env (t, w0) = Some (t', w')" and m: "phase_of t \<in> set (timer_next p0)" for t w0 t' w'
  proof -
    let ?u = "t\<lparr>timer := None, test_done := 1, cpu_util := cpu_now env\<rparr>"
    consider "keeps_phase t t'" | t1 where "iperf_stats_callback (stats_rd env) ?u = Some t1"
      "t' = (if summary_printed t1 = 0 then iperf_print_results (t1\<lparr>summary_printed := 1\<rparr>) else t1)\<lparr>ctrl_sck := -1\<rparr>"
      using run by (fastforce simp: server_timer_fired_def Let_def keeps_phase_def Option.bind_eq_Some_conv split: if_splits)
    then show ?thesis
    proof cases
      case 1
      with m show ?thesis by (rule g)
    next
      case 2
      have "keeps_phase ?u t1" by (rule keeps_reported [OF reported_stats [OF 2(1)]])
      then have "keeps_phase t t1" by (simp add: keeps_phase_def)
      moreover have "keeps_phase t1 (iperf_print_results (t1\<lparr>summary_printed := 1\<rparr>))"
        using keeps_reported [OF reported_print, of "t1\<lparr>summary_printed := 1\<rparr>"] by (simp add: keeps_phase_def)
      ultimately have kp: "keeps_phase t (if summary_printed t1 = 0 then iperf_print_results (t1\<lparr>summary_printed := 1\<rparr>) else t1)"
        by (auto intro: keeps_trans)
      show ?thesis unfolding 2(2) by (rule w [OF g [OF m kp]])
    qed
  qed
  have om: "phase_of t' \<in> set (timer_next p0)"
    if "omit_timer_proc env now ((t, w0), s) = Some ((t', w'), s')" "phase_of t \<in> set (timer_next p0)" for t w0 t' w' now s s'
    using that by (intro g [OF that(2)])
      (auto simp: omit_timer_proc_def Let_def Option.bind_eq_Some_conv keeps_phase_def iperf_reset_stats_def)
  have st: "phase_of t' \<in> set (timer_next p0)"
    if "iperf_stats_callback rd t = Some t'" "phase_of t \<in> set (timer_next p0)" for rd t t'
    using g [OF that(2) keeps_reported [OF reported_stats [OF that(1)]]] .
  have rp: "phase_of (iperf_reporter_callback t) \<in> set (timer_next p0)" if "phase_of t \<in> set (timer_next p0)" for t
    using g [OF that keeps_reported [OF reported_callback]] .
  show ?thesis
    unfolding cb_keeps_def
  proof (intro allI impI)
    fix p cd now c s c' s'
    assume run: "server_timer_proc env p cd now (c, s) = Some (c', s')" and m: "phase_of (fst c) \<in> set (timer_next p0)"
    obtain t w0 t' w' where c: "c = (t, w0)" "c' = (t', w')" by (cases c; cases c')
    have "phase_of t' \<in> set (timer_next p0)"
    proof (cases p)
      case Test_timer
      with run m c show ?thesis by (auto simp: server_timer_proc_def Option.bind_eq_Some_conv intro: fired)
    next
      case Stats_timer
      with run m c show ?thesis by (auto simp: server_timer_proc_def Option.bind_eq_Some_conv split: if_splits intro: st)
    next
      case Reporter_timer
      with run m c show ?thesis by (auto simp: server_timer_proc_def intro: rp)
    next
      case Omit_timer
      with run m c show ?thesis by (auto simp: server_timer_proc_def intro: om)
    qed
    with c show "phase_of (fst c') \<in> set (timer_next p0)" by simp
  qed
qed

section \<open>A turn\<close>

lemma phase_accept:
  "(\<And>r t' w'. keeps_phase t t' \<Longrightarrow> Q (r, t', w')) \<Longrightarrow> post (proto_accept (conn e) t w) Q"
  by (rule phase_opD [OF phase_proto(2)])

lemma phase_stream_opts: "(\<And>r t' w'. keeps_phase t t' \<Longrightarrow> Q (r, t', w')) \<Longrightarrow> post (server_stream_opts t s w) Q"
proof -
  assume Q: "\<And>r t' w'. keeps_phase t t' \<Longrightarrow> Q (r, t', w')"
  have "keeps_phase t (t\<lparr>congestion_used := x\<rparr>)" for x by (simp add: keeps_phase_def)
  with Q show ?thesis
    unfolding server_stream_opts_def
    by (auto intro!: post_any [where m = "sys_ok e w" for e w] post_any [where m = "sys_getname w" for w])
qed

lemma accept_streams_moves:
  shows "post (accept_streams e v ((t, w), s)) (\<lambda>(k, v, a). k = Next \<longrightarrow> keeps_phase t (fst (fst a)))"
proof -
  have fl: "post (server_fails e v a) (\<lambda>(k, v, a). k = Next \<longrightarrow> keeps_phase t (fst (fst a)))"
    "post (server_fails_with e v ie a) (\<lambda>(k, v, a). k = Next \<longrightarrow> keeps_phase t (fst (fst a)))" for e v ie a t
    by (auto simp: server_fails_def server_fails_with_def intro!: post_any [where m = "cleanup_server e a" for e a])
  have d: "post (drain_quic e n v ((t, w), s)) (\<lambda>(k, v, a). k = Next \<longrightarrow> keeps_phase t0 (fst (fst a)))"
    if "keeps_phase t0 t" for n v t w s t0
    using that
  proof (induction n arbitrary: v t w s)
    case (Suc n)
    note IH = Suc.IH [OF keeps_trans [OF keeps_trans [OF Suc.prems]]]
    show ?case
      using Suc.prems by (auto simp: Let_def intro!: phase_accept phase_new_stream fl intro: keeps_trans IH)
  qed simp
  have ad: "post (add_server_stream e v f ((u, w), s)) (\<lambda>(k, v, a). k = Next \<longrightarrow> keeps_phase t (fst (fst a)))"
    if "keeps_phase t u" for v f u w s
    unfolding add_server_stream_def Let_def using that
    by (auto intro!: post_any [where m = "flag v" for v] phase_new_stream fl intro: keeps_trans)
  have as: "post (accept_stream e v ((t, w), s)) (\<lambda>(k, v, a). k = Next \<longrightarrow> keeps_phase t (fst (fst a)))"
    unfolding accept_stream_def
    by (auto simp: Let_def intro!: phase_accept phase_stream_opts ad fl fails_post
        post_any [where m = "iperf_common_sockopts t s w" for t s w] post_any [where m = "is_closed s w" for s w]
        intro: keeps_trans)
  show ?thesis
    by (simp add: accept_streams_def d as del: drain_quic.simps)
qed

lemma reopen_keeps:
  "(\<And>r t' w'. keeps_phase t t' \<Longrightarrow> Q (r, t', w')) \<Longrightarrow> post (reopen_listener t w) Q"
proof -
  assume Q: "\<And>r t' w'. keeps_phase t t' \<Longrightarrow> Q (r, t', w')"
  have k: "keeps_phase t t'" if "iperf_quic_close_listener t w = (t', w')" for t' w'
    using that phase_quic(2) [of t w] by simp
  show ?thesis
    unfolding reopen_listener_def
    by (auto simp: Let_def dest: k intro!: Q post_any [where m = "announce_control t w" for t w])
qed

lemma server_start_moves:
  assumes "state t = CREATE_STREAMS" "0 \<le> ctrl_sck t"
  shows "post (server_test_start h ((t, w), s)) (\<lambda>(r, a). 0 \<le> r \<longrightarrow> phase_of (fst (fst a)) = (True, TEST_RUNNING))"
proof -
  have g: "state (iperf_create_send_timers t) = state t" "ctrl_sck (iperf_create_send_timers t) = ctrl_sck t" for t
    by (simp_all add: iperf_create_send_timers_def)
  show ?thesis
    unfolding server_test_start_def using assms
    by (auto simp: Let_def g phase_of_def keeps_phase_def
        intro!: phase_send_state phase_init_test phase_create_timers phase_omit_timer)
qed

lemma cleanup_if_moves:
  assumes t: "phase_of t \<in> {(True, TEST_RUNNING), (False, TEST_RUNNING)}"
    and Q: "\<And>t' w' s'. phase_of t' \<in> {(True, TEST_RUNNING), (False, TEST_RUNNING)} \<Longrightarrow> Q ((t', w'), s')"
  shows "post (cleanup_if b e ie ((t, w), s)) Q"
proof -
  have "phase_of t' \<in> {(True, TEST_RUNNING), (False, TEST_RUNNING)}" if "gave_up t t'" for t'
    using that t by (auto simp: gave_up_def phase_of_def)
  with t show ?thesis by (auto simp: cleanup_if_def intro!: cleanup_moves Q)
qed

lemma server_workers_moves:
  assumes t: "phase_of t = (True, TEST_RUNNING)"
  shows "post (server_workers e v ((t, w), s)) (\<lambda>(k, v, a). k = Next \<longrightarrow>
    phase_of (fst (fst a)) \<in> {(True, TEST_RUNNING), (False, TEST_RUNNING)})"
proof -
  have p: "phase_of (t\<lparr>streams := sps\<rparr>) = phase_of t" for t sps
    by (simp add: phase_of_def)
  show ?thesis
    unfolding server_workers_def using t
    by (auto simp: Let_def p intro!: cleanup_if_moves fails_post
        post_any [where m = "sys_rc x w" for x w] post_any [where m = "create_workers x w" for x w]
        post_any [where m = "iperf_time_now x w" for x w])
qed

lemma begin_test_moves:
  assumes s: "state t = CREATE_STREAMS" "0 \<le> ctrl_sck t"
  shows "post (begin_test e v ((t, w), s)) (moved start_next t)"
proof -
  have wk: "post (server_workers e v ((t2, w2), s2)) (moved start_next t)"
    if "phase_of t2 = (True, TEST_RUNNING)" for t2 w2 s2
    using s by (intro post_mono [OF server_workers_moves [OF that]]) (auto simp: moved_def start_next_def phase_of_def)
  have go: "post (server_test_start h ((t1, w1), s1)) Q"
    if k: "keeps_phase t t1"
      and Q: "\<And>r t' w' s'. 0 \<le> r \<longrightarrow> phase_of t' = (True, TEST_RUNNING) \<Longrightarrow> Q (r, (t', w'), s')" for h t1 w1 s1 Q
    by (rule post_mono [OF server_start_moves]) (use k s Q in \<open>auto simp: keeps_phase_def\<close>)
  show ?thesis
    unfolding begin_test_def
    by (auto intro!: reopen_keeps fails_post go wk)
qed

lemma server_streams_moves:
  assumes c: "0 \<le> ctrl_sck t"
  shows "post (server_streams e v rs ((t, w), s)) (moved start_next t)"
proof -
  have bt: "post (begin_test e v ((t1, w1), s1)) (moved start_next t)"
    if k: "keeps_phase t t1" and st: "state t = CREATE_STREAMS" for v t1 w1 s1
  proof -
    have "state t1 = CREATE_STREAMS" "0 \<le> ctrl_sck t1" using k st c by (simp_all add: keeps_phase_def)
    from begin_test_moves [OF this] phase_keeps [OF k] show ?thesis
      by (intro post_mono [OF begin_test_moves [OF \<open>state t1 = CREATE_STREAMS\<close> \<open>0 \<le> ctrl_sck t1\<close>]]) (auto simp: moved_def)
  qed
  have ac: "post (accept_streams e v ((t, w), s)) Q"
    if "\<And>k v t' w' s'. (k = Next \<longrightarrow> keeps_phase t t') \<Longrightarrow> Q (k, v, (t', w'), s')" for v w s Q
    by (intro post_mono [OF accept_streams_moves]) (auto intro: that)
  show ?thesis
    unfolding server_streams_def
    by (auto simp: phase_keeps intro!: post_any [where m = "fd_isset x y" for x y] ac bt)
qed

lemma server_ready_moves:
  shows "post (server_ready e v rs ((t, w), s)) (moved ready_next t)"
proof -
  have ss: "post (server_streams e v rs ((t2, w2), s2)) (moved ready_next t)"
    if "phase_of t1 \<in> set (accept_next (phase_of t))" "phase_of t2 \<in> set (message_next (phase_of t1))" "0 \<le> ctrl_sck t2"
    for v rs t1 t2 w2 s2
    by (rule post_mono [OF server_streams_moves [OF that(3)]])
      (use that(1,2) in \<open>auto simp: moved_def intro: ready_nextI\<close>)
  have hm: "post (iperf_handle_message_server h t1 w1) Q"
    if "0 \<le> ctrl_sck t1" "\<And>r t' w'. 0 \<le> r \<longrightarrow> answers t1 t' \<Longrightarrow> Q (r, t', w')" for h t1 w1 Q
    by (rule post_mono [OF handle_server_moves [OF that(1)]]) (auto intro!: that(2))
  have ac: "post (iperf_accept e t w) Q"
    if "state t \<noteq> CREATE_STREAMS" "\<And>r t' w'. 0 \<le> r \<longrightarrow> phase_of t' \<in> set (accept_next (phase_of t)) \<Longrightarrow> Q (r, t', w')" for w Q
    by (rule post_mono [OF server_accept_moves]) (use that in auto)
  have li: "post (server_listener e v rs ((t, w), s)) Q"
    if "\<And>k v rs t' w' s'. (k = Next \<longrightarrow> phase_of t' \<in> set (accept_next (phase_of t))) \<Longrightarrow> Q (k, v, rs, (t', w'), s')" for Q
    unfolding server_listener_def
    by (auto intro!: that post_any [where m = "fd_isset x y" for x y] ac fails_post)
  have fi: "post (fd_isset f rs) Q" if "0 \<le> f \<Longrightarrow> (\<And>b. Q b)" for f rs Q
    using that by (auto simp: fd_isset_def)
  show ?thesis
    unfolding server_ready_def
    by (auto intro!: li hm fi fails_post ss dest: answers_next simp: answers_def)
qed

lemma server_idle_moves:
  "post (server_idle e rt v ((t, w), s)) (\<lambda>(k, v, a). k = Next \<longrightarrow> phase_of (fst (fst a)) = phase_of t)"
  unfolding server_idle_def
  by (auto simp: Let_def intro!: fails_post post_any [where m = "cleanup_server e a" for e a]
      post_any [where m = "iperf_time_now x w" for x w] split: option.split)

lemma run_timers_moves:
  "post (run_timers e v ((t, w), s)) (moved timer_next t)"
  unfolding run_timers_def
  by (auto intro!: post_any [where m = "iperf_time_now x w" for x w]
      tmr_run_keeps [where P = "\<lambda>c. phase_of (fst c) \<in> set (timer_next (phase_of t))"] server_timers_keep)

lemma server_turn_moves:
  shows "post (server_turn e rt v ((t, w), s)) (moved turn_next t)"
proof -
  have id: "post (server_idle e rt v ((t, w), s)) Q"
    if "\<And>k v t' w' s'. (k = Next \<longrightarrow> phase_of t' = phase_of t) \<Longrightarrow> Q (k, v, (t', w'), s')" for v w s Q
    by (intro post_mono [OF server_idle_moves]) (auto intro: that)
  have rd: "post (server_ready e v rs ((t1, w), s)) Q"
    if "phase_of t1 = phase_of t"
      "\<And>k v t' w' s'. (k = Next \<longrightarrow> phase_of t' \<in> set (ready_next (phase_of t))) \<Longrightarrow> Q (k, v, (t', w'), s')" for v rs t1 w s Q
    using that(1) by (intro post_mono [OF server_ready_moves]) (auto intro!: that(2))
  have rt: "post (run_timers e v ((t1, w), s)) (moved turn_next t)"
    if "phase_of t1 \<in> set (ready_next (phase_of t))" for v t1 w s
    by (intro post_mono [OF run_timers_moves]) (use that in \<open>auto simp: moved_def intro: turn_nextI\<close>)
  have "phase_of u \<in> set (turn_next (phase_of t))" if "phase_of u \<in> set (ready_next (phase_of t))" for u
    using turn_nextI [OF that nexts_refl(4)] .
  then show ?thesis
    unfolding server_turn_def
    by (auto simp: Let_def intro!: fails_post id rd rt post_any [where m = "iperf_time_now x w" for x w]
        post_any [where m = "tmr_timeout x y z" for x y z] post_any [where m = "select_sets a b c w" for a b c w])
qed

text \<open>From where a turn gets to the states that matter.\<close>

lemma turn_to:
  "(b', st') \<in> set (turn_next (b, st)) \<Longrightarrow> st' = CREATE_STREAMS \<Longrightarrow> st = CREATE_STREAMS \<or> \<not> b"
  "(b', st') \<in> set (turn_next (b, st)) \<Longrightarrow> st' = TEST_RUNNING \<Longrightarrow> st \<in> {TEST_RUNNING, CREATE_STREAMS} \<or> \<not> b"
  by (cases b; auto simp: turn_next_def ready_next_def accept_next_def message_next_def start_next_def timer_next_def
      split: if_splits)+

end
