(* ===== verification/Iperf_Client_Turn.thy ===== *)
theory Iperf_Client_Turn
  imports Iperf_Phase
begin

text \<open>
  A turn of the client's main loop as a step on its protocol state: what a message of the server
  makes of it (told_next), and the end of a running test (client_next). The code takes the messages
  of the server in any order. When a turn ends the test, the sending threads are gone before the
  server is told.
\<close>

section \<open>The steps\<close>

definition told_next :: "int \<Rightarrow> int list" where
  "told_next st = [st, PARAM_EXCHANGE, CREATE_STREAMS, TEST_START, TEST_RUNNING, EXCHANGE_RESULTS, IPERF_DONE]"

definition client_next :: "int \<Rightarrow> int list" where
  "client_next st = concat (map (\<lambda>x. x # (if x = TEST_RUNNING then [TEST_END] else [])) (told_next st))"

definition sends_stopped :: "iperf_test \<Rightarrow> bool" where
  "sends_stopped t \<longleftrightarrow> test_done t = 1 \<and> list_all (\<lambda>sp. sender sp \<noteq> 0 \<longrightarrow> stopped sp) (streams t)"

lemma state_keeps: "keeps_phase t t' \<Longrightarrow> state t' = state t"
  by (simp add: keeps_phase_def)

section \<open>A message of the server\<close>

lemma client_timers_keep: "cb_keeps (\<lambda>c. state (fst c) = st) (client_timer_proc env)"
proof -
  have om: "state t' = state t" if "omit_timer_proc env now ((t, w0), s) = Some ((t', w'), s')" for t w0 t' w' now s s'
    using that by (auto simp: omit_timer_proc_def Let_def Option.bind_eq_Some_conv iperf_reset_stats_def)
  have sc: "state t' = state t" if "iperf_stats_callback rd t = Some t'" for rd t t'
    using state_keeps [OF keeps_reported [OF reported_stats [OF that]]] .
  have rp: "state (iperf_reporter_callback t) = state t" for t
    using state_keeps [OF keeps_reported [OF reported_callback]] .
  have step: "state (fst c') = state (fst c)" if "client_timer_proc env p cd now (c, s) = Some (c', s')" for p cd now c s c' s'
    using that by (cases c; cases c'; cases p)
      (auto simp: client_timer_proc_def Option.bind_eq_Some_conv rp split: if_splits dest: om sc)
  show ?thesis
    unfolding cb_keeps_def using step by metis
qed

lemma create_streams_keeps: "(\<And>r t' w'. state t' = state t \<Longrightarrow> Q (r, t', w'))
    \<Longrightarrow> post (create_streams h sd n i t w) Q"
proof (induction n arbitrary: i t w Q)
  case (Suc n)
  have cg: "post (client_congestion u s w) Q" if "\<And>r t' w'. state t' = state u \<Longrightarrow> Q (r, t', w')" for u s w Q
    using that unfolding client_congestion_def
    by (auto intro!: post_any [where m = "sys_ok e w" for e w] post_any [where m = "sys_getname w" for w])
  have pc: "post (proto_connect (conn h) u w) Q" if "\<And>r t' w'. state t' = state u \<Longrightarrow> Q (r, t', w')" for u w Q
    by (rule phase_opD [OF phase_proto(3)]) (auto intro: that dest: state_keeps)
  have ns: "post (iperf_new_stream env u s f w) Q" if "\<And>r t' w'. state t' = state u \<Longrightarrow> Q (r, t', w')" for env u s f w Q
    by (rule phase_new_stream) (auto intro: that dest: state_keeps)
  have one: "post (create_stream h sd i t w) (\<lambda>(r, t', w'). state t' = state t)"
    unfolding create_stream_def Let_def by (auto intro!: pc cg ns)
  show ?case
    using Suc.prems by (auto intro!: post_mono [OF one] Suc.IH)
qed simp

lemma create_all_keeps: "(\<And>r t' w'. state t' = state t \<Longrightarrow> Q (r, t', w'))
    \<Longrightarrow> post (create_all_streams h t w) Q"
  unfolding create_all_streams_def iperf_create_streams_def
  by (auto intro!: create_streams_keeps split: iperf_mode.split)

lemma client_end_moves:
  "state t = DISPLAY_RESULTS \<Longrightarrow> 0 \<le> ctrl_sck t \<Longrightarrow> (\<And>r t' w'. state t' = IPERF_DONE \<Longrightarrow> Q (r, t', w'))
    \<Longrightarrow> post (iperf_client_end t w) Q"
proof -
  assume s: "state t = DISPLAY_RESULTS" "0 \<le> ctrl_sck t" and Q: "\<And>r t' w'. state t' = IPERF_DONE \<Longrightarrow> Q (r, t', w')"
  have rp: "state (iperf_reporter_callback t) = state t" "ctrl_sck (iperf_reporter_callback t) = ctrl_sck t" for t
    using keeps_reported [OF reported_callback] by (simp_all add: keeps_phase_def)
  have q: "state t' = DISPLAY_RESULTS \<and> 0 \<le> ctrl_sck t'" if "iperf_quic_reset_test t w = (t', w')" for t' w'
    using that phase_quic(1) [of t w] s by (simp add: iperf_quic_reset_test_def keeps_phase_def)
  show ?thesis
    unfolding iperf_client_end_def
    by (auto simp: Let_def s rp intro!: Q phase_send_state dest!: q)
qed

lemma client_message_moves:
  assumes c: "0 \<le> ctrl_sck t"
  shows "post (client_message h ((t, w), s)) (\<lambda>(r, a). 0 \<le> r \<longrightarrow> state (fst (fst a)) \<in> set (told_next st))"
proof -
  have ep: "post (iperf_exchange_parameters h t w) Q" if "state t = PARAM_EXCHANGE"
    "\<And>r t' w'. 0 \<le> r \<longrightarrow> state t' \<in> {PARAM_EXCHANGE, CREATE_STREAMS} \<Longrightarrow> Q (r, t', w')" for w Q
    by (rule phase_exchange_parameters) (rule that(2), use that(1) in \<open>auto simp: keeps_phase_def\<close>)
  have oc: "post (iperf_on_connect t w) Q" if "\<And>t' w'. state t' = state t \<Longrightarrow> Q (t', w')" for t w Q
    by (rule phase_on_connect) (auto intro: that dest: state_keeps)
  have ts: "post (client_test_start h ((t, w), s)) Q" if "\<And>r t' w' s'. state t' = state t \<Longrightarrow> Q (r, (t', w'), s')" for w Q
    unfolding client_test_start_def
    by (auto simp: keeps_phase_def iperf_create_send_timers_def intro!: phase_init_test phase_create_timers phase_omit_timer that)
  have xr: "post (iperf_exchange_results a b c t w) Q" if "\<And>r t' w'. state t' = state t \<Longrightarrow> Q (r, t', w')" for a b c w Q
    by (rule phase_exchange_results) (auto intro: that dest: state_keeps)
  have rd: "post (read_server_error t w) (\<lambda>(r, t, w). r < 0)" for w
    unfolding read_server_error_def by (auto simp: Let_def intro!: post_any [where m = "Nread f n p w" for f n p w])
  have ce: "post (iperf_client_end t w) Q" if "state t = DISPLAY_RESULTS" "\<And>r t' w'. state t' = IPERF_DONE \<Longrightarrow> Q (r, t', w')" for w Q
    by (rule client_end_moves [OF that(1) c]) (rule that(2))
  show ?thesis
    unfolding client_message_def on_sys_def
    by (auto simp: Let_def told_next_def intro!: ep oc ts xr ce post_mono [OF rd] create_all_keeps)
qed

lemma client_handle_moves:
  assumes "0 \<le> ctrl_sck t"
  shows "post (iperf_handle_message_client h ((t, w), s)) (\<lambda>(r, a). 0 \<le> r \<longrightarrow> state (fst (fst a)) \<in> set (told_next st))"
  unfolding iperf_handle_message_client_def using assms
  by (auto intro!: post_any [where m = "sys_read f n w" for f n w] client_message_moves split: list.split)

section \<open>The end of the test\<close>

lemma stop_workers_stop:
  "post (stop_workers (\<lambda>sp. sender sp \<noteq> 0) sps w) (\<lambda>(r, sps', w'). 0 \<le> r \<longrightarrow> list_all (\<lambda>sp. sender sp \<noteq> 0 \<longrightarrow> stopped sp) sps')"
proof (induction sps arbitrary: w)
  case (Cons sp sps)
  have one: "post (stop_worker sp w) (\<lambda>(r, sp', w'). 0 \<le> r \<longrightarrow> stopped sp')" for w
    unfolding stop_worker_def by (auto simp: Let_def stopped_def intro!: post_any [where m = "sys_rc x w" for x w])
  show ?case by (auto intro!: post_mono [OF Cons.IH] post_mono [OF one])
qed simp

lemma core_all: "(\<And>sp. P (core sp) = P sp) \<Longrightarrow> map core xs = map core ys \<Longrightarrow> list_all P xs = list_all P ys"
  by (metis (no_types, lifting) list.pred_map list_all_cong o_def)

lemma reported_stopped: "reported t t' \<Longrightarrow> sends_stopped t' = sends_stopped t"
  unfolding sends_stopped_def reported_def
  using core_all [where P = "\<lambda>sp. sender sp \<noteq> 0 \<longrightarrow> stopped sp" and xs = "streams t'" and ys = "streams t"]
  by (simp add: core_def stopped_def)

lemma finish_test_stops:
  assumes "state t = TEST_RUNNING"
  shows "post (finish_test h t w) (\<lambda>(k, t', w'). k = Go_on \<longrightarrow>
    state t' \<in> {TEST_RUNNING, TEST_END} \<and> (state t' = TEST_END \<longrightarrow> sends_stopped t'))"
proof -
  have sw: "post (stop_workers (\<lambda>sp. sender sp \<noteq> 0) sps w) Q"
    if "\<And>r sps' w'. 0 \<le> r \<longrightarrow> list_all (\<lambda>sp. sender sp \<noteq> 0 \<longrightarrow> stopped sp) sps' \<Longrightarrow> Q (r, sps', w')" for sps w Q
    by (rule post_mono [OF stop_workers_stop]) (use that in auto)
  have sc: "post (iperf_stats_callback rd u) Q"
    if "sends_stopped u" "\<And>t'. state t' = state u \<and> sends_stopped t' \<Longrightarrow> Q t'" for rd u Q
    by (rule postI) (use that reported_stats reported_stopped state_keeps [OF keeps_reported] in blast)
  have st: "sends_stopped (t\<lparr>state := x\<rparr>) = sends_stopped t" for t x by (simp add: sends_stopped_def)
  show ?thesis
    unfolding finish_test_def Let_def using assms
    by (auto simp: st sends_stopped_def [of "t\<lparr>streams := sps, test_done := 1, cpu_util := c\<rparr>" for sps c] intro!: sw sc phase_send_state)
qed

lemma client_running_moves:
  assumes "state t = TEST_RUNNING"
  shows "post (client_running h v ((t, w), s)) (\<lambda>(k, v, ((t', w'), s')). k = Go_on \<longrightarrow>
    state t' \<in> {TEST_RUNNING, TEST_END} \<and> (state t' = TEST_END \<longrightarrow> sends_stopped t'))"
proof -
  have sw: "post (starts_workers t w) Q" if "\<And>r t' w'. state t' = state t \<Longrightarrow> Q (r, t', w')" for w Q
    unfolding starts_workers_def
    by (auto simp: Let_def intro!: that post_any [where m = "sys_rc x w" for x w] post_any [where m = "create_workers x w" for x w])
  have ft: "post (finish_test h u w) Q"
    if "state u = TEST_RUNNING" "\<And>k t' w'. k = Go_on \<longrightarrow> state t' \<in> {TEST_RUNNING, TEST_END} \<and> (state t' = TEST_END \<longrightarrow> sends_stopped t')
        \<Longrightarrow> Q (k, t', w')" for u w Q
    by (rule post_mono [OF finish_test_stops [OF that(1)]]) (auto intro!: that(2))
  have tr: "post (tmr_run (client_timer_proc env) n now ((u, w), s)) Q"
    if "state u = TEST_RUNNING" "\<And>t' w' s'. state t' = TEST_RUNNING \<Longrightarrow> Q ((t', w'), s')" for env n now u w s Q
    by (rule tmr_run_keeps [OF client_timers_keep [where st = TEST_RUNNING]]) (use that in auto)
  show ?thesis
    unfolding client_running_def using assms
    by (auto simp: Let_def intro!: sw ft tr post_any [where m = "iperf_time_now x w" for x w])
qed

definition client_moved :: "iperf_test \<Rightarrow> next_step \<times> run_vars \<times> sys \<Rightarrow> bool" where
  "client_moved t = (\<lambda>(k, v, ((t', w'), s')). k = Go_on \<longrightarrow> state t' \<in> set (client_next (state t))
     \<and> (state t' = TEST_END \<and> state t \<noteq> TEST_END \<longrightarrow> sends_stopped t'))"

lemma client_turn_moves:
  shows "post (client_turn h rt v ((t, w), s)) (client_moved t)"
proof -
  have hm: "post (iperf_handle_message_client h ((t, w), s)) Q"
    if "0 \<le> ctrl_sck t" "\<And>r t' w' s'. 0 \<le> r \<longrightarrow> state t' \<in> set (told_next (state t)) \<Longrightarrow> Q (r, (t', w'), s')" for w Q
    by (rule post_mono [OF client_handle_moves [OF that(1)]]) (auto intro: that(2))
  have cr: "post (client_running h v ((u, w), s)) (client_moved t)"
    if "state u = TEST_RUNNING" for v u w s
    by (rule post_mono [OF client_running_moves [OF that]]) (auto simp: client_moved_def client_next_def told_next_def)
  have go: "client_moved t (Go_on, v, ((u, w), s))" if "state u \<in> set (told_next (state t))" for v u w s
    using that by (auto simp: client_moved_def client_next_def told_next_def)
  have stay: "state t \<in> set (told_next (state t))" by (simp add: told_next_def)
  have fi: "post (fd_isset f rs) Q" if "0 \<le> f \<Longrightarrow> (\<And>b. Q b)" for f rs Q
    using that by (auto simp: fd_isset_def)
  have cl: "client_moved t (Clean_up, v, a)" for v a by (auto simp: client_moved_def)
  show ?thesis
    unfolding client_turn_def
    by (auto simp: Let_def cl stay intro!: hm cr go fi post_any [where m = "iperf_time_now x w" for x w]
        post_any [where m = "tmr_timeout x y z" for x y z] post_any [where m = "select_sets a b c w" for a b c w]
        post_any [where m = "client_idle a b c w" for a b c w])
qed

end
