(* ===== verification/Iperf_Error_Report.thy ===== *)
theory Iperf_Error_Report
  imports Iperf_Server_Ok
begin

text \<open>
  How an error of the server gets to the client: the nine bytes that send_server_error of
  Iperf_Control writes and that read_server_error of Iperf_Client reads.
\<close>

section \<open>Reads and writes, once more\<close>

lemma nrecv_loop_short:
  "nrecv_loop f count so nleft buf ft w = Some (r, got, w') \<Longrightarrow> nleft \<le> count \<Longrightarrow> length buf = count - nleft
    \<Longrightarrow> r < 0 \<Longrightarrow> length got < count"
proof (induction f count so nleft buf ft w arbitrary: r got w' rule: nrecv_loop.induct)
  case (1 f count so nleft buf ft w)
  show ?case
  proof (cases "nleft = 0")
    case True
    with 1 show ?thesis by (simp add: nrecv_loop.simps [of f count so 0])
  next
    case False
    then obtain r1 bs w1 where rd: "recv_or_read f nleft so w = Some (r1, bs, w1)"
      using 1(2) by (subst (asm) nrecv_loop.simps) (auto split: option.splits prod.splits)
    note s1 = recv_or_read_Some [OF rd]
    show ?thesis
    proof (cases "r1 \<le> 0 \<or> length bs = nleft")
      case True
      with False rd s1 1(2-5) show ?thesis
        by (subst (asm) nrecv_loop.simps) (auto simp: Let_def split: if_splits)
    next
      case more: False
      then have cp: "bytes_copied r1 nleft so = length bs" "length bs < nleft" using s1 by auto
      then obtain stop ft1 w2 where wt: "nrecv_wait f ft w1 = Some (stop, ft1, w2)"
        using 1(2) rd False more
        by (subst (asm) nrecv_loop.simps) (auto split: option.splits prod.splits simp: Let_def)
      have len: "length (buf @ bs) = count - (nleft - length bs)" using cp(2) 1(3,4) by simp
      show ?thesis
      proof (cases stop)
        case (Some res)
        with False rd more cp wt 1(2-5) show ?thesis
          by (subst (asm) nrecv_loop.simps) (auto simp: Let_def split: if_splits)
      next
        case None
        with 1(2) rd False more cp wt
        have "nrecv_loop f count so (nleft - length bs) (buf @ bs) ft1 w2 = Some (r, got, w')"
          by (subst (asm) nrecv_loop.simps) (simp add: Let_def)
        from 1(1) [OF False rd refl _ _ _ refl refl _ wt refl None] this len 1(3-5) cp more show ?thesis
          by simp
      qed
    qed
  qed
qed

text \<open>Neither touches the error code of the program.\<close>

lemma calls_keep:
  "sys_read f n w = Some (r, bs, w') \<Longrightarrow> i_errno w' = i_errno w" "sys_recv f n so w = Some (r, bs, w') \<Longrightarrow> i_errno w' = i_errno w"
  "sys_select f w = Some (r, w') \<Longrightarrow> i_errno w' = i_errno w" "iperf_time_now x w = Some (r, y, w') \<Longrightarrow> i_errno w' = i_errno w"
  by (cases "replies w"; cases "hd (replies w)"; auto simp: sys_defs next_reply_def Let_def split: prod.splits)+

lemma read_keeps:
  "recv_or_read f n so w = Some (r, bs, w') \<Longrightarrow> i_errno w' = i_errno w"
  "nrecv_wait f ft w = Some (stop, ft', w') \<Longrightarrow> i_errno w' = i_errno w"
  by (auto simp: recv_or_read_def nrecv_wait_def Let_def Option.bind_eq_Some_conv split: if_splits dest!: calls_keep)

lemma nrecv_loop_keeps:
  "nrecv_loop f count so nleft buf ft w = Some (r, got, w') \<Longrightarrow> i_errno w' = i_errno w"
proof (induction f count so nleft buf ft w arbitrary: r got w' rule: nrecv_loop.induct)
  case (1 f count so nleft buf ft w)
  note run = 1(2) [unfolded nrecv_loop.simps [of f count so nleft buf ft w]]
  show ?case
  proof (cases "nleft = 0")
    case False
    with run obtain r1 bs w1 where rd: "recv_or_read f nleft so w = Some (r1, bs, w1)" by (auto split: option.splits)
    note k = read_keeps(1) [OF rd]
    show ?thesis
    proof (cases "r1 \<le> 0 \<or> nleft - bytes_copied r1 nleft so = 0")
      case True
      with run False rd k show ?thesis by (auto simp: Let_def split: if_splits)
    next
      case pos: False
      with run False rd obtain stop ft1 w2 where wt: "nrecv_wait f ft w1 = Some (stop, ft1, w2)"
        by (auto simp: Let_def split: option.splits)
      note k2 = read_keeps(2) [OF wt]
      show ?thesis
      proof (cases stop)
        case (Some res)
        with run False rd pos wt k k2 show ?thesis by (auto simp: Let_def)
      next
        case None
        with run False rd pos wt
        have "nrecv_loop f count so (nleft - bytes_copied r1 nleft so) (buf @ bs) ft1 w2 = Some (r, got, w')" by (simp add: Let_def)
        from 1(1) [OF False rd refl _ _ _ refl refl _ wt refl None] this k k2 pos show ?thesis by simp
      qed
    qed
  qed (use run in simp)
qed

lemma Nread_keeps: "Nread f n p w = Some (r, got, w') \<Longrightarrow> i_errno w' = i_errno w"
proof -
  assume "Nread f n p w = Some (r, got, w')"
  then obtain r1 w1 where s: "sys_select f w = Some (r1, w1)" "w' = w1 \<or> nrecv_loop f n 0 n [] \<lparr>secs = 0, usecs = 0\<rparr> w1 = Some (r, got, w')"
    by (auto simp: Nread_def Nrecv_def Option.bind_eq_Some_conv split: if_splits)
  with calls_keep(3) [OF s(1)] nrecv_loop_keeps show ?thesis by metis
qed

lemma Nread_full:
  assumes "Nread f n p w = Some (r, got, w')" "length got = n" "0 < n"
  shows "r = int n"
proof (rule ccontr)
  assume "r \<noteq> int n"
  then have neg: "r < 0" using Nread_done [OF assms(1)] assms(2) by auto
  obtain w1 where "nrecv_loop f n 0 n [] \<lparr>secs = 0, usecs = 0\<rparr> w1 = Some (r, got, w')"
    using assms by (auto simp: Nread_def Nrecv_def Option.bind_eq_Some_conv split: if_splits)
  from nrecv_loop_short [OF this] neg assms(2) show False by simp
qed

lemma sys_write_keeps: "sys_write f b w = Some (r, w') \<Longrightarrow> i_errno w' = i_errno w"
  by (cases "replies w"; cases "hd (replies w)") (auto simp: sys_write_def next_reply_def emit_def Let_def)

lemma nwrite_loop_keeps: "nwrite_loop f buf count nleft w = Some (r, w') \<Longrightarrow> i_errno w' = i_errno w"
proof (induction f buf count nleft w arbitrary: r w' rule: nwrite_loop.induct)
  case (1 f buf count nleft w)
  note run = 1(2) [unfolded nwrite_loop.simps [of f buf count nleft w]]
  show ?case
  proof (cases "nleft = 0")
    case True
    with run show ?thesis by simp
  next
    case False
    with run obtain r1 w1 where w1: "sys_write f (take nleft buf) w = Some (r1, w1)" by (auto split: option.splits)
    show ?thesis
    proof (cases "r1 \<le> 0")
      case True
      with run False w1 sys_write_keeps [OF w1] show ?thesis by (auto split: if_splits)
    next
      case pos: False
      with run False w1 have "nwrite_loop f (drop (nat r1) buf) count (nleft - nat r1) w1 = Some (r, w')" by simp
      from 1(1) [OF False w1 refl _ _ this] pos sys_write_keeps [OF w1] show ?thesis by simp
    qed
  qed
qed

text \<open>The bytes put on a descriptor, and taken from it, since a world v.\<close>

definition has_sent :: "fd \<Rightarrow> world \<Rightarrow> u8 list \<Rightarrow> world \<Rightarrow> bool" where
  "has_sent f v bs w \<longleftrightarrow> only_writes f v w \<and> bytes_written f (events v w) = bs"

definition has_taken :: "fd \<Rightarrow> world \<Rightarrow> u8 list \<Rightarrow> world \<Rightarrow> bool" where
  "has_taken f v bs w \<longleftrightarrow> later v w \<and> bytes_read f (events v w) = bs"

lemma sent_start: "has_sent f w [] w"
  by (simp add: has_sent_def only_writes_def)

lemma took_start: "has_taken f w [] w"
  by (simp add: has_taken_def)

lemma sent_frames [simp]: "has_sent f v bs (w\<lparr>i_errno := e\<rparr>) = has_sent f v bs w" "has_sent f v bs (w\<lparr>errno := e\<rparr>) = has_sent f v bs w"
  by (simp_all add: has_sent_def only_writes_def later_def events_def)

lemma took_frames [simp]: "has_taken f v bs (w\<lparr>i_errno := e\<rparr>) = has_taken f v bs w" "has_taken f v bs (w\<lparr>errno := e\<rparr>) = has_taken f v bs w"
  by (simp_all add: has_taken_def later_def events_def)

lemma sent_Nwrite:
  assumes h: "has_sent f v bs w" "n \<le> length buf"
    and Q: "\<And>r k w'. has_sent f v (bs @ take k buf) w' \<Longrightarrow> i_errno w' = i_errno w \<Longrightarrow> Q (r, w')"
  shows "post (Nwrite f buf n p w) Q"
proof (rule post_2I)
  fix r w' assume run: "Nwrite f buf n p w = Some (r, w')"
  obtain k where k: "bytes_written f (events w w') = take k buf" using Nwrite_prefix [OF run h(2)] by auto
  have "only_writes f v w'" using only_writes_trans Nwrite_writes [OF run] h(1) unfolding has_sent_def by blast
  moreover have "events v w' = events v w @ events w w'"
    using h(1) Nwrite_writes [OF run] by (intro events_append) (simp_all add: has_sent_def only_writes_def)
  ultimately have "has_sent f v (bs @ take k buf) w'" using h(1) k by (simp add: has_sent_def)
  then show "Q (r, w')" using nwrite_loop_keeps run unfolding Nwrite_def by (blast intro: Q)
qed

section \<open>The report\<close>

lemma sint_i32: "i32 n \<Longrightarrow> sint (word_of_int n :: u32) = n"
  by (simp add: i32_def sint_sbintrunc' signed_take_bit_int_eq_self)

text \<open>What the server puts on the connection: the state and the two numbers, each cut short when its
  write is.\<close>

lemma server_error_writes:
  assumes c: "0 \<le> ctrl_sck t"
  shows "post (send_server_error ie t w) (\<lambda>(r, t', w'). t' = t\<lparr>state := SERVER_ERROR\<rparr> \<and> (\<exists>n i j k. has_sent (ctrl_sck t) w
    (take i [state_byte SERVER_ERROR] @ take j (be32 (word_of_int (case ie of None \<Rightarrow> i_errno w | Some e \<Rightarrow> e)))
      @ take k (be32 n)) w'))"
proof -
  let ?e = "be32 (word_of_int (case ie of None \<Rightarrow> i_errno w | Some e \<Rightarrow> e))"
  have l: "length (be32 n) = 4" for n by (simp add: be32_def)
  have one: "post (iperf_set_send_state t SERVER_ERROR w) Q"
    if "\<And>r i w'. has_sent (ctrl_sck t) w (take i [state_byte SERVER_ERROR]) w' \<Longrightarrow> (r = 0 \<longrightarrow> i_errno w' = i_errno w)
        \<Longrightarrow> Q (r, t\<lparr>state := SERVER_ERROR\<rparr>, w')" for Q
    unfolding iperf_set_send_state_def using c
    by (auto simp: Let_def intro!: sent_Nwrite [OF sent_start] that)
  have ex: "\<exists>n i j k. has_sent f w (take i a @ take j b @ take k (be32 n)) w'"
    if "has_sent f w (take i a) w' \<or> has_sent f w (take i a @ take j b) w' \<or> has_sent f w (take i a @ take j b @ take k (be32 n)) w'"
    for f i a j b k n w'
    using that
  proof (elim disjE)
    assume "has_sent f w (take i a) w'"
    then have "has_sent f w (take i a @ take 0 b @ take 0 (be32 0)) w'" by simp
    then show ?thesis by blast
  next
    assume "has_sent f w (take i a @ take j b) w'"
    then have "has_sent f w (take i a @ take j b @ take 0 (be32 0)) w'" by simp
    then show ?thesis by blast
  qed blast
  show ?thesis
    unfolding send_server_error_def
    by (rule one [THEN post_bind [THEN iffD2]])
      (auto simp: Let_def l split: option.split intro!: sent_Nwrite intro: ex)
qed

lemma nine_bytes: "length (take i [x] @ take j (be32 a) @ take k (be32 b)) = 9
    \<Longrightarrow> take i [x] @ take j (be32 a) @ take k (be32 b) = x # be32 a @ be32 b"
  by (cases i) (auto simp: be32_def min_def split: if_splits)

text \<open>What the client makes of a report it has read in full.\<close>

lemma rd_err_full [simp]: "length y \<le> 4 \<Longrightarrow> rd_err (be32 x) y = be32 x"
  by (simp add: rd_err_def be32_def)

lemma read_server_error_full:
  assumes run: "read_server_error c w = Some (r, c', w')" and b: "bytes_read (ctrl_sck c) (events w w') = be32 a @ be32 b"
  shows "r = -1 \<and> c' = c \<and> i_errno w' = sint a \<and> errno w' = sint b"
proof -
  let ?f = "ctrl_sck c"
  have l: "length (be32 n) = 4" for n by (simp add: be32_def)
  have same: "bytes_read f (events u (v\<lparr>i_errno := e\<rparr>)) = bytes_read f (events u v)"
    "bytes_read f (events u (v\<lparr>errno := e\<rparr>)) = bytes_read f (events u v)" for f u v e by (simp_all add: events_def)
  obtain r1 g1 w1 where 1: "Nread ?f 4 Ptcp w = Some (r1, g1, w1)"
    using run by (auto simp: read_server_error_def Option.bind_eq_Some_conv)
  note d1 = Nread_done [OF 1]
  have "\<not> r1 < 0"
  proof
    assume "r1 < 0"
    with run 1 have "bytes_read ?f (events w w') = g1" using d1 by (auto simp: read_server_error_def same)
    with b have "length g1 = length (be32 a) + length (be32 b)" by (simp only: length_append)
    with d1(3) l show False by simp
  qed
  define v where "v = w1\<lparr>i_errno := sint (rd32 (rd_err g1 (replicate 4 0)))\<rparr>"
  obtain r2 g2 w2 where 2: "Nread ?f 4 Ptcp v = Some (r2, g2, w2)"
    using run 1 \<open>\<not> r1 < 0\<close> by (auto simp: read_server_error_def Let_def Option.bind_eq_Some_conv v_def)
  note d2 = Nread_done [OF 2]
  have lv: "later w1 w2" "events v w2 = events w1 w2" using d2(1) by (simp_all add: v_def later_def events_def)
  have "bytes_read ?f (events w w') = bytes_read ?f (events w w2)"
    using run 1 2 \<open>\<not> r1 < 0\<close> by (auto simp: read_server_error_def v_def [symmetric] Let_def same split: if_splits)
  then have g: "g1 @ g2 = be32 a @ be32 b" using b d1(2) d2(2) events_append [OF d1(1) lv(1)] lv(2) by simp
  then have "length g1 + length g2 = length (be32 a) + length (be32 b)" by (metis length_append)
  with d1(3) d2(3) l have len: "length g1 = 4" "length g2 = 4" by simp_all
  with g l have g12: "g1 = be32 a" "g2 = be32 b" by simp_all
  have "\<not> r2 < 0" using Nread_full [OF 2 len(2)] by simp
  then have "r = -1 \<and> c' = c \<and> w' = w2\<lparr>errno := sint b\<rparr>"
    using run 1 2 [unfolded v_def] \<open>\<not> r1 < 0\<close> by (auto simp: read_server_error_def Let_def g12 l)
  moreover have "i_errno w2 = sint a" using Nread_keeps [OF 2] by (simp add: v_def g12)
  ultimately show ?thesis by simp
qed

lemma client_reads_report:
  assumes run: "iperf_handle_message_client h ((c, v), s) = Some (q, ((c', v'), s'))"
    and first: "sys_read (ctrl_sck c) 1 v = Some (r0, [state_byte SERVER_ERROR], v1)"
    and b: "bytes_read (ctrl_sck c) (events v v') = state_byte SERVER_ERROR # be32 x @ be32 y"
  shows "q = -1 \<and> c' = c\<lparr>state := SERVER_ERROR\<rparr> \<and> i_errno v' = sint x \<and> errno v' = sint y"
proof -
  have bs: "byte_state (state_byte SERVER_ERROR) = SERVER_ERROR" by (rule state_roundtrip) simp_all
  have rd: "read_server_error (c\<lparr>state := SERVER_ERROR\<rparr>) v1 = Some (q, c', v')"
    using run first bs by (auto simp: iperf_handle_message_client_def client_message_def on_sys_def Option.bind_eq_Some_conv)
  note s1 = sys_read_Some [OF first]
  have "post (read_server_error u v1) (\<lambda>(r, u', w'). later v1 w')" for u
    unfolding read_server_error_def Let_def
    by (auto intro!: post_3I dest!: Nread_done(1) simp: later_def)
  from postD [OF this rd] have "events v v' = events v v1 @ events v1 v'"
    using s1 by (intro events_append) auto
  with b s1 have "bytes_read (ctrl_sck c) (events v1 v') = be32 x @ be32 y" by auto
  with read_server_error_full [OF rd] show ?thesis by simp
qed

end
