(* ===== verification/Iperf_Main.thy ===== *)
theory Iperf_Main
  imports Iperf_Server_Ok Iperf_Reset
begin

text \<open>
  The process around the tests: run of src/main.c with the file of the process id (iperf_create_pidfile,
  iperf_delete_pidfile of iperf_api.c), the endless loop of a server over its clients, and the exit of
  iperf_error.c. A signal ends the process by iperf_got_sigend (Iperf_Control); it is not part of
  these runs. The printed messages are left out.
\<close>

section \<open>The file of the process id\<close>

text \<open>atoi reads the buffer up to the first byte that does not belong to a number, which may lie behind
  what was read into it; stack is what the buffer held before. The result None stands for the exit of
  the process because another one is running.\<close>

definition read_pid :: "u8 list \<Rightarrow> u8 list \<Rightarrow> int" where
  "read_pid stack got = atoi (congestion_name (got @ drop (length got) stack))"

definition another_runs :: "u8 list \<Rightarrow> fd \<Rightarrow> world \<Rightarrow> (bool \<times> world) option" where
  "another_runs stack f w = do {
     (n, got, w) \<leftarrow> sys_read f 7 w;
     if n \<ge> 0 \<and> read_pid stack got > 0 then do {
       (r, w) \<leftarrow> sys_val [] w;
       Some (r = 0, w) }
     else Some (False, w) }"

definition write_pid :: "u8 list \<Rightarrow> world \<Rightarrow> (int \<times> world) option" where
  "write_pid pid w = do {
     (f, w) \<leftarrow> sys_open w;
     if f < 0 then Some (-1, w)
     else do {
       (n, w) \<leftarrow> sys_write f pid w;
       if n < 0 then Some (-1, sys_close f w)
       else do {
         (r, w) \<leftarrow> sys_val [EvClose f] w;
         Some (if r < 0 then -1 else 0, w) } } }"

definition iperf_create_pidfile :: "u8 list \<Rightarrow> u8 list \<Rightarrow> iperf_test \<Rightarrow> world \<Rightarrow> (int option \<times> iperf_test \<times> world) option" where
  "iperf_create_pidfile stack pid t w =
     (if pidfile t = None then Some (Some 0, t, w)
      else do {
        (f, w) \<leftarrow> sys_open w;
        (other, w) \<leftarrow> (if f \<ge> 0 then another_runs stack f w else Some (False, w));
        if other then Some (None, t\<lparr>pidfile := None\<rparr>, w)
        else do {
          (r, w) \<leftarrow> write_pid pid (if f \<ge> 0 then sys_close f w else w);
          Some (Some r, t, w) } })"

definition iperf_delete_pidfile :: "iperf_test \<Rightarrow> world \<Rightarrow> (int \<times> world) option" where
  "iperf_delete_pidfile t w =
     (if pidfile t = None then Some (0, w) else do { (r, w) \<leftarrow> sys_val [] w; Some (if r < 0 then -1 else 0, w) })"

section \<open>The end of the process\<close>

text \<open>The exit status of the process with what it leaves behind.\<close>

type_synonym ending = "int \<times> sys"

definition iperf_exit :: "int \<Rightarrow> sys \<Rightarrow> ending option" where
  "iperf_exit exit_code = (\<lambda>((t, w), s). do {
     (_, w) \<leftarrow> iperf_delete_pidfile t w;
     Some (exit_code, ((t, w), s)) })"

section \<open>A server and its clients\<close>

text \<open>What follows a run of iperf_run_server with result rc.\<close>

datatype after = Serve_again | Leaves | Gives_up | Errexit | Exited

definition after_run :: "host \<Rightarrow> int \<Rightarrow> sys \<Rightarrow> (after \<times> sys) option" where
  "after_run e rc = (\<lambda>((t, w), s).
     let t = t\<lparr>server_last_run_rc := rc\<rparr> in
     if rc < 0 \<and> json_output t \<noteq> 0 \<and> json_finish e < 0 then Some (Gives_up, ((t, w), s))
     else if rc < -1 then Some (Errexit, ((t, w), s))
     else do {
       (t, s, w) \<leftarrow> iperf_reset_test t (s, w);
       Some (if one_off t \<noteq> 0 \<and> rc \<noteq> 2 \<and> \<not> (rc < 0 \<and> i_errno w = IEAUTHTEST) then Leaves else Serve_again,
             ((t, w), s)) })"

text \<open>The loop, with the environment and the schedule of every run. The result None stands for a server
  that is still running after all of them.\<close>

fun serve :: "(host \<times> server_schedule) list \<Rightarrow> sys \<Rightarrow> (after \<times> sys) option" where
  "serve [] a = None"
| "serve ((e, sched) # runs) a = do {
     (k, a) \<leftarrow> iperf_run_server e sched a;
     case k of
       Returns rc \<Rightarrow> do {
         (k, a) \<leftarrow> after_run e rc a;
         if k = Serve_again then serve runs a else Some (k, a) }
     | Exits \<Rightarrow> Some (Exited, a)
     | Next \<Rightarrow> None }"

section \<open>run\<close>

text \<open>What a process finds: the bytes on the stack, the digits of its own id, and the runs of a server or
  the schedule of a client.\<close>

record process =
  stack :: "u8 list"
  own_pid :: "u8 list"
  runs :: "(host \<times> server_schedule) list"
  client_host :: host
  client_schedule :: schedule

definition with_pidfile :: "process \<Rightarrow> (sys \<Rightarrow> ending option) \<Rightarrow> sys \<Rightarrow> ending option" where
  "with_pidfile p body = (\<lambda>((t, w), s). do {
     (r, t, w) \<leftarrow> iperf_create_pidfile (stack p) (own_pid p) t w;
     case r of
       None \<Rightarrow> iperf_exit 1 ((t, w), s)
     | Some r \<Rightarrow> if r < 0 then iperf_exit 1 ((t, w\<lparr>i_errno := IEPIDFILE\<rparr>), s) else body ((t, w), s) })"

definition run_server :: "process \<Rightarrow> sys \<Rightarrow> ending option" where
  "run_server p = (\<lambda>((t, w), s). do {
     (r, w) \<leftarrow> (if daemon t \<noteq> 0 then sys_val [] w else Some (0, w));
     if r < 0 then iperf_exit 1 ((t, w\<lparr>i_errno := IEDAEMON\<rparr>), s)
     else with_pidfile p (\<lambda>a. do {
       (k, a) \<leftarrow> serve (runs p) a;
       case k of
         Leaves \<Rightarrow> iperf_exit 0 a
       | Exited \<Rightarrow> Some (0, a)
       | _ \<Rightarrow> iperf_exit 1 a }) ((t, w), s) })"

definition run_client :: "process \<Rightarrow> sys \<Rightarrow> ending option" where
  "run_client p = with_pidfile p (\<lambda>a. do {
     (r, a) \<leftarrow> iperf_run_client (client_host p) (client_schedule p) a;
     iperf_exit (if r < 0 then 1 else 0) a })"

definition run :: "process \<Rightarrow> sys \<Rightarrow> ending option" where
  "run p a = (let r = role (fst (fst a)) in
     if r = CHR ''s'' then run_server p a else if r = CHR ''c'' then run_client p a else Some (0, a))"

section \<open>From one client to the next\<close>

text \<open>A test in which nothing of a client is left.\<close>

definition awaits_client :: "iperf_test \<Rightarrow> bool" where
  "awaits_client t \<longleftrightarrow> streams t = [] \<and> (\<forall>p. handle_of p t = None) \<and> ctrl_sck t = -1 \<and> listener t = -1
     \<and> prot_listener t = -1 \<and> read_set t = [] \<and> write_set t = [] \<and> test_done t = 0 \<and> summary_printed t = 0
     \<and> role t = CHR ''s'' \<and> mode t = RECEIVER \<and> reverse t = 0 \<and> bidirectional t = 0
     \<and> test_bytes_sent t = 0 \<and> test_bytes_received t = 0 \<and> blocks_sent t = 0 \<and> blocks_received t = 0
     \<and> bitrate_limit_exceeded t = 0"

lemma all_timer_name: "(\<forall>p. P p) \<longleftrightarrow> P Test_timer \<and> P Stats_timer \<and> P Reporter_timer \<and> P Omit_timer"
  by (metis timer_name.exhaust)

lemma cancel_timers_None: "cancel_timers t s = Some (t', s') \<Longrightarrow> handle_of p t' = None"
  by (auto simp: cancel_timers_def handle_of_def Option.bind_eq_Some_conv split: timer_name.split)

lemma reset_awaits:
  assumes "iperf_reset_test t (s, w) = Some (t', s', w')"
  shows "awaits_client t'" "fds w' = fds w - stream_fds (streams t) - quic_fds w" "one_off t' = one_off t"
proof -
  from assms obtain s1 w1 where f: "free_streams t (streams t) (s, w) = Some (s1, w1)"
    by (auto simp: iperf_reset_test_def Option.bind_eq_Some_conv)
  obtain t2 w2 where q2: "iperf_quic_reset_test t w1 = (t2, w2)" by fastforce
  from assms f q2 obtain t1 where c: "cancel_timers t2 s1 = Some (t1, s')" and t: "t' = reset_fields t1" and "w2 = w'"
    by (auto simp: iperf_reset_test_def Option.bind_eq_Some_conv)
  with q2 have q: "iperf_quic_reset_test t w1 = (t2, w')" by simp
  have h: "handle_of p (reset_fields t1) = None" for p
    using cancel_timers_None [OF c, of p]
    by (cases p) (simp_all add: handle_of_def reset_fields_def set_protocol_def get_protocol_def Let_def check_sender_has_retransmits_def)
  have "one_off t2 = one_off t"
    using q by (auto simp: iperf_quic_reset_test_def iperf_quic_free_test_def Let_def split: option.splits)
  with c have "one_off t1 = one_off t" by (auto simp: cancel_timers_def Option.bind_eq_Some_conv)
  with h show "awaits_client t'" "one_off t' = one_off t" unfolding t awaits_client_def
    by (simp_all add: reset_fields_def set_protocol_def get_protocol_def Let_def check_sender_has_retransmits_def)
  have "fds w' = fds w1 - quic_fds w1" using quic_free_test_fds [of t w1] q by (simp add: iperf_quic_reset_test_def)
  with free_streams_fds [OF f] show "fds w' = fds w - stream_fds (streams t) - quic_fds w" by simp
qed

text \<open>The reset finds threads joined and sockets closed, so that it forgets nothing that is in use.\<close>

lemma serve_again:
  assumes run: "iperf_run_server e sched ((t, w), s) = Some (Returns rc, ((t1, w1), s1))"
    and again: "after_run e rc ((t1, w1), s1) = Some (Serve_again, ((t', w'), s'))"
    and e: "logfile t = None \<or> 0 \<le> log_open e"
      "0 \<le> json_finish e"
  shows "cleaned ((t1, w1), s1)" "awaits_client t'" "fds w' = fds w1 - stream_fds (streams t1) - quic_fds w1" "-1 \<le> rc"
    "one_off t1 \<noteq> 0 \<Longrightarrow> rc = 2 \<or> rc = -1 \<and> i_errno w' = IEAUTHTEST"
proof -
  show "cleaned ((t1, w1), s1)" using postD [OF clean_run [OF e] run] by simp
  have r: "\<not> rc < -1" "iperf_reset_test (t1\<lparr>server_last_run_rc := rc\<rparr>) (s1, w1) = Some (t', s', w')"
    "\<not> (one_off t' \<noteq> 0 \<and> rc \<noteq> 2 \<and> \<not> (rc < 0 \<and> i_errno w' = IEAUTHTEST))"
    using again by (auto simp: after_run_def Let_def Option.bind_eq_Some_conv split: if_splits)
  from reset_awaits [OF r(2)] r(1,3) show "awaits_client t'" "fds w' = fds w1 - stream_fds (streams t1) - quic_fds w1" "-1 \<le> rc"
    "one_off t1 \<noteq> 0 \<Longrightarrow> rc = 2 \<or> rc = -1 \<and> i_errno w' = IEAUTHTEST" by auto
qed

end
