(* ===== verification/Iperf_Report.thy ===== *)
theory Iperf_Report
  imports Iperf_Timer_Procs Iperf_Json Iperf_Params
begin

text \<open>
  The reports as JSON (-J): iperf_json_printf of iperf_util.c, and what print_interval_results,
  iperf_print_intermediate and iperf_print_results of iperf_api.c add to the output. The text output of
  the same functions is left out. Sums of signed counters are taken not to overflow; the byte counts
  are 64-bit words, converted to signed as the code does.
\<close>

section \<open>iperf_json_printf\<close>

datatype json_arg = B int | D int | F real | S string

fun arg_json :: "char \<Rightarrow> json_arg \<Rightarrow> json option" where
  "arg_json c (B n) = (if c = CHR ''b'' then Some (JBool (n \<noteq> 0)) else None)"
| "arg_json c (D n) = (if c = CHR ''d'' then Some (JNumber (of_int n)) else None)"
| "arg_json c (F x) = (if c = CHR ''f'' then Some (JNumber x) else None)"
| "arg_json c (S s) = (if c = CHR ''s'' then Some (JString s) else None)"

text \<open>The loop over the format: the characters of the name so far, whether a colon has ended it, the
  arguments that are left and the members so far, the last one first. A name that is not ended, or an
  argument of another type than the format says, is undefined.\<close>

fun json_printf :: "string \<Rightarrow> string \<Rightarrow> bool \<Rightarrow> json_arg list \<Rightarrow> (string \<times> json) list \<Rightarrow> json option" where
  "json_printf [] name ended args ms = Some (JObject (rev ms))"
| "json_printf (c # cs) name ended args ms =
     (if c = CHR '' '' then json_printf cs name ended args ms
      else if c = CHR '':'' then json_printf cs name True args ms
      else if c = CHR ''%'' then
        (case (cs, args) of
           (k # cs', a # args') \<Rightarrow>
             if ended then
               (case arg_json k a of
                  Some j \<Rightarrow> json_printf cs' [] False args' ((rev name, j) # ms)
                | None \<Rightarrow> None)
             else None
         | _ \<Rightarrow> None)
      else if ended then None
      else json_printf cs (c # name) False args ms)"

definition iperf_json_printf :: "string \<Rightarrow> json_arg list \<Rightarrow> json option" where
  "iperf_json_printf format args = json_printf format [] False args []"

text \<open>cJSON_AddItemToObject, to an object that is read as its list of members. It adds nothing when the
  item is NULL.\<close>

definition member :: "string \<Rightarrow> json option \<Rightarrow> (string \<times> json) list" where
  "member k j = (case j of None \<Rightarrow> [] | Some j \<Rightarrow> [(k, j)])"

section \<open>An interval\<close>

definition stream_protocol :: "iperf_test \<Rightarrow> bool" where
  "stream_protocol t \<longleftrightarrow> protocol t = Ptcp \<or> protocol t = Psctp \<or> protocol t = Pquic"

text \<open>Bytes per second, 0 when no time has passed.\<close>

definition rate_of :: "u64 \<Rightarrow> real \<Rightarrow> real" where
  "rate_of n seconds = (if seconds > 0 then real (unat n) / seconds else 0)"

definition percent :: "int \<Rightarrow> int \<Rightarrow> real" where
  "percent lost packets = (if packets > 0 then 100 * real_of_int lost / real_of_int packets else 0)"

definition since :: "iperf_stream \<Rightarrow> iperf_time \<Rightarrow> real" where
  "since sp now = iperf_time_in_secs (snd (iperf_time_diff (start_time (result sp)) now))"

definition print_interval_results :: "iperf_test \<Rightarrow> iperf_stream \<Rightarrow> json option" where
  "print_interval_results t sp =
     (case last_interval (result sp) of
        None \<Rightarrow> None
      | Some ir \<Rightarrow>
          let bandwidth = rate_of (bytes_transferred ir) (interval_duration ir);
              st = since sp (interval_start_time ir); et = since sp (interval_end_time ir)
          in if stream_protocol t then
               (if (sender_has_retransmits t = 1 \<or> protocol t = Psctp) \<and> sender sp \<noteq> 0
                then iperf_json_printf ''socket: %d  start: %f  end: %f  seconds: %f  bytes: %d  bits_per_second: %f  retransmits: %d  snd_cwnd:  %d  snd_wnd:  %d  rtt:  %d  rttvar: %d  pmtu: %d  reorder: %d  omitted: %b sender: %b''
                  [D (socket sp), F st, F et, F (interval_duration ir), D (sint (bytes_transferred ir)), F (bandwidth * 8),
                   D (interval_retrans ir), D (snd_cwnd ir), D (snd_wnd ir), D (rtt ir), D (rttvar ir), D (pmtu ir),
                   D (reorder ir), B (omitted ir), B (sender sp)]
                else iperf_json_printf ''socket: %d  start: %f  end: %f  seconds: %f  bytes: %d  bits_per_second: %f  omitted: %b sender: %b''
                  [D (socket sp), F st, F et, F (interval_duration ir), D (sint (bytes_transferred ir)), F (bandwidth * 8),
                   B (omitted ir), B (sender sp)])
             else if sender sp \<noteq> 0
             then iperf_json_printf ''socket: %d  start: %f  end: %f  seconds: %f  bytes: %d  bits_per_second: %f  packets: %d  omitted: %b sender: %b''
                  [D (socket sp), F st, F et, F (interval_duration ir), D (sint (bytes_transferred ir)), F (bandwidth * 8),
                   D (interval_packet_count ir), B (omitted ir), B (sender sp)]
             else iperf_json_printf ''socket: %d  start: %f  end: %f  seconds: %f  bytes: %d  bits_per_second: %f  jitter_ms: %f  lost_packets: %d  packets: %d  lost_percent: %f  omitted: %b sender: %b''
                  [D (socket sp), F st, F et, F (interval_duration ir), D (sint (bytes_transferred ir)), F (bandwidth * 8),
                   F (ir_jitter ir * 1000), D (interval_cnt_error ir), D (interval_packet_count ir),
                   F (percent (interval_cnt_error ir) (interval_packet_count ir)), B (omitted ir), B (sender sp)])"

section \<open>The interval report\<close>

text \<open>The passes of the reports over the streams, each for the streams that send or those that receive.\<close>

definition passes :: "iperf_test \<Rightarrow> bool list" where
  "passes t = (case mode t of
     BIDIRECTIONAL \<Rightarrow> (if role t = CHR ''c'' then [True, False] else [False, True])
   | SENDER \<Rightarrow> [True]
   | RECEIVER \<Rightarrow> [False])"

definition in_pass :: "bool \<Rightarrow> iperf_stream \<Rightarrow> bool" where
  "in_pass must_send sp \<longleftrightarrow> sender sp = (if must_send then 1 else 0)"

definition reverse_name :: "iperf_test \<Rightarrow> bool \<Rightarrow> string \<Rightarrow> string" where
  "reverse_name t must_send name =
     (if mode t = BIDIRECTIONAL \<and> (role t = CHR ''c'' \<longleftrightarrow> \<not> must_send) then name @ ''_bidir_reverse'' else name)"

definition interval_counts :: "iperf_test \<Rightarrow> iperf_stream \<Rightarrow> bool" where
  "interval_counts t sp =
     (case last_interval (result sp) of
        None \<Rightarrow> False
      | Some ir \<Rightarrow>
          iperf_time_in_secs (snd (iperf_time_diff (interval_start_time ir) (interval_end_time ir))) \<ge> stats_interval t * 0.1
          \<or> bytes_transferred ir > 0)"

record interval_sums =
  sum_bytes :: u64
  sum_retransmits :: int
  sum_packets :: int
  sum_lost :: int
  sum_jitter :: real

definition no_sums :: interval_sums where
  "no_sums = \<lparr>sum_bytes = 0, sum_retransmits = 0, sum_packets = 0, sum_lost = 0, sum_jitter = 0\<rparr>"

definition add_interval :: "iperf_test \<Rightarrow> iperf_interval_results \<Rightarrow> interval_sums \<Rightarrow> interval_sums" where
  "add_interval t ir x =
     (let x = x\<lparr>sum_bytes := sum_bytes x + bytes_transferred ir\<rparr> in
      if protocol t = Ptcp
      then (if sender_has_retransmits t = 1 then x\<lparr>sum_retransmits := sum_retransmits x + interval_retrans ir\<rparr> else x)
      else x\<lparr>sum_packets := sum_packets x + interval_packet_count ir, sum_lost := sum_lost x + interval_cnt_error ir,
             sum_jitter := sum_jitter x + ir_jitter ir\<rparr>)"

text \<open>The streams of a pass: their reports, and the sums unless a stream without an interval ends the
  whole report.\<close>

fun interval_pass :: "iperf_test \<Rightarrow> iperf_stream list \<Rightarrow> interval_sums \<Rightarrow> json list \<times> interval_sums option" where
  "interval_pass t [] x = ([], Some x)"
| "interval_pass t (sp # sps) x =
     (case last_interval (result sp) of
        None \<Rightarrow> ([], None)
      | Some ir \<Rightarrow> (case interval_pass t sps (add_interval t ir x) of
          (js, y) \<Rightarrow> ((case print_interval_results t sp of None \<Rightarrow> js | Some j \<Rightarrow> j # js), y)))"

text \<open>The sum over the streams. The code divides by the duration and the number of streams without a
  check; None stands for a zero there, and for the interval of a first stream that has none.\<close>

definition interval_sum :: "iperf_test \<Rightarrow> bool \<Rightarrow> interval_sums \<Rightarrow> json option option" where
  "interval_sum t must_send x =
     (case streams t of
        [] \<Rightarrow> Some None
      | sp # _ \<Rightarrow> do {
          ir \<leftarrow> last_interval (result sp);
          if interval_duration ir = 0 \<or> num_streams t = 0 then None
          else
            (let bandwidth = real (unat (sum_bytes x)) / interval_duration ir;
                 times = [F (since sp (interval_start_time ir)), F (since sp (interval_end_time ir)), F (interval_duration ir),
                          D (sint (sum_bytes x)), F (bandwidth * 8)];
                 flag = B (if must_send then 1 else 0)
             in Some (
               if stream_protocol t then
                 (if sender_has_retransmits t = 1 \<and> must_send
                  then iperf_json_printf ''start: %f  end: %f  seconds: %f  bytes: %d  bits_per_second: %f  retransmits: %d  omitted: %b sender: %b''
                    (times @ [D (sum_retransmits x), B (omitted ir), flag])
                  else iperf_json_printf ''start: %f  end: %f  seconds: %f  bytes: %d  bits_per_second: %f  omitted: %b sender: %b''
                    (times @ [B (omitting t), flag]))
               else if must_send
               then iperf_json_printf ''start: %f  end: %f  seconds: %f  bytes: %d  bits_per_second: %f  packets: %d  omitted: %b sender: %b''
                    (times @ [D (sum_packets x), B (omitting t), flag])
               else iperf_json_printf ''start: %f  end: %f  seconds: %f  bytes: %d  bits_per_second: %f  jitter_ms: %f  lost_packets: %d  packets: %d  lost_percent: %f  omitted: %b sender: %b''
                    (times @ [F (sum_jitter x / real_of_int (num_streams t) * 1000), D (sum_lost x), D (sum_packets x),
                       F (percent (sum_lost x) (sum_packets x)), B (omitting t), flag]))) })"

text \<open>All passes, and whether they came to the end.\<close>

fun interval_passes :: "iperf_test \<Rightarrow> bool list \<Rightarrow> (json list \<times> (string \<times> json) list \<times> bool) option" where
  "interval_passes t [] = Some ([], [], True)"
| "interval_passes t (m # ms) =
     (case interval_pass t (filter (in_pass m) (streams t)) no_sums of
        (js, None) \<Rightarrow> Some (js, [], False)
      | (js, Some x) \<Rightarrow> do {
          s \<leftarrow> interval_sum t m x;
          (js', ms', all_done) \<leftarrow> interval_passes t ms;
          Some (js @ js', member (reverse_name t m ''sum'') s @ ms', all_done) })"

definition discard_json :: "iperf_test \<Rightarrow> bool" where
  "discard_json t \<longleftrightarrow> json_stream t = 1 \<and> json_stream_full_output t = 0
     \<and> \<not> (role t = CHR ''s'' \<and> get_server_output t \<noteq> 0)"

text \<open>With what test->json_intervals holds. The second result is the object that goes out at once with
  --json-stream.\<close>

definition iperf_print_intermediate :: "iperf_test \<Rightarrow> json list \<Rightarrow> (json list \<times> json option) option" where
  "iperf_print_intermediate t intervals =
     (if \<not> list_ex (interval_counts t) (streams t) then Some (intervals, None)
      else do {
        (js, totals, all_done) \<leftarrow> interval_passes t (passes t);
        let j = JObject ((''streams'', JArray js) # totals);
        Some (if discard_json t then intervals else intervals @ [j], if all_done \<and> json_stream t \<noteq> 0 then Some j else None) })"

section \<open>The summary\<close>

text \<open>What a pass sums up. The sender's time is part of it because a QUIC server changes it on the way.\<close>

record summary =
  total_sent :: u64
  total_received :: u64
  total_retransmits :: int
  total_packets :: int
  lost_packets :: int
  sender_total_packets :: int
  receiver_total_packets :: int
  total_jitter :: real
  sent_in :: real

definition no_summary :: "real \<Rightarrow> summary" where
  "no_summary secs_sent = \<lparr>total_sent = 0, total_received = 0, total_retransmits = 0, total_packets = 0, lost_packets = 0,
     sender_total_packets = 0, receiver_total_packets = 0, total_jitter = 0, sent_in = secs_sent\<rparr>"

text \<open>The packets and omitted packets of the sender and of the receiver of a stream.\<close>

definition sender_packets :: "iperf_stream \<Rightarrow> int \<times> int" where
  "sender_packets sp = (if sender sp \<noteq> 0 then (packet_count sp, omitted_packet_count sp)
     else (peer_packet_count sp, peer_omitted_packet_count sp))"

definition receiver_packets :: "iperf_stream \<Rightarrow> int \<times> int" where
  "receiver_packets sp = (if sender sp \<noteq> 0 then (peer_packet_count sp, peer_omitted_packet_count sp)
     else (packet_count sp, omitted_packet_count sp))"

definition reported_packets :: "iperf_stream \<Rightarrow> int" where
  "reported_packets sp = (if fst (sender_packets sp) \<noteq> 0 then fst (sender_packets sp) else fst (receiver_packets sp))"

definition stream_sent :: "iperf_stream \<Rightarrow> u64" where
  "stream_sent sp = bytes_sent (result sp) - bytes_sent_omit (result sp)"

definition add_summary :: "iperf_test \<Rightarrow> int \<Rightarrow> iperf_stream \<Rightarrow> summary \<Rightarrow> summary" where
  "add_summary t has_retr sp x =
     (let x = x\<lparr>total_sent := total_sent x + stream_sent sp, total_received := total_received x + bytes_received (result sp)\<rparr> in
      if stream_protocol t
      then (if has_retr \<noteq> 0 then x\<lparr>total_retransmits := total_retransmits x + stream_retrans (result sp)\<rparr> else x)
      else x\<lparr>total_packets := total_packets x + (reported_packets sp - omitted_packet_count sp),
             sender_total_packets := sender_total_packets x + (fst (sender_packets sp) - snd (sender_packets sp)),
             receiver_total_packets := receiver_total_packets x + (fst (receiver_packets sp) - snd (receiver_packets sp)),
             lost_packets := lost_packets x + cnt_error sp - (if omitted_cnt_error sp > -1 then omitted_cnt_error sp else 0),
             total_jitter := total_jitter x + jitter sp\<rparr>)"

text \<open>A QUIC server that has no counts of the sender shows those of the receiver.\<close>

definition quic_server_side :: "iperf_test \<Rightarrow> bool \<Rightarrow> bool" where
  "quic_server_side t sends \<longleftrightarrow> role t = CHR ''s'' \<and> protocol t = Pquic \<and> \<not> sends"

definition show_sent :: "iperf_test \<Rightarrow> real \<Rightarrow> iperf_stream \<Rightarrow> real \<Rightarrow> u64 \<times> real" where
  "show_sent t secs_received sp secs_sent =
     (if quic_server_side t (sender sp \<noteq> 0) \<and> (secs_sent \<le> 0 \<or> stream_sent sp = 0)
      then (bytes_received (result sp), secs_received) else (stream_sent sp, secs_sent))"

definition mean_rtt :: "iperf_stream_result \<Rightarrow> int" where
  "mean_rtt r = (if stream_count_rtt r = 0 then 0 else c_div (stream_sum_rtt r) (stream_count_rtt r))"

definition sender_report :: "iperf_test \<Rightarrow> bool \<Rightarrow> int \<Rightarrow> iperf_stream \<Rightarrow> u64 \<Rightarrow> real \<Rightarrow> (string \<times> json) list" where
  "sender_report t must_send has_retr sp sent secs_sent =
     (let r = result sp; flag = B (if must_send then 1 else 0);
          start = [D (socket sp), F 0, F secs_sent, F secs_sent, D (sint sent), F (rate_of sent secs_sent * 8)]
      in if stream_protocol t then
           member ''sender''
             (if has_retr \<noteq> 0 \<or> protocol t = Psctp
              then iperf_json_printf ''socket: %d  start: %f  end: %f  seconds: %f  bytes: %d  bits_per_second: %f  retransmits: %d  reorder:  %d  max_snd_cwnd:  %d  max_snd_wnd:  %d  max_rtt:  %d  min_rtt:  %d  mean_rtt:  %d sender: %b''
                (start @ [D (stream_retrans r), D (stream_reorder r), D (stream_max_snd_cwnd r), D (stream_max_snd_wnd r),
                   D (stream_max_rtt r), D (stream_min_rtt r), D (mean_rtt r), flag])
              else iperf_json_printf ''socket: %d  start: %f  end: %f  seconds: %f  bytes: %d  bits_per_second: %f sender: %b''
                (start @ [flag]))
         else
           member ''udp''
             (iperf_json_printf ''socket: %d  start: %f  end: %f  seconds: %f  bytes: %d  bits_per_second: %f  jitter_ms: %f  lost_packets: %d  packets: %d  lost_percent: %f  out_of_order: %d sender: %b''
               (start @ [F (jitter sp * 1000), D (cnt_error sp - omitted_cnt_error sp),
                  D (reported_packets sp - omitted_packet_count sp),
                  F (percent (cnt_error sp - omitted_cnt_error sp) (fst (sender_packets sp) - snd (sender_packets sp))),
                  D (outoforder_packets sp - omitted_outoforder_packets sp), flag])))"

definition receiver_report :: "iperf_test \<Rightarrow> bool \<Rightarrow> iperf_stream \<Rightarrow> real \<Rightarrow> real \<Rightarrow> (string \<times> json) list" where
  "receiver_report t must_send sp end_secs secs_received =
     (if stream_protocol t then
        member ''receiver''
          (iperf_json_printf ''socket: %d  start: %f  end: %f  seconds: %f  bytes: %d  bits_per_second: %f sender: %b''
            [D (socket sp), F 0, F secs_received, F end_secs, D (sint (bytes_received (result sp))),
             F (rate_of (bytes_received (result sp)) secs_received * 8), B (if must_send then 1 else 0)])
      else [])"

text \<open>The file of a stream, with the size fstat finds.\<close>

definition share :: "u64 \<Rightarrow> int \<Rightarrow> int" where
  "share n file_bytes = (if file_bytes > 0 then \<lfloor>real (unat n) / real_of_int file_bytes * 100\<rfloor> else 100)"

definition diskfile_report :: "(fd \<Rightarrow> int option) \<Rightarrow> iperf_test \<Rightarrow> iperf_stream \<Rightarrow> u64 \<Rightarrow> (string \<times> json) list" where
  "diskfile_report fstat t sp sent =
     (if diskfile_fd sp < 0 then []
      else (case (fstat (diskfile_fd sp), diskfile_name t) of
          (Some n, Some name) \<Rightarrow>
            member ''diskfile'' (iperf_json_printf ''sent: %d  received: %d  size: %d  percent_sent: %d  percent_received: %d  filename: %s''
              [D (sint sent), D (sint (bytes_received (result sp))), D n, D (share sent n),
               D (share (bytes_received (result sp)) n), S name])
        | _ \<Rightarrow> []))"

text \<open>A pass over the streams that send or over those that receive.\<close>

fun summary_pass :: "(fd \<Rightarrow> int option) \<Rightarrow> iperf_test \<Rightarrow> bool \<Rightarrow> int \<Rightarrow> real \<Rightarrow> real \<Rightarrow> iperf_stream list \<Rightarrow> summary
    \<Rightarrow> json list \<times> summary" where
  "summary_pass fstat t must_send has_retr end_secs secs_received [] x = ([], x)"
| "summary_pass fstat t must_send has_retr end_secs secs_received (sp # sps) x =
     (let x = add_summary t has_retr sp x;
          (sent, secs_sent) = show_sent t secs_received sp (sent_in x);
          j = JObject (sender_report t must_send has_retr sp sent secs_sent @ diskfile_report fstat t sp sent
                @ receiver_report t must_send sp end_secs secs_received);
          (js, y) = summary_pass fstat t must_send has_retr end_secs secs_received sps (x\<lparr>sent_in := secs_sent\<rparr>)
      in (j # js, y))"

definition show_totals :: "iperf_test \<Rightarrow> bool \<Rightarrow> real \<Rightarrow> summary \<Rightarrow> u64 \<times> real" where
  "show_totals t must_send secs_received x =
     (if quic_server_side t must_send \<and> (sent_in x \<le> 0 \<or> total_sent x = 0)
      then (total_received x, secs_received) else (total_sent x, sent_in x))"

text \<open>The sums of a pass. The code divides the jitter of UDP by the number of streams.\<close>

definition summary_sums :: "iperf_test \<Rightarrow> bool \<Rightarrow> int \<Rightarrow> real \<Rightarrow> summary \<Rightarrow> (string \<times> json) list option" where
  "summary_sums t must_send has_retr secs_received x =
     (let (sent, secs_sent) = show_totals t must_send secs_received x;
          flag = B (if must_send then 1 else 0);
          out = [F 0, F secs_sent, F secs_sent, D (sint sent), F (rate_of sent secs_sent * 8)];
          rcvd = [F 0, F secs_received, F secs_received, D (sint (total_received x)), F (rate_of (total_received x) secs_received * 8)];
          lost = percent (lost_packets x) (total_packets x);
          jit = total_jitter x / real_of_int (num_streams t) * 1000
      in if stream_protocol t then
           Some (member (reverse_name t must_send ''sum_sent'')
               (if has_retr \<noteq> 0
                then iperf_json_printf ''start: %f  end: %f  seconds: %f  bytes: %d  bits_per_second: %f  retransmits: %d sender: %b''
                  (out @ [D (total_retransmits x), flag])
                else iperf_json_printf ''start: %f  end: %f  seconds: %f  bytes: %d  bits_per_second: %f sender: %b'' (out @ [flag]))
             @ member (reverse_name t must_send ''sum_received'')
               (iperf_json_printf ''start: %f  end: %f  seconds: %f  bytes: %d  bits_per_second: %f sender: %b'' (rcvd @ [flag])))
         else if num_streams t = 0 then None
         else
           Some (member (reverse_name t must_send ''sum'')
               (iperf_json_printf ''start: %f  end: %f  seconds: %f  bytes: %d  bits_per_second: %f  jitter_ms: %f  lost_packets: %d  packets: %d  lost_percent: %f sender: %b''
                 [F 0, F secs_received, F secs_received, D (sint sent), F (rate_of sent secs_sent * 8), F jit,
                  D (lost_packets x), D (total_packets x), F lost, flag])
             @ member (reverse_name t must_send ''sum_sent'')
               (iperf_json_printf ''start: %f  end: %f  seconds: %f  bytes: %d  bits_per_second: %f  jitter_ms: %f  lost_packets: %d  packets: %d  lost_percent: %f  sender: %b''
                 (out @ [F 0, D 0, D (sender_total_packets x), F 0, B 1]))
             @ member (reverse_name t must_send ''sum_received'')
               (iperf_json_printf ''start: %f  end: %f  seconds: %f  bytes: %d  bits_per_second: %f  jitter_ms: %f  lost_packets: %d  packets: %d  lost_percent: %f  sender: %b''
                 (rcvd @ [F jit, D (lost_packets x), D (receiver_total_packets x), F lost, B 0]))))"

definition pass_retransmits :: "iperf_test \<Rightarrow> bool \<Rightarrow> int" where
  "pass_retransmits t must_send =
     (if mode t = BIDIRECTIONAL \<and> \<not> must_send then other_side_has_retransmits t else sender_has_retransmits t)"

fun summary_passes :: "(fd \<Rightarrow> int option) \<Rightarrow> iperf_test \<Rightarrow> real \<Rightarrow> real \<Rightarrow> real \<Rightarrow> bool list
    \<Rightarrow> (json list \<times> (string \<times> json) list) option" where
  "summary_passes fstat t end_secs secs_sent secs_received [] = Some ([], [])"
| "summary_passes fstat t end_secs secs_sent secs_received (m # ms) =
     (let (js, x) = summary_pass fstat t m (pass_retransmits t m) end_secs secs_received
            (filter (in_pass m) (streams t)) (no_summary secs_sent)
      in do {
        ss \<leftarrow> summary_sums t m (pass_retransmits t m) secs_received x;
        (js', ss') \<leftarrow> summary_passes fstat t end_secs secs_sent secs_received ms;
        Some (js @ js', ss @ ss') })"

definition cpu_report :: "iperf_test \<Rightarrow> json option" where
  "cpu_report t = iperf_json_printf ''host_total: %f  host_user: %f  host_system: %f  remote_total: %f  remote_user: %f  remote_system: %f''
     (map F (take 3 (cpu_util t) @ take 3 (remote_cpu_util t)))"

definition text_member :: "string \<Rightarrow> string option \<Rightarrow> (string \<times> json) list" where
  "text_member k v = member k (map_option JString v)"

definition congestion_report :: "iperf_test \<Rightarrow> (string \<times> json) list" where
  "congestion_report t =
     (if protocol t \<noteq> Ptcp then []
      else if last (passes t)
      then text_member ''sender_tcp_congestion'' (congestion_used t) @ text_member ''receiver_tcp_congestion'' (remote_congestion_used t)
      else text_member ''sender_tcp_congestion'' (remote_congestion_used t) @ text_member ''receiver_tcp_congestion'' (congestion_used t))"

text \<open>What iperf_print_results adds to test->json_end. The times are those it settles on the first
  stream (Iperf_Timer_Procs.iperf_print_results), so t is the test after it.\<close>

definition report_times :: "iperf_test \<Rightarrow> real \<times> real \<times> real" where
  "report_times t =
     (if streams t = [] then (0, 0, 0)
      else (let sp = hd (streams t) in
        (since sp (iperf_stream_result.end_time (result sp)), sender_time (result sp), receiver_time (result sp))))"

definition results_report :: "(fd \<Rightarrow> int option) \<Rightarrow> iperf_test \<Rightarrow> (string \<times> json) list option" where
  "results_report fstat t =
     (let (end_secs, secs_sent, secs_received) = report_times t in
      do {
        (js, totals) \<leftarrow> summary_passes fstat t end_secs secs_sent secs_received (passes t);
        Some ((''streams'', JArray js) # totals @ member ''cpu_utilization_percent'' (cpu_report t) @ congestion_report t) })"

end
