(* ===== verification/Iperf_Report_Ok.thy ===== *)
theory Iperf_Report_Ok
  imports Iperf_Report
begin

text \<open>
  What the numbers of the reports mean: the sums of a summary are the sums over its streams, the rates
  are the bytes over the times, and every pass has names of its own.
\<close>

section \<open>Reading a report\<close>

fun json_at :: "string list \<Rightarrow> json \<Rightarrow> json option" where
  "json_at [] j = Some j"
| "json_at (k # ks) (JObject ms) = (case map_of ms k of None \<Rightarrow> None | Some j \<Rightarrow> json_at ks j)"
| "json_at (k # ks) j = None"

definition bytes_json :: "u64 \<Rightarrow> json" where
  "bytes_json n = JNumber (of_int (sint n))"

section \<open>A pass\<close>

lemma add_summary_totals [simp]:
  "total_sent (add_summary t hr sp x) = total_sent x + stream_sent sp"
  "total_received (add_summary t hr sp x) = total_received x + bytes_received (result sp)"
  "sent_in (add_summary t hr sp x) = sent_in x"
  by (simp_all add: add_summary_def Let_def)

lemma show_sent_plain: "protocol t \<noteq> Pquic \<Longrightarrow> show_sent t r sp s = (stream_sent sp, s)"
  by (simp add: show_sent_def quic_server_side_def)

definition sent_key :: "iperf_test \<Rightarrow> string" where
  "sent_key t = (if stream_protocol t then ''sender'' else ''udp'')"

lemma sender_report_bytes:
  "json_at [sent_key t, ''bytes''] (JObject (sender_report t m hr sp sent secs_sent @ ms)) = Some (bytes_json sent)"
  by (cases "stream_protocol t"; cases "hr \<noteq> 0 \<or> protocol t = Psctp")
    (simp_all add: sender_report_def sent_key_def bytes_json_def Let_def member_def iperf_json_printf_def del: de_Morgan_disj)

lemma summary_pass_sums:
  assumes "protocol t \<noteq> Pquic" "summary_pass fstat t m hr e r sps x = (js, y)"
  shows "total_sent y = total_sent x + (\<Sum>sp\<leftarrow>sps. stream_sent sp)"
    and "total_received y = total_received x + (\<Sum>sp\<leftarrow>sps. bytes_received (result sp))"
    and "sent_in y = sent_in x"
    and "map (json_at [sent_key t, ''bytes'']) js = map (\<lambda>sp. Some (bytes_json (stream_sent sp))) sps"
  using assms(2)
proof (induction sps arbitrary: x js)
  case (Cons sp sps)
  { case 1 with Cons.IH(1) show ?case
      by (auto simp: Let_def show_sent_plain [OF assms(1)] split: prod.splits) }
  { case 2 with Cons.IH(2) show ?case
      by (auto simp: Let_def show_sent_plain [OF assms(1)] split: prod.splits) }
  { case 3 with Cons.IH(3) show ?case
      by (auto simp: Let_def show_sent_plain [OF assms(1)] split: prod.splits) }
  { case 4 with Cons.IH(4) show ?case
      by (auto simp: Let_def show_sent_plain [OF assms(1)] sender_report_bytes split: prod.splits simp del: json_at.simps) }
qed auto

section \<open>The sums\<close>

lemma summary_sums_members:
  assumes "protocol t \<noteq> Pquic" "summary_sums t m hr r x = Some ss"
  shows "json_at [reverse_name t m ''sum_sent'', ''bytes''] (JObject ss) = Some (bytes_json (total_sent x))"
    and "json_at [reverse_name t m ''sum_received'', ''bytes''] (JObject ss) = Some (bytes_json (total_received x))"
    and "json_at [reverse_name t m ''sum_sent'', ''bits_per_second''] (JObject ss) = Some (JNumber (rate_of (total_sent x) (sent_in x) * 8))"
    and "json_at [reverse_name t m ''sum_received'', ''bits_per_second''] (JObject ss) = Some (JNumber (rate_of (total_received x) r * 8))"
    and "set (map fst ss) \<subseteq> reverse_name t m ` {''sum'', ''sum_sent'', ''sum_received''}"
proof -
  have p: "show_totals t m r x = (total_sent x, sent_in x)" using assms(1) by (simp add: show_totals_def quic_server_side_def)
  have n: "reverse_name t m ''sum'' \<noteq> reverse_name t m ''sum_sent''" "reverse_name t m ''sum'' \<noteq> reverse_name t m ''sum_received''"
    "reverse_name t m ''sum_sent'' \<noteq> reverse_name t m ''sum_received''"
    by (simp_all add: reverse_name_def)
  show "json_at [reverse_name t m ''sum_sent'', ''bytes''] (JObject ss) = Some (bytes_json (total_sent x))"
    "json_at [reverse_name t m ''sum_received'', ''bytes''] (JObject ss) = Some (bytes_json (total_received x))"
    "json_at [reverse_name t m ''sum_sent'', ''bits_per_second''] (JObject ss) = Some (JNumber (rate_of (total_sent x) (sent_in x) * 8))"
    "json_at [reverse_name t m ''sum_received'', ''bits_per_second''] (JObject ss) = Some (JNumber (rate_of (total_received x) r * 8))"
    "set (map fst ss) \<subseteq> reverse_name t m ` {''sum'', ''sum_sent'', ''sum_received''}"
    using assms(2) n n [THEN not_sym]
    by (auto simp: summary_sums_def p Let_def member_def iperf_json_printf_def bytes_json_def split: if_splits)
qed

section \<open>The whole summary\<close>

lemma json_at_append: "json_at (k # ks) (JObject (xs @ ys)) =
    (if k \<in> set (map fst xs) then json_at (k # ks) (JObject xs) else json_at (k # ks) (JObject ys))"
  using map_of_eq_None_iff [of xs k] by (cases "map_of xs k") (auto simp: map_add_def split: option.split)

lemma json_at_member: "json_at (k # ks) (JObject ms) = Some j \<Longrightarrow> k \<in> fst ` set ms"
  by (cases "map_of ms k") (auto dest: map_of_SomeD intro: rev_image_eqI)

lemma names_differ:
  assumes "mode t = BIDIRECTIONAL" "m \<noteq> m'" "a \<in> {''sum'', ''sum_sent'', ''sum_received''}" "b \<in> {''sum'', ''sum_sent'', ''sum_received''}"
  shows "reverse_name t m a \<noteq> reverse_name t m' b"
  using assms by (cases m; cases m') (auto simp: reverse_name_def)

lemma passes_cases:
  obtains m where "mode t \<noteq> BIDIRECTIONAL" "passes t = [m]" | m where "mode t = BIDIRECTIONAL" "passes t = [m, \<not> m]"
proof (cases "mode t = BIDIRECTIONAL")
  case True
  then have "passes t = [role t = CHR ''c'', \<not> role t = CHR ''c'']" by (simp add: passes_def)
  with True that(2) show thesis by blast
next
  case False
  then have "passes t = [mode t = SENDER]" by (cases "mode t") (simp_all add: passes_def)
  with False that(1) show thesis by blast
qed

text \<open>What a pass leaves in the summary is found in it under the names of the pass.\<close>

definition pass_sums :: "iperf_test \<Rightarrow> real \<Rightarrow> real \<Rightarrow> bool \<Rightarrow> (string \<times> json) list \<Rightarrow> bool" where
  "pass_sums t secs_sent secs_received m ms \<longleftrightarrow>
     (let sps = filter (in_pass m) (streams t);
          sent = (\<Sum>sp\<leftarrow>sps. stream_sent sp); received = (\<Sum>sp\<leftarrow>sps. bytes_received (result sp))
      in json_at [reverse_name t m ''sum_sent'', ''bytes''] (JObject ms) = Some (bytes_json sent)
       \<and> json_at [reverse_name t m ''sum_received'', ''bytes''] (JObject ms) = Some (bytes_json received)
       \<and> json_at [reverse_name t m ''sum_sent'', ''bits_per_second''] (JObject ms) = Some (JNumber (rate_of sent secs_sent * 8))
       \<and> json_at [reverse_name t m ''sum_received'', ''bits_per_second''] (JObject ms) = Some (JNumber (rate_of received secs_received * 8)))"

lemma pass_sums_own:
  assumes "protocol t \<noteq> Pquic" "summary_pass fstat t m hr e r (filter (in_pass m) (streams t)) (no_summary s) = (js, x)"
    and "summary_sums t m hr r x = Some ss"
  shows "pass_sums t s r m (ss @ rest)"
proof -
  note sums = summary_pass_sums(1-3) [OF assms(1,2)]
  note mem = summary_sums_members(1-4) [OF assms(1,3)]
  have k: "reverse_name t m ''sum_sent'' \<in> set (map fst ss)" "reverse_name t m ''sum_received'' \<in> set (map fst ss)"
    using mem(1,2) by (simp_all add: json_at_member)
  have p: "json_at (reverse_name t m n # ks) (JObject (ss @ rest)) = json_at (reverse_name t m n # ks) (JObject ss)"
    if "n = ''sum_sent'' \<or> n = ''sum_received''" for n ks
    using that k unfolding json_at_append by auto
  show ?thesis
    unfolding pass_sums_def Let_def using p mem sums by (simp add: no_summary_def del: json_at.simps)
qed

lemma pass_sums_skip:
  assumes "protocol t \<noteq> Pquic" "summary_sums t m' hr r x = Some ss" "mode t = BIDIRECTIONAL" "m \<noteq> m'"
  shows "pass_sums t s r' m (ss @ rest) = pass_sums t s r' m rest"
proof -
  have k: "reverse_name t m n \<notin> set (map fst ss)" if "n = ''sum_sent'' \<or> n = ''sum_received''" for n
  proof
    assume "reverse_name t m n \<in> set (map fst ss)"
    with summary_sums_members(5) [OF assms(1,2)] obtain b where
      "b \<in> {''sum'', ''sum_sent'', ''sum_received''}" "reverse_name t m n = reverse_name t m' b" by blast
    moreover have "n \<in> {''sum'', ''sum_sent'', ''sum_received''}" using that by auto
    ultimately show False using names_differ [OF assms(3,4)] by blast
  qed
  have p: "json_at (reverse_name t m n # ks) (JObject (ss @ rest)) = json_at (reverse_name t m n # ks) (JObject rest)"
    if "n = ''sum_sent'' \<or> n = ''sum_received''" for n ks
    using k [OF that] unfolding json_at_append by simp
  then show ?thesis unfolding pass_sums_def by (simp del: json_at.simps)
qed

lemma passes_sums:
  assumes "protocol t \<noteq> Pquic" "summary_passes fstat t e s r (passes t) = Some (js, totals)" "m \<in> set (passes t)"
  shows "pass_sums t s r m (totals @ rest)"
    and "map (json_at [sent_key t, ''bytes'']) js
      = map (\<lambda>sp. Some (bytes_json (stream_sent sp))) (concat (map (\<lambda>m. filter (in_pass m) (streams t)) (passes t)))"
proof -
  let ?pass = "\<lambda>m. summary_pass fstat t m (pass_retransmits t m) e r (filter (in_pass m) (streams t)) (no_summary s)"
  have step: "pass_sums t s r m1 (ss @ rest')" if "?pass m1 = (js1, x)" "summary_sums t m1 (pass_retransmits t m1) r x = Some ss"
    for m1 js1 x ss rest' by (rule pass_sums_own [OF assms(1) that])
  note own = summary_pass_sums(4) [OF assms(1)]
  have "pass_sums t s r m (totals @ rest) \<and> map (json_at [sent_key t, ''bytes'']) js
      = map (\<lambda>sp. Some (bytes_json (stream_sent sp))) (concat (map (\<lambda>m. filter (in_pass m) (streams t)) (passes t)))"
  proof (cases rule: passes_cases [of t])
    case (1 m1)
    with assms(2,3) show ?thesis
      by (auto simp: Option.bind_eq_Some_conv simp del: json_at.simps dest: own split: prod.splits intro: step)
  next
    case (2 m1)
    obtain js1 x1 js2 x2 where p: "?pass m1 = (js1, x1)" "?pass (\<not> m1) = (js2, x2)" by fastforce
    with assms(2) 2 obtain ss1 ss2 where ss: "summary_sums t m1 (pass_retransmits t m1) r x1 = Some ss1"
      "summary_sums t (\<not> m1) (pass_retransmits t (\<not> m1)) r x2 = Some ss2" "totals = ss1 @ ss2" "js = js1 @ js2"
      by (auto simp: Option.bind_eq_Some_conv)
    have "pass_sums t s r m1 (totals @ rest)" using step [OF p(1) ss(1), of "ss2 @ rest"] ss(3) by simp
    moreover have "pass_sums t s r (\<not> m1) (totals @ rest)"
      using step [OF p(2) ss(2), of rest] pass_sums_skip [OF assms(1) ss(1) 2(1), of "\<not> m1"] ss(3) by simp
    moreover have "m = m1 \<or> m = (\<not> m1)" using assms(3) 2(2) by auto
    ultimately show ?thesis using own [OF p(1)] own [OF p(2)] ss(4) 2(2) by auto
  qed
  then show "pass_sums t s r m (totals @ rest)" "map (json_at [sent_key t, ''bytes'']) js
      = map (\<lambda>sp. Some (bytes_json (stream_sent sp))) (concat (map (\<lambda>m. filter (in_pass m) (streams t)) (passes t)))" by auto
qed

text \<open>The report is there unless a UDP test has no streams to divide by.\<close>

lemma summary_sums_defined: "summary_sums t m hr r x \<noteq> None \<longleftrightarrow> stream_protocol t \<or> num_streams t \<noteq> 0"
  by (cases "show_totals t m r x") (simp add: summary_sums_def Let_def)

lemma summary_passes_defined:
  "stream_protocol t \<or> num_streams t \<noteq> 0 \<Longrightarrow> summary_passes fstat t e s r ms \<noteq> None"
proof (induction ms)
  case (Cons m ms)
  then show ?case
    using summary_sums_defined [of t m "pass_retransmits t m" r
        "snd (summary_pass fstat t m (pass_retransmits t m) e r (filter (in_pass m) (streams t)) (no_summary s))"]
    by (auto split: prod.splits)
qed simp

lemma results_report_defined: "stream_protocol t \<or> num_streams t \<noteq> 0 \<Longrightarrow> \<exists>ms. results_report fstat t = Some ms"
  using summary_passes_defined [of t fstat "fst (report_times t)" "fst (snd (report_times t))" "snd (snd (report_times t))" "passes t"]
  by (auto simp: results_report_def split: prod.splits)

end
