(* ===== verification/Iperf_Quic_Ok.thy ===== *)
theory Iperf_Quic_Ok
  imports Iperf_Quic_Transfer Iperf_Pacing_Ok
begin

text \<open>
  What the QUIC transport promises. Sending has the contract of the other transports (sender_op). The
  queue of a stream is a queue of bytes (byte_queue): what recv hands out over any number of calls is
  what msquic delivered for the stream, in order. Streams are accepted in the order in which they came,
  each under an id of its own, and attached under that id.
\<close>

section \<open>The system under the callbacks\<close>

lemma later_upd_quic [simp]: "later v (upd_quic f w) = later v w"
  by (simp add: later_def)

lemma later_shared [simp]: "later v (upd_ctx g w) = later v w" "later v (set_sc a sc w) = later v w"
  "later v (quic_call c w) = later v w" "later v (set_callback h x w) = later v w" "later v (quic_sc_free a w) = later v w"
  by (simp_all add: shared_defs)

lemma post_reply: "later v w \<Longrightarrow> (\<And>r w'. later v w' \<Longrightarrow> Q (r, w')) \<Longrightarrow> post (next_reply w) Q"
  by (rule post_2I) (auto simp: next_reply_Some later_def)

lemma post_quic_status: "later v w \<Longrightarrow> (\<And>b w'. later v w' \<Longrightarrow> Q (b, w')) \<Longrightarrow> post (quic_status w) Q"
  unfolding quic_status_def by (auto intro!: post_reply)

lemma post_alloc: "later v w \<Longrightarrow> (\<And>b w'. later v w' \<Longrightarrow> Q (b, w')) \<Longrightarrow> post (alloc w) Q"
  unfolding alloc_def by (rule post_quic_status)

lemma post_write: "later v w \<Longrightarrow> (\<And>r w'. later v w' \<Longrightarrow> Q (r, w')) \<Longrightarrow> post (sys_write f buf w) Q"
  by (rule post_2I) (auto dest: sys_write_Some later_trans)

lemma post_val: "later v w \<Longrightarrow> (\<And>r w'. later v w' \<Longrightarrow> Q (r, w')) \<Longrightarrow> post (sys_val es w) Q"
  by (rule post_2I) (auto dest: sys_val_Some later_trans)

lemmas quic_rules = post_quic_status post_alloc post_write post_val

text \<open>What the callbacks keep: a property of the world that survives a reply, a write to the pipe and the
  changes the callbacks make to the shared memory survives a batch of events. The end of the handshake
  counts only when it is among the events in question (hears).\<close>

locale callback_inv =
  fixes P :: "world \<Rightarrow> bool" and hears :: bool
  assumes status: "P w \<Longrightarrow> quic_status w = Some (b, w') \<Longrightarrow> P w'"
    and wake: "P w \<Longrightarrow> sys_write f buf w = Some (r, w') \<Longrightarrow> P w'"
    and shared: "P w \<Longrightarrow> P (set_sc a sc w)" "P w \<Longrightarrow> P (quic_call c w)" "P w \<Longrightarrow> P (set_callback h x w)"
      "P w \<Longrightarrow> P (upd_quic (\<lambda>q. q\<lparr>next_ctx := n\<rparr>) w)"
    and connected: "hears \<Longrightarrow> P w \<Longrightarrow> P (upd_ctx (\<lambda>c. c\<lparr>handshake_ready := 1\<rparr>) w)"
    and in_ctx: "P w \<Longrightarrow> P (upd_ctx (\<lambda>c. c\<lparr>handshake_ready := 0, shutdown_done := 1\<rparr>) w)"
      "P w \<Longrightarrow> P (upd_ctx (\<lambda>c. c\<lparr>quic_conn := y\<rparr>) w)"
      "P w \<Longrightarrow> P (upd_ctx (\<lambda>c. c\<lparr>accept_queue := accept_queue c @ [a]\<rparr>) w)"
begin

lemma kept_alloc: "P w \<Longrightarrow> (\<And>b w'. P w' \<Longrightarrow> Q (b, w')) \<Longrightarrow> post (alloc w) Q"
  unfolding alloc_def by (rule post_2I) (blast intro: status)

lemma kept_wake: "P w \<Longrightarrow> (\<And>r w'. P w' \<Longrightarrow> Q (r, w')) \<Longrightarrow> post (sys_write f buf w) Q"
  by (rule post_2I) (blast intro: wake)

lemma kept_upd_sc: "P w \<Longrightarrow> (\<And>w'. P w' \<Longrightarrow> Q w') \<Longrightarrow> post (upd_sc a f w) Q"
  by (auto simp: upd_sc_def intro: shared)

lemma kept_chunks: "P w \<Longrightarrow> (\<And>w'. P w' \<Longrightarrow> Q w') \<Longrightarrow> post (receive_chunks a bs w) Q"
  by (induction bs arbitrary: w) (auto intro!: kept_alloc kept_upd_sc)

lemma kept_enq: "P w \<Longrightarrow> (\<And>w'. P w' \<Longrightarrow> Q w') \<Longrightarrow> post (accept_enq a w) Q"
  unfolding accept_enq_def notify_pipe_def
  by (auto intro!: kept_alloc kept_wake in_ctx post_any [where m = "quic_ctx q" for q])

lemma kept_callback: "P w \<Longrightarrow> e = Connected \<longrightarrow> hears \<Longrightarrow> (\<And>w'. P w' \<Longrightarrow> Q w') \<Longrightarrow> post (quic_callback e w) Q"
proof (cases e)
  case (New_connection x)
  assume p: "P w" and q: "\<And>w'. P w' \<Longrightarrow> Q w'"
  have "P (quic_call k (upd_ctx (\<lambda>c. c\<lparr>quic_conn := Some x\<rparr>) w))" for k by (intro shared(2) in_ctx(2) p)
  with p q show ?thesis
    by (auto simp: New_connection with_context_def new_connection_def intro!: shared post_any [where m = "quic_ctx q" for q])
qed (auto simp: with_context_def peer_stream_def quic_sc_new_def Let_def
      intro!: kept_upd_sc kept_chunks kept_alloc kept_enq shared in_ctx connected post_any [where m = "quic_ctx q" for q])

lemma kept_deliver: "P w \<Longrightarrow> Connected \<in> set es \<longrightarrow> hears \<Longrightarrow> (\<And>w'. P w' \<Longrightarrow> Q w') \<Longrightarrow> post (deliver es w) Q"
  by (induction es arbitrary: w) (auto intro!: kept_callback)

lemma deliver_keeps: "P w \<Longrightarrow> Connected \<in> set es \<longrightarrow> hears \<Longrightarrow> deliver es w = Some w' \<Longrightarrow> P w'"
  using postD [OF kept_deliver [where Q = P]] by blast

end

interpretation later_cb: callback_inv "later v" True for v
  by unfold_locales (auto dest: postD [OF post_quic_status [where Q = "\<lambda>(b, w'). later v w'"]] sys_write_Some later_trans)

lemma post_clock_plus: "later v w \<Longrightarrow> (\<And>x w'. later v w' \<Longrightarrow> Q (x, w')) \<Longrightarrow> post (clock_plus ms w) Q"
  unfolding clock_plus_def by (simp, rule post_val, assumption, blast)

lemma post_await:
  assumes "later v w" "\<And>w'. later v w' \<Longrightarrow> Q w'"
  shows "post (quic_await busy a w) Q"
proof -
  have wait: "post (quic_wait busy a bs w) Q" if "later v w" for bs w
    using that
  proof (induction bs arbitrary: w)
    case Nil
    then show ?case using assms(2) by (subst quic_wait.simps) simp
  next
    case (Cons b bs)
    then show ?case
      using assms(2) by (subst quic_wait.simps) (auto intro!: post_clock_plus later_cb.kept_deliver Cons.IH)
  qed
  show ?thesis
    unfolding quic_await_def quic_lock_def using assms(1)
    by (auto split: list.split intro!: later_cb.kept_deliver wait)
qed

interpretation quic: sender_op iperf_quic_send
  by unfold_locales
    (simp add: iperf_quic_send_def Let_def, auto simp: sent_simps split: option.split
      intro!: post_await post_alloc post_quic_status post_sized post_any [where m = "hquic x" for x] post_any [where m = "sc_of x y" for x y])

text \<open>With it the routine of a stream has the contract for every protocol.\<close>

lemma any_stream_send: "sender_op (stream_send iperf_quic_send)"
  by (rule stream_send_op) (rule quic.sender_op_axioms)

section \<open>Deadlines\<close>

lemma time_limit_ok:
  assumes "0 \<le> ms" "0 \<le> n" "n < 1000000000"
  shows "0 \<le> snd (time_limit ms (s, n)) \<and> snd (time_limit ms (s, n)) < 1000000000
    \<and> fst (time_limit ms (s, n)) * 1000000000 + snd (time_limit ms (s, n)) = s * 1000000000 + n + ms * 1000000"
proof -
  define q k where "q = ms div 1000" and "k = ms mod 1000"
  have m: "0 \<le> k" "k < 1000" "ms = q * 1000 + k" by (simp_all add: q_def k_def)
  have "c_div ms 1000 = q" using assms(1) by (simp add: c_div_nonneg q_def)
  moreover from this have "c_rem ms 1000 = k" using m(3) by (simp add: c_rem_def)
  ultimately show ?thesis using assms(2,3) m by (auto simp: time_limit_def Let_def)
qed

section \<open>A queue of bytes\<close>

datatype queue_op = Arrive "u8 list" | Take nat

definition arrivals :: "queue_op list \<Rightarrow> u8 list" where
  "arrivals ops = concat (map (\<lambda>x. case x of Arrive bs \<Rightarrow> bs | Take n \<Rightarrow> []) ops)"

text \<open>The interface: bytes are added at the end and taken from the front. Over any run what was taken
  and what still waits is what waited before and what arrived.\<close>

locale byte_queue =
  fixes arrive :: "u8 list \<Rightarrow> 'q \<Rightarrow> 'q" and take_upto :: "nat \<Rightarrow> 'q \<Rightarrow> u8 list \<times> 'q"
    and waiting :: "'q \<Rightarrow> u8 list" and inv :: "'q \<Rightarrow> bool"
  assumes arrive: "inv q \<Longrightarrow> waiting (arrive bs q) = waiting q @ bs \<and> inv (arrive bs q)"
    and take_upto: "inv q \<Longrightarrow> take_upto n q = (bs, q') \<Longrightarrow> bs = take n (waiting q) \<and> waiting q' = drop n (waiting q) \<and> inv q'"
begin

fun run_queue :: "queue_op list \<Rightarrow> 'q \<Rightarrow> u8 list \<times> 'q" where
  "run_queue [] q = ([], q)"
| "run_queue (Arrive bs # ops) q = run_queue ops (arrive bs q)"
| "run_queue (Take n # ops) q =
     (case take_upto n q of (bs, q) \<Rightarrow> (case run_queue ops q of (bs', q) \<Rightarrow> (bs @ bs', q)))"

lemma history: "run_queue ops q = (got, q') \<Longrightarrow> inv q \<Longrightarrow> got @ waiting q' = waiting q @ arrivals ops \<and> inv q'"
proof (induction ops arbitrary: q got)
  case (Cons x ops)
  show ?case
  proof (cases x)
    case (Arrive bs)
    with Cons.prems arrive [OF Cons.prems(2), of bs] Cons.IH show ?thesis by (fastforce simp: arrivals_def)
  next
    case (Take n)
    obtain bs q1 where t: "take_upto n q = (bs, q1)" by fastforce
    obtain bs' where r: "run_queue ops q1 = (bs', q')" "got = bs @ bs'" using Cons.prems(1) Take t by (auto split: prod.splits)
    note u = take_upto [OF Cons.prems(2) t]
    from Cons.IH [OF r(1)] u have "bs' @ waiting q' = drop n (waiting q) @ arrivals ops" "inv q'" by auto
    moreover have "got @ waiting q' = take n (waiting q) @ (bs' @ waiting q')" using u r(2) by simp
    ultimately show ?thesis by (simp add: Take arrivals_def append_assoc [symmetric] del: append_assoc)
  qed
qed (simp add: arrivals_def)

end

text \<open>The queue of a stream: every buffer of a receive event arrives at the end of it, a block is taken
  from its front.\<close>

interpretation quic_queue: byte_queue add_chunk take_block unread sc_ok
proof
  show "unread (add_chunk bs q) = unread q @ bs \<and> sc_ok (add_chunk bs q)" if "sc_ok q" for q bs
    using that by (auto simp: add_chunk_def unread_def sc_ok_def chunk_rest_def)
  show "bs = take n (unread q) \<and> unread q' = drop n (unread q) \<and> sc_ok q'" if "sc_ok q" "take_block n q = (bs, q')" for q n bs q'
    using take_block_ok [OF that(2,1)] by simp
qed

section \<open>What a stream receives\<close>

text \<open>Memory suffices, and the context a belongs to the stream h alone.\<close>

definition no_fail :: "world \<Rightarrow> bool" where
  "no_fail w \<longleftrightarrow> (\<forall>r\<in>set (replies w). case r of Fail e \<Rightarrow> False | Ret v bs \<Rightarrow> True)"

definition reads :: "nat \<Rightarrow> nat \<Rightarrow> u8 list \<Rightarrow> world \<Rightarrow> bool" where
  "reads h a bs w \<longleftrightarrow> no_fail w \<and> a < next_ctx (quic_mem w)
     \<and> (\<forall>h'. callback_ctx (quic_mem w) h' = Some a \<longleftrightarrow> h' = h)
     \<and> (\<exists>sc. sc_of a w = Some sc \<and> sc_ok sc \<and> unread sc = bs)"

fun delivered :: "nat \<Rightarrow> quic_event \<Rightarrow> u8 list" where
  "delivered h (Received h' bs) = (if h' = h then concat bs else [])"
| "delivered h _ = []"

lemma no_fail_reply: "no_fail w \<Longrightarrow> next_reply w = Some (r, w') \<Longrightarrow> no_fail w' \<and> (\<exists>v bs. r = Ret v bs) \<and> quic_mem w' = quic_mem w"
  by (cases r) (auto simp: no_fail_def next_reply_Some)

lemma no_fail_alloc: "no_fail w \<Longrightarrow> alloc w = Some (ok, w') \<Longrightarrow> ok \<and> no_fail w' \<and> quic_mem w' = quic_mem w"
  by (cases "replies w"; cases "hd (replies w)") (auto simp: alloc_def quic_status_def next_reply_def no_fail_def)

lemma no_fail_calls:
  "no_fail w \<Longrightarrow> sys_write f buf w = Some (r, w') \<Longrightarrow> no_fail w' \<and> quic_mem w' = quic_mem w"
  "no_fail w \<Longrightarrow> sys_val [EvClock] w = Some (v, w') \<Longrightarrow> no_fail w' \<and> quic_mem w' = quic_mem w"
  "no_fail w \<Longrightarrow> sys_read f n w = Some (k, bs, w') \<Longrightarrow> no_fail w' \<and> quic_mem w' = quic_mem w"
  by (cases "replies w"; cases "hd (replies w)"; auto simp: sys_write_def sys_val_def sys_read_def next_reply_def emit_def no_fail_def Let_def)+

lemma no_fail_shared [simp]: "no_fail (upd_quic f w) = no_fail w" "no_fail (upd_ctx g w) = no_fail w" "no_fail (quic_call c w) = no_fail w"
  "no_fail (set_sc a sc w) = no_fail w" "no_fail (set_callback h x w) = no_fail w"
  by (simp_all add: no_fail_def shared_defs)

interpretation memory_cb: callback_inv no_fail True
  by unfold_locales (auto dest: no_fail_alloc [unfolded alloc_def] no_fail_calls(1))

lemma reads_calls: "quic_mem w' = quic_mem w \<Longrightarrow> no_fail w' \<Longrightarrow> reads h a bs w \<Longrightarrow> reads h a bs w'"
  by (simp add: reads_def sc_of_def)

lemma reads_shared [simp]: "reads h a bs (upd_ctx g w) = reads h a bs w" "reads h a bs (quic_call c w) = reads h a bs w"
  "reads h a bs (upd_quic (\<lambda>q. q\<lparr>coming_events := es\<rparr>) w) = reads h a bs w"
  by (simp_all add: reads_def sc_of_def upd_ctx_def quic_call_def)

lemma reads_upd_sc:
  assumes "reads h a bs w" "upd_sc b f w = Some w'" "\<And>sc. sc_ok sc \<Longrightarrow> unread (f sc) = unread sc @ x \<and> sc_ok (f sc)"
  shows "reads h a (if b = a then bs @ x else bs) w'"
  using assms by (auto simp: reads_def upd_sc_def sc_of_def set_sc_def split: option.splits)

lemma reads_chunks:
  "reads h a bs w \<Longrightarrow> receive_chunks b cs w = Some w' \<Longrightarrow> reads h a (if b = a then bs @ concat cs else bs) w'"
proof (induction cs arbitrary: bs w)
  case (Cons c cs)
  from Cons.prems obtain ok1 w1 where 1: "alloc w = Some (ok1, w1)" by (auto simp: Option.bind_eq_Some_conv)
  have nf: "no_fail w" using Cons.prems(1) by (simp add: reads_def)
  note a1 = no_fail_alloc [OF nf 1]
  from Cons.prems 1 a1 obtain ok2 w2 where 2: "alloc w1 = Some (ok2, w2)" by (auto simp: Option.bind_eq_Some_conv)
  note a2 = no_fail_alloc [OF _ 2]
  from Cons.prems 1 2 a1 a2 obtain w3 where 3: "upd_sc b (add_chunk c) w2 = Some w3" "receive_chunks b cs w3 = Some w'"
    by (auto simp: Option.bind_eq_Some_conv)
  have "reads h a bs w2" using a1 a2 by (intro reads_calls [OF _ _ Cons.prems(1)]) simp_all
  then have "reads h a (if b = a then bs @ c else bs) w3"
    by (rule reads_upd_sc [OF _ 3(1)]) (use quic_queue.arrive in blast)
  from Cons.IH [OF this 3(2)] show ?case by (simp split: if_splits)
qed (simp add: reads_def)

lemma reads_notify: "reads h a bs w \<Longrightarrow> notify_pipe c w = Some w' \<Longrightarrow> reads h a bs w'"
proof (cases "wake_write c \<ge> 0")
  case True
  assume "reads h a bs w" "notify_pipe c w = Some w'"
  with True obtain k where "sys_write (wake_write c) [1] w = Some (k, w')" "no_fail w" "reads h a bs w"
    by (auto simp: notify_pipe_def Option.bind_eq_Some_conv reads_def)
  with no_fail_calls(1) show ?thesis by (blast intro: reads_calls)
qed (simp add: notify_pipe_def)

lemma reads_enq: "reads h a bs w \<Longrightarrow> accept_enq b w = Some w' \<Longrightarrow> reads h a bs w'"
proof -
  assume r: "reads h a bs w" and run: "accept_enq b w = Some w'"
  then have nf: "no_fail w" by (simp add: reads_def)
  obtain ok w1 where 1: "alloc w = Some (ok, w1)" using run by (auto simp: accept_enq_def Option.bind_eq_Some_conv)
  note a1 = no_fail_alloc [OF nf 1]
  obtain c where "notify_pipe c (upd_ctx (\<lambda>c. c\<lparr>accept_queue := accept_queue c @ [b]\<rparr>) w1) = Some w'"
    using run 1 a1 by (auto simp: accept_enq_def Option.bind_eq_Some_conv)
  moreover have "reads h a bs w1" using a1 reads_calls [OF _ _ r] by simp
  ultimately show ?thesis by (intro reads_notify [where c = c and w' = w']) simp_all
qed

lemma reads_peer_stream:
  assumes r: "reads h a bs w" and run: "peer_stream h' w = Some w'" and "h' \<noteq> h"
  shows "reads h a bs w'"
proof -
  have nf: "no_fail w" using r by (simp add: reads_def)
  obtain ok w1 where 1: "alloc w = Some (ok, w1)" using run by (auto simp: peer_stream_def quic_sc_new_def Option.bind_eq_Some_conv)
  note a1 = no_fail_alloc [OF nf 1]
  let ?b = "next_ctx (quic_mem w1)"
  obtain w2 where w2: "w2 = set_callback h' (Some ?b) (set_sc ?b \<lparr>hquic = Some h', recv_queue = [], queued_bytes = 0, pending_sends = 0, fin_seen = 0\<rparr>
      (upd_quic (\<lambda>q. q\<lparr>next_ctx := Suc ?b\<rparr>) w1))" "accept_enq ?b w2 = Some w'"
    using run 1 a1 by (auto simp: peer_stream_def quic_sc_new_def Let_def)
  have "reads h a bs w1" using a1 reads_calls [OF _ _ r] by simp
  then have "reads h a bs w2"
    using \<open>h' \<noteq> h\<close> unfolding w2(1) by (auto simp: reads_def sc_of_def set_callback_def set_sc_def)
  then show ?thesis using reads_enq w2(2) by blast
qed

lemma unread_frames: "unread (send_complete sc) = unread sc" "sc_ok (send_complete sc) = sc_ok sc"
  "unread (seen_fin sc) = unread sc" "sc_ok (seen_fin sc) = sc_ok sc"
  by (simp_all add: send_complete_def seen_fin_def unread_def sc_ok_def)

lemma reads_callback:
  assumes r: "reads h a bs w" and run: "quic_callback e w = Some w'" and ne: "e \<noteq> Peer_stream_started h"
  shows "reads h a (bs @ delivered h e) w'"
proof -
  have own: "callback_ctx (quic_mem w) h' = Some a \<longleftrightarrow> h' = h" for h' using r by (simp add: reads_def)
  have cb: "(b = a) = (h' = h)" if "callback_ctx (quic_mem w) h' = Some b" for h' b using that own [of h'] own [of h] by auto
  have keep: "reads h a bs w2" if "upd_sc b f w = Some w2" "f = send_complete \<or> f = seen_fin" for b f w2
    using reads_upd_sc [OF r that(1), of "[]"] that(2) unread_frames by (auto split: if_splits)
  show ?thesis
  proof (cases e)
    case (Received h' cs)
    show ?thesis
    proof (cases "callback_ctx (quic_mem w) h'")
      case None
      then have "h' \<noteq> h" using own [of h] by auto
      with None run r Received show ?thesis by (simp add: with_context_def)
    next
      case (Some b)
      with run Received have "receive_chunks b cs w = Some w'" by (simp add: with_context_def)
      from reads_chunks [OF r this] cb [OF Some] show ?thesis by (cases "h' = h") (simp_all add: Received)
    qed
  next
    case (Stream_shutdown_complete h' closing)
    with run r show ?thesis
      by (auto simp: with_context_def Option.bind_eq_Some_conv split: option.splits if_splits intro: keep)
  qed (use run r ne in \<open>auto simp: with_context_def new_connection_def Option.bind_eq_Some_conv split: option.splits intro: keep reads_peer_stream\<close>)
qed

lemma reads_deliver:
  "reads h a bs w \<Longrightarrow> deliver es w = Some w' \<Longrightarrow> Peer_stream_started h \<notin> set es \<Longrightarrow>
    reads h a (bs @ concat (map (delivered h) es)) w'"
proof (induction es arbitrary: bs w)
  case (Cons e es)
  obtain w1 where 1: "quic_callback e w = Some w1" "deliver es w1 = Some w'"
    using Cons.prems(2) by (auto simp: Option.bind_eq_Some_conv)
  from Cons.IH [OF reads_callback [OF Cons.prems(1) 1(1)] 1(2)] Cons.prems(3) show ?case by auto
qed simp

section \<open>What the callbacks leave alone\<close>

text \<open>The ids and the events still to come; accepted streams only queue up at the end.\<close>

definition keeps_ids :: "world \<Rightarrow> world \<Rightarrow> bool" where
  "keeps_ids v w \<longleftrightarrow> coming_events (quic_mem w) = coming_events (quic_mem v)
     \<and> (case (quic_ctx (quic_mem v), quic_ctx (quic_mem w)) of
          (Some c, Some d) \<Rightarrow> id_map d = id_map c \<and> next_stream_id d = next_stream_id c \<and> wake_read d = wake_read c
            \<and> (\<exists>q. accept_queue d = accept_queue c @ q)
        | (None, None) \<Rightarrow> True
        | _ \<Rightarrow> False)"

lemma keeps_ids_refl [simp]: "keeps_ids w w"
  by (auto simp: keeps_ids_def split: option.split)

lemma keeps_ids_mem: "keeps_ids v w \<Longrightarrow> quic_mem w' = quic_mem w \<Longrightarrow> keeps_ids v w'"
  by (simp add: keeps_ids_def)

lemma quic_status_mem: "quic_status w = Some (b, w') \<Longrightarrow> quic_mem w' = quic_mem w"
  by (auto simp: quic_status_def next_reply_Some Option.bind_eq_Some_conv)

lemma sys_write_mem: "sys_write f buf w = Some (r, w') \<Longrightarrow> quic_mem w' = quic_mem w"
  by (cases "replies w"; cases "hd (replies w)") (auto simp: sys_write_def next_reply_def emit_def Let_def)

lemma ids_shared [simp]: "keeps_ids v (set_sc a sc w) = keeps_ids v w" "keeps_ids v (quic_call c w) = keeps_ids v w"
  "keeps_ids v (set_callback h x w) = keeps_ids v w" "keeps_ids v (upd_quic (\<lambda>q. q\<lparr>next_ctx := n\<rparr>) w) = keeps_ids v w"
  by (simp_all add: keeps_ids_def shared_defs)

lemma ids_ctx [simp]: "keeps_ids v w \<Longrightarrow> keeps_ids v (upd_ctx (\<lambda>c. c\<lparr>handshake_ready := x\<rparr>) w)"
  "keeps_ids v w \<Longrightarrow> keeps_ids v (upd_ctx (\<lambda>c. c\<lparr>handshake_ready := x, shutdown_done := y\<rparr>) w)"
  "keeps_ids v w \<Longrightarrow> keeps_ids v (upd_ctx (\<lambda>c. c\<lparr>quic_conn := z\<rparr>) w)"
  "keeps_ids v w \<Longrightarrow> keeps_ids v (upd_ctx (\<lambda>c. c\<lparr>accept_queue := accept_queue c @ [a]\<rparr>) w)"
  by (auto simp: keeps_ids_def upd_ctx_def split: option.splits)

interpretation ids_cb: callback_inv "keeps_ids v" True for v
  by unfold_locales (auto dest: quic_status_mem sys_write_mem intro: keeps_ids_mem)

lemma deliver_ids: "deliver es w = Some w' \<Longrightarrow> keeps_ids w w'"
  by (rule ids_cb.deliver_keeps) simp_all

section \<open>A block and a run of blocks\<close>

lemma reads_clock_plus: "reads h a bs w \<Longrightarrow> clock_plus ms w = Some (x, w') \<Longrightarrow> reads h a bs w'"
  by (auto simp: clock_plus_def Option.bind_eq_Some_conv reads_def sc_of_def dest: no_fail_calls(2))

lemma reads_wait:
  "reads h a xs w \<Longrightarrow> quic_wait busy a bs w = Some w' \<Longrightarrow> Peer_stream_started h \<notin> set (concat bs) \<Longrightarrow>
    \<exists>es. bs = es @ coming_events (quic_mem w') \<and> reads h a (xs @ concat (map (delivered h) (concat es))) w'
      \<and> (\<forall>sc. sc_of a w' = Some sc \<longrightarrow> \<not> busy sc)"
proof (induction bs arbitrary: xs w)
  case Nil
  then have "w' = upd_quic (\<lambda>q. q\<lparr>coming_events := []\<rparr>) w" "\<forall>sc. sc_of a w = Some sc \<longrightarrow> \<not> busy sc"
    by (subst (asm) quic_wait.simps; auto split: option.splits if_splits)+
  with Nil(1) show ?case by (auto simp: sc_of_def)
next
  case (Cons b bs)
  from Cons.prems(1) obtain sc where sc: "sc_of a w = Some sc" by (auto simp: reads_def)
  show ?case
  proof (cases "busy sc")
    case False
    with Cons.prems(2) sc have "w' = upd_quic (\<lambda>q. q\<lparr>coming_events := b # bs\<rparr>) w" by (subst (asm) quic_wait.simps) simp
    with Cons.prems(1) sc False show ?thesis by (intro exI [of _ "[]"]) (simp add: sc_of_def)
  next
    case True
    with Cons.prems(2) sc obtain s ns w1 w2 where 1: "clock_plus 100 w = Some ((s, ns), w1)"
      "deliver b (quic_call (Timed_wait s ns) w1) = Some w2" "quic_wait busy a bs w2 = Some w'"
      by (subst (asm) quic_wait.simps) (auto simp: Option.bind_eq_Some_conv)
    have "reads h a xs (quic_call (Timed_wait s ns) w1)" using reads_clock_plus [OF Cons.prems(1) 1(1)] by simp
    from reads_deliver [OF this 1(2)] Cons.prems(3) have "reads h a (xs @ concat (map (delivered h) b)) w2" by simp
    from Cons.IH [OF this 1(3)] Cons.prems(3) obtain es where
      "bs = es @ coming_events (quic_mem w')" "reads h a ((xs @ concat (map (delivered h) b)) @ concat (map (delivered h) (concat es))) w'"
      "\<forall>sc. sc_of a w' = Some sc \<longrightarrow> \<not> busy sc" by auto
    then show ?thesis by (intro exI [of _ "b # es"]) simp
  qed
qed

lemma reads_await:
  assumes r: "reads h a xs w" and run: "quic_await busy a w = Some w'"
    and ns: "Peer_stream_started h \<notin> set (concat (coming_events (quic_mem w)))"
  obtains es where "coming_events (quic_mem w) = es @ coming_events (quic_mem w')"
    "reads h a (xs @ concat (map (delivered h) (concat es))) w'" "\<And>sc. sc_of a w' = Some sc \<Longrightarrow> \<not> busy sc"
proof (cases "coming_events (quic_mem w)")
  case Nil
  with run have "quic_wait busy a [] w = Some w'" by (simp add: quic_await_def quic_lock_def)
  from reads_wait [OF r this] Nil that [of "[]"] show thesis by auto
next
  case (Cons b bs)
  let ?w = "upd_quic (\<lambda>q. q\<lparr>coming_events := bs\<rparr>) w"
  obtain w1 where 1: "deliver b ?w = Some w1" "quic_wait busy a (coming_events (quic_mem w1)) w1 = Some w'"
    using run Cons by (auto simp: quic_await_def quic_lock_def Option.bind_eq_Some_conv)
  have c: "coming_events (quic_mem w1) = bs" using deliver_ids [OF 1(1)] by (simp add: keeps_ids_def)
  have "reads h a (xs @ concat (map (delivered h) b)) w1" by (rule reads_deliver [OF _ 1(1)]) (use r ns Cons in auto)
  from reads_wait [OF this 1(2)] ns Cons c obtain es where "bs = es @ coming_events (quic_mem w')"
    "reads h a ((xs @ concat (map (delivered h) b)) @ concat (map (delivered h) (concat es))) w'"
    "\<forall>sc. sc_of a w' = Some sc \<longrightarrow> \<not> busy sc" by auto
  with Cons that [of "b # es"] show thesis by simp
qed

lemma reads_take:
  assumes "reads h a xs w" "sc_of a w = Some sc" "take_block n sc = (bs, sc')"
  shows "bs = take n xs" "reads h a (drop n xs) (quic_call c (set_sc a sc' w))"
proof -
  have sc: "sc_ok sc" "unread sc = xs" using assms(1,2) by (auto simp: reads_def)
  with take_block_ok [OF assms(3) sc(1)] show "bs = take n xs" by simp
  have "unread sc' = drop n xs" "sc_ok sc'" using take_block_ok [OF assms(3) sc(1)] sc(2) by simp_all
  moreover have "sc_of a (set_sc a sc' w) = Some sc'" "no_fail w" "a < next_ctx (quic_mem w)"
    "\<forall>h'. callback_ctx (quic_mem w) h' = Some a \<longleftrightarrow> h' = h"
    using assms(1) by (simp_all add: reads_def sc_of_def set_sc_def)
  ultimately have "reads h a (drop n xs) (set_sc a sc' w)" unfolding reads_def by (simp add: set_sc_def)
  then show "reads h a (drop n xs) (quic_call c (set_sc a sc' w))" by simp
qed

lemma quic_recv_block:
  assumes r: "reads h a xs w" and sp: "stream_ctx sp = Some a"
    and ns: "Peer_stream_started h \<notin> set (concat (coming_events (quic_mem w)))"
    and run: "iperf_quic_recv t sp w = Some (k, sp', t', w')"
  obtains es where "coming_events (quic_mem w) = es @ coming_events (quic_mem w')"
    "reads h a (drop (nat k) (xs @ concat (map (delivered h) (concat es)))) w'"
    "take (nat k) (buffer sp') = take (nat k) (xs @ concat (map (delivered h) (concat es)))"
    "0 \<le> k" "nat k \<le> length (xs @ concat (map (delivered h) (concat es)))"
    "t' = t" "stream_ctx sp' = Some a" "k \<le> max 0 (blksize (settings t))"
    "bytes_received (result sp') = bytes_received (result sp) + (if state t = TEST_RUNNING then word_of_int k else 0)"
    "bytes_sent (result sp') = bytes_sent (result sp)"
    "k = 0 \<Longrightarrow> xs @ concat (map (delivered h) (concat es)) = [] \<or> blksize (settings t) = 0"
proof -
  let ?w = "quic_call (Set_cancel False) w" and ?busy = "\<lambda>sc. queued_bytes sc = 0 \<and> \<not> quic_over t sp sc"
  obtain w1 where 1: "quic_await ?busy a ?w = Some w1" using run sp by (auto simp: iperf_quic_recv_def Let_def Option.bind_eq_Some_conv)
  have ce: "coming_events (quic_mem ?w) = coming_events (quic_mem w)" by (simp add: quic_call_def)
  obtain es where es: "coming_events (quic_mem w) = es @ coming_events (quic_mem w1)"
    "reads h a (xs @ concat (map (delivered h) (concat es))) w1"
    by (rule reads_await [OF _ 1, of h xs]) (use r ns ce in auto)
  let ?all = "xs @ concat (map (delivered h) (concat es))"
  from es(2) obtain sc where sc: "sc_of a w1 = Some sc" "sc_ok sc" "unread sc = ?all" by (auto simp: reads_def)
  have q: "queued_bytes sc = length ?all" using sc(2,3) by (simp add: sc_ok_def)
  show thesis
  proof (cases "?all = []")
    case True
    with run sp 1 sc q have k: "k = 0" "sp' = sp" "t' = t" "w' = quic_call (Set_cancel True) w1"
      by (auto simp: iperf_quic_recv_def Let_def)
    have "coming_events (quic_mem w') = coming_events (quic_mem w1)" by (simp add: k quic_call_def)
    with True k es sp show thesis by (intro that [of es]) simp_all
  next
    case False
    with q have nz: "queued_bytes sc \<noteq> 0" by simp
    obtain n where n: "sized (blksize (settings t)) (buffer sp) = Some n"
      using run sp 1 sc nz by (auto simp: iperf_quic_recv_def Let_def Option.bind_eq_Some_conv)
    obtain bs sc' where b: "take_block n sc = (bs, sc')" by fastforce
    note t = reads_take(1) [OF es(2) sc(1) b] reads_take(2) [OF es(2) sc(1) b, of "Set_cancel True"]
    obtain buf where buf: "store 0 bs (buffer sp) = Some buf"
      using run sp 1 sc nz n b by (auto simp: iperf_quic_recv_def Let_def Option.bind_eq_Some_conv)
    have k: "k = int (length bs)" "t' = t" "w' = quic_call (Set_cancel True) (set_sc a sc' w1)"
      "sp' = (if state t = TEST_RUNNING then count_received (int (length bs)) (sp\<lparr>buffer := buf\<rparr>) else sp\<lparr>buffer := buf\<rparr>)"
      using run sp 1 sc nz n b buf by (auto simp: iperf_quic_recv_def Let_def)
    have f: "buffer sp' = buf" "stream_ctx sp' = stream_ctx sp" "bytes_sent (result sp') = bytes_sent (result sp)"
      "bytes_received (result sp') = bytes_received (result sp) + (if state t = TEST_RUNNING then word_of_int k else 0)"
      by (simp_all add: k count_received_def upd_result_def)
    have l: "load 0 (length bs) buf = Some bs" using load_store_same [OF buf] .
    then have tk: "take (length bs) buf = bs" by (simp add: load_def split: if_splits)
    have len: "length bs = min n (length ?all)" using t(1) by simp
    have "coming_events (quic_mem w') = coming_events (quic_mem w1)" by (simp add: k shared_defs)
    moreover have "drop n ?all = drop (length bs) ?all" using len by (simp add: min_def)
    moreover have "take (length bs) ?all = bs" using t(1) len by (simp add: min_def)
    moreover have "int n = blksize (settings t)" using n by (auto simp: sized_def split: if_splits)
    ultimately show thesis using t(2) tk f len sp es(1) False
      by (intro that [of es]) (auto simp: k)
  qed
qed

text \<open>A number of blocks one after the other, with what they bring.\<close>

fun recv_run :: "nat \<Rightarrow> iperf_test \<Rightarrow> iperf_stream \<Rightarrow> world \<Rightarrow> (u8 list \<times> iperf_stream \<times> iperf_test \<times> world) option" where
  "recv_run 0 t sp w = Some ([], sp, t, w)"
| "recv_run (Suc n) t sp w = do {
     (k, sp, t, w) \<leftarrow> iperf_quic_recv t sp w;
     (bs, sp', t', w') \<leftarrow> recv_run n t sp w;
     Some (take (nat k) (buffer sp) @ bs, sp', t', w') }"

lemma recv_run_history:
  assumes "reads h a xs w" "stream_ctx sp = Some a" "Peer_stream_started h \<notin> set (concat (coming_events (quic_mem w)))"
    and "recv_run n t sp w = Some (got, sp', t', w')"
  shows "\<exists>es rest. coming_events (quic_mem w) = es @ coming_events (quic_mem w')
    \<and> got @ rest = xs @ concat (map (delivered h) (concat es)) \<and> reads h a rest w' \<and> t' = t
    \<and> (state t = TEST_RUNNING \<longrightarrow> bytes_received (result sp') = bytes_received (result sp) + word_of_int (int (length got)))"
  using assms
proof (induction n arbitrary: xs sp w got)
  case 0
  then show ?case by (intro exI [of _ "[]"] exI [of _ xs]) simp
next
  case (Suc n)
  obtain k sp1 t1 w1 bs where 1: "iperf_quic_recv t sp w = Some (k, sp1, t1, w1)"
    and 2: "recv_run n t1 sp1 w1 = Some (bs, sp', t', w')" "got = take (nat k) (buffer sp1) @ bs"
    using Suc.prems(4) by (auto simp: Option.bind_eq_Some_conv)
  obtain es where es: "coming_events (quic_mem w) = es @ coming_events (quic_mem w1)"
    "reads h a (drop (nat k) (xs @ concat (map (delivered h) (concat es)))) w1"
    "take (nat k) (buffer sp1) = take (nat k) (xs @ concat (map (delivered h) (concat es)))"
    "0 \<le> k" "nat k \<le> length (xs @ concat (map (delivered h) (concat es)))" "t1 = t" "stream_ctx sp1 = Some a"
    "bytes_received (result sp1) = bytes_received (result sp) + (if state t = TEST_RUNNING then word_of_int k else 0)"
    using quic_recv_block [OF Suc.prems(1-3) 1] by metis
  let ?all = "xs @ concat (map (delivered h) (concat es))"
  have "Peer_stream_started h \<notin> set (concat (coming_events (quic_mem w1)))" using Suc.prems(3) es(1) by auto
  from Suc.IH [OF es(2,7) this 2(1) [unfolded es(6)]] obtain fs rest where
    fs: "coming_events (quic_mem w1) = fs @ coming_events (quic_mem w')"
    "bs @ rest = drop (nat k) ?all @ concat (map (delivered h) (concat fs))" "reads h a rest w'" "t' = t"
    "state t = TEST_RUNNING \<longrightarrow> bytes_received (result sp') = bytes_received (result sp1) + word_of_int (int (length bs))" by blast
  have "got @ rest = take (nat k) ?all @ drop (nat k) ?all @ concat (map (delivered h) (concat fs))"
    using 2(2) es(3) fs(2) by simp
  then have "got @ rest = ?all @ concat (map (delivered h) (concat fs))" by (metis append.assoc append_take_drop_id)
  moreover have "length got = nat k + length bs" using 2(2) es(3,5) by simp
  then have "int (length got) = k + int (length bs)" using es(4) by simp
  ultimately show ?case using es fs
    by (intro exI [of _ "es @ fs"] exI [of _ rest]) (auto simp: algebra_simps)
qed

section \<open>Ids\<close>

text \<open>The ids in the map are distinct and were given out before.\<close>

definition ids_in :: "quic_context \<Rightarrow> bool" where
  "ids_in c \<longleftrightarrow> distinct (map fst (id_map c)) \<and> (\<forall>k\<in>set (map fst (id_map c)). k \<le> next_stream_id c) \<and> 0 \<le> next_stream_id c"

lemma take_first_new: "take_first n ((n, a) # m) = Some (a, m)"
  by simp

lemma lock_keeps:
  assumes "quic_lock w = Some w'" "quic_ctx (quic_mem w) = Some c"
  obtains d q where "quic_ctx (quic_mem w') = Some d" "id_map d = id_map c" "next_stream_id d = next_stream_id c"
    "accept_queue d = accept_queue c @ q" "no_fail w \<Longrightarrow> no_fail w'"
proof (cases "coming_events (quic_mem w)")
  case Nil
  with assms show thesis by (intro that [of c "[]"]) (simp_all add: quic_lock_def)
next
  case (Cons b bs)
  let ?w = "upd_quic (\<lambda>q. q\<lparr>coming_events := bs\<rparr>) w"
  have d: "deliver b ?w = Some w'" using assms(1) Cons by (simp add: quic_lock_def)
  have "quic_ctx (quic_mem ?w) = Some c" using assms(2) by simp
  with deliver_ids [OF d] obtain d' q where "quic_ctx (quic_mem w') = Some d'" "id_map d' = id_map c"
    "next_stream_id d' = next_stream_id c" "accept_queue d' = accept_queue c @ q"
    by (auto simp: keeps_ids_def split: option.splits)
  with memory_cb.deliver_keeps [OF _ _ d] show thesis by (intro that) simp_all
qed

lemma fresh_id_ok:
  assumes "fresh_id a w = Some (n, w')" "quic_ctx (quic_mem w) = Some d" "no_fail w"
  shows "n = next_stream_id d + 1 \<and> quic_ctx (quic_mem w') = Some (d\<lparr>next_stream_id := n, id_map := (n, a) # id_map d\<rparr>) \<and> no_fail w'"
proof -
  let ?w = "upd_ctx (\<lambda>c. c\<lparr>next_stream_id := next_stream_id d + 1\<rparr>) w"
  have m: "map_add (next_stream_id d + 1) a ?w = Some w'" and n: "n = next_stream_id d + 1"
    using assms(1,2) by (auto simp: fresh_id_def Option.bind_eq_Some_conv Let_def)
  have c: "quic_ctx (quic_mem ?w) = Some (d\<lparr>next_stream_id := n\<rparr>)" using assms(2) n by (simp add: upd_ctx_def)
  obtain ok w1 where r: "alloc ?w = Some (ok, w1)" "w' = (if ok then upd_ctx (\<lambda>c. c\<lparr>id_map := (n, a) # id_map c\<rparr>) w1 else w1)"
    using m n by (auto simp: map_add_def Option.bind_eq_Some_conv)
  have a: "ok" "no_fail w1" "quic_mem w1 = quic_mem ?w" using no_fail_alloc [OF _ r(1)] assms(3) by simp_all
  have "quic_ctx (quic_mem w1) = Some (d\<lparr>next_stream_id := n\<rparr>)" unfolding a(3) by (rule c)
  with a(1,2) r(2) n show ?thesis by (simp add: upd_ctx_def)
qed

lemma quic_accept_takes:
  assumes run: "iperf_quic_accept t w = Some (n, t', w')" and n: "0 < n" and c: "quic_ctx (quic_mem w) = Some c"
    and ok: "ids_in c" "no_fail w"
  obtains a q d where "quic_ctx (quic_mem w') = Some d" "accept_queue c @ q = a # accept_queue d" "id_map d = (n, a) # id_map c"
    "n = next_stream_id c + 1" "next_stream_id d = n" "ids_in d" "t' = t" "no_fail w'"
proof -
  obtain w1 where 1: "(if wake_read c \<ge> 0 then do { (_, _, w) \<leftarrow> sys_read (wake_read c) 1 w; Some w } else Some w) = Some w1"
    using run c by (auto simp: iperf_quic_accept_def Option.bind_eq_Some_conv)
  have w1: "quic_mem w1 = quic_mem w" "no_fail w1"
    using 1 ok(2) no_fail_calls(3) by (auto simp: Option.bind_eq_Some_conv split: if_splits)
  obtain w2 where 2: "quic_lock w1 = Some w2" using run c 1 by (auto simp: iperf_quic_accept_def Option.bind_eq_Some_conv)
  obtain d q where d: "quic_ctx (quic_mem w2) = Some d" "id_map d = id_map c" "next_stream_id d = next_stream_id c"
    "accept_queue d = accept_queue c @ q" "no_fail w2"
    using lock_keeps [OF 2, of c] c w1 by metis
  have "accept_queue d \<noteq> []"
    using run c 1 2 d(1) n by (auto simp: iperf_quic_accept_def accept_deq_def)
  then obtain a q' where q': "accept_queue d = a # q'" by (auto simp: neq_Nil_conv)
  let ?w3 = "upd_ctx (\<lambda>c. c\<lparr>accept_queue := q'\<rparr>) w2" and ?d = "d\<lparr>accept_queue := q'\<rparr>"
  have f: "fresh_id a ?w3 = Some (n, w')" and t: "t' = t"
    using run c 1 2 d(1) q' by (auto simp: iperf_quic_accept_def accept_deq_def Option.bind_eq_Some_conv)
  have ctx: "quic_ctx (quic_mem ?w3) = Some ?d" using d(1) by (simp add: upd_ctx_def)
  note r = fresh_id_ok [OF f ctx]
  have "n \<notin> set (map fst (id_map c))" using ok(1) r d(3,5) by (auto simp: ids_in_def)
  with ok(1) r d have "ids_in (?d\<lparr>next_stream_id := n, id_map := (n, a) # id_map ?d\<rparr>)" by (force simp: ids_in_def)
  with d q' r t show thesis by (intro that [of "?d\<lparr>next_stream_id := n, id_map := (n, a) # id_map ?d\<rparr>" q a]) simp_all
qed

lemma quic_attach_finds:
  assumes "iperf_quic_attach_stream t sp n w = Some (r, sp', w')" "quic_ctx (quic_mem w) = Some c"
    and "id_map c = (n, a) # m"
  obtains d q where "r = 0" "stream_ctx sp' = Some a" "quic_ctx (quic_mem w') = Some d" "id_map d = m"
    "next_stream_id d = next_stream_id c" "accept_queue d = accept_queue c @ q"
proof -
  obtain w1 where 1: "quic_lock w = Some w1" using assms(1,2) by (auto simp: iperf_quic_attach_stream_def Option.bind_eq_Some_conv)
  obtain d q where d: "quic_ctx (quic_mem w1) = Some d" "id_map d = id_map c" "next_stream_id d = next_stream_id c"
    "accept_queue d = accept_queue c @ q"
    by (rule lock_keeps [OF 1 assms(2)])
  with assms 1 show thesis
    by (intro that [of "d\<lparr>id_map := m\<rparr>" q]) (auto simp: iperf_quic_attach_stream_def map_take_def upd_ctx_def)
qed

section \<open>Waiting for the handshake\<close>

definition not_ready :: "world \<Rightarrow> bool" where
  "not_ready w \<longleftrightarrow> (\<forall>c. quic_ctx (quic_mem w) = Some c \<longrightarrow> handshake_ready c = 0)"

lemma not_ready_mem: "quic_mem w' = quic_mem w \<Longrightarrow> not_ready w' = not_ready w"
  by (simp add: not_ready_def)

lemma not_ready_shared [simp]: "not_ready (set_sc a sc w) = not_ready w" "not_ready (quic_call c w) = not_ready w"
  "not_ready (set_callback h x w) = not_ready w" "not_ready (upd_quic (\<lambda>q. q\<lparr>next_ctx := n\<rparr>) w) = not_ready w"
  "not_ready (upd_quic (\<lambda>q. q\<lparr>coming_events := es\<rparr>) w) = not_ready w"
  by (simp_all add: not_ready_def shared_defs)

lemma not_ready_ctx [simp]: "not_ready (upd_ctx (\<lambda>c. c\<lparr>handshake_ready := 0, shutdown_done := y\<rparr>) w)"
  "not_ready (upd_ctx (\<lambda>c. c\<lparr>quic_conn := z\<rparr>) w) = not_ready w"
  "not_ready (upd_ctx (\<lambda>c. c\<lparr>accept_queue := f c\<rparr>) w) = not_ready w"
  by (auto simp: not_ready_def upd_ctx_def)

interpretation ready_cb: callback_inv not_ready False
  by unfold_locales (simp_all add: not_ready_mem [OF quic_status_mem] not_ready_mem [OF sys_write_mem])

text \<open>Of the batches evs those up to bs have been delivered, and the handshake is not over before the
  event that says so, unless (b0) it was already.\<close>

definition awaits :: "bool \<Rightarrow> quic_event list list \<Rightarrow> quic_event list list \<Rightarrow> world \<Rightarrow> bool" where
  "awaits b0 evs bs w \<longleftrightarrow> (\<exists>es. evs = es @ bs \<and> (b0 \<or> Connected \<in> set (concat es) \<or> not_ready w))"

lemma awaits_deliver:
  assumes "awaits b0 evs (b # bs) w" "deliver b w = Some w'"
  shows "awaits b0 evs bs w'"
proof -
  obtain es where es: "evs = es @ b # bs" "b0 \<or> Connected \<in> set (concat es) \<or> not_ready w" using assms(1) by (auto simp: awaits_def)
  have "b0 \<or> Connected \<in> set (concat (es @ [b])) \<or> not_ready w'"
    using es(2) ready_cb.deliver_keeps [OF _ _ assms(2)] by auto
  then show ?thesis using es(1) by (auto simp: awaits_def intro!: exI [of _ "es @ [b]"])
qed

lemma awaits_mem: "quic_mem w' = quic_mem w \<Longrightarrow> awaits b0 evs bs w' = awaits b0 evs bs w"
  using not_ready_mem [of w' w] by (simp only: awaits_def)

lemma awaits_shared [simp]: "awaits b0 evs bs (quic_call c w) = awaits b0 evs bs w" "awaits b0 evs bs (set_sc a sc w) = awaits b0 evs bs w"
  "awaits b0 evs bs (upd_quic (\<lambda>q. q\<lparr>coming_events := es\<rparr>) w) = awaits b0 evs bs w"
  by (simp_all add: awaits_def)

lemma awaits_lock:
  assumes "awaits b0 evs (coming_events (quic_mem w)) w" "quic_lock w = Some w'"
  shows "awaits b0 evs (coming_events (quic_mem w')) w'"
proof (cases "coming_events (quic_mem w)")
  case Nil
  with assms show ?thesis by (simp add: quic_lock_def)
next
  case (Cons b bs)
  with assms(2) have d: "deliver b (upd_quic (\<lambda>q. q\<lparr>coming_events := bs\<rparr>) w) = Some w'" by (simp add: quic_lock_def)
  have "awaits b0 evs (b # bs) (upd_quic (\<lambda>q. q\<lparr>coming_events := bs\<rparr>) w)" using assms(1) Cons by simp
  from awaits_deliver [OF this d] deliver_ids [OF d] show ?thesis by (simp add: keeps_ids_def)
qed

lemma awaits_wait:
  "awaits b0 evs bs w \<Longrightarrow> wait_ready bs w = Some w' \<Longrightarrow> awaits b0 evs (coming_events (quic_mem w')) w'"
proof (induction bs arbitrary: w)
  case Nil
  then show ?case by (subst (asm) wait_ready.simps) (auto split: option.splits if_splits)
next
  case (Cons b bs)
  show ?case
  proof (cases "not_ready w")
    case True
    with Cons.prems(2) obtain w1 where "deliver b w = Some w1" "wait_ready bs w1 = Some w'"
      by (subst (asm) wait_ready.simps) (auto simp: Option.bind_eq_Some_conv not_ready_def split: option.splits if_splits)
    with Cons.IH awaits_deliver [OF Cons.prems(1)] show ?thesis by blast
  next
    case False
    with Cons.prems(2) have "w' = upd_quic (\<lambda>q. q\<lparr>coming_events := b # bs\<rparr>) w"
      by (subst (asm) wait_ready.simps) (auto simp: not_ready_def split: option.splits)
    with Cons.prems(1) show ?thesis by simp
  qed
qed

lemma awaits_wait_until:
  "awaits b0 evs bs w \<Longrightarrow> wait_ready_until bs w = Some w' \<Longrightarrow> awaits b0 evs (coming_events (quic_mem w')) w'"
proof (induction bs arbitrary: w)
  case Nil
  then show ?case by (subst (asm) wait_ready_until.simps) (auto split: option.splits if_splits)
next
  case (Cons b bs)
  show ?case
  proof (cases "not_ready w")
    case True
    with Cons.prems(2) obtain w1 w2 late where 1: "deliver b w = Some w1" "quic_status w1 = Some (late, w2)"
      and 2: "(if late then Some (upd_quic (\<lambda>q. q\<lparr>coming_events := bs\<rparr>) w2) else wait_ready_until bs w2) = Some w'"
      by (subst (asm) wait_ready_until.simps) (auto simp: Option.bind_eq_Some_conv not_ready_def split: option.splits if_splits)
    have "awaits b0 evs bs w2" using awaits_deliver [OF Cons.prems(1) 1(1)] awaits_mem [OF quic_status_mem [OF 1(2)]] by simp
    with 2 Cons.IH show ?thesis by (auto split: if_splits)
  next
    case False
    with Cons.prems(2) have "w' = upd_quic (\<lambda>q. q\<lparr>coming_events := b # bs\<rparr>) w"
      by (subst (asm) wait_ready_until.simps) (auto simp: not_ready_def split: option.splits)
    with Cons.prems(1) show ?thesis by simp
  qed
qed

text \<open>Connecting: the handshake is over before a stream is opened.\<close>

definition listening :: "bool \<Rightarrow> quic_event list list \<Rightarrow> world \<Rightarrow> bool" where
  "listening b0 evs w \<longleftrightarrow> awaits b0 evs (coming_events (quic_mem w)) w"

lemma listening_mem: "quic_mem w' = quic_mem w \<Longrightarrow> listening b0 evs w \<Longrightarrow> listening b0 evs w'"
  by (simp add: listening_def awaits_def not_ready_def)

lemma listening_shared [simp]: "listening b0 evs (quic_call c w) = listening b0 evs w" "listening b0 evs (set_sc a sc w) = listening b0 evs w"
  "listening b0 evs (upd_ctx (\<lambda>c. c\<lparr>api_open := x1\<rparr>) w) = listening b0 evs w"
  "listening b0 evs (upd_ctx (\<lambda>c. c\<lparr>registration := x2\<rparr>) w) = listening b0 evs w"
  "listening b0 evs (upd_ctx (\<lambda>c. c\<lparr>configuration := x2\<rparr>) w) = listening b0 evs w"
  "listening b0 evs (upd_ctx (\<lambda>c. c\<lparr>quic_conn := x2\<rparr>) w) = listening b0 evs w"
  "listening b0 evs (upd_ctx (\<lambda>c. c\<lparr>next_stream_id := x3\<rparr>) w) = listening b0 evs w"
  "listening b0 evs (upd_ctx (\<lambda>c. c\<lparr>id_map := f c\<rparr>) w) = listening b0 evs w"
  "listening b0 evs (upd_ctx (\<lambda>c. c\<lparr>wake_read := x4, wake_write := x5\<rparr>) w) = listening b0 evs w"
  "listening b0 evs (set_callback h x w) = listening b0 evs w" "listening b0 evs (upd_quic (\<lambda>q. q\<lparr>next_ctx := n\<rparr>) w) = listening b0 evs w"
  "listening b0 evs (w\<lparr>i_errno := x3\<rparr>) = listening b0 evs w" "listening b0 evs (quic_sc_free a w) = listening b0 evs w"
  by (auto simp: listening_def awaits_def not_ready_def shared_defs)

lemma listening_status: "listening b0 evs w \<Longrightarrow> (\<And>b w'. listening b0 evs w' \<Longrightarrow> Q (b, w')) \<Longrightarrow> post (quic_status w) Q"
  by (rule post_2I) (blast dest: quic_status_mem intro: listening_mem)

lemma quic_handle_mem: "quic_handle w = Some (h, w') \<Longrightarrow> quic_mem w' = quic_mem w"
  by (auto simp: quic_handle_def next_reply_Some Option.bind_eq_Some_conv)

lemma listening_handle: "listening b0 evs w \<Longrightarrow> (\<And>h w'. listening b0 evs w' \<Longrightarrow> Q (h, w')) \<Longrightarrow> post (quic_handle w) Q"
  by (rule post_2I) (blast dest: quic_handle_mem intro: listening_mem)

lemma listening_open:
  "listening b0 evs w \<Longrightarrow> (\<And>b w'. listening b0 evs w' \<Longrightarrow> Q (b, w')) \<Longrightarrow> post (open_api w) Q"
  "listening b0 evs w \<Longrightarrow> (\<And>b w'. listening b0 evs w' \<Longrightarrow> Q (b, w')) \<Longrightarrow> post (open_config lib t srv w) Q"
  "listening b0 evs w \<Longrightarrow> (\<And>b w'. listening b0 evs w' \<Longrightarrow> Q (b, w')) \<Longrightarrow> post (open_connection t w) Q"
  unfolding open_api_def open_config_def open_connection_def load_credential_def
  by (auto split: option.splits intro!: listening_status listening_handle post_any [where m = "quic_ctx q" for q] post_any [where m = "server_hostname t"])

lemma sys_pipe_mem: "sys_pipe w = Some (p, w') \<Longrightarrow> quic_mem w' = quic_mem w"
  by (cases "replies w"; cases "hd (replies w)") (auto simp: sys_pipe_def next_reply_def emit_def Let_def)

lemma sys_val_mem: "sys_val es w = Some (v, w') \<Longrightarrow> quic_mem w' = quic_mem w"
  by (cases "replies w"; cases "hd (replies w)") (auto simp: sys_val_def next_reply_def emit_def Let_def)

lemma sys_ok_mem: "sys_ok e w = Some (v, w') \<Longrightarrow> quic_mem w' = quic_mem w"
  by (cases "replies w"; cases "hd (replies w)") (auto simp: sys_ok_def next_reply_def emit_def Let_def)

lemma set_nonblock_mem: "set_nonblock f w = Some w' \<Longrightarrow> quic_mem w' = quic_mem w"
  by (auto simp: set_nonblock_def Option.bind_eq_Some_conv split: if_splits dest!: sys_val_mem sys_ok_mem)

lemma listening_init:
  assumes "listening b0 evs w" "quic_ctx (quic_mem w) = None"
    "\<And>r t' w'. listening b0 evs w' \<Longrightarrow> Q (r, t', w')" "\<And>x. Q (-1, x)"
  shows "post (quic_ctx_init lib as_server t w) Q"
proof -
  have pipe: "post (sys_pipe v) R" if "listening b0 evs v" "\<And>p v'. listening b0 evs v' \<Longrightarrow> R (p, v')" for v R
    using that by (intro post_2I) (blast dest: sys_pipe_mem intro: listening_mem)
  have nb: "post (set_nonblock f v) R" if "listening b0 evs v" "\<And>v'. listening b0 evs v' \<Longrightarrow> R v'" for f v R
    by (rule postI, rule that(2)) (use that(1) set_nonblock_mem listening_mem in blast)
  have new: "listening b0 evs (upd_quic (\<lambda>q. q\<lparr>quic_ctx := Some (new_context as_server)\<rparr>) v)" if "listening b0 evs v" for v
    using that by (auto simp: listening_def awaits_def not_ready_def new_context_def)
  show ?thesis
    unfolding quic_ctx_init_def alloc_def using assms
    by (auto split: option.splits prod.splits intro!: listening_status listening_open pipe nb new)
qed

lemma listening_lock: "listening b0 evs w \<Longrightarrow> (\<And>w'. listening b0 evs w' \<Longrightarrow> Q w') \<Longrightarrow> post (quic_lock w) Q"
  by (rule postI) (simp add: listening_def awaits_lock)

lemma listening_clock: "listening b0 evs w \<Longrightarrow> (\<And>x w'. listening b0 evs w' \<Longrightarrow> Q (x, w')) \<Longrightarrow> post (clock_plus ms w) Q"
  by (rule post_2I) (auto simp: clock_plus_def Option.bind_eq_Some_conv dest!: sys_val_mem intro: listening_mem)

lemma listening_handshake:
  assumes "listening b0 evs w" "\<And>w'. listening b0 evs w' \<Longrightarrow> Q w'"
  shows "post (quic_handshake t w) Q"
proof -
  have "post (wait_ready (coming_events (quic_mem v)) v) Q" "post (wait_ready_until (coming_events (quic_mem v)) (quic_call c v)) Q"
    if "listening b0 evs v" for v c
    using that assms(2) by (auto intro!: postI simp: listening_def dest: awaits_wait awaits_wait_until [where w = "quic_call c v", rotated])
  then show ?thesis
    unfolding quic_handshake_def using assms
    by (auto intro!: listening_clock post_any [where m = "quic_ctx q" for q])
qed

text \<open>Of the batches evs some have been delivered, and the event that ends the handshake among them.\<close>

definition heard :: "quic_event list list \<Rightarrow> world \<Rightarrow> bool" where
  "heard evs w \<longleftrightarrow> (\<exists>es. evs = es @ coming_events (quic_mem w) \<and> Connected \<in> set (concat es))"

lemma heard_ready:
  "listening False evs w \<Longrightarrow> quic_ctx (quic_mem w) = Some c \<Longrightarrow> handshake_ready c \<noteq> 0 \<Longrightarrow> heard evs w"
  by (auto simp: listening_def awaits_def not_ready_def heard_def)

lemma heard_later: "heard evs w \<Longrightarrow> listening True (coming_events (quic_mem w)) w' \<Longrightarrow> heard evs w'"
proof -
  assume "heard evs w" "listening True (coming_events (quic_mem w)) w'"
  then obtain es fs where "evs = (es @ fs) @ coming_events (quic_mem w')" "Connected \<in> set (concat (es @ fs))"
    by (auto simp: heard_def listening_def awaits_def)
  then show ?thesis unfolding heard_def by blast
qed

lemma listening_self: "listening True (coming_events (quic_mem w)) w"
  by (simp add: listening_def awaits_def)

lemma listening_close [simp]: "listening b0 evs (close_stream a w) = listening b0 evs w"
  by (simp add: close_stream_def split: option.split)

lemma listening_sc_new: "listening b0 evs w \<Longrightarrow> (\<And>a w'. listening b0 evs w' \<Longrightarrow> Q (a, w')) \<Longrightarrow> post (quic_sc_new h w) Q"
  unfolding quic_sc_new_def alloc_def by (auto simp: Let_def intro!: listening_status)

lemma listening_stream:
  assumes "listening b0 evs w" "\<And>n t' w'. listening b0 evs w' \<Longrightarrow> Q (n, t', w')"
  shows "post (open_stream t w) Q"
  unfolding open_stream_def quic_fails_def fresh_id_def map_add_def alloc_def using assms
  by (auto simp: Let_def split: option.split
      intro!: listening_handle listening_sc_new listening_status listening_lock post_any [where m = "quic_ctx q" for q])

lemma connect_heard:
  assumes run: "iperf_quic_connect lib t w = Some (n, t', w')" and n: "n \<noteq> -1" and new: "quic_ctx (quic_mem w) = None"
  shows "heard (coming_events (quic_mem w)) w'"
proof -
  let ?evs = "coming_events (quic_mem w)"
  have l: "listening False ?evs w" using new by (simp add: listening_def awaits_def not_ready_def)
  have stream: "post (open_stream t v) (\<lambda>(n, t', v'). n \<noteq> -1 \<longrightarrow> heard ?evs v')" if "heard ?evs v" for t v
    using that by (intro listening_stream [OF listening_self]) (simp add: heard_later)
  have ready: "post (quic_ctx (quic_mem v)) (\<lambda>c. post (if handshake_ready c = 0 then quic_fails IECONNECT t v else open_stream t v)
      (\<lambda>(n, t', v'). n \<noteq> -1 \<longrightarrow> heard ?evs v'))" if l: "listening False ?evs v" for t v
  proof (rule postI)
    fix c assume "quic_ctx (quic_mem v) = Some c"
    with heard_ready [OF l] stream [of v t]
    show "post (if handshake_ready c = 0 then quic_fails IECONNECT t v else open_stream t v) (\<lambda>(n, t', v'). n \<noteq> -1 \<longrightarrow> heard ?evs v')"
      by (simp add: quic_fails_def)
  qed
  have opened: "post (do { w \<leftarrow> quic_lock v; w \<leftarrow> quic_handshake t w; c \<leftarrow> quic_ctx (quic_mem w);
      if handshake_ready c = 0 then quic_fails IECONNECT t w else open_stream t w }) (\<lambda>(n, t', v'). n \<noteq> -1 \<longrightarrow> heard ?evs v')"
    if "listening False ?evs v" for t v
    unfolding post_bind by (rule listening_lock [OF that], erule listening_handshake) (rule ready)
  have "post (iperf_quic_connect lib t w) (\<lambda>(n, t', v'). n \<noteq> -1 \<longrightarrow> heard ?evs v')"
    unfolding iperf_quic_connect_def post_bind [of "quic_ctx_init lib False t w"]
  proof (rule listening_init [OF l new])
    show "post (case (r, t', v) of (r, t, w) \<Rightarrow> if r < 0 then Some (-1, t, if i_errno w = 0 then w\<lparr>i_errno := IECONNECT\<rparr> else w)
        else do {
          (ok, w) \<leftarrow> open_connection t w;
          if \<not> ok then quic_fails IECONNECT t w
          else do {
            w \<leftarrow> quic_lock w;
            w \<leftarrow> quic_handshake t w;
            c \<leftarrow> quic_ctx (quic_mem w);
            if handshake_ready c = 0 then quic_fails IECONNECT t w else open_stream t w } })
      (\<lambda>(n, t', v'). n \<noteq> -1 \<longrightarrow> heard ?evs v')" if lv: "listening False ?evs v" for r t' v
      unfolding prod.case post_if post_Some post_bind [of "open_connection t' v"]
      by (intro conjI impI, simp, rule listening_open(3) [OF lv], simp only: prod.case)
        (auto simp: quic_fails_def simp del: post_bind intro!: opened)
  qed simp
  from postD [OF this run] n show ?thesis by simp
qed

end
