(* ===== verification/Iperf_Strerror.thy ===== *)
theory Iperf_Strerror
  imports Iperf_Types Iperf_Decimal "HOL-Library.Sublist"
begin

text \<open>
  The texts of the errors: iperf_strerror of src/iperf_error.c. The switch over the codes is a table, cut
  in three; an entry has the text and whether the reason of errno (perr) and that of the resolver (herr)
  go behind it. Constants in a text are printed with their value. What strerror and gai_strerror say
  are arguments. The buffer holds 255 characters.
\<close>

definition errors_first :: "(int \<times> string \<times> bool \<times> bool) list" where
  "errors_first = [
    (IENONE, ''no error'', False, False),
    (IESERVCLIENT, ''cannot be both server and client'', False, False),
    (IENOROLE, ''must either be a client (-c) or server (-s)'', False, False),
    (IESERVERONLY, ''some option you are trying to set is server only'', False, False),
    (IECLIENTONLY, ''some option you are trying to set is client only'', False, False),
    (IEDURATION, ''test duration valid values are 0 to 86400 seconds'', False, False),
    (IENUMSTREAMS, ''number of parallel streams too large (maximum = 128)'', False, False),
    (IEBLOCKSIZE, ''block size too large (maximum = 1048576 bytes)'', False, False),
    (IEBUFSIZE, ''socket buffer size too large (maximum = 536870912 bytes)'', False, False),
    (IEINTERVAL, ''invalid report interval (min = 0.1, max = 60 seconds)'', False, False),
    (IEBIND, ''--bind must be specified to use --cport'', False, False),
    (IEUDPBLOCKSIZE, ''block size invalid (minimum = 16 bytes, maximum = 65507 bytes)'', False, False),
    (IEBADTOS, ''bad TOS value (must be between 0 and 255 inclusive)'', False, False),
    (IESETCLIENTAUTH, ''you must specify a username, password, and path to a valid RSA public key'', False, False),
    (IESETSERVERAUTH, ''you must specify a path to a valid RSA private key and a user credential file'', False, False),
    (IESERVERAUTHUSERS, ''cannot access authorized users file'', False, False),
    (IEBADFORMAT, ''bad format specifier (valid formats are in the set [kmgtKMGT])'', False, False),
    (IEBADPORT, ''port number must be between 1 and 65535 inclusive'', False, False),
    (IEMSS, ''TCP MSS too large (maximum = 32767 bytes)'', False, False),
    (IENOSENDFILE, ''this OS does not support sendfile'', False, False),
    (IEOMIT, ''bogus value for --omit (maximum = 600 seconds)'', False, False),
    (IEUNIMP, ''an option you are trying to set is not implemented yet'', False, False),
    (IEFILE, ''unable to open -F file'', True, False),
    (IEQUICCERT, ''unable to open or load QUIC certificate credentials'', True, False),
    (IEBURST, ''invalid burst count (maximum = 1000)'', False, False),
    (IEENDCONDITIONS, ''only one test end condition (-t, -n, -k) may be specified'', False, False),
    (IELOGFILE, ''unable to open log file'', True, False),
    (IENOSCTP, ''no SCTP support available'', False, False),
    (IENEWTEST, ''unable to create a new test'', True, False),
    (IEINITTEST, ''test initialization failed'', True, False),
    (IEAUTHTEST, ''test authorization failed'', False, False),
    (IELISTEN, ''unable to start listener for connections'', True, True),
    (IECONNECT, ''unable to connect to server - server may have stopped running or use a different port, firewall issue, etc.'', True, True),
    (IEACCEPT, ''unable to accept connection from client'', True, True),
    (IESENDCOOKIE, ''unable to send cookie to server'', True, False),
    (IERECVCOOKIE, ''unable to receive cookie at server'', True, False),
    (IECTRLWRITE, ''unable to write to the control socket'', True, False),
    (IECTRLREAD, ''unable to read from the control socket'', True, False),
    (IECTRLCLOSE, ''control socket has closed unexpectedly'', False, False)]"

definition errors_control :: "(int \<times> string \<times> bool \<times> bool) list" where
  "errors_control = [
    (IEMESSAGE, ''received an unknown control message (ensure other side is iperf3 and not iperf)'', False, False),
    (IESENDMESSAGE, ''unable to send control message - port may not be available, the other side may have stopped running, etc.'', True, False),
    (IERECVMESSAGE, ''unable to receive control message - port may not be available, the other side may have stopped running, etc.'', True, False),
    (IESENDPARAMS, ''unable to send parameters to server'', True, False),
    (IERECVPARAMS, ''unable to receive parameters from client'', True, False),
    (IEPACKAGERESULTS, ''unable to package results'', True, False),
    (IESENDRESULTS, ''unable to send results'', True, False),
    (IERECVRESULTS, ''unable to receive results'', True, False),
    (IESELECT, ''select failed'', True, False),
    (IECLIENTTERM, ''the client has terminated'', False, False),
    (IESERVERTERM, ''the server has terminated'', False, False),
    (IEACCESSDENIED, ''the server is busy running a test. try again later'', False, False),
    (IESETNODELAY, ''unable to set TCP/SCTP NODELAY'', True, False),
    (IESETMSS, ''unable to set TCP/SCTP MSS'', True, False),
    (IESETBUF, ''unable to set socket buffer size'', True, False),
    (IESETTOS, ''unable to set IP TOS'', True, False),
    (IESETCOS, ''unable to set IPv6 traffic class'', True, False),
    (IESETFLOW, ''unable to set IPv6 flow label'', False, False),
    (IEREUSEADDR, ''unable to reuse address on socket'', True, False),
    (IENONBLOCKING, ''unable to set socket to non-blocking'', True, False),
    (IESETWINDOWSIZE, ''unable to set socket window size'', True, False),
    (IEPROTOCOL, ''protocol does not exist'', False, False),
    (IEAFFINITY, ''unable to set CPU affinity'', True, False),
    (IERCVTIMEOUT, ''receive timeout value is incorrect or not in range'', True, False),
    (IESNDTIMEOUT, ''send timeout value is incorrect or not in range'', True, False),
    (IEUDPFILETRANSFER, ''cannot transfer file using UDP'', False, False),
    (IERVRSONLYRCVTIMEOUT, ''client receive timeout is valid only in receiving mode'', True, False),
    (IEDAEMON, ''unable to become a daemon'', True, False),
    (IECREATESTREAM, ''unable to create a new stream'', True, True),
    (IEINITSTREAM, ''unable to initialize stream'', True, True),
    (IESTREAMLISTEN, ''unable to start stream listener'', True, True)]"

definition errors_stream :: "(int \<times> string \<times> bool \<times> bool) list" where
  "errors_stream = [
    (IESTREAMCONNECT, ''unable to connect stream'', True, True),
    (IESTREAMACCEPT, ''unable to accept stream connection'', True, False),
    (IESTREAMWRITE, ''unable to write to stream socket'', True, False),
    (IESTREAMREAD, ''unable to read from stream socket'', True, False),
    (IESTREAMCLOSE, ''stream socket has closed unexpectedly'', False, False),
    (IESTREAMID, ''stream has an invalid id'', False, False),
    (IENEWTIMER, ''unable to create new timer'', True, False),
    (IEUPDATETIMER, ''unable to update timer'', True, False),
    (IESETCONGESTION, ''unable to set TCP_CONGESTION: Supplied congestion control algorithm not supported on this host'', False, False),
    (IEPIDFILE, ''unable to write PID file'', True, False),
    (IEV6ONLY, ''Unable to set/reset IPV6_V6ONLY'', True, False),
    (IESETSCTPDISABLEFRAG, ''unable to set SCTP_DISABLE_FRAGMENTS'', True, False),
    (IESETSCTPNSTREAM, ''unable to set SCTP_INIT num of SCTP streams'' @ [CHR 0x0A], True, False),
    (IESETPACING, ''unable to set socket pacing'', True, False),
    (IESETBUF2, ''socket buffer size not set correctly'', False, False),
    (IEREVERSEBIDIR, ''cannot be both reverse and bidirectional'', False, False),
    (IETOTALRATE, ''total required bandwidth is larger than server limit'', False, False),
    (IETOTALINTERVAL, ''invalid time interval for calculating average data rate'', False, False),
    (IESKEWTHRESHOLD, ''skew threshold must be a positive number'', False, False),
    (IEIDLETIMEOUT, ''idle timeout parameter is not positive or larger than allowed limit'', False, False),
    (IEBINDDEV, ''Unable to bind-to-device (check perror, maybe permissions?)'', False, False),
    (IEBINDDEVNOSUPPORT, ''`<ip>%<dev>` is not supported as system does not support bind to device'', False, False),
    (IEHOSTDEV, ''host device name (ip%<dev>) is supported (and required) only for IPv6 link-local address'', False, False),
    (IENOMSG, ''idle timeout for receiving data'', False, False),
    (IESETDONTFRAGMENT, ''unable to set IP Do-Not-Fragment flag'', False, False),
    (IESETUSERTIMEOUT, ''unable to set TCP USER_TIMEOUT'', True, False),
    (IEPTHREADCREATE, ''unable to create thread'', True, False),
    (IEPTHREADCANCEL, ''unable to cancel thread'', True, False),
    (IEPTHREADJOIN, ''unable to join thread'', True, False),
    (IEPTHREADATTRINIT, ''unable to create thread attributes'', True, False),
    (IEPTHREADSIGMASK, ''unable to change mask of blocked signals'', False, False),
    (IEPTHREADATTRDESTROY, ''unable to destroy thread attributes'', False, False),
    (IECNTLKA, ''control connection Keepalive period should be larger than the full retry period (interval * count)'', True, False),
    (IESETCNTLKA, ''unable to set socket keepalive (SO_KEEPALIVE) option'', True, False),
    (IESETCNTLKAKEEPIDLE, ''unable to set socket keepalive TCP period (TCP_KEEPIDLE) option'', True, False),
    (IESETCNTLKAINTERVAL, ''unable to set/get socket keepalive TCP retry interval (TCP_KEEPINTVL) option'', True, False),
    (IESETCNTLKACOUNT, ''unable to set/get socket keepalive TCP number of retries (TCP_KEEPCNT) option'', True, False),
    (IEMAXSERVERTESTDURATIONEXCEEDED, ''client's requested duration exceeds the server's maximum permitted limit'', False, False)]"

definition error_text :: "string option \<Rightarrow> int \<Rightarrow> (string \<times> bool \<times> bool) option" where
  "error_text errarg e =
     (if e = IEUNITVAL then map_option (\<lambda>a. (''invalid unit value or suffix: '' @ [CHR 0x27] @ a @ [CHR 0x27], False, False)) errarg
      else case map_of (errors_first @ errors_control @ errors_stream) e of
          Some x \<Rightarrow> Some x
        | None \<Rightarrow> Some (''int_errno='' @ show_int e, True, False))"

text \<open>snprintf and strncat into the buffer. An argument that was never set (errarg) is no string.\<close>

definition ERRSTR_MAX :: nat where
  "ERRSTR_MAX = 255"

definition strncat_err :: "string \<Rightarrow> string \<Rightarrow> string" where
  "strncat_err s t = s @ take (ERRSTR_MAX - length s) t"

definition iperf_strerror :: "(int \<Rightarrow> string) \<Rightarrow> (int \<Rightarrow> string) \<Rightarrow> string option \<Rightarrow> int \<Rightarrow> world \<Rightarrow> (string \<times> world) option" where
  "iperf_strerror strerror gai_strerror errarg e w = do {
     (m, perr, herr) \<leftarrow> error_text errarg e;
     let s = take ERRSTR_MAX m;
     let s = (if herr \<or> perr then strncat_err s '': '' else s);
     Some (if errno w \<noteq> 0 \<and> perr then (strncat_err s (strerror (errno w)), w)
           else if herr \<and> gerror w \<noteq> 0 then (strncat_err s (gai_strerror (gerror w)), w\<lparr>gerror := 0\<rparr>)
           else (s, w)) }"

section \<open>Telling the errors apart\<close>

text \<open>The start of the message of a code, which does not depend on errno, the resolver or errarg.\<close>

definition text_start :: "string \<times> bool \<times> bool \<Rightarrow> string" where
  "text_start x = (case x of (m, perr, herr) \<Rightarrow> if perr \<or> herr then m @ '': '' else m)"

definition unit_start :: string where
  "unit_start = ''invalid unit value or suffix: '' @ [CHR 0x27]"

definition known_errors :: "(int \<times> string \<times> bool \<times> bool) list" where
  "known_errors = (IEUNITVAL, unit_start, False, False) # errors_first @ errors_control @ errors_stream"

definition error_start :: "int \<Rightarrow> string" where
  "error_start e = (case map_of known_errors e of
     Some x \<Rightarrow> text_start x
   | None \<Rightarrow> ''int_errno='' @ show_int e @ '': '')"

definition apart :: "string \<Rightarrow> string \<Rightarrow> bool" where
  "apart x y \<longleftrightarrow> \<not> prefix x y \<and> \<not> prefix y x"

text \<open>The messages are compared after grouping them by their next character; n bounds the length of what
  two of them share.\<close>

fun add_tail :: "char \<Rightarrow> int \<Rightarrow> string \<Rightarrow> (int \<times> string) list \<Rightarrow> (int \<times> string) list" where
  "add_tail c k [] xs = xs"
| "add_tail c k (d # s) xs = (if d = c then (k, s) # xs else xs)"

fun tails_after :: "(int \<times> string) list \<Rightarrow> char \<Rightarrow> (int \<times> string) list" where
  "tails_after [] c = []"
| "tails_after ((k, s) # xs) c = add_tail c k s (tails_after xs c)"

fun heads :: "(int \<times> string) list \<Rightarrow> char list" where
  "heads [] = []"
| "heads ((k, s) # xs) = List.insert (hd s) (heads xs)"

fun no_empty :: "(int \<times> string) list \<Rightarrow> bool" where
  "no_empty [] = True"
| "no_empty ((k, s) # xs) = (s \<noteq> [] \<and> no_empty xs)"

fun all_apart :: "nat \<Rightarrow> (int \<times> string) list \<Rightarrow> bool" where
  "all_apart n [] = True"
| "all_apart n [x] = True"
| "all_apart 0 (x # y # xs) = False"
| "all_apart (Suc n) (x # y # xs) =
     (no_empty (x # y # xs) \<and> list_all (all_apart n) (map (tails_after (x # y # xs)) (heads (x # y # xs))))"

lemma no_empty_iff: "no_empty xs \<longleftrightarrow> (\<forall>x\<in>set xs. snd x \<noteq> [])"
  by (induction xs rule: no_empty.induct) auto

lemma tails_after_mem: "(k, c # s) \<in> set xs \<Longrightarrow> (k, s) \<in> set (tails_after xs c)"
proof (induction xs c rule: tails_after.induct)
  case (2 l t xs c)
  then show ?case by (cases t) auto
qed simp

lemma heads_mem: "(k, c # s) \<in> set xs \<Longrightarrow> c \<in> set (heads xs)"
  by (induction xs rule: heads.induct) auto

lemma all_apartD: "all_apart n xs \<Longrightarrow> (k, s) \<in> set xs \<Longrightarrow> (l, t) \<in> set xs \<Longrightarrow> k \<noteq> l \<Longrightarrow> apart s t"
proof (induction n xs arbitrary: s t rule: all_apart.induct)
  case (4 n x y xs)
  from 4(2-4) obtain c s' d t' where st: "s = c # s'" "t = d # t'"
    by (cases s; cases t) (auto simp del: no_empty.simps simp: no_empty_iff)
  show ?case
  proof (cases "c = d")
    case True
    with 4(3,4) st have m: "(k, s') \<in> set (tails_after (x # y # xs) c)" "(l, t') \<in> set (tails_after (x # y # xs) c)"
      by (simp_all only: tails_after_mem)
    have c: "c \<in> set (heads (x # y # xs))" using 4(3) st heads_mem by blast
    with 4(2) have "all_apart n (tails_after (x # y # xs) c)" by (simp only: all_apart.simps list_all_iff set_map) blast
    with 4(1) c m 4(5) have "apart s' t'" by auto
    then show ?thesis using st True by (simp add: apart_def)
  qed (simp add: st apart_def)
qed auto

lemma apart_append: "apart x y \<Longrightarrow> apart x (y @ z)"
  unfolding apart_def by (metis prefix_append prefix_order.trans prefix_same_cases prefixI)

lemma apart_common: "apart x y \<Longrightarrow> prefix x s \<Longrightarrow> prefix y s \<Longrightarrow> False"
  using prefix_same_cases by (auto simp: apart_def)

lemma known_apart: "all_apart 80 ((-1, ''int_errno='') # map (\<lambda>x. (fst x, text_start (snd x))) known_errors)"
  by code_simp

lemma known_no_default: "map_of known_errors (-1) = None"
  by code_simp

lemma known_pair: "map_of known_errors e = Some x \<Longrightarrow> (e, text_start x) \<in> set (map (\<lambda>x. (fst x, text_start (snd x))) known_errors)"
  by (force dest: map_of_SomeD simp: image_iff)

lemma known_fit: "list_all (\<lambda>x. length (text_start (snd x)) \<le> ERRSTR_MAX) known_errors"
  by code_simp

lemma unknown_apart:
  assumes "m \<noteq> n" "s64_min \<le> m" "m \<le> s64_max" "s64_min \<le> n" "n \<le> s64_max"
  shows "\<not> prefix (show_int m @ '': '') (show_int n @ '': '')"
proof
  assume "prefix (show_int m @ '': '') (show_int n @ '': '')"
  then obtain z where z: "show_int n @ '': '' = show_int m @ ('': '' @ z)" by (auto simp: prefix_def)
  have r: "no_digit ('': '' @ x)" for x by (simp add: no_digit_def isdigit_def code_def)
  have "(m, '': '' @ z) = (n, '': '' @ [])"
    using strtol_show_int [OF r assms(2,3), of z] strtol_show_int [OF r assms(4,5), of "[]"] z by simp
  with assms(1) show False by simp
qed

lemma known_unknown: "map_of known_errors k = Some x \<Longrightarrow> apart (text_start x) (''int_errno='' @ r)"
proof (rule apart_append, rule all_apartD [OF known_apart])
  assume "map_of known_errors k = Some x"
  then show "(k, text_start x) \<in> set ((-1, ''int_errno='') # map (\<lambda>x. (fst x, text_start (snd x))) known_errors)"
    "k \<noteq> -1" "(-1, ''int_errno='') \<in> set ((-1, ''int_errno='') # map (\<lambda>x. (fst x, text_start (snd x))) known_errors)"
    using known_pair [of k x] known_no_default by auto
qed

lemma starts_apart:
  assumes "e \<noteq> f" "s64_min \<le> e" "e \<le> s64_max" "s64_min \<le> f" "f \<le> s64_max"
  shows "apart (error_start e) (error_start f)"
proof (cases "map_of known_errors e"; cases "map_of known_errors f")
  fix x y assume "map_of known_errors e = Some x" "map_of known_errors f = Some y"
  with all_apartD [OF known_apart, of e "text_start x" f "text_start y"] known_pair assms(1) show ?thesis
    by (auto simp: error_start_def)
next
  assume "map_of known_errors e = None" "map_of known_errors f = None"
  with assms unknown_apart [of e f] unknown_apart [of f e] show ?thesis by (simp add: error_start_def apart_def)
qed (use known_unknown in \<open>auto simp: error_start_def apart_def\<close>)

lemma show_nat_length: "n < 10 ^ Suc k \<Longrightarrow> length (show_nat n) \<le> Suc k"
proof (induction k arbitrary: n)
  case (Suc k)
  then have "length (show_nat (n div 10)) \<le> Suc k" by simp
  then show ?case by (subst show_nat.simps) simp
qed (subst show_nat.simps, simp)

lemma show_int_length: "- 2147483648 \<le> e \<Longrightarrow> e < 2147483648 \<Longrightarrow> length (show_int e) \<le> 11"
proof -
  assume "- 2147483648 \<le> e" "e < 2147483648"
  then have "nat (- e) < 10 ^ Suc 9" "nat e < 10 ^ Suc 9" by auto
  from this [THEN show_nat_length] show ?thesis by (auto simp: show_int_def)
qed

lemma error_start_length: "- 2147483648 \<le> e \<Longrightarrow> e < 2147483648 \<Longrightarrow> length (error_start e) \<le> ERRSTR_MAX"
  using known_fit show_int_length [of e]
  by (auto simp: error_start_def ERRSTR_MAX_def list_all_iff split: option.split dest!: map_of_SomeD)

text \<open>Every message begins with the start of its code and fits the buffer.\<close>

lemma strncat_err_ok: "length s \<le> ERRSTR_MAX \<Longrightarrow> prefix s (strncat_err s t) \<and> length (strncat_err s t) \<le> ERRSTR_MAX"
  by (simp add: strncat_err_def)

lemma take_start: "length x \<le> n \<Longrightarrow> prefix x m \<Longrightarrow> prefix x (take n m)"
  by (auto simp: prefix_def)

lemma sep_start: "length (x @ '': '') \<le> ERRSTR_MAX \<Longrightarrow> strncat_err (take ERRSTR_MAX x) '': '' = x @ '': ''"
  by (simp add: strncat_err_def ERRSTR_MAX_def)

lemma error_text_start:
  assumes "error_text errarg e = Some (m, perr, herr)"
  shows "if perr \<or> herr then error_start e = m @ '': '' else prefix (error_start e) m"
proof (cases "e = IEUNITVAL")
  case True
  with assms show ?thesis
    by (auto simp: error_text_def error_start_def known_errors_def text_start_def unit_start_def)
next
  case False
  then have "map_of known_errors e = map_of (errors_first @ errors_control @ errors_stream) e" by (simp add: known_errors_def)
  with assms False show ?thesis
    by (auto simp: error_text_def error_start_def text_start_def split: option.splits)
qed

lemma strerror_start:
  assumes run: "iperf_strerror se gs errarg e w = Some (s, w')" and len: "length (error_start e) \<le> ERRSTR_MAX"
  shows "prefix (error_start e) s \<and> length s \<le> ERRSTR_MAX"
proof -
  obtain m perr herr where t: "error_text errarg e = Some (m, perr, herr)" using run by (auto simp: iperf_strerror_def Option.bind_eq_Some_conv)
  let ?s = "if herr \<or> perr then strncat_err (take ERRSTR_MAX m) '': '' else take ERRSTR_MAX m"
  have l: "length ?s \<le> ERRSTR_MAX" by (simp add: strncat_err_ok)
  have "prefix (error_start e) ?s"
    using error_text_start [OF t] len sep_start [of m] take_start by (auto split: if_splits)
  moreover have "prefix ?s s \<and> length s \<le> ERRSTR_MAX"
    using run t strncat_err_ok [OF l] l by (auto simp: iperf_strerror_def Let_def split: if_splits)
  ultimately show ?thesis using prefix_order.trans by blast
qed

lemma strerror_defined: "iperf_strerror se gs errarg e w = None \<longleftrightarrow> e = IEUNITVAL \<and> errarg = None"
proof -
  have "error_text errarg e = None \<longleftrightarrow> e = IEUNITVAL \<and> errarg = None"
    by (auto simp: error_text_def split: option.split)
  then show ?thesis by (cases "error_text errarg e") (auto simp: iperf_strerror_def Let_def)
qed

lemma strerror_injective:
  assumes "iperf_strerror se gs a e w = Some (s, w')" "iperf_strerror se' gs' b f v = Some (s, v')"
    and "- 2147483648 \<le> e" "e < 2147483648" "- 2147483648 \<le> f" "f < 2147483648"
  shows "e = f" "length s \<le> ERRSTR_MAX"
proof -
  note s = strerror_start [OF assms(1) error_start_length [OF assms(3,4)]] strerror_start [OF assms(2) error_start_length [OF assms(5,6)]]
  show "length s \<le> ERRSTR_MAX" using s(1) by simp
  show "e = f"
  proof (rule ccontr)
    assume "e \<noteq> f"
    then have "apart (error_start e) (error_start f)" by (rule starts_apart) (use assms(3-6) in \<open>simp_all add: s64_min_def s64_max_def\<close>)
    with s show False using apart_common by blast
  qed
qed

end
