(* ===== verification/Iperf_Document.thy ===== *)
theory Iperf_Document
  imports Iperf_Report_Ok Iperf_Control
begin

text \<open>
  The JSON document of a test (-J, --json-stream) from iperf_json_start to iperf_json_finish: what
  iperf_on_connect, connect_msg and iperf_on_test_start add to it, the events of --json-stream, and an
  error. The printer of cJSON and the texts of addresses and of the time are arguments. A line of the
  output goes to the callback or to the output file; which of the two is left out.
\<close>

section \<open>The log\<close>

text \<open>The objects json_start, json_connected, json_intervals and json_end are parts of json_top from the
  moment they are created on, so the log keeps their content and puts the document together from it.
  An object that could not be created is None. top_members is what was added behind them.\<close>

record json_log =
  json_top :: bool
  start_part :: "(string \<times> json) list option"
  connected_part :: "json list option"
  intervals_part :: "json list option"
  end_part :: "(string \<times> json) list option"
  top_members :: "(string \<times> json) list"
  json_server_output :: "json option"
  server_output_text :: "string option"

definition start_object :: "json_log \<Rightarrow> json option" where
  "start_object l = map_option (\<lambda>ms. JObject (member ''connected'' (map_option JArray (connected_part l)) @ ms)) (start_part l)"

definition json_document :: "json_log \<Rightarrow> json" where
  "json_document l = JObject (member ''start'' (start_object l)
     @ member ''intervals'' (map_option JArray (intervals_part l))
     @ member ''end'' (map_option JObject (end_part l)) @ top_members l)"

text \<open>What there is no memory for is not created, and the rest is not tried; mem n says whether the n-th
  object can be.\<close>

definition iperf_json_start :: "(nat \<Rightarrow> bool) \<Rightarrow> json_log \<Rightarrow> int \<times> json_log" where
  "iperf_json_start mem l =
     (let l = l\<lparr>json_top := mem 0, top_members := []\<rparr> in
      if \<not> mem 0 then (-1, l)
      else if \<not> mem 1 then (-1, l\<lparr>start_part := None\<rparr>)
      else (let l = l\<lparr>start_part := Some []\<rparr> in
        if \<not> mem 2 then (-1, l\<lparr>connected_part := None\<rparr>)
        else (let l = l\<lparr>connected_part := Some []\<rparr> in
          if \<not> mem 3 then (-1, l\<lparr>intervals_part := None\<rparr>)
          else (let l = l\<lparr>intervals_part := Some []\<rparr> in
            if \<not> mem 4 then (-1, l\<lparr>end_part := None\<rparr>)
            else (0, l\<lparr>end_part := Some []\<rparr>)))))"

section \<open>Output\<close>

text \<open>cJSON_PrintUnformatted and cJSON_Print, None when there is no memory.\<close>

record json_printer =
  print_line :: "json \<Rightarrow> string option"
  print_pretty :: "json \<Rightarrow> string option"

definition stream_event :: "string \<Rightarrow> json option \<Rightarrow> json" where
  "stream_event event_name obj = JObject ((''event'', JString event_name) # member ''data'' obj)"

definition JSONStream_Output :: "json_printer \<Rightarrow> string \<Rightarrow> json option \<Rightarrow> string list \<Rightarrow> string list" where
  "JSONStream_Output p event_name obj out =
     (case print_line p (stream_event event_name obj) of None \<Rightarrow> out | Some s \<Rightarrow> out @ [s])"

text \<open>The error of iperf_err and iperf_exit with -J.\<close>

definition json_error :: "string \<Rightarrow> json_log \<Rightarrow> json_log" where
  "json_error str l = (if json_top l then l\<lparr>top_members := top_members l @ [(''error'', JString str)]\<rparr> else l)"

definition no_log :: "json_log \<Rightarrow> json_log" where
  "no_log l = l\<lparr>json_top := False, start_part := None, connected_part := None, intervals_part := None, end_part := None,
     top_members := [], json_server_output := None\<rparr>"

definition last_members :: "iperf_test \<Rightarrow> json_log \<Rightarrow> json_log" where
  "last_members t l = l\<lparr>top_members := top_members l @ text_member ''title'' (title t) @ text_member ''extra_data'' (extra_data t)
     @ member ''server_output_json'' (json_server_output l) @ text_member ''server_output_text'' (server_output_text l)\<rparr>"

definition last_events :: "json_printer \<Rightarrow> json_log \<Rightarrow> string list \<Rightarrow> string list" where
  "last_events p l out =
     (let event = (\<lambda>name j out. if j = None then out else JSONStream_Output p name j out);
          out = event ''error'' (iperf_cJSON_GetObjectItemType (json_document l) ''error'' cJSON_String) out;
          out = event ''server_output_json'' (json_server_output l) out;
          out = event ''server_output_text'' (map_option JString (server_output_text l)) out
      in JSONStream_Output p ''end'' (map_option JObject (end_part l)) out)"

definition iperf_json_finish :: "json_printer \<Rightarrow> iperf_test \<Rightarrow> json_log \<Rightarrow> string list \<Rightarrow> int \<times> json_log \<times> string list" where
  "iperf_json_finish p t l out =
     (if \<not> json_top l then (0, no_log l, out)
      else (let l = last_members t l;
                out = (if json_stream t \<noteq> 0 then last_events p l out else out)
            in if json_stream t \<noteq> 0 \<and> json_stream_full_output t = 0 then (0, no_log l, out)
               else case print_pretty p (json_document l) of
                   None \<Rightarrow> (-1, l, out)
                 | Some s \<Rightarrow> (0, no_log l, out @ [s])))"

section \<open>What is added on the way\<close>

text \<open>An IPv4 address mapped into IPv6 loses the prefix; the result says whether there was one.\<close>

definition mapped_v4_to_regular_v4 :: "string \<Rightarrow> bool \<times> string" where
  "mapped_v4_to_regular_v4 str =
     (if take 7 str = ''::ffff:'' then (True, drop 7 str) else (False, str))"

definition c_string :: "u8 list \<Rightarrow> string" where
  "c_string bs = map (\<lambda>b. char_of (unat b)) (takeWhile (\<lambda>b. b \<noteq> 0) bs)"

text \<open>The members of start from iperf_on_connect: the time as text and in milliseconds, the other end (of
  a server) as the text of its address and its port.\<close>

definition connect_report :: "string \<Rightarrow> int \<Rightarrow> string \<Rightarrow> int \<Rightarrow> iperf_test \<Rightarrow> (string \<times> json) list" where
  "connect_report now_str now_millisecs ipr port t =
     member ''timestamp'' (iperf_json_printf ''time: %s  timesecs: %d  timemillisecs: %d''
       [S now_str, D (now_millisecs div 1000), D now_millisecs])
     @ (if role t = CHR ''c''
        then (case server_hostname t of
            None \<Rightarrow> []
          | Some h \<Rightarrow> member ''connecting_to'' (iperf_json_printf ''host: %s  port: %d'' [S h, D (server_port t)]))
        else member ''accepted_connection'' (iperf_json_printf ''host: %s  port: %d''
               [S (snd (mapped_v4_to_regular_v4 ipr)), D port]))
     @ [(''cookie'', JString (c_string (cookie t)))]
     @ (if protocol t = Ptcp
        then (if mss (settings t) \<noteq> 0 then [(''tcp_mss'', JNumber (of_int (mss (settings t))))]
              else [(''tcp_mss_default'', JNumber (of_int (ctrl_sck_mss t)))])
        else [])
     @ [(''target_bitrate'', JNumber (real (unat (rate (settings t))))), (''fq_rate'', JNumber (real (unat (fqrate (settings t)))))]"

text \<open>What connect_msg finds out about one end of a stream: the text of its address and its port. For QUIC
  the addresses are those of the control connection, unknown (None) when the system does not say, and the
  port is that of the server at its end and 0 at the other one.\<close>

record end_names =
  stream_local :: "string \<times> int"
  stream_remote :: "string \<times> int"
  ctrl_local :: "string option"
  ctrl_remote :: "string option"

definition quic_end :: "iperf_test \<Rightarrow> char \<Rightarrow> string option \<Rightarrow> string \<times> int" where
  "quic_end t server_end a =
     (case a of
        None \<Rightarrow> (''?'', 0)
      | Some ip \<Rightarrow> (snd (mapped_v4_to_regular_v4 ip),
          if role t = server_end then (if quic_port t > 0 then quic_port t else server_port t) else 0))"

definition connect_msg :: "end_names \<Rightarrow> iperf_test \<Rightarrow> iperf_stream \<Rightarrow> json option" where
  "connect_msg a t sp =
     (let plain = (\<lambda>(ip, port). (snd (mapped_v4_to_regular_v4 ip), port));
          (ipl, lport) = (if protocol t = Pquic then quic_end t CHR ''s'' (ctrl_local a) else plain (stream_local a));
          (ipr, rport) = (if protocol t = Pquic then quic_end t CHR ''c'' (ctrl_remote a) else plain (stream_remote a))
      in iperf_json_printf ''socket: %d  local_host: %s  local_port: %d  remote_host: %s  remote_port: %d''
           [D (socket sp), S ipl, D lport, S ipr, D rport])"

definition protocol_name :: "int \<Rightarrow> string" where
  "protocol_name p = (if p = Ptcp then ''TCP'' else if p = Pudp then ''UDP'' else if p = Pquic then ''QUIC'' else ''SCTP'')"

definition test_start_report :: "iperf_test \<Rightarrow> json option" where
  "test_start_report t = iperf_json_printf
     (''protocol: %s  num_streams: %d  blksize: %d  omit: %d  duration: %d  bytes: %d  blocks: %d  reverse: %d  tos: %d  '' @
      ''target_bitrate: %d bidir: %d fqrate: %d interval: %f'')
     [S (protocol_name (protocol t)), D (num_streams t), D (blksize (settings t)), D (omit t), D (duration t),
      D (sint (bytes (settings t))), D (sint (blocks (settings t))), D (if reverse t \<noteq> 0 then 1 else 0), D (tos (settings t)),
      D (sint (rate (settings t))), D (bidirectional t), D (sint (fqrate (settings t))), F (stats_interval t)]"

definition iperf_on_test_start :: "json_printer \<Rightarrow> iperf_test \<Rightarrow> json_log \<times> string list \<Rightarrow> json_log \<times> string list" where
  "iperf_on_test_start p t = (\<lambda>(l, out).
     let l = (if json_output t \<noteq> 0
              then l\<lparr>start_part := map_option (\<lambda>ms. ms @ member ''test_start'' (test_start_report t)) (start_part l)\<rparr> else l)
     in (l, if json_stream t \<noteq> 0 then JSONStream_Output p ''start'' (start_object l) out else out))"

section \<open>The document of a test\<close>

text \<open>The steps of a test in which the log takes part, with -J.\<close>

definition log_connect :: "(string \<times> json) list \<Rightarrow> json_log \<Rightarrow> json_log" where
  "log_connect report l = l\<lparr>start_part := map_option (\<lambda>ms. ms @ report) (start_part l)\<rparr>"

definition log_stream :: "json option \<Rightarrow> json_log \<Rightarrow> json_log" where
  "log_stream j l = l\<lparr>connected_part := map_option (\<lambda>js. js @ (case j of None \<Rightarrow> [] | Some j \<Rightarrow> [j])) (connected_part l)\<rparr>"

definition log_interval :: "json_printer \<Rightarrow> iperf_test \<Rightarrow> json_log \<times> string list \<Rightarrow> (json_log \<times> string list) option" where
  "log_interval p t = (\<lambda>(l, out). do {
     intervals \<leftarrow> intervals_part l;
     (intervals, event) \<leftarrow> iperf_print_intermediate t intervals;
     Some (l\<lparr>intervals_part := Some intervals\<rparr>, case event of None \<Rightarrow> out | Some j \<Rightarrow> JSONStream_Output p ''interval'' (Some j) out) })"

fun log_intervals :: "json_printer \<Rightarrow> iperf_test list \<Rightarrow> json_log \<times> string list \<Rightarrow> (json_log \<times> string list) option" where
  "log_intervals p [] x = Some x"
| "log_intervals p (t # ts) x = do { x \<leftarrow> log_interval p t x; log_intervals p ts x }"

definition log_results :: "(fd \<Rightarrow> int option) \<Rightarrow> iperf_test \<Rightarrow> json_log \<Rightarrow> json_log option" where
  "log_results fstat t l = do {
     ms \<leftarrow> results_report fstat t;
     Some (l\<lparr>end_part := map_option (\<lambda>xs. xs @ ms) (end_part l)\<rparr>) }"

text \<open>A test without errors, in the order of the code: t0 is the test when it starts, ts what it is at each
  interval report, tf at the end; report and js are what iperf_on_connect and connect_msg have added.\<close>

definition log_test :: "json_printer \<Rightarrow> (fd \<Rightarrow> int option) \<Rightarrow> (string \<times> json) list \<Rightarrow> json list \<Rightarrow> iperf_test \<Rightarrow> iperf_test list
    \<Rightarrow> iperf_test \<Rightarrow> json_log \<Rightarrow> (int \<times> json_log \<times> string list) option" where
  "log_test p fstat report js t0 ts tf l =
     (let l = snd (iperf_json_start (\<lambda>_. True) l);
          l = fold (\<lambda>j. log_stream (Some j)) js (log_connect report l)
      in do {
        (l, out) \<leftarrow> log_intervals p ts (iperf_on_test_start p t0 (l, []));
        l \<leftarrow> log_results fstat tf l;
        Some (iperf_json_finish p tf l out) })"

section \<open>What is streamed is what the document holds\<close>

text \<open>A report that is not cut short: it goes into the document and out at once.\<close>

definition reports :: "iperf_test \<Rightarrow> json \<Rightarrow> bool" where
  "reports t j \<longleftrightarrow> iperf_print_intermediate t [] = Some ([j], Some j)"

lemma reports_appended: "reports t j \<Longrightarrow> iperf_print_intermediate t js = Some (js @ [j], Some j)"
  by (auto simp: reports_def iperf_print_intermediate_def Let_def Option.bind_eq_Some_conv split: if_splits)

lemma fold_log_stream:
  "fold (\<lambda>j. log_stream (Some j)) js l = l\<lparr>connected_part := map_option (\<lambda>cs. cs @ js) (connected_part l)\<rparr>"
  by (induction js arbitrary: l) (simp_all add: log_stream_def option.map_comp comp_def option.map_ident)

lemma log_intervals_reports:
  assumes "list_all2 reports ts js" "\<And>j. print_line p j = Some (f j)" "intervals_part l = Some iv"
  shows "log_intervals p ts (l, out)
    = Some (l\<lparr>intervals_part := Some (iv @ js)\<rparr>, out @ map (\<lambda>j. f (stream_event ''interval'' (Some j))) js)"
  using assms(1,3)
proof (induction arbitrary: l iv out)
  case (Cons t ts j js)
  have "log_interval p t (l, out) = Some (l\<lparr>intervals_part := Some (iv @ [j])\<rparr>, out @ [f (stream_event ''interval'' (Some j))])"
    using reports_appended [OF Cons.hyps(1)] Cons.prems assms(2) by (simp add: log_interval_def JSONStream_Output_def)
  then show ?case using Cons.IH [of "l\<lparr>intervals_part := Some (iv @ [j])\<rparr>" "iv @ [j]"] by simp
qed simp

lemma no_error_member:
  "iperf_cJSON_GetObjectItemType (JObject ((''start'', a) # (''intervals'', b) # (''end'', c) # text_member ''title'' x @ text_member ''extra_data'' y)) ''error'' cJSON_String
    = None"
  by (cases x; cases y)
    (simp_all add: iperf_cJSON_GetObjectItemType_def cJSON_GetObjectItem_def text_member_def member_def strcaseeq_def tolower_def isupper_def code_def)

theorem log_test_streams:
  assumes reports: "list_all2 reports ts ivs" and results: "results_report fstat tf = Some ms"
    and printer: "\<And>j. print_line p j = Some (f j)" "\<And>j. print_pretty p j = Some (g j)"
    and options: "json_output t0 \<noteq> 0" "json_stream t0 \<noteq> 0" "json_stream tf \<noteq> 0" "json_stream_full_output tf \<noteq> 0"
    and none: "json_server_output l = None" "server_output_text l = None"
  obtains start doc where
    "log_test p fstat report js t0 ts tf l = Some (0, no_log l,
       [f (stream_event ''start'' (Some start))] @ map (\<lambda>j. f (stream_event ''interval'' (Some j))) ivs
       @ [f (stream_event ''end'' (Some (JObject ms))), g doc])"
    and "json_at [''start''] doc = Some start" "json_at [''start'', ''connected''] doc = Some (JArray js)"
    and "json_at [''intervals''] doc = Some (JArray ivs)" "json_at [''end''] doc = Some (JObject ms)"
proof -
  let ?l = "l\<lparr>json_top := True, top_members := [], start_part := Some (report @ member ''test_start'' (test_start_report t0)),
    connected_part := Some js, intervals_part := Some [], end_part := Some []\<rparr>"
  let ?start = "JObject ((''connected'', JArray js) # report @ member ''test_start'' (test_start_report t0))"
  let ?fin = "?l\<lparr>intervals_part := Some ivs, end_part := Some ms\<rparr>"
  let ?doc = "json_document (last_members tf ?fin)"
  have "iperf_on_test_start p t0 (fold (\<lambda>j. log_stream (Some j)) js (log_connect report (snd (iperf_json_start (\<lambda>_. True) l))), [])
      = (?l, [f (stream_event ''start'' (Some ?start))])"
    using options printer by (simp add: iperf_on_test_start_def fold_log_stream log_connect_def iperf_json_start_def Let_def
        JSONStream_Output_def start_object_def member_def)
  moreover have "log_intervals p ts (?l, out) = Some (?l\<lparr>intervals_part := Some ivs\<rparr>,
      out @ map (\<lambda>j. f (stream_event ''interval'' (Some j))) ivs)" for out
    using log_intervals_reports [OF reports printer(1), of ?l "[]" out] by simp
  moreover have "log_results fstat tf (?l\<lparr>intervals_part := Some ivs\<rparr>) = Some ?fin" using results by (simp add: log_results_def)
  moreover have err: "iperf_cJSON_GetObjectItemType ?doc ''error'' cJSON_String = None"
    using none no_error_member by (simp add: json_document_def last_members_def start_object_def member_def text_member_def)
  have "iperf_json_finish p tf ?fin out = (0, no_log l, out @ [f (stream_event ''end'' (Some (JObject ms))), g ?doc])" for out
    using options none printer err
    by (simp add: iperf_json_finish_def last_events_def JSONStream_Output_def Let_def) (simp add: last_members_def no_log_def)
  ultimately have "log_test p fstat report js t0 ts tf l = Some (0, no_log l,
       [f (stream_event ''start'' (Some ?start))] @ map (\<lambda>j. f (stream_event ''interval'' (Some j))) ivs
       @ [f (stream_event ''end'' (Some (JObject ms))), g ?doc])"
    by (simp add: log_test_def Let_def)
  then show thesis
    by (rule that) (simp_all add: json_document_def last_members_def start_object_def member_def)
qed

end
