(* ===== verification/Iperf_Output.thy ===== *)
theory Iperf_Output
  imports Iperf_Document Iperf_Results_Ok
begin

text \<open>
  Where text goes: iperf_printf of src/iperf_api.c, iperf_err of iperf_error.c, and the way of a server's
  output to the client that asked for it (--get-server-output). The text a format gives and the time
  stamp strftime makes are arguments; whether a write to the output file fails is an argument too. The
  output file is the text written to it.
\<close>

section \<open>iperf_printf\<close>

definition LINE_MAX :: nat where
  "LINE_MAX = 1023"

text \<open>The pieces a client writes, up to the first write that fails.\<close>

fun write_pieces :: "(nat \<Rightarrow> bool) \<Rightarrow> nat \<Rightarrow> string list \<Rightarrow> int \<Rightarrow> string \<Rightarrow> int \<times> string" where
  "write_pieces fails n [] r out = (r, out)"
| "write_pieces fails n (x # xs) r out =
     (if fails n then (-1, out) else write_pieces fails (Suc n) xs (r + int (length x)) (out @ x))"

definition client_pieces :: "string \<Rightarrow> string \<Rightarrow> iperf_test \<Rightarrow> string list" where
  "client_pieces stamp str t = (if timestamps t \<noteq> 0 then [stamp] else [])
     @ (case title t of None \<Rightarrow> [] | Some s \<Rightarrow> [s @ '':  '']) @ [str]"

text \<open>The line of a server is built in a buffer of 1024 bytes, stamp included, which has at most 99; what
  snprintf would have written counts in the result.\<close>

definition server_line :: "string \<Rightarrow> string \<Rightarrow> iperf_test \<Rightarrow> string" where
  "server_line stamp str t =
     (let start = (if timestamps t \<noteq> 0 then take LINE_MAX stamp else []) in start @ take (LINE_MAX - length start) str)"

definition iperf_printf :: "(nat \<Rightarrow> bool) \<Rightarrow> string \<Rightarrow> string \<Rightarrow> iperf_test \<Rightarrow> string \<Rightarrow> int \<times> iperf_test \<times> string" where
  "iperf_printf fails stamp str t out =
     (if role t = CHR ''c'' then
        (case write_pieces fails 0 (client_pieces stamp str t) 0 out of (r, out) \<Rightarrow> (r, t, out))
      else if role t = CHR ''s'' then
        (int (length (if timestamps t \<noteq> 0 then stamp else [])) + int (length str),
         if get_server_output t \<noteq> 0 then t\<lparr>server_output_list := server_output_list t @ [server_line stamp str t]\<rparr> else t,
         if fails 0 then out else out @ server_line stamp str t)
      else (0, t, out))"

section \<open>iperf_err\<close>

text \<open>An error goes into the document with -J, else to the log file if there is one and to stderr if not.
  The message has room for 999 characters.\<close>

datatype err_target = To_document | To_logfile | To_stderr

definition err_target :: "iperf_test \<Rightarrow> json_log \<Rightarrow> bool \<Rightarrow> err_target" where
  "err_target t l has_outfile =
     (if json_output t \<noteq> 0 \<and> json_top l then To_document else if has_outfile then To_logfile else To_stderr)"

definition err_line :: "string \<Rightarrow> string \<Rightarrow> iperf_test \<Rightarrow> string" where
  "err_line stamp str t = (if timestamps t \<noteq> 0 then stamp else []) @ ''iperf3: '' @ take 999 str @ [CHR 0x0A]"

definition iperf_err :: "string \<Rightarrow> string \<Rightarrow> iperf_test \<Rightarrow> bool \<Rightarrow> json_log \<times> string \<times> string \<Rightarrow> json_log \<times> string \<times> string" where
  "iperf_err stamp str t has_outfile = (\<lambda>(l, out, stderr).
     case err_target t l has_outfile of
       To_document \<Rightarrow> (json_error (take 999 str) l, out, stderr)
     | To_logfile \<Rightarrow> (l, out @ err_line stamp str t, stderr)
     | To_stderr \<Rightarrow> (l, out, stderr @ err_line stamp str t))"

section \<open>The output of the server at the client\<close>

text \<open>The part of get_results that takes the output of the server out of the message.\<close>

definition take_server_output :: "json \<Rightarrow> iperf_test \<Rightarrow> json_log \<Rightarrow> json_log" where
  "take_server_output j t l =
     (if role t = CHR ''c'' \<and> get_server_output t \<noteq> 0
      then (case cJSON_GetObjectItem j ''server_output_json'' of
          Some x \<Rightarrow> l\<lparr>json_server_output := Some x\<rparr>
        | None \<Rightarrow> (case iperf_cJSON_GetObjectItemType j ''server_output_text'' cJSON_String of
            Some (JString s) \<Rightarrow> l\<lparr>server_output_text := Some s\<rparr>
          | _ \<Rightarrow> l))
      else l)"

text \<open>A number of lines printed one after the other, all of them written.\<close>

fun print_all :: "(string \<times> string) list \<Rightarrow> iperf_test \<Rightarrow> string \<Rightarrow> iperf_test \<times> string" where
  "print_all [] t out = (t, out)"
| "print_all ((stamp, str) # xs) t out = (case iperf_printf (\<lambda>_. False) stamp str t out of (_, t, out) \<Rightarrow> print_all xs t out)"

lemma printf_server:
  assumes "role t = CHR ''s''" "get_server_output t \<noteq> 0"
  shows "iperf_printf (\<lambda>_. False) stamp str t out = (r, t', out') \<Longrightarrow>
    t' = t\<lparr>server_output_list := server_output_list t @ [server_line stamp str t]\<rparr> \<and> out' = out @ server_line stamp str t"
  using assms by (auto simp: iperf_printf_def)

lemma server_line_same [simp]: "server_line stamp str (t\<lparr>server_output_list := xs\<rparr>) = server_line stamp str t"
  by (simp add: server_line_def)

lemma print_all_server:
  "print_all xs t out = (t', out') \<Longrightarrow> role t = CHR ''s'' \<Longrightarrow> get_server_output t \<noteq> 0 \<Longrightarrow>
    \<exists>lines. t' = t\<lparr>server_output_list := server_output_list t @ lines\<rparr> \<and> out' = out @ concat lines"
proof (induction xs arbitrary: t out)
  case (Cons x xs)
  obtain stamp str where x: "x = (stamp, str)" by fastforce
  obtain r t1 out1 where p: "iperf_printf (\<lambda>_. False) stamp str t out = (r, t1, out1)" by (cases "iperf_printf (\<lambda>_. False) stamp str t out")
  note p1 = printf_server [OF Cons.prems(2,3) p]
  have "print_all xs t1 out1 = (t', out')" using Cons.prems(1) x p by simp
  from Cons.IH [OF this] p1 Cons.prems(2,3) obtain lines where
    "t' = t1\<lparr>server_output_list := server_output_list t1 @ lines\<rparr>" "out' = out1 @ concat lines" by auto
  with p1 show ?case by (intro exI [of _ "server_line stamp str t # lines"]) simp
qed (auto intro: exI [of _ "[]"])

lemma server_output_lookup:
  assumes "role t = CHR ''s''" "get_server_output t \<noteq> 0"
  shows "cJSON_GetObjectItem (results_json jt t) ''server_output_json'' = (if json_output t \<noteq> 0 then Some jt else None)"
    and "json_output t = 0 \<Longrightarrow> iperf_cJSON_GetObjectItemType (results_json jt t) ''server_output_text'' cJSON_String
      = Some (JString (concat (server_output_list t)))"
proof -
  show "cJSON_GetObjectItem (results_json jt t) ''server_output_json'' = (if json_output t \<noteq> 0 then Some jt else None)"
    by (rule result_item) (use assms in \<open>auto simp: result_fields_def given_def\<close>)
  assume j: "json_output t = 0"
  have "cJSON_GetObjectItem (results_json jt t) ''server_output_text'' = Some (JString (concat (server_output_list t)))"
    by (rule result_item) (use assms j in \<open>auto simp: result_fields_def given_def\<close>)
  then show "iperf_cJSON_GetObjectItemType (results_json jt t) ''server_output_text'' cJSON_String
      = Some (JString (concat (server_output_list t)))"
    by (simp add: iperf_cJSON_GetObjectItemType_def)
qed

theorem server_output_taken:
  assumes "print_all xs srv out = (srv', out')" "role srv = CHR ''s''" "get_server_output srv \<noteq> 0" "server_output_list srv = []"
    and "role c = CHR ''c''" "get_server_output c \<noteq> 0"
  shows "\<exists>text. out' = out @ text \<and> take_server_output (results_json jt srv') c l
    = (if json_output srv = 0 then l\<lparr>server_output_text := Some text\<rparr> else l\<lparr>json_server_output := Some jt\<rparr>)"
proof -
  obtain lines where l: "srv' = srv\<lparr>server_output_list := lines\<rparr>" "out' = out @ concat lines"
    using print_all_server [OF assms(1-3)] assms(4) by auto
  then have s: "role srv' = CHR ''s''" "get_server_output srv' \<noteq> 0" "json_output srv' = json_output srv" "server_output_list srv' = lines"
    using assms(2,3) by simp_all
  show ?thesis
    using l(2) server_output_lookup [OF s(1,2), of jt] s(3,4) assms(5,6)
    by (intro exI [of _ "concat lines"]) (simp add: take_server_output_def)
qed

end
