(* ===== verification/Iperf_Access.thy ===== *)
theory Iperf_Access
  imports Iperf_Config
begin

text \<open>
  The interface of libiperf to a test: the getters and setters of src/iperf_api.c that read and assign one
  field each (those with a rule of their own, role, reverse and bidirectional, are in Iperf_Config). A
  setter that takes a string keeps a copy, for which memory is taken to suffice. The locale accessor says
  what a client of the library relies on: it gets back what it set last.
\<close>

named_theorems access_defs

section \<open>Getters\<close>

definition iperf_get_verbose :: "iperf_test \<Rightarrow> int" where
  [access_defs]: "iperf_get_verbose t = verbose t"

definition iperf_get_control_socket :: "iperf_test \<Rightarrow> fd" where
  [access_defs]: "iperf_get_control_socket t = ctrl_sck t"

definition iperf_get_control_socket_mss :: "iperf_test \<Rightarrow> int" where
  [access_defs]: "iperf_get_control_socket_mss t = ctrl_sck_mss t"

definition iperf_get_test_omit :: "iperf_test \<Rightarrow> int" where
  [access_defs]: "iperf_get_test_omit t = omit t"

definition iperf_get_test_duration :: "iperf_test \<Rightarrow> int" where
  [access_defs]: "iperf_get_test_duration t = duration t"

definition iperf_get_test_rate :: "iperf_test \<Rightarrow> u64" where
  [access_defs]: "iperf_get_test_rate t = rate (settings t)"

definition iperf_get_test_bitrate_limit :: "iperf_test \<Rightarrow> u64" where
  [access_defs]: "iperf_get_test_bitrate_limit t = bitrate_limit (settings t)"

definition iperf_get_test_bitrate_limit_interval :: "iperf_test \<Rightarrow> real" where
  [access_defs]: "iperf_get_test_bitrate_limit_interval t = bitrate_limit_interval (settings t)"

definition iperf_get_test_bitrate_limit_stats_per_interval :: "iperf_test \<Rightarrow> int" where
  [access_defs]: "iperf_get_test_bitrate_limit_stats_per_interval t = bitrate_limit_stats_per_interval (settings t)"

definition iperf_get_test_fqrate :: "iperf_test \<Rightarrow> u64" where
  [access_defs]: "iperf_get_test_fqrate t = fqrate (settings t)"

definition iperf_get_test_pacing_timer :: "iperf_test \<Rightarrow> int" where
  [access_defs]: "iperf_get_test_pacing_timer t = pacing_timer (settings t)"

definition iperf_get_test_bytes :: "iperf_test \<Rightarrow> u64" where
  [access_defs]: "iperf_get_test_bytes t = bytes (settings t)"

definition iperf_get_test_blocks :: "iperf_test \<Rightarrow> u64" where
  [access_defs]: "iperf_get_test_blocks t = blocks (settings t)"

definition iperf_get_test_burst :: "iperf_test \<Rightarrow> int" where
  [access_defs]: "iperf_get_test_burst t = burst (settings t)"

definition iperf_get_test_role :: "iperf_test \<Rightarrow> char" where
  [access_defs]: "iperf_get_test_role t = role t"

definition iperf_get_test_reverse :: "iperf_test \<Rightarrow> int" where
  [access_defs]: "iperf_get_test_reverse t = reverse t"

definition iperf_get_test_bidirectional :: "iperf_test \<Rightarrow> int" where
  [access_defs]: "iperf_get_test_bidirectional t = bidirectional t"

definition iperf_get_test_blksize :: "iperf_test \<Rightarrow> int" where
  [access_defs]: "iperf_get_test_blksize t = blksize (settings t)"

definition iperf_get_test_socket_bufsize :: "iperf_test \<Rightarrow> int" where
  [access_defs]: "iperf_get_test_socket_bufsize t = socket_bufsize (settings t)"

definition iperf_get_test_reporter_interval :: "iperf_test \<Rightarrow> real" where
  [access_defs]: "iperf_get_test_reporter_interval t = reporter_interval t"

definition iperf_get_test_stats_interval :: "iperf_test \<Rightarrow> real" where
  [access_defs]: "iperf_get_test_stats_interval t = stats_interval t"

definition iperf_get_test_num_streams :: "iperf_test \<Rightarrow> int" where
  [access_defs]: "iperf_get_test_num_streams t = num_streams t"

definition iperf_get_test_timestamps :: "iperf_test \<Rightarrow> int" where
  [access_defs]: "iperf_get_test_timestamps t = timestamps t"

definition iperf_get_test_timestamp_format :: "iperf_test \<Rightarrow> string option" where
  [access_defs]: "iperf_get_test_timestamp_format t = timestamp_format t"

definition iperf_get_test_repeating_payload :: "iperf_test \<Rightarrow> int" where
  [access_defs]: "iperf_get_test_repeating_payload t = repeating_payload t"

definition iperf_get_test_bind_port :: "iperf_test \<Rightarrow> int" where
  [access_defs]: "iperf_get_test_bind_port t = bind_port t"

definition iperf_get_test_server_port :: "iperf_test \<Rightarrow> int" where
  [access_defs]: "iperf_get_test_server_port t = server_port t"

definition iperf_get_test_server_hostname :: "iperf_test \<Rightarrow> string option" where
  [access_defs]: "iperf_get_test_server_hostname t = server_hostname t"

definition iperf_get_test_template :: "iperf_test \<Rightarrow> string option" where
  [access_defs]: "iperf_get_test_template t = tmp_template t"

definition iperf_get_test_json_output :: "iperf_test \<Rightarrow> int" where
  [access_defs]: "iperf_get_test_json_output t = json_output t"

definition iperf_get_test_json_stream :: "iperf_test \<Rightarrow> int" where
  [access_defs]: "iperf_get_test_json_stream t = json_stream t"

definition iperf_get_test_zerocopy :: "iperf_test \<Rightarrow> int" where
  [access_defs]: "iperf_get_test_zerocopy t = zerocopy t"

definition iperf_get_test_get_server_output :: "iperf_test \<Rightarrow> int" where
  [access_defs]: "iperf_get_test_get_server_output t = get_server_output t"

definition iperf_get_test_unit_format :: "iperf_test \<Rightarrow> char" where
  [access_defs]: "iperf_get_test_unit_format t = unit_format (settings t)"

definition iperf_get_test_bind_address :: "iperf_test \<Rightarrow> string option" where
  [access_defs]: "iperf_get_test_bind_address t = bind_address t"

definition iperf_get_test_bind_dev :: "iperf_test \<Rightarrow> string option" where
  [access_defs]: "iperf_get_test_bind_dev t = bind_dev t"

definition iperf_get_test_udp_counters_64bit :: "iperf_test \<Rightarrow> int" where
  [access_defs]: "iperf_get_test_udp_counters_64bit t = udp_counters_64bit t"

definition iperf_get_test_one_off :: "iperf_test \<Rightarrow> int" where
  [access_defs]: "iperf_get_test_one_off t = one_off t"

definition iperf_get_test_tos :: "iperf_test \<Rightarrow> int" where
  [access_defs]: "iperf_get_test_tos t = tos (settings t)"

definition iperf_get_test_extra_data :: "iperf_test \<Rightarrow> string option" where
  [access_defs]: "iperf_get_test_extra_data t = extra_data t"

definition iperf_get_test_no_delay :: "iperf_test \<Rightarrow> int" where
  [access_defs]: "iperf_get_test_no_delay t = no_delay t"

definition iperf_get_test_connect_timeout :: "iperf_test \<Rightarrow> int" where
  [access_defs]: "iperf_get_test_connect_timeout t = connect_timeout (settings t)"

definition iperf_get_test_idle_timeout :: "iperf_test \<Rightarrow> int" where
  [access_defs]: "iperf_get_test_idle_timeout t = idle_timeout (settings t)"

definition iperf_get_dont_fragment :: "iperf_test \<Rightarrow> int" where
  [access_defs]: "iperf_get_dont_fragment t = dont_fragment (settings t)"

definition iperf_get_test_rcv_timeout :: "iperf_test \<Rightarrow> iperf_time" where
  [access_defs]: "iperf_get_test_rcv_timeout t = rcv_timeout (settings t)"

definition iperf_get_test_congestion_control :: "iperf_test \<Rightarrow> string option" where
  [access_defs]: "iperf_get_test_congestion_control t = congestion t"

definition iperf_get_test_mss :: "iperf_test \<Rightarrow> int" where
  [access_defs]: "iperf_get_test_mss t = mss (settings t)"

definition iperf_get_mapped_v4 :: "iperf_test \<Rightarrow> int" where
  [access_defs]: "iperf_get_mapped_v4 t = mapped_v4 t"

definition iperf_get_test_protocol_id :: "iperf_test \<Rightarrow> int" where
  [access_defs]: "iperf_get_test_protocol_id t = protocol t"

section \<open>Setters\<close>

definition iperf_set_verbose :: "int \<Rightarrow> iperf_test \<Rightarrow> iperf_test" where
  [access_defs]: "iperf_set_verbose v t = t\<lparr>verbose := v\<rparr>"

definition iperf_set_control_socket :: "fd \<Rightarrow> iperf_test \<Rightarrow> iperf_test" where
  [access_defs]: "iperf_set_control_socket v t = t\<lparr>ctrl_sck := v\<rparr>"

definition iperf_set_test_omit :: "int \<Rightarrow> iperf_test \<Rightarrow> iperf_test" where
  [access_defs]: "iperf_set_test_omit v t = t\<lparr>omit := v\<rparr>"

definition iperf_set_test_duration :: "int \<Rightarrow> iperf_test \<Rightarrow> iperf_test" where
  [access_defs]: "iperf_set_test_duration v t = t\<lparr>duration := v\<rparr>"

definition iperf_set_test_reporter_interval :: "real \<Rightarrow> iperf_test \<Rightarrow> iperf_test" where
  [access_defs]: "iperf_set_test_reporter_interval v t = t\<lparr>reporter_interval := v\<rparr>"

definition iperf_set_test_stats_interval :: "real \<Rightarrow> iperf_test \<Rightarrow> iperf_test" where
  [access_defs]: "iperf_set_test_stats_interval v t = t\<lparr>stats_interval := v\<rparr>"

definition iperf_set_test_blksize :: "int \<Rightarrow> iperf_test \<Rightarrow> iperf_test" where
  [access_defs]: "iperf_set_test_blksize v t = upd_settings (\<lambda>s. s\<lparr>blksize := v\<rparr>) t"

definition iperf_set_test_logfile :: "string \<Rightarrow> iperf_test \<Rightarrow> iperf_test" where
  [access_defs]: "iperf_set_test_logfile v t = t\<lparr>logfile := Some v\<rparr>"

definition iperf_set_test_rate :: "u64 \<Rightarrow> iperf_test \<Rightarrow> iperf_test" where
  [access_defs]: "iperf_set_test_rate v t = upd_settings (\<lambda>s. s\<lparr>rate := v\<rparr>) t"

definition iperf_set_test_bitrate_limit_maximum :: "u64 \<Rightarrow> iperf_test \<Rightarrow> iperf_test" where
  [access_defs]: "iperf_set_test_bitrate_limit_maximum v t = upd_settings (\<lambda>s. s\<lparr>bitrate_limit := v\<rparr>) t"

definition iperf_set_test_bitrate_limit_interval :: "u64 \<Rightarrow> iperf_test \<Rightarrow> iperf_test" where
  [access_defs]: "iperf_set_test_bitrate_limit_interval v t = upd_settings (\<lambda>s. s\<lparr>bitrate_limit_interval := real (unat v)\<rparr>) t"

definition iperf_set_test_bitrate_limit_stats_per_interval :: "u64 \<Rightarrow> iperf_test \<Rightarrow> iperf_test" where
  [access_defs]: "iperf_set_test_bitrate_limit_stats_per_interval v t = upd_settings (\<lambda>s. s\<lparr>bitrate_limit_stats_per_interval := to_int (sint v)\<rparr>) t"

definition iperf_set_test_fqrate :: "u64 \<Rightarrow> iperf_test \<Rightarrow> iperf_test" where
  [access_defs]: "iperf_set_test_fqrate v t = upd_settings (\<lambda>s. s\<lparr>fqrate := v\<rparr>) t"

definition iperf_set_test_pacing_timer :: "int \<Rightarrow> iperf_test \<Rightarrow> iperf_test" where
  [access_defs]: "iperf_set_test_pacing_timer v t = upd_settings (\<lambda>s. s\<lparr>pacing_timer := v\<rparr>) t"

definition iperf_set_test_bytes :: "u64 \<Rightarrow> iperf_test \<Rightarrow> iperf_test" where
  [access_defs]: "iperf_set_test_bytes v t = upd_settings (\<lambda>s. s\<lparr>bytes := v\<rparr>) t"

definition iperf_set_test_blocks :: "u64 \<Rightarrow> iperf_test \<Rightarrow> iperf_test" where
  [access_defs]: "iperf_set_test_blocks v t = upd_settings (\<lambda>s. s\<lparr>blocks := v\<rparr>) t"

definition iperf_set_test_burst :: "int \<Rightarrow> iperf_test \<Rightarrow> iperf_test" where
  [access_defs]: "iperf_set_test_burst v t = upd_settings (\<lambda>s. s\<lparr>burst := v\<rparr>) t"

definition iperf_set_test_bind_port :: "int \<Rightarrow> iperf_test \<Rightarrow> iperf_test" where
  [access_defs]: "iperf_set_test_bind_port v t = t\<lparr>bind_port := v\<rparr>"

definition iperf_set_test_server_port :: "int \<Rightarrow> iperf_test \<Rightarrow> iperf_test" where
  [access_defs]: "iperf_set_test_server_port v t = t\<lparr>server_port := v\<rparr>"

definition iperf_set_test_socket_bufsize :: "int \<Rightarrow> iperf_test \<Rightarrow> iperf_test" where
  [access_defs]: "iperf_set_test_socket_bufsize v t = upd_settings (\<lambda>s. s\<lparr>socket_bufsize := v\<rparr>) t"

definition iperf_set_test_num_streams :: "int \<Rightarrow> iperf_test \<Rightarrow> iperf_test" where
  [access_defs]: "iperf_set_test_num_streams v t = t\<lparr>num_streams := v\<rparr>"

definition iperf_set_test_repeating_payload :: "int \<Rightarrow> iperf_test \<Rightarrow> iperf_test" where
  [access_defs]: "iperf_set_test_repeating_payload v t = t\<lparr>repeating_payload := v\<rparr>"

definition iperf_set_test_timestamps :: "int \<Rightarrow> iperf_test \<Rightarrow> iperf_test" where
  [access_defs]: "iperf_set_test_timestamps v t = t\<lparr>timestamps := v\<rparr>"

definition iperf_set_test_timestamp_format :: "string \<Rightarrow> iperf_test \<Rightarrow> iperf_test" where
  [access_defs]: "iperf_set_test_timestamp_format v t = t\<lparr>timestamp_format := Some v\<rparr>"

definition iperf_set_mapped_v4 :: "int \<Rightarrow> iperf_test \<Rightarrow> iperf_test" where
  [access_defs]: "iperf_set_mapped_v4 v t = t\<lparr>mapped_v4 := v\<rparr>"

definition iperf_set_test_server_hostname :: "string \<Rightarrow> iperf_test \<Rightarrow> iperf_test" where
  [access_defs]: "iperf_set_test_server_hostname v t = t\<lparr>server_hostname := Some v\<rparr>"

definition iperf_set_test_template :: "string \<Rightarrow> iperf_test \<Rightarrow> iperf_test" where
  [access_defs]: "iperf_set_test_template v t = t\<lparr>tmp_template := Some v\<rparr>"

definition iperf_set_test_json_output :: "int \<Rightarrow> iperf_test \<Rightarrow> iperf_test" where
  [access_defs]: "iperf_set_test_json_output v t = t\<lparr>json_output := v\<rparr>"

definition iperf_set_test_json_stream :: "int \<Rightarrow> iperf_test \<Rightarrow> iperf_test" where
  [access_defs]: "iperf_set_test_json_stream v t = t\<lparr>json_stream := v\<rparr>"

definition iperf_set_test_json_stream_full_output :: "int \<Rightarrow> iperf_test \<Rightarrow> iperf_test" where
  [access_defs]: "iperf_set_test_json_stream_full_output v t = t\<lparr>json_stream_full_output := v\<rparr>"

definition iperf_set_test_get_server_output :: "int \<Rightarrow> iperf_test \<Rightarrow> iperf_test" where
  [access_defs]: "iperf_set_test_get_server_output v t = t\<lparr>get_server_output := v\<rparr>"

definition iperf_set_test_unit_format :: "char \<Rightarrow> iperf_test \<Rightarrow> iperf_test" where
  [access_defs]: "iperf_set_test_unit_format v t = upd_settings (\<lambda>s. s\<lparr>unit_format := v\<rparr>) t"

definition iperf_set_test_client_username :: "string \<Rightarrow> iperf_test \<Rightarrow> iperf_test" where
  [access_defs]: "iperf_set_test_client_username v t = upd_settings (\<lambda>s. s\<lparr>client_username := Some v\<rparr>) t"

definition iperf_set_test_client_password :: "string \<Rightarrow> iperf_test \<Rightarrow> iperf_test" where
  [access_defs]: "iperf_set_test_client_password v t = upd_settings (\<lambda>s. s\<lparr>client_password := Some v\<rparr>) t"

definition iperf_set_test_server_authorized_users :: "string \<Rightarrow> iperf_test \<Rightarrow> iperf_test" where
  [access_defs]: "iperf_set_test_server_authorized_users v t = t\<lparr>server_authorized_users := Some v\<rparr>"

definition iperf_set_test_server_skew_threshold :: "int \<Rightarrow> iperf_test \<Rightarrow> iperf_test" where
  [access_defs]: "iperf_set_test_server_skew_threshold v t = t\<lparr>server_skew_threshold := v\<rparr>"

definition iperf_set_test_bind_address :: "string \<Rightarrow> iperf_test \<Rightarrow> iperf_test" where
  [access_defs]: "iperf_set_test_bind_address v t = t\<lparr>bind_address := Some v\<rparr>"

definition iperf_set_test_bind_dev :: "string \<Rightarrow> iperf_test \<Rightarrow> iperf_test" where
  [access_defs]: "iperf_set_test_bind_dev v t = t\<lparr>bind_dev := Some v\<rparr>"

definition iperf_set_test_udp_counters_64bit :: "int \<Rightarrow> iperf_test \<Rightarrow> iperf_test" where
  [access_defs]: "iperf_set_test_udp_counters_64bit v t = t\<lparr>udp_counters_64bit := v\<rparr>"

definition iperf_set_test_one_off :: "int \<Rightarrow> iperf_test \<Rightarrow> iperf_test" where
  [access_defs]: "iperf_set_test_one_off v t = t\<lparr>one_off := v\<rparr>"

definition iperf_set_test_tos :: "int \<Rightarrow> iperf_test \<Rightarrow> iperf_test" where
  [access_defs]: "iperf_set_test_tos v t = upd_settings (\<lambda>s. s\<lparr>tos := v\<rparr>) t"

definition iperf_set_test_extra_data :: "string \<Rightarrow> iperf_test \<Rightarrow> iperf_test" where
  [access_defs]: "iperf_set_test_extra_data v t = t\<lparr>extra_data := Some v\<rparr>"

definition iperf_set_test_no_delay :: "int \<Rightarrow> iperf_test \<Rightarrow> iperf_test" where
  [access_defs]: "iperf_set_test_no_delay v t = t\<lparr>no_delay := v\<rparr>"

definition iperf_set_test_connect_timeout :: "int \<Rightarrow> iperf_test \<Rightarrow> iperf_test" where
  [access_defs]: "iperf_set_test_connect_timeout v t = upd_settings (\<lambda>s. s\<lparr>connect_timeout := v\<rparr>) t"

definition iperf_set_test_idle_timeout :: "int \<Rightarrow> iperf_test \<Rightarrow> iperf_test" where
  [access_defs]: "iperf_set_test_idle_timeout v t = upd_settings (\<lambda>s. s\<lparr>idle_timeout := v\<rparr>) t"

definition iperf_set_dont_fragment :: "int \<Rightarrow> iperf_test \<Rightarrow> iperf_test" where
  [access_defs]: "iperf_set_dont_fragment v t = upd_settings (\<lambda>s. s\<lparr>dont_fragment := v\<rparr>) t"

definition iperf_set_test_congestion_control :: "string \<Rightarrow> iperf_test \<Rightarrow> iperf_test" where
  [access_defs]: "iperf_set_test_congestion_control v t = t\<lparr>congestion := Some v\<rparr>"

definition iperf_set_test_mss :: "int \<Rightarrow> iperf_test \<Rightarrow> iperf_test" where
  [access_defs]: "iperf_set_test_mss v t = upd_settings (\<lambda>s. s\<lparr>mss := v\<rparr>) t"

text \<open>The modelled build has sendfile.\<close>

definition iperf_set_test_zerocopy :: "int \<Rightarrow> iperf_test \<Rightarrow> iperf_test" where
  [access_defs]: "iperf_set_test_zerocopy v t = t\<lparr>zerocopy := of_bool (v \<noteq> 0)\<rparr>"

definition iperf_set_test_rcv_timeout :: "iperf_time \<Rightarrow> iperf_test \<Rightarrow> iperf_test" where
  [access_defs]: "iperf_set_test_rcv_timeout v t = upd_settings (\<lambda>s. s\<lparr>rcv_timeout := (rcv_timeout s)\<lparr>secs := secs v, usecs := usecs v\<rparr>\<rparr>) t"

section \<open>What is set is what is got\<close>

locale accessor =
  fixes getter :: "iperf_test \<Rightarrow> 'v" and setter :: "'a \<Rightarrow> iperf_test \<Rightarrow> iperf_test" and kept :: "'a \<Rightarrow> 'v"
  assumes get_set: "getter (setter v t) = kept v"
    and set_set: "setter v (setter u t) = setter v t"
begin

lemma last_set_counts: "vs \<noteq> [] \<Longrightarrow> fold setter vs t = setter (last vs) t"
  by (induction vs rule: rev_nonempty_induct) (simp_all add: set_set)

lemma get_after: "vs \<noteq> [] \<Longrightarrow> getter (fold setter vs t) = kept (last vs)"
  by (simp add: last_set_counts get_set)

end

interpretation acc_verbose: accessor iperf_get_verbose iperf_set_verbose "\<lambda>v. v"
  by unfold_locales (simp_all add: access_defs upd_settings_def)

interpretation acc_ctrl_sck: accessor iperf_get_control_socket iperf_set_control_socket "\<lambda>v. v"
  by unfold_locales (simp_all add: access_defs upd_settings_def)

interpretation acc_omit: accessor iperf_get_test_omit iperf_set_test_omit "\<lambda>v. v"
  by unfold_locales (simp_all add: access_defs upd_settings_def)

interpretation acc_duration: accessor iperf_get_test_duration iperf_set_test_duration "\<lambda>v. v"
  by unfold_locales (simp_all add: access_defs upd_settings_def)

interpretation acc_reporter_interval: accessor iperf_get_test_reporter_interval iperf_set_test_reporter_interval "\<lambda>v. v"
  by unfold_locales (simp_all add: access_defs upd_settings_def)

interpretation acc_stats_interval: accessor iperf_get_test_stats_interval iperf_set_test_stats_interval "\<lambda>v. v"
  by unfold_locales (simp_all add: access_defs upd_settings_def)

interpretation acc_blksize: accessor iperf_get_test_blksize iperf_set_test_blksize "\<lambda>v. v"
  by unfold_locales (simp_all add: access_defs upd_settings_def)

interpretation acc_rate: accessor iperf_get_test_rate iperf_set_test_rate "\<lambda>v. v"
  by unfold_locales (simp_all add: access_defs upd_settings_def)

interpretation acc_bitrate_limit: accessor iperf_get_test_bitrate_limit iperf_set_test_bitrate_limit_maximum "\<lambda>v. v"
  by unfold_locales (simp_all add: access_defs upd_settings_def)

interpretation acc_bitrate_limit_interval: accessor iperf_get_test_bitrate_limit_interval iperf_set_test_bitrate_limit_interval "\<lambda>v. real (unat v)"
  by unfold_locales (simp_all add: access_defs upd_settings_def)

interpretation acc_bitrate_limit_stats_per_interval: accessor iperf_get_test_bitrate_limit_stats_per_interval iperf_set_test_bitrate_limit_stats_per_interval "\<lambda>v. to_int (sint v)"
  by unfold_locales (simp_all add: access_defs upd_settings_def)

interpretation acc_fqrate: accessor iperf_get_test_fqrate iperf_set_test_fqrate "\<lambda>v. v"
  by unfold_locales (simp_all add: access_defs upd_settings_def)

interpretation acc_pacing_timer: accessor iperf_get_test_pacing_timer iperf_set_test_pacing_timer "\<lambda>v. v"
  by unfold_locales (simp_all add: access_defs upd_settings_def)

interpretation acc_bytes: accessor iperf_get_test_bytes iperf_set_test_bytes "\<lambda>v. v"
  by unfold_locales (simp_all add: access_defs upd_settings_def)

interpretation acc_blocks: accessor iperf_get_test_blocks iperf_set_test_blocks "\<lambda>v. v"
  by unfold_locales (simp_all add: access_defs upd_settings_def)

interpretation acc_burst: accessor iperf_get_test_burst iperf_set_test_burst "\<lambda>v. v"
  by unfold_locales (simp_all add: access_defs upd_settings_def)

interpretation acc_bind_port: accessor iperf_get_test_bind_port iperf_set_test_bind_port "\<lambda>v. v"
  by unfold_locales (simp_all add: access_defs upd_settings_def)

interpretation acc_server_port: accessor iperf_get_test_server_port iperf_set_test_server_port "\<lambda>v. v"
  by unfold_locales (simp_all add: access_defs upd_settings_def)

interpretation acc_socket_bufsize: accessor iperf_get_test_socket_bufsize iperf_set_test_socket_bufsize "\<lambda>v. v"
  by unfold_locales (simp_all add: access_defs upd_settings_def)

interpretation acc_num_streams: accessor iperf_get_test_num_streams iperf_set_test_num_streams "\<lambda>v. v"
  by unfold_locales (simp_all add: access_defs upd_settings_def)

interpretation acc_repeating_payload: accessor iperf_get_test_repeating_payload iperf_set_test_repeating_payload "\<lambda>v. v"
  by unfold_locales (simp_all add: access_defs upd_settings_def)

interpretation acc_timestamps: accessor iperf_get_test_timestamps iperf_set_test_timestamps "\<lambda>v. v"
  by unfold_locales (simp_all add: access_defs upd_settings_def)

interpretation acc_timestamp_format: accessor iperf_get_test_timestamp_format iperf_set_test_timestamp_format Some
  by unfold_locales (simp_all add: access_defs upd_settings_def)

interpretation acc_mapped_v4: accessor iperf_get_mapped_v4 iperf_set_mapped_v4 "\<lambda>v. v"
  by unfold_locales (simp_all add: access_defs upd_settings_def)

interpretation acc_server_hostname: accessor iperf_get_test_server_hostname iperf_set_test_server_hostname Some
  by unfold_locales (simp_all add: access_defs upd_settings_def)

interpretation acc_tmp_template: accessor iperf_get_test_template iperf_set_test_template Some
  by unfold_locales (simp_all add: access_defs upd_settings_def)

interpretation acc_json_output: accessor iperf_get_test_json_output iperf_set_test_json_output "\<lambda>v. v"
  by unfold_locales (simp_all add: access_defs upd_settings_def)

interpretation acc_json_stream: accessor iperf_get_test_json_stream iperf_set_test_json_stream "\<lambda>v. v"
  by unfold_locales (simp_all add: access_defs upd_settings_def)

interpretation acc_get_server_output: accessor iperf_get_test_get_server_output iperf_set_test_get_server_output "\<lambda>v. v"
  by unfold_locales (simp_all add: access_defs upd_settings_def)

interpretation acc_unit_format: accessor iperf_get_test_unit_format iperf_set_test_unit_format "\<lambda>v. v"
  by unfold_locales (simp_all add: access_defs upd_settings_def)

interpretation acc_bind_address: accessor iperf_get_test_bind_address iperf_set_test_bind_address Some
  by unfold_locales (simp_all add: access_defs upd_settings_def)

interpretation acc_bind_dev: accessor iperf_get_test_bind_dev iperf_set_test_bind_dev Some
  by unfold_locales (simp_all add: access_defs upd_settings_def)

interpretation acc_udp_counters_64bit: accessor iperf_get_test_udp_counters_64bit iperf_set_test_udp_counters_64bit "\<lambda>v. v"
  by unfold_locales (simp_all add: access_defs upd_settings_def)

interpretation acc_one_off: accessor iperf_get_test_one_off iperf_set_test_one_off "\<lambda>v. v"
  by unfold_locales (simp_all add: access_defs upd_settings_def)

interpretation acc_tos: accessor iperf_get_test_tos iperf_set_test_tos "\<lambda>v. v"
  by unfold_locales (simp_all add: access_defs upd_settings_def)

interpretation acc_extra_data: accessor iperf_get_test_extra_data iperf_set_test_extra_data Some
  by unfold_locales (simp_all add: access_defs upd_settings_def)

interpretation acc_no_delay: accessor iperf_get_test_no_delay iperf_set_test_no_delay "\<lambda>v. v"
  by unfold_locales (simp_all add: access_defs upd_settings_def)

interpretation acc_connect_timeout: accessor iperf_get_test_connect_timeout iperf_set_test_connect_timeout "\<lambda>v. v"
  by unfold_locales (simp_all add: access_defs upd_settings_def)

interpretation acc_idle_timeout: accessor iperf_get_test_idle_timeout iperf_set_test_idle_timeout "\<lambda>v. v"
  by unfold_locales (simp_all add: access_defs upd_settings_def)

interpretation acc_dont_fragment: accessor iperf_get_dont_fragment iperf_set_dont_fragment "\<lambda>v. v"
  by unfold_locales (simp_all add: access_defs upd_settings_def)

interpretation acc_congestion: accessor iperf_get_test_congestion_control iperf_set_test_congestion_control Some
  by unfold_locales (simp_all add: access_defs upd_settings_def)

interpretation acc_mss: accessor iperf_get_test_mss iperf_set_test_mss "\<lambda>v. v"
  by unfold_locales (simp_all add: access_defs upd_settings_def)

interpretation acc_zerocopy: accessor iperf_get_test_zerocopy iperf_set_test_zerocopy "\<lambda>v. of_bool (v \<noteq> 0)"
  by unfold_locales (simp_all add: access_defs)

interpretation acc_rcv_timeout: accessor iperf_get_test_rcv_timeout iperf_set_test_rcv_timeout "\<lambda>v. v"
  by unfold_locales (simp_all add: access_defs upd_settings_def)

end
