(* ===== verification/Spec2Isabelle.thy ===== *)
theory Spec2Isabelle
  imports Iperf_Reset Iperf_Socket Iperf_Results_Ok Iperf_Args_Ok Iperf_Params Iperf_Dscp
    Iperf_Rate_Limit Iperf_New Iperf_Stats Iperf_Transfer_Ok Iperf_Server_Turn Iperf_Client_Turn
    Iperf_Error_Report Iperf_Main Iperf_Auth Iperf_Report_Ok Iperf_Quic_Ok Iperf_Strerror Iperf_Document Iperf_Output Iperf_Access
begin

text \<open>
  A verification library for iperf3, the network throughput tester under src/src: its own logic, from
  the command line to the bytes on the sockets, as HOL definitions with the theorems that make the
  parts correct.

  The program. A client and a server hold a test (struct iperf_test of iperf.h). The client parses
  its command line (iperf_parse_arguments), connects a control connection, sends the parameters of the
  test as JSON (send_parameters, get_parameters), both open streams of TCP, UDP, SCTP or QUIC, the
  sending side pushes blocks under a throttle (iperf_send_mt, iperf_check_throttle) while timers
  (timer.c) end the omit period, take statistics every interval and end the test; then both exchange
  their results (send_results, get_results) and the server resets the test for the next client
  (iperf_reset_test).

  How it is modelled. A C function becomes a HOL function that passes its state explicitly: the test,
  the stream, the store of timers, and the world. The world (Iperf_World) is the list of the answers
  the system calls will give and the trace of the calls made so far; a function that calls the system
  takes answers from the list and returns None only when it reaches an undefined operation of C or
  when the list of answers is used up. A loop around a system call ends with the list of answers, so
  no fuel is needed: a theorem that a function returns assumes as many answers as its loop can need
  and proves Some. The descriptors and address lists a function holds are read off the trace, and so
  are the bytes it put on a descriptor or took from it. Sizes are 64-bit words, C ints are ints
  narrowed with to_int where a value is stored in an int, doubles are reals. The modelled build is
  Linux with TCP_INFO, SCTP and SSL.

  The theories.
  Iperf_Prelude: words, bytes in network order, C division, conversions, the predicate post on partial
  results.
  Iperf_Time: iperf_time.c; the order of normalised times and the arithmetic on it.
  Iperf_Timer: timer.c on an explicit store of cells with prev and next pointers and a free list.
  Iperf_Timer_List, Iperf_Timer_Ops, Iperf_Timer_Run: the invariant timers_inv (the active list is doubly
  linked and sorted, the free list is disjoint, no block is lost) and that every operation keeps it,
  tmr_run with it. Iperf_Timer_Client: the locale of a client whose callbacks keep the store, with the
  laws a callback promises and what tmr_run then guarantees.
  Iperf_Timer_Procs, Iperf_Timer_Procs_Ok, Iperf_Timer_Create: the timer procedures of the client and of
  the server, interpretations of the locale on both, and the creation of the timers.
  Iperf_World, Iperf_Net, Iperf_Socket: the world; Nread, Nwrite, Nsendfile of net.c; netdial and
  netannounce with what they hold on each path.
  Iperf_Types: the records of iperf.h. Iperf_New, Iperf_Config, Iperf_Reset: the new test, role,
  direction, protocol, defaults, and the reset between two clients. Iperf_Access: the getters and setters
  of single fields with the locale of what a pair of them promises.
  Iperf_Cstr, Iperf_Units, Iperf_Dscp: strtol, atof and the other library functions on strings; units.c;
  dscp.c.
  Iperf_Args, Iperf_Args_Ok: iperf_parse_arguments as one step per option, and the bounds it ensures.
  Iperf_Json, Iperf_Params, Iperf_Results, Iperf_Results_Ok: the JSON object model, the frames of
  JSON_write and JSON_read, the two messages and what one end makes of what the other sent.
  Iperf_Transfer, Iperf_Transfer_Ok: the send and receive routines of TCP, UDP and SCTP and of -F; a
  locale for what a round of sending relies on, interpreted on each transport.
  Iperf_Pacing, Iperf_Pacing_Ok, Iperf_Rate_Limit, Iperf_Stats: the sending round, the throttle, the
  server's limit on the bitrate with its ring, and the statistics of an interval.
  Iperf_Util, Iperf_Streams: the cookie, the payload pattern and other helpers of iperf_util.c; the
  creation of a stream with its buffer file, and the numbers of streams.
  Iperf_Connect, Iperf_Connect_Ok: listening, accepting and connecting of TCP, UDP and SCTP, and what
  descriptors they hold afterwards.
  Iperf_Control: the control connection: state bytes, the report of an error, the authorization, the
  exchange of parameters, keepalive, affinity and the handling of a signal.
  Iperf_Workers: the threads that send and receive (created, cancelled and joined by calls in the
  trace) and select.
  Iperf_Client, Iperf_Server: iperf_client_api.c and iperf_server_api.c with their main loops.
  Iperf_Server_Ok: what cleanup_server leaves behind, and that every way out of iperf_run_server goes
  through it. Iperf_Error_Report: the report of an error as bytes, written by the server and read by
  the client.
  Iperf_Phase, Iperf_Server_Turn, Iperf_Client_Turn: the protocol. A turn of the main loop of either
  side is shown to be a sequence of steps of a small automaton (turn_next, client_next).

  Iperf_Main: run of main.c: the file of the process id, a server that serves one client after the
  other with the reset between them, a client, and the exit status.
  Iperf_Decimal, Iperf_Auth: decimal numbers as text and their way back through strtol; the token of the
  credentials (iperf_auth.c) as the client writes and the server reads it, and the file of the users.
  RSA, SHA-256 and base64 are OpenSSL, gathered in the record crypto; what is relied on is that a
  decoded and decrypted token is the text that was encrypted.
  Iperf_Strerror: the texts of the errors (iperf_strerror), and that no two codes share one.
  Iperf_Report, Iperf_Report_Ok: the reports in JSON (iperf_json_printf, print_interval_results,
  iperf_print_intermediate, iperf_print_results), and that the sums of the summary are those of the
  streams.

  Iperf_Quic, Iperf_Quic_Transfer: the QUIC transport (iperf_quic.c). What msquic and the threads of its
  callbacks share with the test (the context, the contexts of the streams with their queues of received
  buffers, the map of ids and the queue of streams to accept) is a part of the world. msquic is not in
  the repository: its calls take a status or a handle from the answers, and what it reports comes as
  batches of events, delivered by the code's own callbacks when a lock is taken or a condition waited for.
  Iperf_Quic_Ok: the locale callback_inv of what any batch of events keeps, with an interpretation for
  each of the properties needed, the locale byte_queue with its interpretation on the queue of a stream,
  and what follows for receiving, accepting, attaching and connecting. A wait for an event that never
  comes is None, as the code never returns from it.

  Iperf_Document: the JSON document from iperf_json_start to iperf_json_finish with the events of
  --json-stream, and that both say the same. Iperf_Output: where printed text goes (iperf_printf,
  iperf_err), and the way of the server's output to the client.

  The threads and the environment. A worker thread runs rounds; a round is atomic with respect to the
  main thread, and the schedule, a list with one entry per turn of the main loop, says which workers
  ran before the turn. Theorems hold for every schedule. What a run needs of code outside src/ is
  gathered in the record host (printer and parser of JSON, OpenSSL and the users, affinity, failures of
  allocations). A select that returns takes the ready descriptors from the
  answers of the world.

  The theorems below are about the composition of these parts and are stated over the code's
  functions alone.

  Not modelled: the text that is printed (the formats of iperf_locale.c, the text side
  of the reports; iperf_printf takes it as an argument), the mutexes and the preemption of a round, the inside of
  msquic and the stubs of a build without it, OpenSSL and the loading of keys, the prompt for the password, the printer and parser of
  cJSON (vendored; parameters), the daemon and the feature strings.
\<close>

section \<open>Concrete tests for the witnesses\<close>

definition sample_client :: iperf_test where
  "sample_client = iperf_set_test_role CHR ''c'' default_test"

definition sample_server :: iperf_test where
  "sample_server = iperf_set_test_role CHR ''s'' default_test"

definition sample_world :: "reply list \<Rightarrow> world" where
  "sample_world rs = \<lparr>replies = rs, trace = [], errno = 0, i_errno = 0, gerror = 0, quic_mem = no_quic\<rparr>"

lemmas default_simps = default_test_def iperf_defaults_def zero_test_def zero_settings_def
  default_settings_def set_protocol_def get_protocol_def check_sender_has_retransmits_def Let_def
  zero_time_def iperf_set_test_role_def


lemma sample_client_ok: "sendable sample_client" "mode_ok sample_client" "role sample_client = CHR ''c''"
  "protocol sample_client = Ptcp" "ctrl_sck sample_client = -1" "\<not> needs_token sample_client"
  by (simp_all add: sample_client_def sendable_def i32_def mode_ok_def expected_mode_def needs_token_def
      default_simps)


section \<open>The control connection\<close>


lemmas run_defs = Let_def Nwrite_def nwrite_loop.simps Nread_def Nrecv_def nrecv_loop.simps recv_or_read_def
  bytes_copied_def sys_defs next_reply_def sample_world_def events_def







section \<open>Options\<close>





section \<open>Timers\<close>

text \<open>C15: once the omit period is over, the first call of tmr_run at or after the expiry
  of the test timer returns, ends the test and gives the timer back, whatever the other timers of the
  client do in the same call.\<close>

theorem client_test_ends:
  assumes inv: "timers_inv s as fs" and q: "app_quiet d (t, w) (active s as)" and p: "periods_ok now s as"
    and h: "timer t = Some a" "d \<noteq> 0" "tm s a \<le> now"
  shows "\<exists>t' w' s'. tmr_run (client_timer_proc env) (Some now) clock ((t, w), s) = Some ((t', w'), s')
    \<and> test_done t' \<noteq> 0 \<and> timer t' = None"
proof -
  have "app_inv (t, w) (active s as)" "handle_of Test_timer t = Some a"
    using q h(1) by (simp_all add: app_quiet_def handle_of_def)
  then have a: "a \<in> set as" by (rule handle_in_list)
  from client_quiet.run_fires [of s as fs d "(t, w)" "Some now" clock env] inv q p
  obtain c' s' as' fs' where r: "tmr_run (client_timer_proc env) (Some now) clock ((t, w), s) = Some (c', s')"
    "timers_inv s' as' fs'" "app_quiet d c' (active s' as')" "set as' \<subseteq> set as"
    "\<forall>a\<in>set as. tm s a \<le> now \<longrightarrow> a \<notin> set as' \<or> time_us (tm s a) < time_us (tm s' a)" "tpay s' = tpay s"
    "\<forall>a x. a \<in> set as' \<longrightarrow> cells s a = Some x \<longrightarrow> \<not> periodic x \<longrightarrow> tm s' a = tm s a"
    by (auto simp: getnow_def)
  obtain t' w' where c': "c' = (t', w')" by (cases c')
  have "a \<notin> set as' \<or> time_us (tm s a) < time_us (tm s' a)" using r(5) a h(3) by blast
  from deadline [OF inv q h(1,2) r(2) r(3) [unfolded c'] this r(6,4,7)] r(1) c' show ?thesis by blast
qed

definition sample_timer :: "timer_name Timer" where
  "sample_timer = \<lparr>timer_proc = Test_timer, client_data = 0, period_usecs = 0, periodic = False,
     time = zero_time, prev = None, nxt = None\<rparr>"

definition one_second :: iperf_time where "one_second = \<lparr>secs = 1, usecs = 0\<rparr>"

lemma sample_store:
  obtains s where "timers_inv s [1] []" and "active s [1] = [1 \<mapsto> (Test_timer, 0, 1000000, False)]"
    and "tm s 1 = one_second" and "periods_ok one_second s [1]"
proof -
  have fr: "cells no_timers 1 = (None :: timer_name Timer option)" by (simp add: no_timers_def)
  obtain s where "tmr_create (Some zero_time) zero_time Test_timer 0 1000000 False (Some (1, sample_timer)) no_timers = Some (Some 1, s)"
    and s: "timers_inv s (tinsert (tm s) 1 []) []"
    "tpay s = (tpay no_timers)(1 \<mapsto> (Test_timer, 0, 1000000, False))"
    "tm s = (tm (no_timers :: timer_name tstore))(1 := iperf_time_add_usecs (getnow (Some zero_time) zero_time) 1000000)"
    using tmr_create_malloc [OF timers_inv_empty fr, where nowP = "Some zero_time" and clock = zero_time
          and proc = Test_timer and cdata = 0 and us = 1000000 and p = False and junk = sample_timer] .
  have t1: "tm s 1 = one_second"
    by (simp add: s(3) getnow_def zero_time_def iperf_time_add_usecs_def Let_def one_second_def)
  obtain x where x: "cells s 1 = Some x" using timers_inv_cell [OF s(1)] by auto
  then have "period_usecs x = 1000000" using fun_cong [OF s(2), of 1] by (simp add: tpay_def)
  then have "periods_ok one_second s [1]"
    using x t1 by (simp add: periods_ok_def per_def one_second_def wf_time_def time_us_def)
  moreover have "active s [1] = [1 \<mapsto> (Test_timer, 0, 1000000, False)]"
    by (auto simp: active_def s(2) restrict_map_def fun_eq_iff)
  ultimately show thesis using that s(1) t1 by simp
qed

definition sample_running :: iperf_test where
  "sample_running = sample_client\<lparr>timer := Some 1\<rparr>"

lemma sample_running_inv:
  "app_inv (sample_running, w) [1 \<mapsto> (Test_timer, 0, 1000000, False)]"
  by (auto simp: app_inv_def sample_running_def sample_client_def default_simps rate_ok_def handle_of_def
      split: timer_name.splits)

lemma client_test_ends_witness:
  "\<forall>env. \<exists>s. timers_inv s [1] [] \<and> (\<exists>t' w' s'. tmr_run (client_timer_proc env)
      (Some one_second) one_second ((sample_running, sample_world []), s) = Some ((t', w'), s') \<and> test_done t' \<noteq> 0)"
proof
  fix env
  obtain s where s: "timers_inv s [1] []" "active s [1] = [1 \<mapsto> (Test_timer, 0, 1000000, False)]"
    "tm s 1 = one_second" "periods_ok one_second s [1]" by (rule sample_store)
  have "app_quiet 10 (sample_running, sample_world []) (active s [1])"
    unfolding s(2) app_quiet_def ended_def using sample_running_inv
    by (simp add: sample_running_def sample_client_def default_simps)
  from client_test_ends [OF s(1) this s(4), of 1 env one_second]
  show "\<exists>s. timers_inv s [1] [] \<and> (\<exists>t' w' s'. tmr_run (client_timer_proc env)
      (Some one_second) one_second ((sample_running, sample_world []), s) = Some ((t', w'), s') \<and> test_done t' \<noteq> 0)"
    using s(1,3) by (auto simp: sample_running_def)
qed

text \<open>C16: with the server's timer procedures, among them the one at the end of the omit
  period that moves other timers while the loop runs, tmr_run returns, uses no released timer, and
  leaves the handles of the test and the list of timers in step; no block of memory is lost.\<close>

theorem server_timers_run:
  assumes inv: "timers_inv s as fs" and q: "app_inv (t, w) (active s as)" and p: "periods_ok now s as"
  shows "\<exists>c' s' as' fs'. tmr_run (server_timer_proc env) (Some now) clock ((t, w), s) = Some (c', s')
    \<and> timers_inv s' as' fs' \<and> app_inv c' (active s' as') \<and> set as' \<subseteq> set as
    \<and> set as \<union> set fs = set as' \<union> set fs'"
  using server_procs.run_ok [of s as fs "(t, w)" "Some now" clock env] assms by (simp add: getnow_def)

lemma server_timers_run_witness:
  "\<forall>env. \<exists>s c' s'. timers_inv s [1] [] \<and> tmr_run (server_timer_proc env)
      (Some one_second) one_second ((sample_running, sample_world []), s) = Some (c', s')"
proof -
  obtain s where s: "timers_inv s [1] []" "active s [1] = [1 \<mapsto> (Test_timer, 0, 1000000, False)]"
    "tm s 1 = one_second" "periods_ok one_second s [1]" by (rule sample_store)
  from server_timers_run [OF s(1) sample_running_inv [folded s(2)] s(4)] s(1) show ?thesis by blast
qed

text \<open>C17: creating the timers of a client that has none, and then its omit timer,
  succeeds when there is memory and leaves exactly the timers the options ask for, each with its own
  procedure, due one period after the time its creation read: the test timer after duration + omit,
  the statistics and the reports after their intervals, the end of the omit period after omit
  seconds.\<close>

theorem client_timers_created:
  assumes inv: "timers_inv s [] fs" and t: "rate_ok t" "\<And>p. handle_of p t = None"
    and mal: "mal_fresh UNIV mal s" "\<And>p. mal p \<noteq> None" and r: "in_range 0 t"
    and clock1: "iperf_time_now zero_time w = Some (0, now1, w1)"
  shows "\<exists>t2 w2 s2. create_client_timers mal ((t, w), s) = Some (0, (t2, w2), s2) \<and> timers_ok (t2, w2) s2
    \<and> (\<forall>p. p \<noteq> Omit_timer \<longrightarrow> runs_as p now1 (period_of 0 t p) (t2, w2) s2)
    \<and> (\<forall>now2 w3. (omit t \<noteq> 0 \<longrightarrow> iperf_time_now zero_time w2 = Some (0, now2, w3)) \<longrightarrow>
      (\<exists>t3 w4 s3. create_omit_timer mal ((t2, w2), s2) = Some (0, (t3, w4), s3)
        \<and> timers_ok (t3, w4) s3 \<and> omitting t3 = of_bool (omit t \<noteq> 0)
        \<and> (\<forall>p. runs_as p (if p = Omit_timer then now2 else now1) (period_of 0 t p) (t3, w4) s3)))"
proof -
  have "app_inv (t, w) (active s [])"
    by (rule app_invI [OF t(1)]) (use t(2) in \<open>auto simp: active_def\<close>)
  with inv have ok: "timers_ok (t, w) s" unfolding timers_ok_def by blast
  have ex: "\<exists>t2 w2 s2. create_timers 0 mal ((t, w), s) = Some (0, (t2, w2), s2)
      \<and> runs_as p now1 (period_of 0 t p) (t2, w2) s2 \<and> timers_ok (t2, w2) s2
      \<and> mal_fresh {Omit_timer} mal s2 \<and> omit_timer t2 = None \<and> configured t2 = configured t"
    if p: "p \<noteq> Omit_timer" for p
  proof -
    obtain r c' s' where c: "create_timers 0 mal ((t, w), s) = Some (r, c', s')" "timers_ok c' s'"
      "mal_fresh {Omit_timer} mal s'" "r = 0 \<or> r = -1 \<and> (\<exists>q. mal q = None)"
      "handle_of Omit_timer (fst c') = handle_of Omit_timer t" "configured (fst c') = configured t"
      "r = 0 \<Longrightarrow> p \<noteq> Omit_timer \<Longrightarrow> runs_as p now1 (period_of 0 t p) c' s'"
      using create_timers_ok [OF ok t(2) mal(1) r clock1, of p] by blast
    have "r = 0" using c(4) mal(2) by blast
    with c p t(2) show ?thesis by (cases c') (simp add: handle_omit)
  qed
  from ex [of Test_timer] obtain t2 w2 s2 where c: "create_timers 0 mal ((t, w), s) = Some (0, (t2, w2), s2)"
    "timers_ok (t2, w2) s2" "mal_fresh {Omit_timer} mal s2" "omit_timer t2 = None" "configured t2 = configured t"
    by auto
  have sch: "runs_as p now1 (period_of 0 t p) (t2, w2) s2" if "p \<noteq> Omit_timer" for p
    using ex [OF that] c(1) by auto
  have om: "omit t2 = omit t" using c(5) by (simp add: configured_eq)
  have omits: "\<exists>t3 w4 s3. create_omit_timer mal ((t2, w2), s2) = Some (0, (t3, w4), s3) \<and> timers_ok (t3, w4) s3
      \<and> omitting t3 = of_bool (omit t \<noteq> 0)
      \<and> (\<forall>p. runs_as p (if p = Omit_timer then now2 else now1) (period_of 0 t p) (t3, w4) s3)"
    if n: "omit t \<noteq> 0 \<longrightarrow> iperf_time_now zero_time w2 = Some (0, now2, w3)" for now2 w3
  proof -
    have n2: "omit t2 \<noteq> 0 \<Longrightarrow> iperf_time_now zero_time w2 = Some (0, now2, w3)" using n om by simp
    have same: "period_of 0 t2 Omit_timer = period_of 0 t Omit_timer" using om by (simp add: period_of_def)
    have one: "\<exists>t3 w4 s3. create_omit_timer mal ((t2, w2), s2) = Some (0, (t3, w4), s3) \<and> timers_ok (t3, w4) s3
        \<and> omitting t3 = of_bool (omit t \<noteq> 0) \<and> runs_as Omit_timer now2 (period_of 0 t Omit_timer) (t3, w4) s3
        \<and> (q \<noteq> Omit_timer \<longrightarrow> runs_as q now1 (period_of 0 t q) (t3, w4) s3)" for q
    proof -
      obtain r c' s' where o: "create_omit_timer mal ((t2, w2), s2) = Some (r, c', s')" "timers_ok c' s'"
        "r = 0 \<or> r = -1 \<and> mal Omit_timer = None"
        "r = 0 \<Longrightarrow> runs_as Omit_timer now2 (period_of 0 t2 Omit_timer) c' s'"
        "r = 0 \<Longrightarrow> omitting (fst c') = of_bool (omit t2 \<noteq> 0)"
        "q \<noteq> Omit_timer \<Longrightarrow> runs_as q now1 (period_of 0 t q) (t2, w2) s2 \<Longrightarrow> runs_as q now1 (period_of 0 t q) c' s'"
        using create_omit_timer_ok [OF c(2,4,3) n2, of 0 q now1 "period_of 0 t q"] by blast
      have "r = 0" using o(3) mal(2) by blast
      with o same sch [of q] om show ?thesis by (cases c') simp
    qed
    from one [of Test_timer] obtain t3 w4 s3 where o: "create_omit_timer mal ((t2, w2), s2) = Some (0, (t3, w4), s3)"
      "timers_ok (t3, w4) s3" "omitting t3 = of_bool (omit t \<noteq> 0)"
      "runs_as Omit_timer now2 (period_of 0 t Omit_timer) (t3, w4) s3" by blast
    have "runs_as q now1 (period_of 0 t q) (t3, w4) s3" if "q \<noteq> Omit_timer" for q
      using one [of q] o(1) that by auto
    with o show ?thesis by (intro exI [of _ t3] exI [of _ w4] exI [of _ s3]) simp
  qed
  show ?thesis
  proof (rule exI [of _ t2], rule exI [of _ w2], rule exI [of _ s2], intro conjI)
    show "create_client_timers mal ((t, w), s) = Some (0, (t2, w2), s2)"
      using c(1) by (simp add: create_client_timers_def)
    show "timers_ok (t2, w2) s2" by (rule c)
  qed (use sch omits in blast)+
qed

definition sample_mallocs :: mallocs where
  "sample_mallocs p = Some (case p of Test_timer \<Rightarrow> 1 | Stats_timer \<Rightarrow> 2 | Reporter_timer \<Rightarrow> 3 | Omit_timer \<Rightarrow> 4,
     sample_timer)"

lemma sample_mallocs_fresh: "mal_fresh UNIV sample_mallocs no_timers" "sample_mallocs p \<noteq> None"
  by (auto simp: mal_fresh_def sample_mallocs_def no_timers_def split: timer_name.splits)

lemma sample_client_timers: "rate_ok sample_client" "handle_of p sample_client = None" "in_range 0 sample_client"
  "duration sample_client = 10" "omit sample_client = 0"
  by (simp_all add: rate_ok_def handle_of_def in_range_def sample_client_def default_simps double_to_s64_def
      s64_min_def s64_max_def split: timer_name.split)

lemma client_timers_created_witness:
  "\<exists>t2 w2 s2. create_client_timers sample_mallocs
        ((sample_client, sample_world [Ret 5000000000 []]), no_timers) = Some (0, (t2, w2), s2)
     \<and> scheduled Test_timer \<lparr>secs = 5, usecs = 0\<rparr> 10000000 (t2, w2) s2
     \<and> scheduled Stats_timer \<lparr>secs = 5, usecs = 0\<rparr> 1000000 (t2, w2) s2"
proof -
  let ?w = "sample_world [Ret 5000000000 []]"
  let ?now = "\<lparr>secs = 5, usecs = 0\<rparr>"
  obtain w1 where n: "iperf_time_now zero_time ?w = Some (0, ?now, w1)"
    by (simp add: iperf_time_now_def clock_gettime_helper_def next_reply_def sample_world_def)
  have p: "period_of 0 sample_client Test_timer = Some 10000000"
    "period_of 0 sample_client Stats_timer = Some 1000000"
    by (simp_all add: period_of_def test_period_def interval_period_def sample_client_timers double_to_s64_def
        s64_min_def s64_max_def sample_client_def default_simps)
  show ?thesis
    using client_timers_created [OF timers_inv_empty sample_client_timers(1,2) sample_mallocs_fresh
        sample_client_timers(3) n] p by (fastforce simp: runs_as_def)
qed

text \<open>C18: resetting the test between two clients releases what the test held: every timer
  is cancelled, the descriptors of the streams and the pipe of QUIC are closed, and the server is back in the state in
  which it reads the parameters of a client, provided the options that the reset leaves alone
  (flow label, repeating payload, multipath, server output, QUIC port) were never set.\<close>

theorem reset_gives_back:
  assumes inv: "timers_inv s as fs" and ci: "app_inv (t, w) (active s as)"
    and st: "\<forall>sp\<in>set (streams t). send_timer sp = None"
    and pr: "{Ptcp, Pudp, Psctp, Pquic} \<subseteq> set (protocols t)" "diskfile_name t = None" "max_server_duration t = 0"
  shows "\<exists>t' s' w' fs'. iperf_reset_test t (s, w) = Some (t', s', w') \<and> timers_inv s' [] fs'
    \<and> fds w' = fds w - stream_fds (streams t) - quic_fds w \<and> streams t' = [] \<and> test_done t' = 0
    \<and> (\<forall>p. handle_of p t' = None) \<and> (stale_free t \<longrightarrow> fresh_server t')"
proof -
  let ?t = "t\<lparr>omit_timer := None, timer := None, stats_timer := None, reporter_timer := None\<rparr>"
  obtain s' w' fs' where r: "iperf_reset_test t (s, w) = Some (reset_fields ?t, s', w')" "timers_inv s' [] fs'"
    "fds w' = fds w - stream_fds (streams t) - quic_fds w"
    using iperf_reset_test_ok [OF inv ci st] by metis
  have "stale_free t \<longrightarrow> fresh_server (reset_fields ?t)"
    using reset_fields_fresh [of ?t] pr by (simp add: stale_free_def)
  moreover have "handle_of p (reset_fields ?t) = None" for p
    by (simp add: reset_fields_def handle_of_def set_protocol_def get_protocol_def Let_def
        check_sender_has_retransmits_def split: timer_name.split)
  moreover have "streams (reset_fields ?t) = []" "test_done (reset_fields ?t) = 0"
    by (simp_all add: reset_fields_def set_protocol_def get_protocol_def Let_def check_sender_has_retransmits_def)
  ultimately show ?thesis using r by blast
qed

lemma reset_gives_back_witness:
  "\<exists>(s :: timer_name tstore) t' s' w'. timers_inv s [1] [] \<and> iperf_reset_test sample_running (s, sample_world []) = Some (t', s', w')
     \<and> fresh_server t'"
proof -
  obtain s where s: "timers_inv s [1] []" "active s [1] = [1 \<mapsto> (Test_timer, 0, 1000000, False)]"
    by (rule sample_store)
  have c: "\<forall>sp\<in>set (streams sample_running). send_timer sp = None" "diskfile_name sample_running = None"
    "{Ptcp, Pudp, Psctp, Pquic} \<subseteq> set (protocols sample_running)" "max_server_duration sample_running = 0"
    "stale_free sample_running"
    by (simp_all add: sample_running_def sample_client_def default_simps stale_free_def)
  have i: "app_inv (sample_running, sample_world []) (active s [1])" unfolding s(2) by (rule sample_running_inv)
  obtain t' s' w' where "iperf_reset_test sample_running (s, sample_world []) = Some (t', s', w')" "fresh_server t'"
    using reset_gives_back [OF s(1) i c(1,3,2,4)] c(5) by blast
  with s(1) show ?thesis by blast
qed

section \<open>Sockets, reads and writes\<close>

text \<open>C19: netdial keeps no descriptor and no address list beyond the connected socket it
  returns, whichever of the calls on its way fails.\<close>

theorem netdial_no_leak:
  assumes "netdial d proto local dev lport server port timeout w = Some (s, w')"
  shows "addrs w' = addrs w \<and>
    (if s < 0 then s = -1 \<and> fds w' = fds w else s \<notin> fds w \<and> fds w' = insert s (fds w))"
proof -
  let ?Q = "\<lambda>(s, w'). addrs w' = addrs w \<and>
      (if s < 0 then s = -1 \<and> fds w' = fds w else s \<notin> fds w \<and> fds w' = insert s (fds w))"
  have "post (netdial d proto local dev lport server port timeout w) ?Q"
    by (rule held_netdial [OF held_start]) (auto simp: held_def)
  with assms show ?thesis by (simp add: post_def)
qed

lemma netdial_no_leak_witness:
  "\<exists>w'. netdial 0 1 None None 0 ''host'' 5201 (-1) (sample_world [Ret 0 [], Ret 5 [], Fail 111]) = Some (-1, w')
     \<and> fds w' = {}"
proof -
  let ?w = "sample_world [Ret 0 [], Ret 5 [], Fail 111]"
  have e: "fds ?w = {}" by (simp add: fds_def sample_world_def)
  obtain w' where r: "netdial 0 1 None None 0 ''host'' 5201 (-1) ?w = Some (-1, w')"
    by (simp add: netdial_def create_socket_def create_bind_def timeout_connect_def sys_getaddrinfo_def sys_defs
        next_reply_def sample_world_def new_fd_def fds_def Let_def freeaddrinfo_def close_free_def)
  with netdial_no_leak [OF r] e show ?thesis by simp
qed

text \<open>C20: the same for the listening socket of netannounce.\<close>

theorem netannounce_no_leak:
  assumes "netannounce d proto local dev port w = Some (s, w')"
  shows "addrs w' = addrs w \<and>
    (if s < 0 then s = -1 \<and> fds w' = fds w else s \<notin> fds w \<and> fds w' = insert s (fds w))"
proof -
  let ?Q = "\<lambda>(s, w'). addrs w' = addrs w \<and>
      (if s < 0 then s = -1 \<and> fds w' = fds w else s \<notin> fds w \<and> fds w' = insert s (fds w))"
  have "post (netannounce d proto local dev port w) ?Q"
    by (rule held_netannounce [OF held_start]) (auto simp: held_def)
  with assms show ?thesis by (simp add: post_def)
qed

lemma netannounce_no_leak_witness:
  "\<exists>w'. netannounce 0 1 None None 5201 (sample_world [Ret 0 [], Ret 5 [], Fail 22]) = Some (-1, w') \<and> fds w' = {}"
proof -
  let ?w = "sample_world [Ret 0 [], Ret 5 [], Fail 22]"
  have e: "fds ?w = {}" by (simp add: fds_def sample_world_def)
  obtain w' where r: "netannounce 0 1 None None 5201 ?w = Some (-1, w')"
    by (simp add: netannounce_def announce_opts_def announce_bind_def sys_getaddrinfo_def sys_defs
        next_reply_def sample_world_def new_fd_def fds_def Let_def freeaddrinfo_def close_free_def)
  with netannounce_no_leak [OF r] e show ?thesis by simp
qed

text \<open>C21: Nwrite puts a prefix of its buffer on the descriptor, in order and without
  gaps, and a result that is not an error is the length of that prefix.\<close>

theorem nwrite_accounts:
  assumes "Nwrite f buf count prot w = Some (r, w')" "count \<le> length buf"
  shows "\<exists>k \<le> count. bytes_written f (events w w') = take k buf
    \<and> (r = int k \<or> r = NET_SOFTERROR \<or> r = NET_HARDERROR)"
  using nwrite_loop_inv [of f buf count count w r w'] assms by (auto simp: Nwrite_def)

lemma nwrite_accounts_witness:
  "\<exists>w'. Nwrite 4 [1, 2, 3] 3 1 (sample_world [Ret 2 [], Fail EINTR, Fail EAGAIN]) = Some (2, w')
     \<and> (\<exists>k \<le> 3. bytes_written 4 (events (sample_world [Ret 2 [], Fail EINTR, Fail EAGAIN]) w') = take k [1, 2, 3] \<and> 2 = int k)"
proof -
  let ?w = "sample_world [Ret 2 [], Fail EINTR, Fail EAGAIN]"
  obtain w' where r: "Nwrite 4 [1, 2, 3] 3 1 ?w = Some (2, w')"
    by (simp add: run_defs write_error_def)
  from nwrite_accounts [OF r] r show ?thesis by auto
qed

text \<open>C22: what Nrecv returns is what it took from the descriptor, never more than was
  asked for, and a result that is not an error is the number of bytes.\<close>

theorem nrecv_accounts:
  assumes "Nrecv f count prot so w = Some (r, got, w')"
  shows "got = bytes_read f (events w w') \<and> length got \<le> count \<and> (r = int (length got) \<or> r = NET_HARDERROR)"
  using Nrecv_result [OF assms] by blast

lemma nrecv_accounts_witness:
  "\<exists>w'. Nrecv 4 3 1 0 (sample_world [Ret 1 [], Ret 0 [7, 8, 9]]) = Some (3, [7, 8, 9], w')
     \<and> bytes_read 4 (events (sample_world [Ret 1 [], Ret 0 [7, 8, 9]]) w') = [7, 8, 9]"
proof -
  let ?w = "sample_world [Ret 1 [], Ret 0 [7, 8, 9]]"
  obtain w' where r: "Nrecv 4 3 1 0 ?w = Some (3, [7, 8, 9], w')" by (simp add: run_defs)
  from nrecv_accounts [OF r] r show ?thesis by simp
qed

text \<open>Nsendfile copies one contiguous piece from the start of the file, whatever
  pieces the kernel takes at a time, and a result that is not an error is its length.\<close>

theorem nsendfile_accounts:
  assumes "Nsendfile f t buf count w = Some (r, w')"
  shows "\<exists>k \<le> count. contiguous 0 (sent_pieces t f (events w w')) k
    \<and> (r = int k \<or> r = NET_SOFTERROR \<or> r = NET_HARDERROR)"
  using nsendfile_loop_inv [of f t count count w r w'] assms by (auto simp: Nsendfile_def)

lemma nsendfile_accounts_witness:
  "\<exists>w'. Nsendfile 5 4 [] 10 (sample_world [Ret 6 [], Ret 4 []]) = Some (10, w')
     \<and> (\<exists>k. contiguous 0 (sent_pieces 4 5 (events (sample_world [Ret 6 [], Ret 4 []]) w')) k)"
proof -
  let ?w = "sample_world [Ret 6 [], Ret 4 []]"
  obtain w' where r: "Nsendfile 5 4 [] 10 ?w = Some (10, w')"
    by (simp add: Nsendfile_def nsendfile_loop.simps run_defs)
  from nsendfile_accounts [OF r] r show ?thesis by blast
qed

section \<open>Streams\<close>

text \<open>C23: a round of iperf_send_mt counts what it sends once in the stream and once in
  the test, by the same amount, and touches no other stream counter, whatever the transport (QUIC
  included), the -F mode, the pacing and the burst settings are.\<close>

theorem send_round_accounts:
  assumes run: "iperf_send_mt (stream_send iperf_quic_send) t sp w = Some (r, sp', t', w')"
  shows "test_bytes_sent t' - test_bytes_sent t = bytes_sent (result sp') - bytes_sent (result sp)
    \<and> bytes_received (result sp') = bytes_received (result sp) \<and> sid sp' = sid sp
    \<and> (r = 0 \<or> r < NET_SOFTERROR)"
  using sender_op.send_mt_ok [OF any_stream_send, of t sp w] run by (auto simp: post_def round_ok_def)

lemma send_round_accounts_witness:
  "\<exists>sp' t' w'. iperf_send_mt (stream_send iperf_quic_send) (sample_client\<lparr>settings := (settings sample_client)\<lparr>blksize := 4\<rparr>, multisend := 1\<rparr>)
       (zero_stream\<lparr>buffer := [1, 2, 3, 4], green_light := 1\<rparr>) (sample_world [Ret 4 []]) = Some (0, sp', t', w')
     \<and> test_bytes_sent t' - 0 = bytes_sent (result sp') - 0"
proof -
  let ?t = "sample_client\<lparr>settings := (settings sample_client)\<lparr>blksize := 4\<rparr>, multisend := 1\<rparr>"
  let ?sp = "zero_stream\<lparr>buffer := [1, 2, 3, 4], green_light := 1\<rparr>"
  have t: "rate (settings ?t) = 0" "burst (settings ?t) = 0" "bytes (settings ?t) = 0" "protocol ?t = Ptcp"
    "zerocopy ?t = 0" "test_bytes_sent ?t = 0" "blocks_sent ?t = 0" "blocks (settings ?t) = 0"
    by (simp_all add: sample_client_def default_simps)
  obtain sp' t' w' where r: "iperf_send_mt (stream_send iperf_quic_send) ?t ?sp (sample_world [Ret 4 []]) = Some (0, sp', t', w')"
    using t by (simp add: iperf_send_mt_def multisend_count_def stream_send_def proto_send_def iperf_tcp_send_def
        numeral_eq_Suc zero_stream_def sized_def run_defs count_block_def throttle_block_def)
  from send_round_accounts [OF r] r t show ?thesis by (simp add: zero_stream_def zero_result_def)
qed



text \<open>iperf_tcp_recv counts exactly the bytes it read, and only while the test
  runs.\<close>

theorem tcp_receive_counts:
  assumes "iperf_tcp_recv t sp w = Some (r, sp', t', w')" "0 \<le> r"
  shows "int (length (bytes_read (socket sp) (events w w'))) = r
    \<and> bytes_received (result sp') = bytes_received (result sp) + (if state t = TEST_RUNNING then word_of_int r else 0)"
  using tcp_recv_wire [OF assms] by blast

lemma tcp_receive_counts_witness:
  "\<exists>sp' t' w'. iperf_tcp_recv (sample_client\<lparr>settings := (settings sample_client)\<lparr>blksize := 2\<rparr>, state := TEST_RUNNING\<rparr>)
       (zero_stream\<lparr>buffer := [0, 0]\<rparr>) (sample_world [Ret 0 [5, 6]]) = Some (2, sp', t', w')
     \<and> bytes_received (result sp') = 2"
proof -
  let ?t = "sample_client\<lparr>settings := (settings sample_client)\<lparr>blksize := 2\<rparr>, state := TEST_RUNNING\<rparr>"
  have z: "skip_rx_copy (settings ?t) = 0" by (simp add: sample_client_def default_simps)
  obtain sp' t' w' where r: "iperf_tcp_recv ?t (zero_stream\<lparr>buffer := [0, 0]\<rparr>) (sample_world [Ret 0 [5, 6]])
      = Some (2, sp', t', w')"
    using z by (simp add: iperf_tcp_recv_def zero_stream_def sized_def store_def run_defs Nrecv_no_select_def
        nrecv_no_select_loop.simps Nread_no_select_def)
  from tcp_receive_counts [OF r] r show ?thesis by (simp add: zero_stream_def zero_result_def)
qed

text \<open>C25: the counts of the UDP receiver are those of the abstract specification: after any
  sequence of distinct datagrams, in any order, with any gaps, the packet count is the highest number
  seen and the losses are the numbers up to it that never came.\<close>

theorem udp_losses:
  assumes "distinct ps" "\<forall>p\<in>set ps. seq_ok p" "packet_count sp = 0" "cnt_error sp = 0"
  shows "packet_count (count_all ps sp) = highest ps
    \<and> cnt_error (count_all ps sp) = highest ps - int (length ps)"
  by (rule count_all_losses [OF assms])

lemma udp_losses_witness: "cnt_error (count_all [1, 5, 3] zero_stream) = 2"
  using udp_losses [of "[1, 5, 3]" zero_stream]
  by (simp add: seq_ok_def zero_stream_def s64_max_def highest_def)

text \<open>C26: the time and the sequence number the sender writes at the start of a
  datagram are what the receiver reads from it, for 32-bit and for 64-bit counters.\<close>

theorem udp_header_roundtrip:
  assumes "stamp_header c64 before pc buf = Some buf'"
  shows "read_header c64 buf' = Some (\<lparr>secs = secs before, usecs = usecs before\<rparr>,
    if c64 then word_of_int pc else ucast (word_of_int pc :: u32))"
  by (rule read_stamped [OF assms])

lemma udp_header_roundtrip_witness:
  "\<exists>buf'. stamp_header True one_second 7 (replicate 16 0) = Some buf' \<and> read_header True buf' = Some (one_second, 7)"
proof -
  obtain buf' where s: "stamp_header True one_second 7 (replicate 16 0) = Some buf'"
    by (simp add: stamp_header_def store_def header_length)
  from udp_header_roundtrip [OF this] s show ?thesis by (simp add: one_second_def)
qed

text \<open>C27: with a buffer of the block size, at least the minimum for UDP, sending and
  receiving a datagram never leaves the buffer, and both return after at most one call per byte.\<close>

theorem udp_within_buffer:
  assumes "udp_buffer_ok t sp" "nat (blksize (settings t)) < length (replies w)"
  shows "(\<exists>y. iperf_udp_send t sp w = Some y) \<and> (\<exists>y. iperf_udp_recv t sp w = Some y)"
  using udp_send_total [OF assms] udp_recv_total [OF assms] by blast

lemma udp_within_buffer_witness:
  "\<exists>y. iperf_udp_recv (sample_client\<lparr>settings := (settings sample_client)\<lparr>blksize := 16\<rparr>\<rparr>)
     (zero_stream\<lparr>buffer := replicate 16 0\<rparr>) (sample_world (replicate 20 (Fail EAGAIN))) = Some y"
  using udp_within_buffer [of "sample_client\<lparr>settings := (settings sample_client)\<lparr>blksize := 16\<rparr>\<rparr>"
      "zero_stream\<lparr>buffer := replicate 16 0\<rparr>" "sample_world (replicate 20 (Fail EAGAIN))"]
  by (simp add: udp_buffer_ok_def sample_world_def zero_stream_def)



section \<open>Pacing, rate limit and statistics\<close>

text \<open>C32: when the pacing check of iperf_check_throttle leaves the light of a stream
  green, the stream is below the rate asked for, either at the time of the check or, after it has
  slept, at the time it wakes up, up to one bit and one nanosecond.\<close>

theorem pacing_keeps_the_rate:
  assumes "iperf_check_throttle t sp now w = Some (sp', w')" "green_light sp' \<noteq> 0"
    and "test_done t = 0" "rate (settings t) \<noteq> 0" "uint (rate (settings t)) \<le> s64_max"
    and "real (unat (bits_so_far sp)) < elapsed sp now * 2 ^ 63"
  shows "real (unat (bits_so_far sp)) < elapsed sp now * real (unat (rate (settings t)))
    \<or> (\<exists>v bs s ns d. hd (replies w) = Ret v bs \<and> EvSleep s ns \<in> set (events w w') \<and> s * SEC_TO_NS + ns = v + d
        \<and> real (unat (bits_so_far sp))
            \<le> (elapsed sp now + (real_of_int d + 1) / 1000000000) * real (unat (rate (settings t))) + 1)"
  by (rule throttle_green [OF assms])

lemma pacing_keeps_the_rate_witness:
  "\<exists>sp' w'. iperf_check_throttle (sample_client\<lparr>settings := (settings sample_client)\<lparr>rate := 1000\<rparr>\<rparr>)
      (zero_stream\<lparr>result := zero_result\<lparr>bytes_sent := 100\<rparr>\<rparr>) one_second (sample_world []) = Some (sp', w')
    \<and> green_light sp' = 1
    \<and> elapsed (zero_stream\<lparr>result := zero_result\<lparr>bytes_sent := 100\<rparr>\<rparr>) one_second * 1000 > 800"
proof -
  let ?t = "sample_client\<lparr>settings := (settings sample_client)\<lparr>rate := 1000\<rparr>\<rparr>"
  let ?sp = "zero_stream\<lparr>result := zero_result\<lparr>bytes_sent := 100\<rparr>\<rparr>"
  have el: "elapsed ?sp one_second = 1"
    by (simp add: elapsed_def zero_result_def zero_time_def one_second_def iperf_time_diff_def
        iperf_time_compare_def iperf_time_in_secs_def Let_def)
  have bits: "bits_so_far ?sp = 800" by (simp add: bits_so_far_def)
  have d: "test_done ?t = 0" by (simp add: sample_client_def default_simps)
  obtain sp' w' where r: "iperf_check_throttle ?t ?sp one_second (sample_world []) = Some (sp', w')" "green_light sp' = 1"
    using el d by (simp add: iperf_check_throttle_def elapsed_def fdiv_def double_to_u64_def Let_def)
  from pacing_keeps_the_rate [OF r(1)] r d el bits show ?thesis
    by (simp add: s64_max_def sample_world_def)
qed

text \<open>C33: the ring of the server's bitrate limit is the history of the last n intervals:
  after every interval the check keeps the ring in step with the history, and it stops the test
  exactly when n intervals have passed and their average is above the limit.\<close>

theorem rate_limit_ring:
  assumes "ring_inv n hs t" "test_done t = 0" "bitrate_limit (settings t) \<noteq> 0"
    and "1 \<le> stats_interval t * real n" "Suc (length hs) < 18446744073709551615"
  shows "\<exists>t'. iperf_check_total_rate t x = Some t' \<and> ring_inv n (x # hs) t'
    \<and> bitrate_limit_exceeded t' =
        (if n \<le> length (x # hs) \<and> \<lfloor>average t n (x # hs)\<rfloor> > uint (bitrate_limit (settings t))
         then 1 else bitrate_limit_exceeded t)"
  by (rule iperf_check_total_rate_ok [OF assms])

lemma rate_limit_ring_witness:
  "\<exists>t'. iperf_check_total_rate (sample_server\<lparr>settings := (settings sample_server)\<lparr>bitrate_limit := 100,
        bitrate_limit_stats_per_interval := 5\<rparr>\<rparr>) 1000 = Some t' \<and> bitrate_limit_exceeded t' = 0"
proof -
  let ?t = "sample_server\<lparr>settings := (settings sample_server)\<lparr>bitrate_limit := 100,
        bitrate_limit_stats_per_interval := 5\<rparr>\<rparr>"
  have "ring_inv 5 [] ?t" by (simp add: ring_inv_def sample_server_def default_simps)
  moreover have "test_done ?t = 0" "stats_interval ?t = 1" "bitrate_limit_exceeded ?t = 0"
    by (simp_all add: sample_server_def default_simps)
  ultimately show ?thesis using rate_limit_ring [of 5 "[]" ?t 1000] by auto
qed

text \<open>C37: the report of an interval covers the time from the end of the previous report to
  its own clock reading, carries the bytes counted since, and starts the next interval from zero
  without touching the totals.\<close>

theorem interval_report:
  assumes "stats_stream rd t temp sp = (temp', sp')"
  shows "bytes_transferred temp' = (if sender sp \<noteq> 0 then bytes_sent_this_interval (result sp)
           else bytes_received_this_interval (result sp))
    \<and> interval_start_time temp' = (if interval_results (result sp) = [] then start_time (result sp)
           else end_time (result sp))
    \<and> interval_end_time temp' = clock_at rd sp \<and> end_time (result sp') = clock_at rd sp
    \<and> bytes_sent_this_interval (result sp') = 0 \<and> bytes_received_this_interval (result sp') = 0
    \<and> bytes_sent (result sp') = bytes_sent (result sp)
    \<and> bytes_received (result sp') = bytes_received (result sp)"
  using stats_stream_report [OF assms] by blast

definition sample_interval :: iperf_interval_results where
  "sample_interval = \<lparr>bytes_transferred = 0, interval_start_time = zero_time, interval_end_time = zero_time,
     interval_duration = 0, interval_packet_count = 0, interval_outoforder_packets = 0, interval_cnt_error = 0,
     ir_packet_count = 0, ir_jitter = 0, ir_outoforder_packets = 0, ir_cnt_error = 0, omitted = 0,
     tcpInfo = zero_tcp_info, interval_retrans = 0, snd_cwnd = 0, snd_wnd = 0, rtt = 0, rttvar = 0, pmtu = 0,
     reorder = 0\<rparr>"

definition sample_readings :: readings where
  "sample_readings = \<lparr>clock_at = (\<lambda>_. one_second), tcp_at = (\<lambda>_. zero_tcp_info\<lparr>tcpi_total_retrans := 7\<rparr>),
     sctp_at = (\<lambda>_. None), junk = sample_interval\<rparr>"

lemma interval_report_witness:
  "\<exists>temp' sp'. stats_stream sample_readings sample_client sample_interval
      (zero_stream\<lparr>sender := 1, result := zero_result\<lparr>bytes_sent_this_interval := 1000\<rparr>\<rparr>) = (temp', sp')
    \<and> bytes_transferred temp' = 1000 \<and> bytes_sent_this_interval (result sp') = 0"
proof -
  let ?sp = "zero_stream\<lparr>sender := 1, result := zero_result\<lparr>bytes_sent_this_interval := 1000\<rparr>\<rparr>"
  obtain temp' sp' where r: "stats_stream sample_readings sample_client sample_interval ?sp = (temp', sp')"
    by (cases "stats_stream sample_readings sample_client sample_interval ?sp")
  from interval_report [OF r] r show ?thesis by simp
qed

text \<open>The retransmissions of a TCP sender add up: an interval reports what the
  kernel's total grew by, and the stream's own total grows by the same amount.\<close>

theorem interval_retransmits:
  assumes "stats_stream rd t temp sp = (temp', sp')" "protocol t = Ptcp" "sender_has_retransmits t = 1"
  shows "stream_retrans (result sp') - stream_retrans (result sp)
      = tcpi_total_retrans (tcp_at rd sp) - stream_prev_total_retrans (result sp)
    \<and> stream_prev_total_retrans (result sp') = tcpi_total_retrans (tcp_at rd sp)
    \<and> interval_retrans temp' = stream_retrans (result sp') - stream_retrans (result sp)"
  using stats_stream_retrans [OF assms] by blast

lemma interval_retransmits_witness:
  "\<exists>temp' sp'. stats_stream sample_readings sample_client sample_interval
      (zero_stream\<lparr>sender := 1, result := zero_result\<lparr>stream_prev_total_retrans := 3\<rparr>\<rparr>) = (temp', sp')
    \<and> interval_retrans temp' = 4"
proof -
  let ?sp = "zero_stream\<lparr>sender := 1, result := zero_result\<lparr>stream_prev_total_retrans := 3\<rparr>\<rparr>"
  obtain temp' sp' where r: "stats_stream sample_readings sample_client sample_interval ?sp = (temp', sp')"
    by (cases "stats_stream sample_readings sample_client sample_interval ?sp")
  have s: "sender_has_retransmits sample_client = 1"
    by (simp add: sample_client_def default_simps has_tcpinfo_retransmits_def)
  from interval_retransmits [OF r sample_client_ok(4) s] r show ?thesis
    by (simp add: sample_readings_def zero_result_def)
qed

section \<open>Smaller components\<close>



text \<open>C39: every operation of timer.c on a timer of the list keeps the two lists of timers:
  the active one doubly linked and sorted by expiry, the released one singly linked, no block in both
  and none lost; tmr_destroy gives all of them back.\<close>

theorem timer_list_kept:
  assumes inv: "timers_inv s as fs"
  shows "(a \<in> set as \<longrightarrow> (\<exists>s'. tmr_cancel a s = Some s' \<and> timers_inv s' (remove1 a as) (a # fs)))
    \<and> (a \<in> set as \<longrightarrow> (\<exists>s'. tmr_reset nowP clock a s = Some s'
          \<and> timers_inv s' (tinsert (tm s') a (remove1 a as)) fs
          \<and> tm s' a = iperf_time_add_usecs (getnow nowP clock) (per s a)))
    \<and> (cells s b = None \<longrightarrow> (\<exists>c s' fs'. tmr_create (Some now) now p cd us rep (Some (b, blk)) s = Some (Some c, s')
          \<and> c \<notin> set as \<and> timers_inv s' (tinsert (tm s') c as) fs'))
    \<and> tmr_destroy s = Some no_timers"
proof (intro conjI impI)
  assume a: "a \<in> set as"
  show "\<exists>s'. tmr_cancel a s = Some s' \<and> timers_inv s' (remove1 a as) (a # fs)"
    using tmr_cancel_ok [OF inv a] by metis
  show "\<exists>s'. tmr_reset nowP clock a s = Some s' \<and> timers_inv s' (tinsert (tm s') a (remove1 a as)) fs
      \<and> tm s' a = iperf_time_add_usecs (getnow nowP clock) (per s a)"
  proof -
    obtain s' where "tmr_reset nowP clock a s = Some s'" "timers_inv s' (tinsert (tm s') a (remove1 a as)) fs"
      "retimed a (iperf_time_add_usecs (getnow nowP clock) (per s a)) s s'" using tmr_reset_ok [OF inv a] .
    then show ?thesis by (intro exI [of _ s']) (simp add: retimed_def)
  qed
next
  assume "cells s b = None"
  then have fr: "\<And>a j. Some (b, blk) = Some (a, j) \<Longrightarrow> cells s a = None" by auto
  show "\<exists>c s' fs'. tmr_create (Some now) now p cd us rep (Some (b, blk)) s = Some (Some c, s')
      \<and> c \<notin> set as \<and> timers_inv s' (tinsert (tm s') c as) fs'"
    by (rule tmr_create_ok [OF inv fr, where now = now and p = p and cd = cd and us = us and b = rep]) blast+
next
  show "tmr_destroy s = Some no_timers" by (rule tmr_destroy_ok [OF inv])
qed

lemma timer_list_kept_witness:
  "\<exists>(s :: timer_name tstore) s'. timers_inv s [1] [] \<and> tmr_cancel 1 s = Some s' \<and> timers_inv s' [] [1]
     \<and> tmr_destroy s = Some no_timers"
proof -
  obtain s where s: "timers_inv s [1] []" "active s [1] = [1 \<mapsto> (Test_timer, 0, 1000000, False)]"
    by (rule sample_store)
  from timer_list_kept [OF s(1), of 1] s(1) show ?thesis by auto
qed

text \<open>tmr_timeout tells select to wait until the first timer expires, in seconds and
  microseconds, not at all when it is past, and for ever when there is none.\<close>

theorem next_expiry:
  assumes "timers_inv s as fs" "wf_time now" "\<forall>a\<in>set as. wf_time (tm s a)"
  shows "tmr_timeout (Some now) clock s = Some (case as of [] \<Rightarrow> None
    | t # _ \<Rightarrow> Some (int (Min ((\<lambda>a. time_us (tm s a)) ` set as) - time_us now) div 1000000,
                   int (Min ((\<lambda>a. time_us (tm s a)) ` set as) - time_us now) mod 1000000))"
proof (cases as)
  case Nil
  with assms(1) show ?thesis by (simp add: tmr_timeout_idle)
next
  case (Cons t ts)
  have "sorted (map (tm s) (t # ts))" using assms(1) Cons by (simp add: timers_inv_def)
  then have "\<forall>a\<in>set ts. tm s t \<le> tm s a" by simp
  with assms(3) Cons have "\<forall>a\<in>set ts. time_us (tm s t) \<le> time_us (tm s a)" by (simp add: time_le_us)
  then have "Min ((\<lambda>a. time_us (tm s a)) ` set as) = time_us (tm s t)"
    using Cons by (intro Min_eqI) auto
  with tmr_timeout_next [OF assms(1) [unfolded Cons], of "Some now" clock] assms Cons show ?thesis
    by (simp add: getnow_def Let_def)
qed

lemma next_expiry_witness:
  "\<exists>s :: timer_name tstore. timers_inv s [1] [] \<and> tmr_timeout (Some zero_time) zero_time s = Some (Some (1, 0))"
proof -
  obtain s where s: "timers_inv s [1] []" "active s [1] = [1 \<mapsto> (Test_timer, 0, 1000000, False)]"
    "tm s 1 = one_second" by (rule sample_store)
  have w: "wf_time zero_time" "\<forall>a\<in>set [1]. wf_time (tm s a)"
    using s(3) by (simp_all add: zero_time_def one_second_def wf_time_def)
  from next_expiry [OF s(1) w] s(1,3) show ?thesis by (auto simp: one_second_def zero_time_def time_us_def)
qed

text \<open>On normalised times iperf_time_diff is the absolute difference in microseconds,
  normalised again, and its result tells the order; iperf_time_compare is a total order that agrees.\<close>

theorem time_arithmetic:
  assumes "wf_time s" "wf_time t"
  shows "int (time_us (snd (iperf_time_diff s t))) = \<bar>int (time_us s) - int (time_us t)\<bar>
    \<and> wf_time (snd (iperf_time_diff s t)) \<and> fst (iperf_time_diff s t) = (if time_us s \<le> time_us t then 1 else 0)
    \<and> iperf_time_compare s t = (if time_us s < time_us t then -1 else if time_us t < time_us s then 1 else 0)"
  using assms by (simp add: diff_us wf_diff diff_past compare_values time_le_us time_less_us)

lemma time_arithmetic_witness: "time_us (snd (iperf_time_diff one_second \<lparr>secs = 0, usecs = 999999\<rparr>)) = 1"
proof -
  let ?t = "\<lparr>secs = 0, usecs = 999999\<rparr>"
  have w: "wf_time one_second" "wf_time ?t" by (simp_all add: wf_time_def one_second_def)
  have u: "time_us one_second = 1000000" "time_us ?t = 999999" by (simp_all add: one_second_def time_us_def)
  from time_arithmetic [OF w] have "int (time_us (snd (iperf_time_diff one_second ?t))) = 1" unfolding u by simp
  then show ?thesis by linarith
qed

text \<open>C40: with an adaptive format, unit_snprintf chooses a unit in which the value has at
  most four digits before the point, unless it is already in the largest unit.\<close>

theorem scaled_value_fits:
  assumes "toupper f \<notin> {CHR ''B'', CHR ''K'', CHR ''M'', CHR ''G'', CHR ''T''}"
    and "unit_snprintf x f = (prec, y, label)" "0 \<le> x"
  shows "y < (if isupper f then 1024 else 1000) \<or> label \<in> {''TByte'', ''Tbit''}"
  by (rule unit_snprintf_adaptive [OF assms])

lemma scaled_value_fits_witness:
  "\<exists>prec y label. unit_snprintf 5000000 CHR ''a'' = (prec, y, label) \<and> (y < 1000 \<or> label \<in> {''TByte'', ''Tbit''})"
proof -
  obtain prec y label where r: "unit_snprintf 5000000 CHR ''a'' = (prec, y, label)"
    by (cases "unit_snprintf 5000000 CHR ''a''") auto
  have c: "toupper CHR ''a'' \<notin> {CHR ''B'', CHR ''K'', CHR ''M'', CHR ''G'', CHR ''T''}" "\<not> isupper CHR ''a''"
    by code_simp+
  from scaled_value_fits [OF c(1) r] c(2) r show ?thesis by simp
qed

text \<open>parse_qos either rejects its argument or yields a value that fits the DSCP bits of
  the TOS byte, with the two ECN bits clear.\<close>

theorem dscp_in_tos: "parse_qos cp = -1 \<or> (0 \<le> parse_qos cp \<and> parse_qos cp < 256 \<and> parse_qos cp mod 4 = 0)"
  by (rule parse_qos_cases)

section \<open>Divergences\<close>

text \<open>The name of most DSCP values is lost on the way back.\<close>

lemma dscp_name_lost: "parse_qos (Some ''ef'') = 184 \<and> iptos2str 184 = iptos2str 0"
  by code_simp

text \<open>A member that is false counts as a flag that is set.\<close>

lemma false_flag_passes:
  "iperf_cJSON_GetObjectItemType (JObject [(''reverse'', JBool False)]) ''reverse'' cJSON_True = Some (JBool False)"
  by (simp add: iperf_cJSON_GetObjectItemType_def cJSON_GetObjectItem_def strcaseeq_def)

text \<open>JSON_write reports success after a message that stops short of its frame.\<close>

lemma json_write_short:
  "\<exists>w'. JSON_write (\<lambda>_. Some [7, 8, 9]) 4 JNull (sample_world [Ret 4 [], Ret 1 [], Fail EAGAIN]) = Some (0, w')
     \<and> bytes_written 4 (events (sample_world [Ret 4 [], Ret 1 [], Fail EAGAIN]) w') = [0, 0, 0, 3, 7]"
  by (simp add: JSON_write_def run_defs write_error_def be32_def)

text \<open>Nwrite gives a soft error after it has written a part of the buffer.\<close>

lemma nwrite_uncounted:
  "\<exists>w'. Nwrite 4 [1, 2, 3] 3 1 (sample_world [Ret 2 [], Fail ENOBUFS]) = Some (NET_SOFTERROR, w')
     \<and> bytes_written 4 (events (sample_world [Ret 2 [], Fail ENOBUFS]) w') = [1, 2]"
  by (simp add: run_defs write_error_def)

text \<open>With more intervals than the ring has entries, the check runs past its end.\<close>

lemma rate_limit_overrun:
  "iperf_check_total_rate (sample_server\<lparr>settings := (settings sample_server)\<lparr>bitrate_limit := 100,
     bitrate_limit_stats_per_interval := 100\<rparr>, bitrate_limit_last_interval_index := 59\<rparr>) 1 = None"
  by (simp add: iperf_check_total_rate_def sample_server_def default_simps Let_def)

section \<open>The server and the client\<close>

text \<open>A toy in the place of OpenSSL.\<close>

definition sample_crypto :: crypto where
  "sample_crypto = \<lparr>rsa_encrypt = (\<lambda>_ _ s. map of_char s), rsa_decrypt = (\<lambda>_ _ bs. map (\<lambda>b. char_of (unat b)) bs),
     Base64Encode = map (\<lambda>b. char_of (unat b)), Base64Decode = map of_char, SHA256 = (\<lambda>_. [171])\<rparr>"

definition sample_host :: host where
  "sample_host = \<lparr>conn = \<lparr>bindx_mem = True, quic_library = \<lparr>is_ipv4 = (\<lambda>_. False), is_ipv6 = (\<lambda>_. False), p12_blob = (\<lambda>_. None)\<rparr>\<rparr>,
     strm = (\<lambda>_. \<lparr>stream_mem = True, result_mem = True\<rparr>),
     print_json = (\<lambda>_. None), parse_json = (\<lambda>_. None), top_json = JNull,
     openssl = sample_crypto, utc = 1700000000, users_file = (\<lambda>_. Some (users_text [(''mary'', ''ab'')])),
     sched_setaffinity = (\<lambda>_. 0), log_open = 0, json_start = 0, json_finish = 0,
     procs = \<lparr>stats_rd = sample_readings, reset_now = zero_time, cpu_now = []\<rparr>, mallocs_for = sample_mallocs\<rparr>"

text \<open>C12: a server that has a client leaves the test untouched when another one comes. It
  accepts the connection, writes at most the byte ACCESS_DENIED to it and closes it; only a failing
  accept is reported to the caller.\<close>

theorem busy_server_denies:
  assumes "ctrl_sck t \<noteq> -1" "iperf_accept h t w = Some (r, t', w')"
  shows "t' = t \<and> (r = 0 \<and> fds w' = fds w
        \<and> (\<exists>s es k. s \<notin> fds w \<and> events w w' = EvOpen s # es @ [EvClose s]
            \<and> (\<forall>e\<in>set es. \<exists>b. e = EvWrite s b) \<and> bytes_written s es = take k [state_byte ACCESS_DENIED])
      \<or> r = -1 \<and> events w w' = [])"
  using accept_busy [OF assms]
  by (auto simp: turned_away_def held_def list_all_iff state_byte_denied)

lemma busy_server_denies_witness:
  "\<exists>w'. iperf_accept sample_host (sample_server\<lparr>ctrl_sck := 5\<rparr>) (sample_world [Ret 7 [], Ret 1 []]) = Some (0, sample_server\<lparr>ctrl_sck := 5\<rparr>, w')
     \<and> fds w' = {}"
proof -
  let ?w = "sample_world [Ret 7 [], Ret 1 []]" and ?t = "sample_server\<lparr>ctrl_sck := 5\<rparr>"
  obtain w' where r: "iperf_accept sample_host ?t ?w = Some (0, ?t, w')"
    by (simp add: iperf_accept_def deny_client_def run_defs new_fd_def fds_def)
  moreover have "fds ?w = {}" by (simp add: sample_world_def fds_def)
  ultimately show ?thesis using busy_server_denies [OF _ r] by auto
qed




lemma server_fields: "ctrl_sck sample_server = -1" "streams sample_server = []" "affinity sample_server = -1"
  "json_output sample_server = 0" "logfile sample_server = None" "summary_printed sample_server = 0"
  "bind_address sample_server = None" "bind_dev sample_server = None"
  "mode sample_server = RECEIVER" "protocol sample_server = Ptcp" "server_affinity sample_server = -1"
  "prot_listener sample_server = -1" "timer sample_server = None"
  "stats_timer sample_server = None" "reporter_timer sample_server = None" "omit_timer sample_server = None" "test_bytes_sent sample_server = 0"
  "test_bytes_received sample_server = 0" "blocks_sent sample_server = 0" "blocks_received sample_server = 0"
  "domain (settings sample_server) = 0" "idle_timeout (settings sample_server) = 0"
  "server_last_run_rc sample_server = 0" "bitrate_limit_exceeded sample_server = 0"
  "rcv_timeout (settings sample_server) = \<lparr>secs = 120, usecs = 0\<rparr>"
  by (simp_all add: sample_server_def default_simps)

lemma zero_clock: "clock_gettime_helper t (Some (0, 0)) = (zero_time, 0)"
  by (simp add: clock_gettime_helper_def zero_time_def)

lemmas run_server_defs = run_defs early_summary_def iperf_server_listen_def announce_control_def netannounce_def
  announce_opts_def announce_bind_def sys_getaddrinfo_def freeaddrinfo_def close_free_def upd_settings_def
  server_turn_def server_timeout_def select_sets_def ready_def fd_set_def server_fails_def server_fails_with_def
  cleanup_server_def late_summary_def cleanup_sockets_def cancel_handle_def handle_of_def close_fd_def new_fd_def fds_def
  zero_clock run_workers_def tmr_timeout_def no_timers_def


text \<open>C7: the server takes a TCP connection for a stream of the test only when the 37
  bytes it read from it are the cookie of the test; any other connection is closed again, and the test
  stays as it is.\<close>

theorem stream_needs_cookie:
  assumes "iperf_tcp_accept t w = Some (s, t', w')" "wf_cookie (cookie t)"
  shows "t' = t \<and> (0 \<le> s \<longrightarrow> s \<notin> fds w
    \<and> fds w' = (if padded (bytes_read s (events w w')) = cookie t then insert s (fds w) else fds w))
    \<and> (s < 0 \<longrightarrow> fds w' = fds w)"
proof -
  have "post (iperf_tcp_accept t w) (\<lambda>(s, t', w'). s < 0 \<longrightarrow> fds w' = fds w)"
    by (rule held_tcp_accept [OF held_start]) (auto simp: held_def)
  from postD [OF this assms(1)] postD [OF tcp_accept_cookie [OF assms(2)] assms(1)] show ?thesis by auto
qed

definition sample_cookie :: "u8 list" where "sample_cookie = replicate 36 97 @ [0]"

lemma sample_cookie_ok: "wf_cookie sample_cookie"
proof -
  have "97 \<in> set rndchars" unfolding rndchars_def by code_simp
  then show ?thesis by (simp add: wf_cookie_def sample_cookie_def)
qed

lemma stream_needs_cookie_witness:
  "\<exists>w'. iperf_tcp_accept (sample_server\<lparr>cookie := sample_cookie\<rparr>) (sample_world [Ret 7 [], Ret 1 [], Ret 0 sample_cookie])
     = Some (7, sample_server\<lparr>cookie := sample_cookie\<rparr>, w') \<and> fds w' = {7}"
proof -
  let ?t = "sample_server\<lparr>cookie := sample_cookie\<rparr>" and ?w = "sample_world [Ret 7 [], Ret 1 [], Ret 0 sample_cookie]"
  have l: "length sample_cookie = 37" by (simp add: sample_cookie_def)
  have z: "fqrate (settings sample_server) = 0" by (simp add: sample_server_def default_simps)
  have c: "padded sample_cookie = sample_cookie" using l by (simp add: padded_def)
  obtain w' where r: "iperf_tcp_accept ?t ?w = Some (7, ?t, w')" "bytes_read 7 (events ?w w') = sample_cookie"
    by (simp add: iperf_tcp_accept_def set_pacing_def run_defs new_fd_def fds_def l z c)
  have "fds ?w = {}" by (simp add: sample_world_def fds_def)
  with stream_needs_cookie [OF r(1)] r sample_cookie_ok c show ?thesis by simp
qed







text \<open>C10: the error a server reports is the error the client fails with. When
  the server has written its report in full, and the client has read all of it and nothing else, the
  client takes over the error code of the server, fails, and is otherwise unchanged.\<close>

theorem server_error_reaches_client:
  assumes "send_server_error ie t w = Some (r, t', w')" "0 \<le> ctrl_sck t"
    and "length (bytes_written (ctrl_sck t) (events w w')) = 9"
    and "iperf_handle_message_client h ((c, v), s) = Some (q, ((c', v'), s'))"
    and "sys_read (ctrl_sck c) 1 v = Some (1, [state_byte SERVER_ERROR], v1)"
    and "bytes_read (ctrl_sck c) (events v v') = bytes_written (ctrl_sck t) (events w w')"
    and "i32 (case ie of None \<Rightarrow> i_errno w | Some e \<Rightarrow> e)"
  shows "r = -1 \<and> q = -1 \<and> c' = c\<lparr>state := SERVER_ERROR\<rparr>
    \<and> i_errno v' = (case ie of None \<Rightarrow> i_errno w | Some e \<Rightarrow> e)"
proof -
  let ?e = "case ie of None \<Rightarrow> i_errno w | Some e \<Rightarrow> e"
  from postD [OF server_error_writes [OF assms(2)] assms(1)] obtain n i j k where
    s: "bytes_written (ctrl_sck t) (events w w') = take i [state_byte SERVER_ERROR] @ take j (be32 (word_of_int ?e)) @ take k (be32 n)"
    by (auto simp: has_sent_def)
  from nine_bytes [OF assms(3) [unfolded s]]
  have "bytes_read (ctrl_sck c) (events v v') = state_byte SERVER_ERROR # be32 (word_of_int ?e) @ be32 n"
    using assms(6) s by simp
  from client_reads_report [OF assms(4,5) this] server_error_fails [OF assms(1)] assms(7)
  show ?thesis by (simp add: sint_i32)
qed

lemma server_error_reaches_client_witness:
  "\<exists>t' w' c' v' s'. send_server_error (Some IEAUTHTEST) (sample_server\<lparr>ctrl_sck := 5\<rparr>) (sample_world [Ret 1 [], Ret 4 [], Ret 4 []]) = Some (-1, t', w')
     \<and> iperf_handle_message_client sample_host ((sample_client\<lparr>ctrl_sck := 3\<rparr>,
         sample_world [Ret 0 [254], Ret 1 [], Ret 0 (be32 (word_of_int IEAUTHTEST)), Ret 1 [], Ret 0 (be32 0)]), no_timers) = Some (-1, ((c', v'), s'))
     \<and> i_errno v' = IEAUTHTEST"
proof -
  let ?w = "sample_world [Ret 1 [], Ret 4 [], Ret 4 []]" and ?t = "sample_server\<lparr>ctrl_sck := 5\<rparr>" and ?c = "sample_client\<lparr>ctrl_sck := 3\<rparr>"
  let ?v = "sample_world [Ret 0 [254], Ret 1 [], Ret 0 (be32 (word_of_int IEAUTHTEST)), Ret 1 [], Ret 0 (be32 0)]"
  have b: "state_byte SERVER_ERROR = 254" "byte_state 254 = SERVER_ERROR" by (simp_all add: state_byte_def byte_state_def)
  obtain t' w' where 1: "send_server_error (Some IEAUTHTEST) ?t ?w = Some (-1, t', w')"
    "bytes_written 5 (events ?w w') = 254 # be32 (word_of_int IEAUTHTEST) @ be32 0"
    by (simp add: send_server_error_def iperf_set_send_state_def run_defs be32_def b)
  obtain c' v' s' where 2: "iperf_handle_message_client sample_host ((?c, ?v), no_timers) = Some (-1, ((c', v'), s'))"
    "bytes_read 3 (events ?v v') = 254 # be32 (word_of_int IEAUTHTEST) @ be32 0"
    by (simp add: iperf_handle_message_client_def client_message_def on_sys_def read_server_error_def run_defs be32_def b)
  obtain v1 where 3: "sys_read 3 1 ?v = Some (1, [254], v1)" by (simp add: run_defs)
  have l: "length (bytes_written 5 (events ?w w')) = 9" unfolding 1(2) by (simp add: be32_def)
  from server_error_reaches_client [OF 1(1) _ _ 2(1), of v1] 1 2 3 l b show ?thesis by (auto simp: i32_def)
qed

text \<open>C3: a turn of the server's main loop that goes on, after any rounds of the worker
  threads, takes the steps of turn_next on whether there is a client and on the protocol state. So
  streams are awaited only once a client has been accepted with its parameters, a test runs only
  after streams were awaited, and a message of the client alone never makes it run.\<close>

theorem server_follows_protocol:
  assumes "run_workers e is v ((t, w), s) = Some (v1, a1)"
    and "server_turn e rt v1 a1 = Some (Next, v', ((t', w'), s'))"
  shows "(ctrl_sck t' \<noteq> -1, state t') \<in> set (turn_next (ctrl_sck t \<noteq> -1, state t))
    \<and> (state t' = CREATE_STREAMS \<longrightarrow> state t = CREATE_STREAMS \<or> ctrl_sck t = -1)
    \<and> (state t' = TEST_RUNNING \<longrightarrow> state t \<in> {TEST_RUNNING, CREATE_STREAMS} \<or> ctrl_sck t = -1)"
proof -
  obtain t1 w1 s1 where a: "a1 = ((t1, w1), s1)" by (cases a1) auto
  have "post (run_workers e is v ((t, w), s)) (\<lambda>(v, a). keeps_phase t (fst (fst a)))"
    unfolding run_workers_def by (auto intro!: phase_workers [OF keeps_refl])
  from postD [OF this assms(1)] have "keeps_phase t t1" by (simp add: a)
  with postD [OF server_turn_moves assms(2) [unfolded a]]
  have "phase_of t' \<in> set (turn_next (phase_of t))" by (simp add: phase_keeps)
  from turn_to [OF this [unfolded phase_of_def]] this show ?thesis
    by (simp add: phase_of_def)
qed


definition sample_vars :: server_vars where
  "sample_vars = \<lparr>now_time = zero_time, last_receive_time = zero_time, last_receive_blocks = 0, gone = [],
     send_streams_accepted = 0, rec_streams_accepted = 0, streams_to_send = 0, streams_to_rec = 0, flag = None\<rparr>"


lemma server_follows_protocol_witness:
  "\<exists>v t' w'. server_turn sample_host 1 sample_vars ((sample_server\<lparr>ctrl_sck := 5, listener := 4, state := TEST_RUNNING, read_set := [4, 5]\<rparr>,
       (sample_world [Ret 0 [], Ret 2 [0], Ret 1 [], Ret 0 [], Ret 0 []])\<lparr>trace := [EvOpen 4, EvOpen 5]\<rparr>), no_timers)
     = Some (Next, v, ((t', w'), no_timers)) \<and> (ctrl_sck t' \<noteq> -1, state t') \<in> set (turn_next (True, TEST_RUNNING))"
proof -
  let ?t = "sample_server\<lparr>ctrl_sck := 5, listener := 4, state := TEST_RUNNING, read_set := [4, 5]\<rparr>"
  let ?w = "(sample_world [Ret 0 [], Ret 2 [0], Ret 1 [], Ret 0 [], Ret 0 []])\<lparr>trace := [EvOpen 4, EvOpen 5]\<rparr>"
  have ws: "write_set sample_server = []" by (simp add: sample_server_def default_simps)
  obtain v t' w' where r: "server_turn sample_host 1 sample_vars ((?t, ?w), no_timers) = Some (Next, v, ((t', w'), no_timers))"
    by (simp add: run_server_defs server_fields ws server_ready_def server_listener_def iperf_handle_message_server_def
        server_streams_def run_timers_def tmr_run_def tmr_run_from.simps note_progress_def sample_vars_def fd_isset_def
        receive_timeout_def rcv_timeout_usecs_def)
  have "run_workers sample_host [] sample_vars ((?t, ?w), no_timers) = Some (sample_vars, ((?t, ?w), no_timers))"
    by (simp add: run_workers_def sample_vars_def)
  from server_follows_protocol [OF this r] r show ?thesis by auto
qed






text \<open>C9: from the client's credentials to the server's decision. A token made from a
  user name and a password of one word each, under a key that belongs to the server's, is accepted
  exactly when the clocks differ by no more than the threshold and the file of the users lists the
  name with the hash of name and password.\<close>

theorem authorization_by_table:
  assumes "encode_auth_setting (openssl h) sent_at user passwd public_key (use_pkcs1_padding t) = Some token"
    and "authtoken (settings t) = Some token"
    and "server_rsa_private_key t = Some private_key" "server_authorized_users t = Some path"
    and "users_file h path = Some (users_text es)" "\<forall>e\<in>set es. entry e" "0 \<le> server_skew_threshold t"
    and "one_word user" "one_word passwd" "s64_min \<le> sent_at" "sent_at \<le> s64_max"
    and "\<And>x. Base64Decode (openssl h) (Base64Encode (openssl h) x) = x"
    and "rsa_decrypt (openssl h) private_key (use_pkcs1_padding t) (rsa_encrypt (openssl h) public_key (use_pkcs1_padding t)
           (auth_text user passwd sent_at)) = auth_text user passwd sent_at"
  shows "test_is_authorized h t =
    Some (if \<bar>utc h - sent_at\<bar> \<le> server_skew_threshold t
             \<and> (user, sha256 (openssl h) (''{'' @ user @ ''}'' @ passwd)) \<in> set es then 0 else -1)"
proof -
  have "decode_auth_setting (openssl h) token private_key (use_pkcs1_padding t) = Some (user, passwd, sent_at)"
    using decode_encode [OF assms(8-12), of private_key "use_pkcs1_padding t" public_key] assms(1,13) by auto
  with assms(2-5) check_authentication_table [OF assms(6,7)] show ?thesis
    by (simp add: test_is_authorized_def)
qed

definition sample_authorized :: "string \<Rightarrow> iperf_test" where
  "sample_authorized token = upd_settings (\<lambda>x. x\<lparr>authtoken := Some token\<rparr>)
     (sample_server\<lparr>server_rsa_private_key := Some ''k'', server_authorized_users := Some ''u'', server_skew_threshold := 10\<rparr>)"

lemma authorization_by_table_witness:
  "\<exists>token. encode_auth_setting sample_crypto 1699999995 ''mary'' ''secret'' ''k'' 0 = Some token
     \<and> test_is_authorized sample_host (sample_authorized token) = Some 0"
proof -
  let ?c = "openssl sample_host"
  obtain token where e: "encode_auth_setting ?c 1699999995 ''mary'' ''secret'' ''k'' 0 = Some token"
    by (simp add: encode_auth_setting_def)
  let ?t = "sample_authorized token"
  have f: "authtoken (settings ?t) = Some token" "server_rsa_private_key ?t = Some ''k''" "server_authorized_users ?t = Some ''u''"
    "use_pkcs1_padding ?t = 0" "server_skew_threshold ?t = 10"
    by (simp_all add: sample_authorized_def upd_settings_def sample_server_def default_simps)
  have h: "?c = sample_crypto" "utc sample_host = 1700000000" "users_file sample_host ''u'' = Some (users_text [(''mary'', ''ab'')])"
    by (simp_all add: sample_host_def)
  have w: "one_word ''mary''" "one_word ''secret''" "\<forall>e\<in>set [(''mary'', ''ab'')]. entry e"
    by (simp_all add: one_word_def isspace_def code_def entry_def field_def)
  have k: "sha256 sample_crypto s = ''ab''" for s by (simp add: sha256_def sample_crypto_def hex_digit_def char_of_def bit_0)
  have b: "Base64Decode ?c (Base64Encode ?c x) = x" for x
    by (simp add: h sample_crypto_def o_def byte_char)
  have r: "rsa_decrypt ?c ''k'' 0 (rsa_encrypt ?c ''k'' 0 s) = s" for s
    by (simp add: h sample_crypto_def o_def char_byte)
  from authorization_by_table [OF _ f(1,2,3) h(3) w(3), of 1699999995 "''mary''" "''secret''" "''k''"] e f w b r
  have "test_is_authorized sample_host ?t = Some 0" by (simp add: h k s64_min_def s64_max_def)
  with e show ?thesis by (auto simp: h)
qed


section \<open>The numbers of the summary\<close>

text \<open>CC34. In the JSON of a finished test (iperf_print_results with -J) each pass over
  the streams, those that send or those that receive, leaves its sums under names of its own: sum_sent and
  sum_received, with _bidir_reverse added for the data from the server to the client in a bidirectional
  test. The bytes of sum_sent are the sum, wrapping at 64 bits, of the bytes the streams of the pass sent after the omit
  period, those of sum_received the sum of what they received; the rates are these bytes over the time of
  the sender and that of the receiver, times eight, and zero when no time passed. The report of every
  stream shows the bytes that were summed. The claim leaves out QUIC, whose server replaces missing counts
  of the sender.\<close>
theorem summary_adds_up:
  assumes "results_report fstat t = Some ms" "protocol t \<noteq> Pquic" "m \<in> set (passes t)"
  shows "(let of_pass = (\<lambda>m. filter (\<lambda>sp. sender sp = (if m then 1 else 0)) (streams t));
              sent = (\<Sum>sp\<leftarrow>of_pass m. bytes_sent (result sp) - bytes_sent_omit (result sp));
              received = (\<Sum>sp\<leftarrow>of_pass m. bytes_received (result sp));
              (_, secs_sent, secs_received) = report_times t;
              name = (\<lambda>n. if mode t = BIDIRECTIONAL \<and> (m \<longleftrightarrow> role t \<noteq> CHR ''c'') then n @ ''_bidir_reverse'' else n)
          in json_at [name ''sum_sent'', ''bytes''] (JObject ms) = Some (JNumber (of_int (sint sent)))
           \<and> json_at [name ''sum_received'', ''bytes''] (JObject ms) = Some (JNumber (of_int (sint received)))
           \<and> json_at [name ''sum_sent'', ''bits_per_second''] (JObject ms)
               = Some (JNumber ((if secs_sent > 0 then real (unat sent) / secs_sent else 0) * 8))
           \<and> json_at [name ''sum_received'', ''bits_per_second''] (JObject ms)
               = Some (JNumber ((if secs_received > 0 then real (unat received) / secs_received else 0) * 8))
           \<and> (\<exists>js. json_at [''streams''] (JObject ms) = Some (JArray js)
               \<and> map (json_at [if stream_protocol t then ''sender'' else ''udp'', ''bytes'']) js
                 = map (\<lambda>sp. Some (JNumber (of_int (sint (bytes_sent (result sp) - bytes_sent_omit (result sp))))))
                     (concat (map of_pass (passes t)))))"
proof -
  obtain e s r where times: "report_times t = (e, s, r)" by (cases "report_times t")
  with assms(1) obtain js totals where p: "summary_passes fstat t e s r (passes t) = Some (js, totals)"
    and ms: "ms = (''streams'', JArray js) # totals @ member ''cpu_utilization_percent'' (cpu_report t) @ congestion_report t"
    by (auto simp: results_report_def bind_eq_Some_conv)
  have skip: "json_at (reverse_name t m n # ks) (JObject ((''streams'', j) # xs)) = json_at (reverse_name t m n # ks) (JObject xs)"
    if "n = ''sum_sent'' \<or> n = ''sum_received''" for n ks j xs
    using that by (auto simp: reverse_name_def)
  have name: "reverse_name t m = (\<lambda>n. if mode t = BIDIRECTIONAL \<and> (m \<longleftrightarrow> role t \<noteq> CHR ''c'') then n @ ''_bidir_reverse'' else n)"
    by (auto simp: reverse_name_def)
  have "pass_sums t s r m ms"
    unfolding ms using passes_sums(1) [OF assms(2) p assms(3)] by (simp add: pass_sums_def skip del: json_at.simps)
  moreover have "json_at [''streams''] (JObject ms) = Some (JArray js)" unfolding ms by simp
  ultimately show ?thesis
    using passes_sums(2) [OF assms(2) p assms(3)]
    unfolding times Let_def pass_sums_def stream_sent_def bytes_json_def rate_of_def sent_key_def in_pass_def name prod.case
    by blast
qed

text \<open>Two streams from a client, 1000 and 2000 bytes, 500 of the first while omitting, in two seconds.\<close>

definition summed_stream :: "u64 \<Rightarrow> u64 \<Rightarrow> iperf_stream" where
  "summed_stream n omit_n = zero_stream\<lparr>sender := 1, diskfile_fd := -1, result := zero_result\<lparr>bytes_sent := n, bytes_sent_omit := omit_n,
     bytes_received := 900, sender_time := 2, receiver_time := 3\<rparr>\<rparr>"

definition summed_test :: iperf_test where
  "summed_test = sample_client\<lparr>mode := SENDER, streams := [summed_stream 1000 500, summed_stream 2000 0]\<rparr>"

lemma summary_adds_up_witness:
  "\<exists>ms. results_report (\<lambda>_. None) summed_test = Some ms
     \<and> json_at [''sum_sent'', ''bytes''] (JObject ms) = Some (JNumber 2500)
     \<and> json_at [''sum_sent'', ''bits_per_second''] (JObject ms) = Some (JNumber 10000)
     \<and> json_at [''sum_received'', ''bits_per_second''] (JObject ms) = Some (JNumber 4800)"
proof -
  have f: "protocol summed_test = Ptcp" "mode summed_test = SENDER" "passes summed_test = [True]"
    "streams summed_test = [summed_stream 1000 500, summed_stream 2000 0]"
    by (simp_all add: summed_test_def sample_client_def passes_def default_simps)
  have r: "fst (snd (report_times summed_test)) = 2" "snd (snd (report_times summed_test)) = 3"
    by (simp_all add: report_times_def f summed_stream_def)
  have "stream_protocol summed_test" by (simp add: stream_protocol_def f)
  then obtain ms where ms: "results_report (\<lambda>_. None) summed_test = Some ms"
    using results_report_defined by blast
  from summary_adds_up [OF ms, of True] show ?thesis
    using ms r by (auto simp: f Let_def summed_stream_def split: prod.splits)
qed


section \<open>QUIC\<close>

text \<open>C29. Over any number of calls of iperf_quic_recv for one stream, what the calls put into the
  buffer is, one after the other, the start of the bytes that waited in the queue of the stream and of those
  msquic delivered for it in the meantime: none is lost, none comes twice, none out of order, and the rest
  still waits. While the test runs they are counted once. Memory suffices, the context belongs to the stream,
  and the handle of the stream is not given to another one.\<close>

theorem quic_bytes_in_order:
  assumes "reads h a waiting w" "stream_ctx sp = Some a" "Peer_stream_started h \<notin> set (concat (coming_events (quic_mem w)))"
    and "recv_run n t sp w = Some (got, sp', t', w')"
  shows "\<exists>es rest. coming_events (quic_mem w) = es @ coming_events (quic_mem w')
    \<and> got @ rest = waiting @ concat (map (delivered h) (concat es)) \<and> reads h a rest w' \<and> t' = t
    \<and> (state t = TEST_RUNNING \<longrightarrow> bytes_received (result sp') = bytes_received (result sp) + word_of_int (int (length got)))"
  by (rule recv_run_history [OF assms])

definition quic_reading :: world where
  "quic_reading = (sample_world [Ret 0 [], Ret 0 [], Ret 0 [], Ret 0 []])\<lparr>quic_mem := no_quic\<lparr>next_ctx := 1,
     stream_ctxs := [0 \<mapsto> \<lparr>hquic = Some 7, recv_queue = [], queued_bytes = 0, pending_sends = 0, fin_seen = 0\<rparr>],
     callback_ctx := [7 \<mapsto> 0], coming_events := [[Received 7 [[1, 2], [3]]]]\<rparr>\<rparr>"

lemma quic_bytes_in_order_witness:
  "\<exists>sp' t' w'. recv_run 2 (sample_client\<lparr>settings := (settings sample_client)\<lparr>blksize := 2\<rparr>, state := TEST_RUNNING\<rparr>)
       (zero_stream\<lparr>stream_ctx := Some 0, buffer := [0, 0]\<rparr>) quic_reading = Some ([1, 2, 3], sp', t', w')
     \<and> bytes_received (result sp') = 3"
proof -
  let ?t = "sample_client\<lparr>settings := (settings sample_client)\<lparr>blksize := 2\<rparr>, state := TEST_RUNNING\<rparr>"
  let ?sp = "zero_stream\<lparr>stream_ctx := Some 0, buffer := [0, 0]\<rparr>"
  have r: "reads 7 0 [] quic_reading"
    by (auto simp: reads_def quic_reading_def no_quic_def no_fail_def sample_world_def sc_of_def sc_ok_def unread_def)
  obtain sp' t' w' where run: "recv_run 2 ?t ?sp quic_reading = Some ([1, 2, 3], sp', t', w')"
    by (simp add: numeral_2_eq_2 iperf_quic_recv_def quic_await_def quic_lock_def quic_wait.simps quic_reading_def no_quic_def
        sample_world_def sc_of_def with_context_def alloc_def quic_status_def next_reply_def upd_sc_def add_chunk_def shared_defs
        take_block_def quic_over_def sized_def store_def upd_quic_def Let_def zero_stream_def sample_client_def default_simps
        count_received_def upd_result_def zero_result_def)
  have "Peer_stream_started 7 \<notin> set (concat (coming_events (quic_mem quic_reading)))" by (simp add: quic_reading_def)
  from quic_bytes_in_order [OF r _ this run] have "bytes_received (result sp') = 3" by (auto simp: zero_stream_def zero_result_def)
  with run show ?thesis by blast
qed

text \<open>C30. Streams of QUIC are accepted in the order in which they came: what
  iperf_quic_accept returns is an id that no stream had before, iperf_quic_attach_stream finds under this id the
  context of the stream that was first in the queue, and takes it out of the map, so that no other
  stream can get it.\<close>

theorem quic_stream_attached:
  assumes "quic_ctx (quic_mem w) = Some c" "ids_in c" "no_fail w"
    and "iperf_quic_accept t w = Some (n, t', w1)" "0 < n"
    and "iperf_quic_attach_stream t' sp n w1 = Some (r, sp', w')"
  shows "\<exists>a q d. r = 0 \<and> stream_ctx sp' = Some a \<and> quic_ctx (quic_mem w') = Some d
    \<and> accept_queue c @ q = a # accept_queue d \<and> n \<notin> fst ` set (id_map c) \<and> id_map d = id_map c \<and> ids_in d
    \<and> next_stream_id d = n"
proof -
  obtain a q d1 where 1: "quic_ctx (quic_mem w1) = Some d1" "accept_queue c @ q = a # accept_queue d1"
    "id_map d1 = (n, a) # id_map c" "n = next_stream_id c + 1" "next_stream_id d1 = n" "ids_in d1"
    using quic_accept_takes [OF assms(4,5,1,2,3)] by metis
  obtain d q' where 2: "r = 0" "stream_ctx sp' = Some a" "quic_ctx (quic_mem w') = Some d" "id_map d = id_map c"
    "next_stream_id d = next_stream_id d1" "accept_queue d = accept_queue d1 @ q'"
    using quic_attach_finds [OF assms(6) 1(1,3)] by metis
  have "ids_in d" "n \<notin> fst ` set (id_map c)" using 1 2 by (auto simp: ids_in_def)
  moreover have "accept_queue c @ (q @ q') = a # accept_queue d" using 1(2) 2(6) by (metis append.assoc append_Cons)
  ultimately show ?thesis using 1 2 by metis
qed

definition quic_serving :: world where
  "quic_serving = (sample_world [Ret 0 [], Ret 0 [], Ret 0 []])\<lparr>quic_mem := no_quic\<lparr>quic_ctx := Some ((new_context True)\<lparr>accept_queue := [4]\<rparr>),
     next_ctx := 5, coming_events := [[Peer_stream_started 9]]\<rparr>\<rparr>"

lemma quic_stream_attached_witness:
  "\<exists>t' w1 sp' w'. iperf_quic_accept sample_client quic_serving = Some (1, t', w1)
     \<and> iperf_quic_attach_stream t' zero_stream 1 w1 = Some (0, sp', w') \<and> stream_ctx sp' = Some 4"
proof -
  let ?c = "(new_context True)\<lparr>accept_queue := [4]\<rparr>"
  have c: "quic_ctx (quic_mem quic_serving) = Some ?c" "ids_in ?c" "no_fail quic_serving"
    by (simp_all add: quic_serving_def ids_in_def new_context_def no_fail_def sample_world_def)
  note run = quic_serving_def no_quic_def sample_world_def new_context_def quic_lock_def peer_stream_def quic_sc_new_def alloc_def
    quic_status_def next_reply_def accept_enq_def notify_pipe_def accept_deq_def fresh_id_def map_add_def map_take_def
    shared_defs upd_quic_def Let_def
  obtain t' w1 where 1: "iperf_quic_accept sample_client quic_serving = Some (1, t', w1)"
    by (simp add: iperf_quic_accept_def run)
  obtain r sp' w' where 2: "iperf_quic_attach_stream t' zero_stream 1 w1 = Some (r, sp', w')"
    using 1 by (auto simp: iperf_quic_accept_def iperf_quic_attach_stream_def run)
  from quic_stream_attached [OF c 1 _ 2] 1 2 show ?thesis by (auto simp: new_context_def)
qed

text \<open>C31. A client that iperf_quic_connect gives a stream has completed the handshake
  first: among the events msquic reported until then is the one that says the connection is there,
  whatever else was reported and whether or not the wait had a time limit.\<close>

theorem quic_connect_after_handshake:
  assumes "iperf_quic_connect lib t w = Some (n, t', w')" "n \<noteq> -1" "quic_ctx (quic_mem w) = None"
  shows "\<exists>es. coming_events (quic_mem w) = es @ coming_events (quic_mem w') \<and> Connected \<in> set (concat es)"
  using connect_heard [OF assms] by (simp add: heard_def)

definition quic_dialling :: world where
  "quic_dialling = (sample_world (replicate 16 (Ret 3 [])))\<lparr>quic_mem := no_quic\<lparr>coming_events := [[], [Connected]]\<rparr>\<rparr>"

lemma quic_connect_after_handshake_witness:
  "\<exists>lib n t' w'. iperf_quic_connect lib (sample_client\<lparr>server_hostname := Some ''h''\<rparr>) quic_dialling = Some (n, t', w') \<and> n = 1
     \<and> coming_events (quic_mem w') = []"
proof -
  let ?lib = "\<lparr>is_ipv4 = \<lambda>s. True, is_ipv6 = \<lambda>s. False, p12_blob = \<lambda>s. None\<rparr>"
  let ?t = "sample_client\<lparr>server_hostname := Some ''h''\<rparr>"
  obtain t' w' where r: "iperf_quic_connect ?lib ?t quic_dialling = Some (1, t', w')"
    by (simp add: iperf_quic_connect_def quic_ctx_init_def open_api_def open_config_def load_credential_def sys_pipe_def
        set_nonblock_def sys_val_def sys_ok_def open_connection_def quic_handshake_def wait_ready.simps open_stream_def
        quic_handle_def quic_dialling_def no_quic_def sample_world_def new_context_def quic_lock_def quic_sc_new_def alloc_def
        quic_status_def next_reply_def fresh_id_def map_add_def emit_def shared_defs upd_quic_def Let_def
        sample_client_def default_simps numeral_eq_Suc)
  have "quic_ctx (quic_mem quic_dialling) = None" by (simp add: quic_dialling_def no_quic_def)
  from quic_connect_after_handshake [OF r _ this] obtain es where
    "[[], [Connected]] = es @ coming_events (quic_mem w')" "Connected \<in> set (concat es)" by (auto simp: quic_dialling_def)
  then have "coming_events (quic_mem w') = []" by (cases es; cases "tl es") auto
  with r show ?thesis by blast
qed


section \<open>The texts of the errors\<close>

text \<open>C11: iperf_strerror gives two different error codes two different texts, whatever errno, the
  resolver's error and the argument of the option are and whatever strerror and gai_strerror make of
  them, also for codes the switch does not name, and what it gives fits its buffer.\<close>

theorem errors_told_apart:
  assumes "iperf_strerror se gs a e w = Some (s, w')" "iperf_strerror se' gs' b f v = Some (s', v')"
    and "- 2147483648 \<le> e" "e < 2147483648" "- 2147483648 \<le> f" "f < 2147483648"
  shows "(s = s' \<longrightarrow> e = f) \<and> length s \<le> 255"
  using strerror_injective(2) [OF assms(1,1,3,4,3,4)] strerror_injective(1) [OF assms(1) _ assms(3-6)] assms(2)
  by (auto simp: ERRSTR_MAX_def)

lemma errors_told_apart_witness:
  "\<exists>s s' w' v'. iperf_strerror (\<lambda>_. ''Connection refused'') (\<lambda>_. ''unknown host'') None IECONNECT ((sample_world [])\<lparr>errno := 111\<rparr>) = Some (s, w')
     \<and> iperf_strerror (\<lambda>_. ''Connection refused'') (\<lambda>_. ''unknown host'') None 139 ((sample_world [])\<lparr>errno := 111\<rparr>) = Some (s', v')
     \<and> s \<noteq> s'"
proof -
  let ?f = "\<lambda>e. iperf_strerror (\<lambda>_. ''Connection refused'') (\<lambda>_. ''unknown host'') None e ((sample_world [])\<lparr>errno := 111\<rparr>)"
  have "?f IECONNECT \<noteq> None" "?f 139 \<noteq> None" by (simp_all only: strerror_defined) simp_all
  then obtain s w' s' v' where r: "?f IECONNECT = Some (s, w')" "?f 139 = Some (s', v')" by fastforce
  from errors_told_apart [OF r] have "s \<noteq> s'" by simp
  with r show ?thesis by blast
qed


section \<open>The JSON document\<close>

text \<open>C35. With --json-stream and --json-stream-full-output the lines of a test without errors are the event of
  the start, one event for each interval report and the event of the end, and then the document; and what
  the events carry is what the document holds under start, intervals and end, in the same order, with one
  entry for each stream under connected. Each interval report is taken to be a full one, the server's
  output was not asked for, and the printer has memory.\<close>

theorem stream_is_document:
  assumes "list_all2 reports ts ivs" "results_report fstat tf = Some ms"
    and "\<forall>j. print_line p j = Some (f j)" "\<forall>j. print_pretty p j = Some (g j)"
    and "json_output t0 \<noteq> 0" "json_stream t0 \<noteq> 0" "json_stream tf \<noteq> 0" "json_stream_full_output tf \<noteq> 0"
    and "json_server_output l = None" "server_output_text l = None"
  shows "\<exists>start doc. log_test p fstat report js t0 ts tf l = Some (0, no_log l,
       [f (stream_event ''start'' (Some start))] @ map (\<lambda>j. f (stream_event ''interval'' (Some j))) ivs
       @ [f (stream_event ''end'' (Some (JObject ms))), g doc])
     \<and> json_at [''start''] doc = Some start \<and> json_at [''start'', ''connected''] doc = Some (JArray js)
     \<and> json_at [''intervals''] doc = Some (JArray ivs) \<and> json_at [''end''] doc = Some (JObject ms)"
proof -
  have p: "\<And>j. print_line p j = Some (f j)" "\<And>j. print_pretty p j = Some (g j)" using assms(3,4) by simp_all
  from log_test_streams [OF assms(1,2) p assms(5-10)] show ?thesis by metis
qed

lemma stream_is_document_witness:
  "\<exists>l. log_test \<lparr>print_line = \<lambda>j. Some ''event'', print_pretty = \<lambda>j. Some ''document''\<rparr> (\<lambda>_. None) [] [JNull]
       (summed_test\<lparr>json_output := 1, json_stream := 1, json_stream_full_output := 1\<rparr>) []
       (summed_test\<lparr>json_output := 1, json_stream := 1, json_stream_full_output := 1\<rparr>)
       \<lparr>json_top = False, start_part = None, connected_part = None, intervals_part = None, end_part = None,
         top_members = [], json_server_output = None, server_output_text = None\<rparr>
     = Some (0, l, [''event'', ''event'', ''document''])"
proof -
  let ?t = "summed_test\<lparr>json_output := 1, json_stream := 1, json_stream_full_output := 1\<rparr>"
  have "stream_protocol ?t" by (simp add: stream_protocol_def summed_test_def sample_client_def default_simps)
  then obtain ms where ms: "results_report (\<lambda>_. None) ?t = Some ms" using results_report_defined by blast
  have i: "list_all2 reports [] []" by simp
  have f: "\<forall>j. print_line \<lparr>print_line = \<lambda>j. Some ''event'', print_pretty = \<lambda>j. Some ''document''\<rparr> j = Some ((\<lambda>j. ''event'') j)" by simp
  have g: "\<forall>j. print_pretty \<lparr>print_line = \<lambda>j. Some ''event'', print_pretty = \<lambda>j. Some ''document''\<rparr> j = Some ((\<lambda>j. ''document'') j)" by simp
  from stream_is_document [OF i ms f g, of ?t "\<lparr>json_top = False, start_part = None, connected_part = None, intervals_part = None,
      end_part = None, top_members = [], json_server_output = None, server_output_text = None\<rparr>" "[]" "[JNull]"]
  show ?thesis by auto
qed


section \<open>The output of the server\<close>

text \<open>C36. A client that asked for the output of the server (--get-server-output) gets with
  the results exactly the text the server has printed since the test began, the lines in order, each as it
  was cut for the server's own output; with -J it gets the server's document in its place.\<close>

theorem server_output_reaches_client:
  assumes "print_all xs srv out = (srv', out')" "role srv = CHR ''s''" "get_server_output srv \<noteq> 0" "server_output_list srv = []"
    and "role c = CHR ''c''" "get_server_output c \<noteq> 0"
  shows "\<exists>shown. out' = out @ shown \<and> take_server_output (results_json jt srv') c l
    = (if json_output srv = 0 then l\<lparr>server_output_text := Some shown\<rparr> else l\<lparr>json_server_output := Some jt\<rparr>)"
  by (rule server_output_taken [OF assms])

lemma server_output_reaches_client_witness:
  "\<forall>l. \<exists>srv' l'. print_all [([], ''hello ''), ([], ''client'')] (sample_server\<lparr>get_server_output := 1\<rparr>) [] = (srv', ''hello client'')
     \<and> take_server_output (results_json JNull srv') (sample_client\<lparr>get_server_output := 1\<rparr>) l = l'
     \<and> server_output_text l' = Some ''hello client''"
proof
  fix l
  let ?s = "sample_server\<lparr>get_server_output := 1\<rparr>" and ?c = "sample_client\<lparr>get_server_output := 1\<rparr>"
  have s: "role ?s = CHR ''s''" "get_server_output ?s \<noteq> 0" "server_output_list ?s = []" "json_output ?s = 0"
    "role ?c = CHR ''c''" "get_server_output ?c \<noteq> 0" "timestamps ?s = 0"
    by (simp_all add: sample_server_def sample_client_def default_simps)
  obtain srv' where p: "print_all [([], ''hello ''), ([], ''client'')] ?s [] = (srv', ''hello client'')"
    using s by (simp add: iperf_printf_def server_line_def LINE_MAX_def Let_def)
  from server_output_reaches_client [OF p s(1-3,5,6), of JNull l] s(4) p
  show "\<exists>srv' l'. print_all [([], ''hello ''), ([], ''client'')] ?s [] = (srv', ''hello client'')
     \<and> take_server_output (results_json JNull srv') ?c l = l' \<and> server_output_text l' = Some ''hello client''" by auto
qed

end
